(* ===== verification/Prelude.thy ===== *)
theory Prelude
  imports Main "HOL-Library.Word" "HOL-Library.List_Lexorder"
begin

text \<open>
  Shared vocabulary of the development: machine integers and their checked and
  saturating operations as Rust's standard library defines them, \<open>Result\<close> as a sum
  with the \<open>?\<close> operator as \<open>and_then\<close>, the same for operations on a mutable
  receiver (\<open>st_then\<close>), and a few list lemmas. The collections \<open>result_simps\<close>
  and \<open>arith_simps\<close> carry the component proofs.
\<close>

named_theorems result_simps \<open>unfolding and inversion of result-valued code\<close>
named_theorems arith_simps \<open>reading checked and saturating word operations on nat\<close>

section \<open>Machine integers\<close>

type_synonym u8 = "8 word"
type_synonym u16 = "16 word"
type_synonym u32 = "32 word"
type_synonym u64 = "64 word"
type_synonym bytes = "8 word list"

definition checked_add :: "'n::len word \<Rightarrow> 'n word \<Rightarrow> 'n word option" where
  "checked_add a b = (if unat a + unat b < 2 ^ LENGTH('n) then Some (a + b) else None)"

definition checked_sub :: "'n::len word \<Rightarrow> 'n word \<Rightarrow> 'n word option" where
  "checked_sub a b = (if b \<le> a then Some (a - b) else None)"

definition saturating_add :: "'n::len word \<Rightarrow> 'n word \<Rightarrow> 'n word" where
  "saturating_add a b = (if unat a + unat b < 2 ^ LENGTH('n) then a + b else - 1)"

definition saturating_sub :: "'n::len word \<Rightarrow> 'n word \<Rightarrow> 'n word" where
  "saturating_sub a b = (if b \<le> a then a - b else 0)"

lemma unat_lt2p: "unat (x :: 'n::len word) < 2 ^ LENGTH('n)"
  by (rule unsigned_less)

lemma unat_add_less:
  fixes a b :: "'n::len word"
  assumes "unat a + unat b < 2 ^ LENGTH('n)"
  shows "unat (a + b) = unat a + unat b"
  using assms by (simp add: unat_word_ariths)

lemma unat_u8_less: "unat (x :: u8) < 256"
  using unat_lt2p [of x] by simp

lemma unat_u64_less: "unat (x :: u64) < 18446744073709551616"
  using unat_lt2p [of x] by simp

lemma checked_add_Some [arith_simps]:
  fixes a b :: "'n::len word"
  shows "checked_add a b = Some c \<longleftrightarrow> unat a + unat b < 2 ^ LENGTH('n) \<and> c = a + b"
  by (auto simp: checked_add_def)

lemma checked_add_None [arith_simps]:
  fixes a b :: "'n::len word"
  shows "checked_add a b = None \<longleftrightarrow> 2 ^ LENGTH('n) \<le> unat a + unat b"
  by (auto simp: checked_add_def)

text \<open>Evaluation compares words instead of building the bound on \<open>nat\<close>.\<close>

lemma add_fits_iff:
  fixes a b :: "'n::len word"
  shows "unat a + unat b < 2 ^ LENGTH('n) \<longleftrightarrow> a \<le> a + b"
proof
  assume "unat a + unat b < 2 ^ LENGTH('n)"
  then show "a \<le> a + b" by (simp add: word_le_nat_alt unat_add_less)
next
  assume le: "a \<le> a + b"
  show "unat a + unat b < 2 ^ LENGTH('n)"
  proof (rule ccontr)
    assume over: "\<not> ?thesis"
    have m: "unat (a + b) = (unat a + unat b) mod 2 ^ LENGTH('n)"
      by (rule unat_word_ariths)
    have ab: "unat a < 2 ^ LENGTH('n)" "unat b < 2 ^ LENGTH('n)"
      by (rule unsigned_less)+
    have lt: "unat a + unat b - 2 ^ LENGTH('n) < 2 ^ LENGTH('n)"
      using ab over by linarith
    have "(unat a + unat b) mod 2 ^ LENGTH('n) = unat a + unat b - 2 ^ LENGTH('n)"
      using over lt by (simp add: le_mod_geq)
    then have "unat (a + b) < unat a" using m ab over by linarith
    with le show False by (simp add: word_le_nat_alt)
  qed
qed

lemma checked_add_code [code]: "checked_add a b = (if a \<le> a + b then Some (a + b) else None)"
  by (simp add: checked_add_def add_fits_iff)

lemma saturating_add_code [code]: "saturating_add a b = (if a \<le> a + b then a + b else - 1)"
  by (simp add: saturating_add_def add_fits_iff)

lemma checked_add_unat:
  fixes a b :: "'n::len word"
  shows "checked_add a b = Some c \<Longrightarrow> unat c = unat a + unat b"
  by (auto simp: arith_simps unat_add_less)

lemma checked_sub_Some [arith_simps]:
  "checked_sub a b = Some c \<longleftrightarrow> b \<le> a \<and> c = a - b"
  by (auto simp: checked_sub_def)

lemma checked_sub_None [arith_simps]: "checked_sub a b = None \<longleftrightarrow> a < b"
  by (auto simp: checked_sub_def)

lemma unat_sub_le: "b \<le> a \<Longrightarrow> unat (a - b) = unat a - unat b"
  by (simp add: unat_sub)

lemma unat_max_word_minus_one: "unat (- 1 :: 'n::len word) = 2 ^ LENGTH('n) - 1"
  by (simp add: unsigned_minus_1_eq_mask mask_eq_exp_minus_1)

lemma unat_saturating_add:
  fixes a b :: "'n::len word"
  shows "unat (saturating_add a b) = min (unat a + unat b) (2 ^ LENGTH('n) - 1)"
proof (cases "unat a + unat b < 2 ^ LENGTH('n)")
  case True
  then show ?thesis by (simp add: saturating_add_def unat_add_less)
next
  case False
  then show ?thesis by (simp add: saturating_add_def unat_max_word_minus_one)
qed

lemma unat_saturating_sub: "unat (saturating_sub a b) = unat a - unat b"
proof (cases "b \<le> a")
  case True
  then show ?thesis by (simp add: saturating_sub_def unat_sub)
next
  case False
  then have "unat a < unat b" by (simp add: word_less_nat_alt not_le)
  with False show ?thesis by (simp add: saturating_sub_def)
qed

text \<open>\<open>u64::to_le_bytes\<close>: byte \<open>i\<close> holds bits \<open>8 i\<close> to \<open>8 i + 7\<close>.\<close>

definition u64_to_le_bytes :: "u64 \<Rightarrow> bytes" where
  "u64_to_le_bytes w = map (\<lambda>i. ucast (drop_bit (8 * i) w)) [0..<8]"

definition u64_to_be_bytes :: "u64 \<Rightarrow> bytes" where
  "u64_to_be_bytes w = rev (u64_to_le_bytes w)"

definition u32_to_be_bytes :: "u32 \<Rightarrow> bytes" where
  "u32_to_be_bytes w = rev (map (\<lambda>i. ucast (drop_bit (8 * i) w)) [0..<4])"

section \<open>Results\<close>

text \<open>\<open>Result<T, E>\<close> is \<open>'e + 'a\<close>: \<open>Inl\<close> is \<open>Err\<close>, \<open>Inr\<close> is \<open>Ok\<close>.\<close>

definition and_then :: "'e + 'a \<Rightarrow> ('a \<Rightarrow> 'e + 'b) \<Rightarrow> 'e + 'b" where
  "and_then r k = (case r of Inl e \<Rightarrow> Inl e | Inr x \<Rightarrow> k x)"

definition ok_or :: "'a option \<Rightarrow> 'e \<Rightarrow> 'e + 'a" where
  "ok_or x e = (case x of None \<Rightarrow> Inl e | Some y \<Rightarrow> Inr y)"

definition map_err :: "('e \<Rightarrow> 'f) \<Rightarrow> 'e + 'a \<Rightarrow> 'f + 'a" where
  "map_err f r = (case r of Inl e \<Rightarrow> Inl (f e) | Inr x \<Rightarrow> Inr x)"

definition is_ok :: "'e + 'a \<Rightarrow> bool" where
  "is_ok r = (case r of Inl _ \<Rightarrow> False | Inr _ \<Rightarrow> True)"

lemma and_then_simps [simp]:
  "and_then (Inl e) k = Inl e" "and_then (Inr x) k = k x"
  by (simp_all add: and_then_def)

lemma and_then_eq_Inr [result_simps]:
  "and_then r k = Inr y \<longleftrightarrow> (\<exists>x. r = Inr x \<and> k x = Inr y)"
  by (cases r) auto

lemma and_then_eq_Inl [result_simps]:
  "and_then r k = Inl e \<longleftrightarrow> r = Inl e \<or> (\<exists>x. r = Inr x \<and> k x = Inl e)"
  by (cases r) auto

lemma ok_or_simps [simp]: "ok_or None e = Inl e" "ok_or (Some x) e = Inr x"
  by (simp_all add: ok_or_def)

lemma ok_or_eq_Inr [result_simps]: "ok_or x e = Inr y \<longleftrightarrow> x = Some y"
  by (cases x) auto

lemma ok_or_eq_Inl [result_simps]: "ok_or x e = Inl f \<longleftrightarrow> x = None \<and> f = e"
  by (cases x) auto

lemma map_err_simps [simp]: "map_err f (Inl e) = Inl (f e)" "map_err f (Inr x) = Inr x"
  by (simp_all add: map_err_def)

lemma map_err_eq_Inr [result_simps]: "map_err f r = Inr x \<longleftrightarrow> r = Inr x"
  by (cases r) auto

lemma is_ok_simps [simp]: "is_ok (Inl e) = False" "is_ok (Inr x) = True"
  by (simp_all add: is_ok_def)

lemma is_ok_iff: "is_ok r \<longleftrightarrow> (\<exists>x. r = Inr x)"
  by (cases r) auto

lemma and_then_unit: "and_then r (\<lambda>_. Inr ()) = Inr () \<longleftrightarrow> is_ok r"
  by (cases r) auto

text \<open>A method on \<open>&mut self\<close> returns the receiver as it leaves it, also on error.\<close>

definition st_then ::
  "'s \<times> ('e + 'a) \<Rightarrow> ('s \<Rightarrow> 'a \<Rightarrow> 's \<times> ('e + 'b)) \<Rightarrow> 's \<times> ('e + 'b)" where
  "st_then p k = (case p of (s, Inl e) \<Rightarrow> (s, Inl e) | (s, Inr x) \<Rightarrow> k s x)"

lemma st_then_simps [simp]:
  "st_then (s, Inl e) k = (s, Inl e)" "st_then (s, Inr x) k = k s x"
  by (simp_all add: st_then_def)

lemma st_then_eq_Inr [result_simps]:
  "st_then p k = (s', Inr y) \<longleftrightarrow> (\<exists>s x. p = (s, Inr x) \<and> k s x = (s', Inr y))"
  by (cases p; cases "snd p") auto

text \<open>A loop that applies a fallible check to each element and stops at the first error.\<close>

fun check_all :: "('a \<Rightarrow> 'e + unit) \<Rightarrow> 'a list \<Rightarrow> 'e + unit" where
  "check_all f [] = Inr ()"
| "check_all f (x # xs) = and_then (f x) (\<lambda>_. check_all f xs)"

lemma check_all_ok: "check_all f xs = Inr u \<longleftrightarrow> (\<forall>x \<in> set xs. f x = Inr ())"
  by (induction xs) (auto simp: result_simps)

text \<open>\<open>collect::<Result<Vec<_>, _>>\<close> over an iterator of results.\<close>

fun collect_results :: "('a \<Rightarrow> 'e + 'b) \<Rightarrow> 'a list \<Rightarrow> 'e + 'b list" where
  "collect_results f [] = Inr []"
| "collect_results f (x # xs) =
     and_then (f x) (\<lambda>y. and_then (collect_results f xs) (\<lambda>ys. Inr (y # ys)))"

lemma collect_results_ok:
  "collect_results f xs = Inr ys \<longleftrightarrow> list_all2 (\<lambda>x y. f x = Inr y) xs ys"
  by (induction xs arbitrary: ys) (auto simp: result_simps list_all2_Cons1)

section \<open>Machines whose failing operations change nothing\<close>

text \<open>Running a list of inputs, stopping at the first error.\<close>

fun run_all :: "('s \<Rightarrow> 'i \<Rightarrow> 's \<times> ('e + 'o)) \<Rightarrow> 's \<Rightarrow> 'i list \<Rightarrow> 's \<times> ('e + 'o list)" where
  "run_all step s [] = (s, Inr [])"
| "run_all step s (i # is) =
     st_then (step s i) (\<lambda>s1 x. st_then (run_all step s1 is) (\<lambda>s2 xs. (s2, Inr (x # xs))))"

text \<open>
  The contract several operations share: success keeps an invariant, failure is atomic.
\<close>

locale atomic_machine =
  fixes step :: "'s \<Rightarrow> 'i \<Rightarrow> 's \<times> ('e + 'o)" and inv :: "'s \<Rightarrow> bool"
  assumes step_inv: "inv s \<Longrightarrow> step s i = (s', Inr x) \<Longrightarrow> inv s'"
    and step_atomic: "step s i = (s', Inl e) \<Longrightarrow> s' = s"
begin

lemma always_inv: "inv s \<Longrightarrow> inv (fst (step s i))"
  by (cases "step s i"; cases "snd (step s i)") (auto dest: step_inv step_atomic)

lemma run_inv: "inv s \<Longrightarrow> run_all step s is = (s', r) \<Longrightarrow> inv s'"
proof (induction "is" arbitrary: s s' r)
  case (Cons i "is")
  show ?case
  proof (cases "step s i")
    case (Pair s1 q)
    then have "inv s1" using Cons.prems(1) always_inv [of s i] by simp
    with Cons Pair show ?thesis
      by (cases q; cases "run_all step s1 is"; cases "snd (run_all step s1 is)") (auto simp: st_then_def)
  qed
qed simp

text \<open>A relation that single successful steps respect holds along a run.\<close>

lemma run_rel:
  assumes refl: "\<And>s. R s s" and trans: "\<And>a b c. R a b \<Longrightarrow> R b c \<Longrightarrow> R a c"
    and step: "\<And>s i s' x. step s i = (s', Inr x) \<Longrightarrow> R s s'"
  shows "run_all step s is = (s', r) \<Longrightarrow> R s s'"
proof (induction "is" arbitrary: s s' r)
  case (Cons i "is")
  show ?case
  proof (cases "step s i")
    case (Pair s1 q)
    show ?thesis
    proof (cases q)
      case (Inl e)
      with Pair Cons.prems step_atomic [of s i s1 e] refl show ?thesis by simp
    next
      case (Inr x)
      obtain s2 q2 where r2: "run_all step s1 is = (s2, q2)" by fastforce
      then have "R s1 s2" by (rule Cons.IH)
      moreover have "s2 = s'" using Pair Inr r2 Cons.prems by (cases q2) auto
      ultimately show ?thesis using step [of s i s1 x] trans Pair Inr by blast
    qed
  qed
qed (simp add: refl)

end

section \<open>Lists\<close>

lemma distinct_insert_length:
  "distinct xs \<Longrightarrow> set xs \<subseteq> A \<Longrightarrow> finite A \<Longrightarrow> length xs \<le> card A"
  by (metis card_mono distinct_card)

lemma card_Int_ge:
  assumes "finite U" "A \<subseteq> U" "B \<subseteq> U"
  shows "card A + card B \<le> card U + card (A \<inter> B)"
proof -
  have "card A + card B = card (A \<union> B) + card (A \<inter> B)"
    using assms by (meson card_Un_Int finite_subset)
  also have "card (A \<union> B) \<le> card U"
    using assms by (intro card_mono) auto
  finally show ?thesis by simp
qed

end
