(* ===== verification/BTree.thy ===== *)
theory BTree
  imports Prelude
begin

text \<open>
  \<open>BTreeMap<K, V>\<close> and \<open>BTreeSet<K>\<close> of Rust's standard library, as the code uses
  them: association lists in strictly increasing key order, so that iteration order,
  \<open>len\<close> and equality of maps are those of the list. The locale \<open>ordered_map\<close> is the
  interface its clients rely on; it is interpreted on these operations.
\<close>

section \<open>Operations\<close>

type_synonym ('k, 'v) btree_map = "('k \<times> 'v) list"

definition bt_get :: "('k, 'v) btree_map \<Rightarrow> 'k \<Rightarrow> 'v option" where
  "bt_get m k = map_of m k"

fun bt_insert :: "'k::linorder \<Rightarrow> 'v \<Rightarrow> ('k, 'v) btree_map \<Rightarrow> ('k, 'v) btree_map" where
  "bt_insert k v [] = [(k, v)]"
| "bt_insert k v ((k', v') # m) =
     (if k < k' then (k, v) # (k', v') # m
      else if k = k' then (k, v) # m
      else (k', v') # bt_insert k v m)"

definition bt_remove :: "'k \<Rightarrow> ('k, 'v) btree_map \<Rightarrow> ('k, 'v) btree_map" where
  "bt_remove k m = filter (\<lambda>(k', _). k' \<noteq> k) m"

definition bt_retain :: "('k \<Rightarrow> bool) \<Rightarrow> ('k, 'v) btree_map \<Rightarrow> ('k, 'v) btree_map" where
  "bt_retain P m = filter (\<lambda>(k, _). P k) m"

definition bt_keys :: "('k, 'v) btree_map \<Rightarrow> 'k list" where
  "bt_keys m = map fst m"

definition bt_values :: "('k, 'v) btree_map \<Rightarrow> 'v list" where
  "bt_values m = map snd m"

definition bt_wf :: "('k::linorder, 'v) btree_map \<Rightarrow> bool" where
  "bt_wf m \<longleftrightarrow> sorted_wrt (<) (map fst m)"

text \<open>\<open>BTreeSet::insert\<close> on an increasing list of elements.\<close>

definition bset_insert :: "'k::linorder \<Rightarrow> 'k list \<Rightarrow> 'k list" where
  "bset_insert k s = insort_insert k s"

definition bset_of :: "'k::linorder list \<Rightarrow> 'k list" where
  "bset_of xs = fold bset_insert xs []"

section \<open>Lookup laws\<close>

lemma bt_get_Nil [simp]: "bt_get [] k = None"
  by (simp add: bt_get_def)

lemma bt_get_insert [simp]: "bt_get (bt_insert k v m) x = (if x = k then Some v else bt_get m x)"
  unfolding bt_get_def by (induction k v m rule: bt_insert.induct) auto

lemma bt_get_remove [simp]: "bt_get (bt_remove k m) x = (if x = k then None else bt_get m x)"
  unfolding bt_get_def bt_remove_def by (induction m) auto

lemma bt_get_retain [simp]: "bt_get (bt_retain P m) x = (if P x then bt_get m x else None)"
  unfolding bt_get_def bt_retain_def by (induction m) auto

lemma set_bt_insert: "set (bt_insert k v m) \<subseteq> insert (k, v) (set m)"
  by (induction k v m rule: bt_insert.induct) auto

lemma keys_bt_insert [simp]: "fst ` set (bt_insert k v m) = insert k (fst ` set m)"
  by (induction k v m rule: bt_insert.induct) auto

lemma bt_get_in_set: "bt_get m k = Some v \<Longrightarrow> (k, v) \<in> set m"
  by (simp add: bt_get_def map_of_SomeD)

lemma bt_get_None: "bt_get m k = None \<longleftrightarrow> k \<notin> fst ` set m"
  by (simp add: bt_get_def map_of_eq_None_iff)

lemma bt_get_dom: "k \<in> fst ` set m \<longleftrightarrow> (\<exists>v. bt_get m k = Some v)"
  by (metis bt_get_None not_None_eq)

section \<open>Order invariant\<close>

lemma bt_wf_Nil [simp]: "bt_wf []"
  by (simp add: bt_wf_def)

lemma bt_wf_Cons: "bt_wf ((k, v) # m) \<longleftrightarrow> (\<forall>k' \<in> fst ` set m. k < k') \<and> bt_wf m"
  by (auto simp: bt_wf_def)

lemma bt_wf_insert [simp]: "bt_wf m \<Longrightarrow> bt_wf (bt_insert k v m)"
  by (induction k v m rule: bt_insert.induct) (auto simp: bt_wf_Cons)

lemma bt_wf_filter: "bt_wf m \<Longrightarrow> bt_wf (filter P m)"
  by (simp add: bt_wf_def sorted_wrt_filter sorted_wrt_map)

lemma bt_wf_remove [simp]: "bt_wf m \<Longrightarrow> bt_wf (bt_remove k m)"
  by (simp add: bt_remove_def bt_wf_filter)

lemma bt_wf_retain [simp]: "bt_wf m \<Longrightarrow> bt_wf (bt_retain P m)"
  by (simp add: bt_retain_def bt_wf_filter)

lemma bt_wf_distinct: "bt_wf m \<Longrightarrow> distinct (map fst m)"
  unfolding bt_wf_def using strict_sorted_iff by blast

lemma bt_get_iff: "bt_wf m \<Longrightarrow> bt_get m k = Some v \<longleftrightarrow> (k, v) \<in> set m"
  by (simp add: bt_get_def bt_wf_distinct)

text \<open>Two ordered maps with the same lookups are the same list: equality is extensional.\<close>

lemma bt_ext:
  assumes "bt_wf m" "bt_wf n" "\<And>k. bt_get m k = bt_get n k"
  shows "m = n"
proof (rule map_sorted_distinct_set_unique [where f = fst])
  have ds: "distinct (map fst m)" "distinct (map fst n)"
    using assms(1,2) by (auto dest: bt_wf_distinct)
  show s: "set m = set n"
    using assms by (auto simp: bt_get_iff [symmetric])
  show "inj_on fst (set m \<union> set n)"
    using ds s by (simp add: distinct_map)
  show "sorted (map fst m)" "sorted (map fst n)"
    using assms(1,2) by (auto simp: bt_wf_def strict_sorted_iff)
  show "distinct (map fst m)" "distinct (map fst n)" by (fact ds)+
qed

section \<open>Sums over the values\<close>

definition bt_sum :: "('v \<Rightarrow> nat) \<Rightarrow> ('k, 'v) btree_map \<Rightarrow> nat" where
  "bt_sum f m = sum_list (map (f \<circ> snd) m)"

lemma bt_sum_Nil [simp]: "bt_sum f [] = 0"
  by (simp add: bt_sum_def)

lemma bt_sum_insert:
  assumes "bt_wf m"
  shows "bt_sum f (bt_insert k v m) + (case bt_get m k of None \<Rightarrow> 0 | Some w \<Rightarrow> f w)
       = bt_sum f m + f v"
  using assms
proof (induction k v m rule: bt_insert.induct)
  case (1 k v)
  then show ?case by (simp add: bt_sum_def)
next
  case (2 k v k' v' m)
  have "k < k' \<Longrightarrow> bt_get ((k', v') # m) k = None"
    using "2.prems" by (auto simp: bt_get_None bt_wf_Cons)
  then show ?case
    using 2 by (auto simp: bt_sum_def bt_wf_Cons bt_get_def add.commute add.left_commute)
qed

lemma bt_sum_ge: "bt_get m k = Some v \<Longrightarrow> f v \<le> bt_sum f m"
  using member_le_sum_list [of "f v" "map (f \<circ> snd) m"]
  by (force simp: bt_sum_def dest: bt_get_in_set)

section \<open>Interface\<close>

text \<open>
  What a client of an ordered map relies on: lookup laws and the order invariant. The
  client lemmas are proved once here.
\<close>

locale ordered_map =
  fixes empty :: "'m"
    and insert :: "'k \<Rightarrow> 'v \<Rightarrow> 'm \<Rightarrow> 'm"
    and get :: "'m \<Rightarrow> 'k \<Rightarrow> 'v option"
    and invar :: "'m \<Rightarrow> bool"
    and total :: "('v \<Rightarrow> nat) \<Rightarrow> 'm \<Rightarrow> nat"
  assumes get_empty: "get empty k = None"
    and get_insert: "get (insert k v m) x = (if x = k then Some v else get m x)"
    and invar_empty: "invar empty"
    and invar_insert: "invar m \<Longrightarrow> invar (insert k v m)"
    and total_empty: "total f empty = 0"
    and total_insert: "invar m \<Longrightarrow>
      total f (insert k v m) + (case get m k of None \<Rightarrow> 0 | Some w \<Rightarrow> f w) = total f m + f v"
begin

text \<open>Reading a key through a default, as \<open>unwrap_or_default\<close> does.\<close>

lemma total_insert_default:
  assumes "invar m" and "f d = 0"
  shows "total f (insert k v m) + f (case get m k of None \<Rightarrow> d | Some w \<Rightarrow> w) = total f m + f v"
  using total_insert[OF assms(1), of f k v] assms(2) by (simp split: option.splits)

lemma total_insert_same:
  assumes "invar m" and "f d = 0" and "f v = f (case get m k of None \<Rightarrow> d | Some w \<Rightarrow> w)"
  shows "total f (insert k v m) = total f m"
  using total_insert_default [where m = m and f = f and d = d and k = k and v = v] assms by simp

text \<open>Moving \<open>x\<close> from one key to another keeps the total.\<close>

lemma total_move:
  assumes inv: "invar m" and d: "f d = 0" and ne: "a \<noteq> b"
    and va: "f va + x = f (case get m a of None \<Rightarrow> d | Some w \<Rightarrow> w)"
    and vb: "f vb = f (case get m b of None \<Rightarrow> d | Some w \<Rightarrow> w) + x"
  shows "total f (insert a va (insert b vb m)) = total f m"
proof -
  have 1: "total f (insert b vb m) = total f m + x"
    using total_insert_default [where m = m and f = f and d = d and k = b and v = vb] inv d vb by simp
  have "get (insert b vb m) a = get m a" using ne by (simp add: get_insert)
  with total_insert_default [where m = "insert b vb m" and f = f and d = d and k = a and v = va] inv d va 1
  show ?thesis by (simp add: invar_insert)
qed

end

interpretation bt: ordered_map "[]" bt_insert bt_get bt_wf bt_sum
  by unfold_locales (auto simp: bt_sum_insert)

section \<open>Ordered sets\<close>

lemma set_bset_insert [simp]: "set (bset_insert k s) = insert k (set s)"
  by (simp add: bset_insert_def set_insort_insert)

lemma bset_insert_sorted [simp]: "sorted s \<Longrightarrow> sorted (bset_insert k s)"
  by (simp add: bset_insert_def sorted_insort_insert)

lemma bset_insert_distinct [simp]: "distinct s \<Longrightarrow> distinct (bset_insert k s)"
  by (simp add: bset_insert_def distinct_insort_insert)

lemma length_bset_insert: "x \<notin> set s \<Longrightarrow> length (bset_insert x s) = Suc (length s)"
  by (simp add: bset_insert_def insort_insert_key_def)

lemma bset_of_invariants: "sorted (bset_of xs) \<and> distinct (bset_of xs) \<and> set (bset_of xs) = set xs"
proof -
  have "sorted s \<Longrightarrow> distinct s \<Longrightarrow>
      sorted (fold bset_insert xs s) \<and> distinct (fold bset_insert xs s) \<and>
      set (fold bset_insert xs s) = set xs \<union> set s" for s
    by (induction xs arbitrary: s) auto
  from this[of "[]"] show ?thesis by (simp add: bset_of_def)
qed

lemma set_bset_of [simp]: "set (bset_of xs) = set xs"
  by (simp add: bset_of_invariants)

lemma length_bset_of: "length (bset_of xs) = card (set xs)"
  using bset_of_invariants[of xs] by (metis distinct_card)

end
