(* ===== verification/RustString.thy ===== *)
theory RustString
  imports Prelude
begin

text \<open>
  Rust's \<open>String\<close> as a list of Unicode scalar values, with the standard-library
  operations the protocol uses: \<open>as_bytes\<close> and \<open>len\<close> (UTF-8), \<open>chars().count()\<close>,
  \<open>trim\<close>, \<open>char::is_control\<close> and the ASCII classes of bytes. ASCII literals are written
  with \<open>str\<close>.
\<close>

type_synonym rchar = nat
type_synonym rstring = "nat list"

definition str :: "string \<Rightarrow> rstring" where
  "str s = map of_char s"

definition ascii_bytes :: "string \<Rightarrow> bytes" where
  "ascii_bytes s = map of_char s"

definition utf8_char :: "rchar \<Rightarrow> bytes" where
  "utf8_char c =
     (if c < 128 then [of_nat c]
      else if c < 2048 then [of_nat (192 + c div 64), of_nat (128 + c mod 64)]
      else if c < 65536 then
        [of_nat (224 + c div 4096), of_nat (128 + c div 64 mod 64), of_nat (128 + c mod 64)]
      else
        [of_nat (240 + c div 262144), of_nat (128 + c div 4096 mod 64),
         of_nat (128 + c div 64 mod 64), of_nat (128 + c mod 64)])"

definition str_bytes :: "rstring \<Rightarrow> bytes" where
  "str_bytes s = concat (map utf8_char s)"

definition str_len :: "rstring \<Rightarrow> nat" where
  "str_len s = length (str_bytes s)"

text \<open>The Unicode property \<open>White_Space\<close>, by which \<open>str::trim\<close> strips.\<close>

definition is_whitespace :: "rchar \<Rightarrow> bool" where
  "is_whitespace c \<longleftrightarrow>
     9 \<le> c \<and> c \<le> 13 \<or> c = 32 \<or> c = 133 \<or> c = 160 \<or> c = 5760 \<or> 8192 \<le> c \<and> c \<le> 8202 \<or>
     c = 8232 \<or> c = 8233 \<or> c = 8239 \<or> c = 8287 \<or> c = 12288"

text \<open>The general category \<open>Cc\<close>.\<close>

definition is_control :: "rchar \<Rightarrow> bool" where
  "is_control c \<longleftrightarrow> c \<le> 31 \<or> 127 \<le> c \<and> c \<le> 159"

definition str_trim :: "rstring \<Rightarrow> rstring" where
  "str_trim s = rev (dropWhile is_whitespace (rev (dropWhile is_whitespace s)))"

definition is_ascii_alphanumeric :: "u8 \<Rightarrow> bool" where
  "is_ascii_alphanumeric b \<longleftrightarrow> 48 \<le> b \<and> b \<le> 57 \<or> 65 \<le> b \<and> b \<le> 90 \<or> 97 \<le> b \<and> b \<le> 122"

definition is_ascii_hexdigit :: "u8 \<Rightarrow> bool" where
  "is_ascii_hexdigit b \<longleftrightarrow> 48 \<le> b \<and> b \<le> 57 \<or> 65 \<le> b \<and> b \<le> 70 \<or> 97 \<le> b \<and> b \<le> 102"

lemma str_bytes_Nil [simp]: "str_bytes [] = []"
  by (simp add: str_bytes_def)

lemma utf8_char_nonempty [simp]: "utf8_char c \<noteq> []"
  by (simp add: utf8_char_def)

lemma str_bytes_eq_Nil [simp]: "str_bytes s = [] \<longleftrightarrow> s = []"
  by (cases s) (auto simp: str_bytes_def)

lemma length_le_str_len: "length s \<le> str_len s"
proof (induction s)
  case (Cons c s)
  then show ?case
    by (cases "utf8_char c") (simp_all add: str_len_def str_bytes_def)
qed (simp add: str_len_def)

text \<open>Trimming leaves a string alone exactly when neither end is white space.\<close>

lemma dropWhile_id_iff: "dropWhile P xs = xs \<longleftrightarrow> xs = [] \<or> \<not> P (hd xs)"
proof (cases xs)
  case (Cons a list)
  have "dropWhile P list \<noteq> a # list"
    by (metis impossible_Cons length_dropWhile_le)
  with Cons show ?thesis by auto
qed simp

lemma str_trim_id_iff:
  "str_trim s = s \<longleftrightarrow> s = [] \<or> \<not> is_whitespace (hd s) \<and> \<not> is_whitespace (last s)"
proof
  assume t: "str_trim s = s"
  have "length s \<le> length (dropWhile is_whitespace s)"
    using length_dropWhile_le [of is_whitespace "rev (dropWhile is_whitespace s)"]
    by (subst t [symmetric]) (simp add: str_trim_def)
  then have "dropWhile is_whitespace s = s"
    by (metis append_eq_conv_conj length_append le_add2 le_antisym length_dropWhile_le
        takeWhile_dropWhile_id append_Nil length_0_conv add_cancel_left_left)
  moreover from this t have "dropWhile is_whitespace (rev s) = rev s"
    by (simp add: str_trim_def rev_swap)
  ultimately show "s = [] \<or> \<not> is_whitespace (hd s) \<and> \<not> is_whitespace (last s)"
    by (auto simp: dropWhile_id_iff hd_rev)
next
  assume "s = [] \<or> \<not> is_whitespace (hd s) \<and> \<not> is_whitespace (last s)"
  then have "dropWhile is_whitespace s = s" "dropWhile is_whitespace (rev s) = rev s"
    by (auto simp: dropWhile_id_iff hd_rev)
  then show "str_trim s = s" by (simp add: str_trim_def)
qed

end
