(* ===== verification/ProtocolError.thy ===== *)
theory ProtocolError
  imports RustString
begin

text \<open>
  \<open>kcoin-protocol/src/error.rs\<close>: the deterministic validation failures and their stable
  API codes.
\<close>

datatype validation_error =
    UnsupportedProtocolVersion u16 u16
  | InvalidChainId
  | WrongChain rstring rstring
  | InvalidPublicKey
  | InvalidSignature
  | DuplicateTransaction
  | Expired u64 u64
  | NonceMismatch u64 u64
  | ZeroAmount
  | InsufficientBalance u64 u64
  | StaleChallenge u64 u64
  | WrongChallengeAnswer
  | SupplyExhausted
  | InvalidDisplayName
  | ArithmeticOverflow
  | InvalidBlockHeight u64 u64
  | InvalidParentHash
  | InvalidTimestamp
  | InvalidTransactionsRoot
  | InvalidStateRoot
  | InvalidCommitCertificate
  | DuplicateValidator
  | UnauthorizedValidator
  | InsufficientQuorum nat nat
  | MalformedAddress
  | Malformed
  | PayloadTooLarge

fun error_code :: "validation_error \<Rightarrow> string" where
  "error_code (UnsupportedProtocolVersion _ _) = ''UNSUPPORTED_VERSION''"
| "error_code InvalidChainId = ''WRONG_CHAIN''"
| "error_code (WrongChain _ _) = ''WRONG_CHAIN''"
| "error_code InvalidPublicKey = ''MALFORMED''"
| "error_code Malformed = ''MALFORMED''"
| "error_code InvalidSignature = ''INVALID_SIGNATURE''"
| "error_code DuplicateTransaction = ''DUPLICATE_TRANSACTION''"
| "error_code (Expired _ _) = ''EXPIRED''"
| "error_code (NonceMismatch _ _) = ''NONCE_MISMATCH''"
| "error_code ZeroAmount = ''ZERO_AMOUNT''"
| "error_code (InsufficientBalance _ _) = ''INSUFFICIENT_BALANCE''"
| "error_code (StaleChallenge _ _) = ''STALE_CHALLENGE''"
| "error_code WrongChallengeAnswer = ''WRONG_CHALLENGE_ANSWER''"
| "error_code SupplyExhausted = ''SUPPLY_EXHAUSTED''"
| "error_code InvalidDisplayName = ''INVALID_DISPLAY_NAME''"
| "error_code ArithmeticOverflow = ''ARITHMETIC_OVERFLOW''"
| "error_code (InvalidBlockHeight _ _) = ''INVALID_BLOCK_HEIGHT''"
| "error_code InvalidParentHash = ''INVALID_PARENT_HASH''"
| "error_code InvalidTimestamp = ''INVALID_TIMESTAMP''"
| "error_code InvalidTransactionsRoot = ''INVALID_TRANSACTIONS_ROOT''"
| "error_code InvalidStateRoot = ''INVALID_STATE_ROOT''"
| "error_code InvalidCommitCertificate = ''INVALID_COMMIT_CERTIFICATE''"
| "error_code DuplicateValidator = ''INVALID_COMMIT_CERTIFICATE''"
| "error_code UnauthorizedValidator = ''INVALID_COMMIT_CERTIFICATE''"
| "error_code (InsufficientQuorum _ _) = ''INVALID_COMMIT_CERTIFICATE''"
| "error_code MalformedAddress = ''MALFORMED_ADDRESS''"
| "error_code PayloadTooLarge = ''PAYLOAD_TOO_LARGE''"

end
