(* ===== verification/Crypto.thy ===== *)
theory Crypto
  imports ProtocolError
begin

text \<open>
  \<open>kcoin-protocol/src/crypto.rs\<close> and the hash domains of \<open>lib.rs\<close>: chain identifiers,
  addresses, 32-byte digests and domain-separated hashing. BLAKE3, Ed25519, Bech32m and
  hex are third-party crates: they are the fields of \<open>crypto_env\<close>, an argument of every
  definition that uses them, and what the code relies on is stated as predicates
  (\<open>blake3_length\<close>, \<open>ed25519_correct\<close>, \<open>bech32m_roundtrip\<close>, \<open>hex_roundtrip\<close>).
\<close>

section \<open>Third-party primitives\<close>

record crypto_env =
  blake3_derive_key :: "string \<Rightarrow> bytes \<Rightarrow> bytes"
    \<comment> \<open>\<open>Hasher::new_derive_key(domain)\<close>, every \<open>update\<close> concatenated, \<open>finalize\<close>\<close>
  ed25519_public :: "bytes \<Rightarrow> bytes"
    \<comment> \<open>\<open>SigningKey::verifying_key().to_bytes()\<close>\<close>
  ed25519_sign :: "bytes \<Rightarrow> bytes \<Rightarrow> bytes"
  ed25519_key_ok :: "bytes \<Rightarrow> bool"
    \<comment> \<open>\<open>VerifyingKey::from_bytes\<close> succeeds\<close>
  ed25519_verify_strict :: "bytes \<Rightarrow> bytes \<Rightarrow> bytes \<Rightarrow> bool"
    \<comment> \<open>key, message, signature\<close>
  bech32m_encode :: "rstring \<Rightarrow> bytes \<Rightarrow> rstring option"
  bech32_decode :: "rstring \<Rightarrow> (rstring \<times> bytes) option"
  hex_encode :: "bytes \<Rightarrow> rstring"
  hex_decode :: "rstring \<Rightarrow> bytes option"

definition blake3_length :: "'z crypto_env_scheme \<Rightarrow> bool" where
  "blake3_length env \<longleftrightarrow> (\<forall>d x. length (blake3_derive_key env d x) = 32)"

definition ed25519_correct :: "'z crypto_env_scheme \<Rightarrow> bool" where
  "ed25519_correct env \<longleftrightarrow>
     (\<forall>sk m. ed25519_key_ok env (ed25519_public env sk) \<and>
             ed25519_verify_strict env (ed25519_public env sk) m (ed25519_sign env sk m))"

section \<open>Hash domains and size limits\<close>

definition PROTOCOL_VERSION :: u16 where "PROTOCOL_VERSION = 1"
definition DECIMAL_PLACES :: u32 where "DECIMAL_PLACES = 6"
definition ATOMS_PER_KCOIN :: u64 where "ATOMS_PER_KCOIN = 1000000"
definition MAX_SUPPLY_ATOMS :: u64 where "MAX_SUPPLY_ATOMS = 100000 * ATOMS_PER_KCOIN"
definition MAX_TRANSACTION_BYTES :: nat where "MAX_TRANSACTION_BYTES = 4 * 1024"
definition MAX_BLOCK_BYTES :: nat where "MAX_BLOCK_BYTES = 2 * 1024 * 1024"
definition MAX_COMMIT_CERTIFICATE_BYTES :: nat where "MAX_COMMIT_CERTIFICATE_BYTES = 64 * 1024"
definition MAX_BLOCK_TIMESTAMP_STEP_MS :: u64 where "MAX_BLOCK_TIMESTAMP_STEP_MS = 60000"
definition MAX_BLOCK_TIMESTAMP_MS :: u64 where "MAX_BLOCK_TIMESTAMP_MS = 32503680000000"
definition MAX_DISPLAY_NAME_BYTES :: nat where "MAX_DISPLAY_NAME_BYTES = 64"
definition MAX_DISPLAY_NAME_CHARS :: nat where "MAX_DISPLAY_NAME_CHARS = 32"

definition TX_SIGNATURE_PREFIX :: bytes where
  "TX_SIGNATURE_PREFIX = ascii_bytes ''KCOIN_TX_V1'' @ [0]"
definition COMMIT_SIGNATURE_PREFIX :: bytes where
  "COMMIT_SIGNATURE_PREFIX = ascii_bytes ''KCOIN_COMMIT_V1'' @ [0]"
definition ADDRESS_HASH_DOMAIN :: string where
  "ADDRESS_HASH_DOMAIN = ''kcoin.dev/v1/address''"
definition TRANSACTION_HASH_DOMAIN :: string where
  "TRANSACTION_HASH_DOMAIN = ''kcoin.dev/v1/transaction-id''"
definition BLOCK_HASH_DOMAIN :: string where
  "BLOCK_HASH_DOMAIN = ''kcoin.dev/v1/block-id''"
definition STATE_HASH_DOMAIN :: string where
  "STATE_HASH_DOMAIN = ''kcoin.dev/v1/state-root''"
definition MERKLE_EMPTY_DOMAIN :: string where
  "MERKLE_EMPTY_DOMAIN = ''kcoin.dev/v1/tx-merkle-empty''"
definition MERKLE_LEAF_DOMAIN :: string where
  "MERKLE_LEAF_DOMAIN = ''kcoin.dev/v1/tx-merkle-leaf''"
definition MERKLE_NODE_DOMAIN :: string where
  "MERKLE_NODE_DOMAIN = ''kcoin.dev/v1/tx-merkle-node''"
definition CHALLENGE_HASH_DOMAIN :: string where
  "CHALLENGE_HASH_DOMAIN = ''kcoin.dev/v1/challenge''"

section \<open>Chain identifiers\<close>

definition MAX_CHAIN_ID_BYTES :: nat where "MAX_CHAIN_ID_BYTES = 64"

datatype chain_id = ChainId (chain_str: rstring)

definition chain_id_validate :: "chain_id \<Rightarrow> validation_error + unit" where
  "chain_id_validate c =
     (let bytes = str_bytes (chain_str c) in
      if bytes = [] \<or> length bytes > MAX_CHAIN_ID_BYTES \<or>
         \<not> list_all (\<lambda>b. is_ascii_alphanumeric b \<or> b = 45 \<or> b = 95) bytes
      then Inl InvalidChainId else Inr ())"

definition chain_id_new :: "rstring \<Rightarrow> validation_error + chain_id" where
  "chain_id_new value =
     (let candidate = ChainId value in
      and_then (chain_id_validate candidate) (\<lambda>_. Inr candidate))"

section \<open>Digests\<close>

datatype hash32 = Hash32 (hash_as_bytes: bytes)

definition Hash32_ZERO :: hash32 where
  "Hash32_ZERO = Hash32 (replicate 32 0)"

definition hash_bytes :: "'z crypto_env_scheme \<Rightarrow> string \<Rightarrow> bytes \<Rightarrow> hash32" where
  "hash_bytes env domain x = Hash32 (blake3_derive_key env domain x)"

definition hash_pair :: "'z crypto_env_scheme \<Rightarrow> string \<Rightarrow> hash32 \<Rightarrow> hash32 \<Rightarrow> hash32" where
  "hash_pair env domain left right =
     Hash32 (blake3_derive_key env domain (hash_as_bytes left @ hash_as_bytes right))"

definition hash32_display :: "'z crypto_env_scheme \<Rightarrow> hash32 \<Rightarrow> rstring" where
  "hash32_display env h = hex_encode env (hash_as_bytes h)"

text \<open>
  Parsing a digest. \<open>copy_from_slice\<close> panics on a length mismatch; the outer \<open>option\<close>
  is \<open>None\<close> there.
\<close>

definition hash32_from_str ::
  "'z crypto_env_scheme \<Rightarrow> rstring \<Rightarrow> (validation_error + hash32) option" where
  "hash32_from_str env value =
     (if str_len value \<noteq> 64 \<or> list_ex (\<lambda>b. \<not> is_ascii_hexdigit b) (str_bytes value)
      then Some (Inl Malformed)
      else case hex_decode env value of
        None \<Rightarrow> Some (Inl Malformed)
      | Some decoded \<Rightarrow>
          if length decoded = 32 then Some (Inr (Hash32 decoded)) else None)"

section \<open>Addresses\<close>

definition ADDRESS_HRP :: rstring where "ADDRESS_HRP = str ''kcoin''"
definition ADDRESS_LENGTH :: nat where "ADDRESS_LENGTH = 20"

datatype address = Address (addr_as_bytes: bytes)

definition address_from_public_key :: "'z crypto_env_scheme \<Rightarrow> bytes \<Rightarrow> address" where
  "address_from_public_key env public_key =
     (let hash = hash_bytes env ADDRESS_HASH_DOMAIN public_key
      in Address (take ADDRESS_LENGTH (hash_as_bytes hash)))"

text \<open>\<open>Display\<close>: \<open>None\<close> is \<open>fmt::Error\<close>, on which \<open>to_string\<close> panics.\<close>

definition address_display :: "'z crypto_env_scheme \<Rightarrow> address \<Rightarrow> rstring option" where
  "address_display env a = bech32m_encode env ADDRESS_HRP (addr_as_bytes a)"

definition address_from_str ::
  "'z crypto_env_scheme \<Rightarrow> rstring \<Rightarrow> (validation_error + address) option" where
  "address_from_str env value =
     (case bech32_decode env value of
        None \<Rightarrow> Some (Inl MalformedAddress)
      | Some (hrp, decoded) \<Rightarrow>
          if hrp \<noteq> ADDRESS_HRP \<or> length decoded \<noteq> ADDRESS_LENGTH
          then Some (Inl MalformedAddress)
          else let address = Address decoded in
            case address_display env address of
              None \<Rightarrow> None
            | Some text \<Rightarrow>
                if text \<noteq> value then Some (Inl MalformedAddress) else Some (Inr address))"

definition bech32m_roundtrip :: "'z crypto_env_scheme \<Rightarrow> bool" where
  "bech32m_roundtrip env \<longleftrightarrow>
     (\<forall>d. length d = 20 \<longrightarrow>
        (\<exists>s. bech32m_encode env ADDRESS_HRP d = Some s \<and>
             bech32_decode env s = Some (ADDRESS_HRP, d)))"

definition hex_roundtrip :: "'z crypto_env_scheme \<Rightarrow> bool" where
  "hex_roundtrip env \<longleftrightarrow>
     (\<forall>x. hex_decode env (hex_encode env x) = Some x \<and>
          str_len (hex_encode env x) = 2 * length x \<and>
          list_all is_ascii_hexdigit (str_bytes (hex_encode env x)))"

section \<open>The derived orders\<close>

text \<open>\<open>derive(Ord)\<close> on the byte arrays is the lexicographic order of the bytes.\<close>

instantiation hash32 :: linorder
begin
definition less_eq_hash32 :: "hash32 \<Rightarrow> hash32 \<Rightarrow> bool" where
  "less_eq_hash32 a b \<longleftrightarrow> hash_as_bytes a \<le> hash_as_bytes b"
definition less_hash32 :: "hash32 \<Rightarrow> hash32 \<Rightarrow> bool" where
  "less_hash32 a b \<longleftrightarrow> hash_as_bytes a < hash_as_bytes b"
instance
  by standard (auto simp: less_eq_hash32_def less_hash32_def hash32.expand)
end

instantiation address :: linorder
begin
definition less_eq_address :: "address \<Rightarrow> address \<Rightarrow> bool" where
  "less_eq_address a b \<longleftrightarrow> addr_as_bytes a \<le> addr_as_bytes b"
definition less_address :: "address \<Rightarrow> address \<Rightarrow> bool" where
  "less_address a b \<longleftrightarrow> addr_as_bytes a < addr_as_bytes b"
instance
  by standard (auto simp: less_eq_address_def less_address_def address.expand)
end

section \<open>Facts\<close>

lemma PROTOCOL_VERSION_simp [simp]: "PROTOCOL_VERSION = 1"
  by (simp add: PROTOCOL_VERSION_def)

lemma chain_id_new_Inr [result_simps]:
  "chain_id_new v = Inr c \<longleftrightarrow> c = ChainId v \<and> chain_id_validate c = Inr ()"
  by (auto simp: chain_id_new_def Let_def result_simps)

text \<open>Every text the parser accepts is the canonical text of the address it returns.\<close>

lemma address_from_str_canonical:
  "address_from_str env v = Some (Inr a) \<Longrightarrow>
     address_display env a = Some v \<and> length (addr_as_bytes a) = ADDRESS_LENGTH"
  by (auto simp: address_from_str_def Let_def split: option.splits prod.splits if_splits)

end
