(* ===== verification/Transaction.thy ===== *)
theory Transaction
  imports Crypto
begin

text \<open>
  \<open>kcoin-protocol/src/transaction.rs\<close>: wallet actions, the unsigned and signed
  transaction, shape validation, signing, signature verification and the canonical
  decoder. Borsh serialization of these types is a derive macro of a third-party crate:
  it is a field of the environment \<open>tx_env\<close>, with \<open>borsh_tx_roundtrip\<close> as what the code
  relies on.
\<close>

section \<open>Data\<close>

datatype transaction_action =
    Transfer address u64
  | ClaimReward u64 u16
  | SetDisplayName "rstring option"

record unsigned_transaction =
  ut_protocol_version :: u16
  ut_chain_id :: chain_id
  ut_sender_public_key :: bytes
  ut_nonce :: u64
  ut_expiry_height :: u64
  ut_action :: transaction_action

record signed_transaction =
  st_unsigned :: unsigned_transaction
  st_signature :: bytes

record tx_env = crypto_env +
  borsh_unsigned_tx :: "unsigned_transaction \<Rightarrow> bytes"
  borsh_signed_tx :: "signed_transaction \<Rightarrow> bytes"
  unborsh_signed_tx :: "bytes \<Rightarrow> signed_transaction option"
    \<comment> \<open>\<open>try_from_slice\<close>: the whole input, nothing left over\<close>

definition borsh_tx_roundtrip :: "'z tx_env_scheme \<Rightarrow> bool" where
  "borsh_tx_roundtrip env \<longleftrightarrow>
     (\<forall>t. unborsh_signed_tx env (borsh_signed_tx env t) = Some t) \<and>
     (\<forall>b t. unborsh_signed_tx env b = Some t \<longrightarrow> borsh_signed_tx env t = b)"

section \<open>Shape\<close>

definition validate_display_name :: "rstring option \<Rightarrow> validation_error + unit" where
  "validate_display_name name =
     (case name of
        None \<Rightarrow> Inr ()
      | Some n \<Rightarrow>
          if n = [] \<or> str_len n > MAX_DISPLAY_NAME_BYTES \<or>
             length n > MAX_DISPLAY_NAME_CHARS \<or> str_trim n \<noteq> n \<or> list_ex is_control n
          then Inl InvalidDisplayName else Inr ())"

fun action_validate_shape :: "transaction_action \<Rightarrow> validation_error + unit" where
  "action_validate_shape (Transfer r amount) =
     (if amount = 0 then Inl ZeroAmount else Inr ())"
| "action_validate_shape (SetDisplayName n) = validate_display_name n"
| "action_validate_shape _ = Inr ()"

definition unsigned_new ::
  "chain_id \<Rightarrow> bytes \<Rightarrow> u64 \<Rightarrow> u64 \<Rightarrow> transaction_action \<Rightarrow> unsigned_transaction" where
  "unsigned_new chain sender_public_key nonce expiry action =
     \<lparr>ut_protocol_version = PROTOCOL_VERSION, ut_chain_id = chain,
      ut_sender_public_key = sender_public_key, ut_nonce = nonce,
      ut_expiry_height = expiry, ut_action = action\<rparr>"

definition unsigned_validate_shape :: "unsigned_transaction \<Rightarrow> validation_error + unit" where
  "unsigned_validate_shape u =
     (if ut_protocol_version u \<noteq> PROTOCOL_VERSION
      then Inl (UnsupportedProtocolVersion PROTOCOL_VERSION (ut_protocol_version u))
      else and_then (chain_id_validate (ut_chain_id u))
        (\<lambda>_. action_validate_shape (ut_action u)))"

section \<open>Signing\<close>

definition tx_signing_bytes :: "'z tx_env_scheme \<Rightarrow> unsigned_transaction \<Rightarrow> bytes" where
  "tx_signing_bytes env u = TX_SIGNATURE_PREFIX @ borsh_unsigned_tx env u"

definition tx_verify_signature ::
  "'z tx_env_scheme \<Rightarrow> signed_transaction \<Rightarrow> validation_error + unit" where
  "tx_verify_signature env t =
     and_then (unsigned_validate_shape (st_unsigned t)) (\<lambda>_.
       let key = ut_sender_public_key (st_unsigned t) in
       if \<not> ed25519_key_ok env key then Inl InvalidPublicKey
       else if \<not> ed25519_verify_strict env key (tx_signing_bytes env (st_unsigned t))
              (st_signature t)
       then Inl InvalidSignature
       else Inr ())"

definition tx_sign ::
  "'z tx_env_scheme \<Rightarrow> unsigned_transaction \<Rightarrow> bytes \<Rightarrow> validation_error + signed_transaction" where
  "tx_sign env u signing_key =
     (if ut_sender_public_key u \<noteq> ed25519_public env signing_key then Inl InvalidPublicKey
      else and_then (unsigned_validate_shape u) (\<lambda>_.
        Inr \<lparr>st_unsigned = u,
             st_signature = ed25519_sign env signing_key (tx_signing_bytes env u)\<rparr>))"

definition tx_from_parts ::
  "'z tx_env_scheme \<Rightarrow> unsigned_transaction \<Rightarrow> bytes \<Rightarrow> validation_error + signed_transaction" where
  "tx_from_parts env u signature =
     (let transaction = \<lparr>st_unsigned = u, st_signature = signature\<rparr> in
      and_then (tx_verify_signature env transaction) (\<lambda>_. Inr transaction))"

definition sender_address :: "'z tx_env_scheme \<Rightarrow> signed_transaction \<Rightarrow> address" where
  "sender_address env t = address_from_public_key env (ut_sender_public_key (st_unsigned t))"

definition tx_canonical_bytes :: "'z tx_env_scheme \<Rightarrow> signed_transaction \<Rightarrow> bytes" where
  "tx_canonical_bytes env t = borsh_signed_tx env t"

definition tx_id :: "'z tx_env_scheme \<Rightarrow> signed_transaction \<Rightarrow> hash32" where
  "tx_id env t = hash_bytes env TRANSACTION_HASH_DOMAIN (tx_canonical_bytes env t)"

definition tx_decode :: "'z tx_env_scheme \<Rightarrow> bytes \<Rightarrow> validation_error + signed_transaction" where
  "tx_decode env x =
     (if length x > MAX_TRANSACTION_BYTES then Inl PayloadTooLarge
      else and_then (ok_or (unborsh_signed_tx env x) Malformed) (\<lambda>transaction.
        and_then (tx_verify_signature env transaction) (\<lambda>_. Inr transaction)))"

section \<open>Facts\<close>

lemma size_exceeds_tx: "length (x :: bytes) > MAX_TRANSACTION_BYTES \<longleftrightarrow> int (length x) > 4096"
  by (simp add: MAX_TRANSACTION_BYTES_def)

lemmas tx_decode_code [code] = tx_decode_def [unfolded size_exceeds_tx]

lemma validate_display_name_ok:
  "validate_display_name (Some n) = Inr () \<longleftrightarrow>
     n \<noteq> [] \<and> str_len n \<le> 64 \<and> length n \<le> 32 \<and>
     \<not> is_whitespace (hd n) \<and> \<not> is_whitespace (last n) \<and> (\<forall>c \<in> set n. \<not> is_control c)"
  by (auto simp: validate_display_name_def MAX_DISPLAY_NAME_BYTES_def
      MAX_DISPLAY_NAME_CHARS_def str_trim_id_iff list_ex_iff)

lemma tx_verify_signature_ok [result_simps]:
  "tx_verify_signature env t = Inr u \<longleftrightarrow>
     unsigned_validate_shape (st_unsigned t) = Inr () \<and>
     ed25519_key_ok env (ut_sender_public_key (st_unsigned t)) \<and>
     ed25519_verify_strict env (ut_sender_public_key (st_unsigned t))
       (tx_signing_bytes env (st_unsigned t)) (st_signature t)"
  by (auto simp: tx_verify_signature_def Let_def result_simps)

lemma tx_sign_ok [result_simps]:
  "tx_sign env u sk = Inr t \<longleftrightarrow>
     ut_sender_public_key u = ed25519_public env sk \<and> unsigned_validate_shape u = Inr () \<and>
     t = \<lparr>st_unsigned = u, st_signature = ed25519_sign env sk (tx_signing_bytes env u)\<rparr>"
  by (auto simp: tx_sign_def result_simps)

lemma tx_sign_verifies:
  assumes "ed25519_correct env" and "tx_sign env u sk = Inr t"
  shows "tx_verify_signature env t = Inr ()"
  using assms by (auto simp: result_simps ed25519_correct_def)

lemma tx_decode_ok:
  "tx_decode env x = Inr t \<longleftrightarrow>
     length x \<le> MAX_TRANSACTION_BYTES \<and> unborsh_signed_tx env x = Some t \<and>
     tx_verify_signature env t = Inr ()"
  by (auto simp: tx_decode_def result_simps)

lemma action_validate_shape_ok:
  "action_validate_shape a = Inr () \<longleftrightarrow>
     (case a of Transfer _ n \<Rightarrow> n \<noteq> 0 | SetDisplayName n \<Rightarrow> validate_display_name n = Inr ()
      | ClaimReward _ _ \<Rightarrow> True)"
  by (cases a) auto

end
