(* ===== verification/Merkle.thy ===== *)
theory Merkle
  imports Block
begin

text \<open>
  What the Merkle root of \<open>block.rs\<close> commits to. \<open>merkle_inputs\<close> lists the hash inputs
  of a root computation; where BLAKE3 has no collision on the inputs of two
  computations and both lists are free of duplicates, equal roots mean equal lists of
  transactions. Without the duplicate-freeness the statement is false, because an odd
  level repeats its last node.
\<close>

section \<open>The inputs a root computation hashes\<close>

type_synonym hash_input = "string \<times> bytes"

definition hash_input :: "'z crypto_env_scheme \<Rightarrow> hash_input \<Rightarrow> bytes" where
  "hash_input env i = blake3_derive_key env (fst i) (snd i)"

definition node_input :: "hash32 \<Rightarrow> hash32 \<Rightarrow> hash_input" where
  "node_input a b = (MERKLE_NODE_DOMAIN, hash_as_bytes a @ hash_as_bytes b)"

fun next_inputs :: "hash32 list \<Rightarrow> hash_input list" where
  "next_inputs [] = []"
| "next_inputs [a] = [node_input a a]"
| "next_inputs (a # b # rest) = node_input a b # next_inputs rest"

function level_inputs :: "'z crypto_env_scheme \<Rightarrow> hash32 list \<Rightarrow> hash_input list" where
  "level_inputs env level =
     (if length level > 1 then next_inputs level @ level_inputs env (merkle_next env level) else [])"
  by pat_completeness auto
termination
  by (relation "measure (\<lambda>(env, level). length level)") auto

declare level_inputs.simps [simp del]

definition leaf_input :: "'z tx_env_scheme \<Rightarrow> signed_transaction \<Rightarrow> hash_input" where
  "leaf_input env t = (MERKLE_LEAF_DOMAIN, hash_as_bytes (tx_id env t))"

definition id_input :: "'z tx_env_scheme \<Rightarrow> signed_transaction \<Rightarrow> hash_input" where
  "id_input env t = (TRANSACTION_HASH_DOMAIN, tx_canonical_bytes env t)"

definition merkle_inputs :: "'z tx_env_scheme \<Rightarrow> signed_transaction list \<Rightarrow> hash_input set" where
  "merkle_inputs env txs =
     set (map (id_input env) txs) \<union> set (map (leaf_input env) txs) \<union>
     set (if txs = [] then [(MERKLE_EMPTY_DOMAIN, [])]
          else level_inputs env (map (merkle_leaf env) txs))"

definition no_collision :: "'z crypto_env_scheme \<Rightarrow> hash_input set \<Rightarrow> bool" where
  "no_collision env S \<longleftrightarrow> inj_on (hash_input env) S"

lemma domains_distinct [simp]:
  "MERKLE_LEAF_DOMAIN \<noteq> MERKLE_NODE_DOMAIN" "MERKLE_EMPTY_DOMAIN \<noteq> MERKLE_NODE_DOMAIN"
  "MERKLE_EMPTY_DOMAIN \<noteq> MERKLE_LEAF_DOMAIN" "MERKLE_NODE_DOMAIN \<noteq> MERKLE_LEAF_DOMAIN"
  "MERKLE_NODE_DOMAIN \<noteq> MERKLE_EMPTY_DOMAIN" "MERKLE_LEAF_DOMAIN \<noteq> MERKLE_EMPTY_DOMAIN"
  by (simp_all add: MERKLE_LEAF_DOMAIN_def MERKLE_NODE_DOMAIN_def MERKLE_EMPTY_DOMAIN_def)

lemma no_collisionD:
  "no_collision env S \<Longrightarrow> i \<in> S \<Longrightarrow> j \<in> S \<Longrightarrow> hash_input env i = hash_input env j \<Longrightarrow> i = j"
  unfolding no_collision_def by (rule inj_onD)

lemma no_collision_mono: "no_collision env S \<Longrightarrow> T \<subseteq> S \<Longrightarrow> no_collision env T"
  unfolding no_collision_def by (rule inj_on_subset)

section \<open>Depth of a node\<close>

text \<open>
  A digest at depth 0 is a leaf, at depth \<open>n + 1\<close> an inner node over two digests of depth
  \<open>n\<close>, all computed from inputs in \<open>S\<close>. Domain separation makes the depth unique.
\<close>

fun node_depth :: "'z crypto_env_scheme \<Rightarrow> hash_input set \<Rightarrow> nat \<Rightarrow> hash32 \<Rightarrow> bool" where
  "node_depth env S 0 h \<longleftrightarrow>
     (\<exists>x. (MERKLE_LEAF_DOMAIN, x) \<in> S \<and> h = hash_bytes env MERKLE_LEAF_DOMAIN x)"
| "node_depth env S (Suc n) h \<longleftrightarrow>
     (\<exists>a b. node_input a b \<in> S \<and> h = hash_pair env MERKLE_NODE_DOMAIN a b \<and>
            node_depth env S n a \<and> node_depth env S n b)"

lemma hash_bytes_input: "hash_as_bytes (hash_bytes env d x) = hash_input env (d, x)"
  by (simp add: hash_bytes_def hash_input_def)

lemma hash_pair_input: "hash_as_bytes (hash_pair env MERKLE_NODE_DOMAIN a b) = hash_input env (node_input a b)"
  by (simp add: hash_pair_def hash_input_def node_input_def)

lemma node_depth_length:
  "blake3_length env \<Longrightarrow> node_depth env S n h \<Longrightarrow> length (hash_as_bytes h) = 32"
  by (cases n) (auto simp: hash_bytes_def hash_pair_def blake3_length_def)

lemma node_input_inj:
  assumes "node_input a b = node_input c d"
    and "length (hash_as_bytes a) = 32" and "length (hash_as_bytes c) = 32"
  shows "a = c \<and> b = d"
  using assms by (auto simp: node_input_def hash32.expand)

lemma hash_pair_inj:
  assumes "no_collision env S" "node_input a b \<in> S" "node_input c d \<in> S"
    and "length (hash_as_bytes a) = 32" "length (hash_as_bytes c) = 32"
    and "hash_pair env MERKLE_NODE_DOMAIN a b = hash_pair env MERKLE_NODE_DOMAIN c d"
  shows "a = c \<and> b = d"
proof -
  have "hash_input env (node_input a b) = hash_input env (node_input c d)"
    using assms(6) by (simp flip: hash_pair_input)
  then have "node_input a b = node_input c d"
    using assms(1-3) by (metis no_collisionD)
  then show ?thesis using assms(4,5) by (rule node_input_inj)
qed

lemma leaf_not_node:
  assumes "no_collision env S" "(MERKLE_LEAF_DOMAIN, x) \<in> S" "node_input a b \<in> S"
  shows "hash_bytes env MERKLE_LEAF_DOMAIN x \<noteq> hash_pair env MERKLE_NODE_DOMAIN a b"
proof
  assume "hash_bytes env MERKLE_LEAF_DOMAIN x = hash_pair env MERKLE_NODE_DOMAIN a b"
  then have "hash_input env (MERKLE_LEAF_DOMAIN, x) = hash_input env (node_input a b)"
    by (metis hash_bytes_input hash_pair_input)
  then have "(MERKLE_LEAF_DOMAIN, x) = node_input a b"
    using assms by (metis no_collisionD)
  then show False by (simp add: node_input_def)
qed

lemma node_depth_unique:
  assumes nc: "no_collision env S" and len: "blake3_length env"
  shows "node_depth env S m h \<Longrightarrow> node_depth env S n h \<Longrightarrow> m = n"
proof (induction m arbitrary: n h)
  case 0
  then show ?case
    using leaf_not_node [OF nc] by (cases n) auto
next
  case (Suc m)
  then obtain a b where ab: "node_input a b \<in> S" "h = hash_pair env MERKLE_NODE_DOMAIN a b"
    "node_depth env S m a" by auto
  show ?case
  proof (cases n)
    case 0
    with Suc.prems ab show ?thesis
      by (metis leaf_not_node [OF nc] node_depth.simps(1))
  next
    case (Suc n')
    with Suc.prems obtain c d where cd: "node_input c d \<in> S"
      "h = hash_pair env MERKLE_NODE_DOMAIN c d" "node_depth env S n' c" by auto
    then have "a = c"
      using hash_pair_inj [OF nc ab(1) cd(1)] ab len by (metis node_depth_length)
    with ab cd Suc Suc.IH show ?thesis by auto
  qed
qed

section \<open>One level down\<close>

lemma merkle_next_depth:
  assumes "\<forall>h \<in> set l. node_depth env S n h" and "set (next_inputs l) \<subseteq> S"
  shows "\<forall>h \<in> set (merkle_next env l). node_depth env S (Suc n) h"
  using assms by (induction env l rule: merkle_next.induct) auto

lemma merkle_next_mem:
  "h \<in> set (merkle_next env l) \<Longrightarrow>
     \<exists>a b. h = hash_pair env MERKLE_NODE_DOMAIN a b \<and> a \<in> set l \<and> b \<in> set l \<and>
           node_input a b \<in> set (next_inputs l)"
  by (induction env l rule: merkle_next.induct) auto

text \<open>Without collisions, a level determines the duplicate-free level above it.\<close>

lemma merkle_next_inj:
  assumes nc: "no_collision env S"
  shows "\<lbrakk>\<forall>h \<in> set l1 \<union> set l2. length (hash_as_bytes h) = 32;
     set (next_inputs l1) \<subseteq> S; set (next_inputs l2) \<subseteq> S; distinct l1; distinct l2;
     merkle_next env l1 = merkle_next env l2\<rbrakk> \<Longrightarrow> l1 = l2"
proof (induction l1 arbitrary: l2 rule: next_inputs.induct)
  case 1
  then show ?case by (cases "(env, l2)" rule: merkle_next.cases) auto
next
  case (2 a)
  then show ?case
    by (cases "(env, l2)" rule: merkle_next.cases) (auto dest: hash_pair_inj [OF nc])
next
  case (3 a b rest)
  show ?case
  proof (cases "(env, l2)" rule: merkle_next.cases)
    case (2 env' c)
    with 3 have "a = c \<and> b = c"
      by (intro hash_pair_inj [OF nc]) auto
    with 3 show ?thesis by auto
  next
    case (3 env' c d rest2)
    with "3.prems" have "a = c \<and> b = d"
      by (intro hash_pair_inj [OF nc]) auto
    moreover have "rest = rest2"
      using "3.IH" [of rest2] "3.prems" 3 by auto
    ultimately show ?thesis using 3 by simp
  qed (use 3 in auto)
qed

lemma merkle_next_distinct:
  assumes nc: "no_collision env S"
  shows "\<lbrakk>\<forall>h \<in> set l. length (hash_as_bytes h) = 32; set (next_inputs l) \<subseteq> S; distinct l\<rbrakk>
    \<Longrightarrow> distinct (merkle_next env l)"
proof (induction l rule: next_inputs.induct)
  case (3 a b rest)
  have "hash_pair env MERKLE_NODE_DOMAIN a b \<notin> set (merkle_next env rest)"
  proof
    assume "hash_pair env MERKLE_NODE_DOMAIN a b \<in> set (merkle_next env rest)"
    then obtain c d where "hash_pair env MERKLE_NODE_DOMAIN a b = hash_pair env MERKLE_NODE_DOMAIN c d"
      "c \<in> set rest" "node_input c d \<in> set (next_inputs rest)"
      using merkle_next_mem by blast
    moreover from this have "a = c \<and> b = d"
      using "3.prems" by (intro hash_pair_inj [OF nc]) auto
    ultimately show False using "3.prems" by auto
  qed
  with 3 show ?case by auto
qed auto

section \<open>The whole tree\<close>

lemma merkle_levels_depth:
  assumes "\<forall>h \<in> set l. node_depth env S n h" "set (level_inputs env l) \<subseteq> S" "l \<noteq> []"
  shows "\<exists>k. node_depth env S (n + k) (hd (merkle_levels env l)) \<and> (length l > 1 \<longrightarrow> k > 0)"
  using assms
proof (induction env l arbitrary: n rule: merkle_levels.induct)
  case (1 env level)
  show ?case
  proof (cases "length level > 1")
    case True
    then have sub: "set (next_inputs level) \<subseteq> S" "set (level_inputs env (merkle_next env level)) \<subseteq> S"
      using "1.prems" by (auto simp: level_inputs.simps [of env level])
    have "\<forall>h \<in> set (merkle_next env level). node_depth env S (Suc n) h"
      using "1.prems"(1) sub(1) by (rule merkle_next_depth)
    moreover have "merkle_next env level \<noteq> []" using True by (cases level rule: next_inputs.cases) auto
    ultimately obtain k where "node_depth env S (Suc n + k) (hd (merkle_levels env (merkle_next env level)))"
      using "1.IH" [OF True] sub(2) by blast
    with True show ?thesis
      by (intro exI [of _ "Suc k"]) (simp add: merkle_levels.simps [of env level])
  next
    case False
    with "1.prems" show ?thesis
      by (intro exI [of _ 0]) (auto simp: merkle_levels.simps [of env level])
  qed
qed

lemma merkle_levels_inj:
  assumes nc: "no_collision env S" and len: "blake3_length env"
  shows "\<lbrakk>\<forall>h \<in> set l1 \<union> set l2. node_depth env S n h; l1 \<noteq> []; l2 \<noteq> [];
     set (level_inputs env l1) \<subseteq> S; set (level_inputs env l2) \<subseteq> S; distinct l1; distinct l2;
     hd (merkle_levels env l1) = hd (merkle_levels env l2)\<rbrakk> \<Longrightarrow> l1 = l2"
proof (induction "length l1" arbitrary: l1 l2 n rule: less_induct)
  case less
  note prems = less.prems
  let ?r = "hd (merkle_levels env l1)"
  obtain k1 where k1: "node_depth env S (n + k1) ?r" "length l1 > 1 \<longrightarrow> k1 > 0"
    using merkle_levels_depth [of l1 env S n] prems by auto
  obtain k2 where k2: "node_depth env S (n + k2) ?r" "length l2 > 1 \<longrightarrow> k2 > 0"
    using merkle_levels_depth [of l2 env S n] prems by auto
  have "n + k1 = n + k2" using node_depth_unique [OF nc len k1(1) k2(1)] .
  have single: "x = [hd (merkle_levels env x)]" if "\<not> length x > 1" "x \<noteq> []" for x
    using that by (cases x) (auto simp: merkle_levels.simps [of env "[_]"])
  show ?case
  proof (cases "length l1 > 1")
    case False
    then have "node_depth env S n ?r"
      using single [of l1] prems by (metis UnI1 list.set_intros(1))
    then have "k2 = 0" using node_depth_unique [OF nc len k2(1)] by fastforce
    then show ?thesis using single [of l1] single [of l2] False k2(2) prems by auto
  next
    case True
    have "length l2 > 1"
    proof (rule ccontr)
      assume "\<not> length l2 > 1"
      then have "node_depth env S n ?r"
        using single [of l2] prems by (metis UnI2 list.set_intros(1))
      then have "k1 = 0" using node_depth_unique [OF nc len k1(1)] by fastforce
      with True k1(2) show False by simp
    qed
    note both = True this
    have in1: "set (next_inputs l1) \<subseteq> S" "set (level_inputs env (merkle_next env l1)) \<subseteq> S"
      and in2: "set (next_inputs l2) \<subseteq> S" "set (level_inputs env (merkle_next env l2)) \<subseteq> S"
      using prems both by (auto simp: level_inputs.simps [of env l1] level_inputs.simps [of env l2])
    have l32: "\<forall>h \<in> set l1 \<union> set l2. length (hash_as_bytes h) = 32"
      using prems(1) len by (metis node_depth_length)
    have "merkle_next env l1 = merkle_next env l2"
    proof (rule less.hyps [where n = "Suc n"])
      show "length (merkle_next env l1) < length l1" using True by simp
      show "\<forall>h \<in> set (merkle_next env l1) \<union> set (merkle_next env l2). node_depth env S (Suc n) h"
        using prems(1) in1(1) in2(1) merkle_next_depth [of l1 env S n] merkle_next_depth [of l2 env S n]
        by blast
      show "distinct (merkle_next env l1)" "distinct (merkle_next env l2)"
        using merkle_next_distinct [OF nc] l32 in1 in2 prems by auto
      show "merkle_next env l1 \<noteq> []" "merkle_next env l2 \<noteq> []"
        using both by (cases l1 rule: next_inputs.cases; cases l2 rule: next_inputs.cases; auto)+
      show "hd (merkle_levels env (merkle_next env l1)) = hd (merkle_levels env (merkle_next env l2))"
        using prems(8) both by (simp add: merkle_levels.simps [of env l1] merkle_levels.simps [of env l2])
    qed (use in1 in2 in auto)
    then show ?thesis
      using merkle_next_inj [OF nc l32 in1(1) in2(1)] prems by simp
  qed
qed

section \<open>Leaves and the empty list\<close>

lemma node_depth_input:
  assumes "node_depth env S n h"
  shows "\<exists>i \<in> S. hash_as_bytes h = hash_input env i \<and> fst i \<noteq> MERKLE_EMPTY_DOMAIN"
proof (cases n)
  case 0
  with assms obtain x where "(MERKLE_LEAF_DOMAIN, x) \<in> S" "h = hash_bytes env MERKLE_LEAF_DOMAIN x"
    by auto
  then show ?thesis by (intro bexI [of _ "(MERKLE_LEAF_DOMAIN, x)"]) (simp_all add: hash_bytes_input)
next
  case (Suc m)
  with assms obtain a b where "node_input a b \<in> S" "h = hash_pair env MERKLE_NODE_DOMAIN a b"
    by auto
  then show ?thesis
    by (intro bexI [of _ "node_input a b"]) (simp_all add: hash_pair_input, simp add: node_input_def)
qed

lemma empty_not_node:
  assumes "no_collision env S" "(MERKLE_EMPTY_DOMAIN, []) \<in> S" "node_depth env S n h"
  shows "hash_bytes env MERKLE_EMPTY_DOMAIN [] \<noteq> h"
proof
  assume eq: "hash_bytes env MERKLE_EMPTY_DOMAIN [] = h"
  obtain i where i: "i \<in> S" "hash_as_bytes h = hash_input env i" "fst i \<noteq> MERKLE_EMPTY_DOMAIN"
    using node_depth_input [OF assms(3)] by blast
  then have "hash_input env (MERKLE_EMPTY_DOMAIN, []) = hash_input env i"
    using eq by (metis hash_bytes_input)
  then have "i = (MERKLE_EMPTY_DOMAIN, [])"
    using no_collisionD [OF assms(1) assms(2) i(1)] by simp
  with i(3) show False by simp
qed

lemma merkle_inputs_mem:
  "t \<in> set txs \<Longrightarrow> id_input env t \<in> merkle_inputs env txs \<and> leaf_input env t \<in> merkle_inputs env txs"
  by (auto simp: merkle_inputs_def)

lemma merkle_leaf_inj:
  assumes "no_collision env S" "leaf_input env t \<in> S" "leaf_input env u \<in> S"
    and "merkle_leaf env t = merkle_leaf env u"
  shows "tx_id env t = tx_id env u"
proof -
  have "hash_input env (leaf_input env t) = hash_input env (leaf_input env u)"
    using assms(4) by (simp add: merkle_leaf_def leaf_input_def hash_input_def hash_bytes_def)
  then have "leaf_input env t = leaf_input env u"
    using no_collisionD [OF assms(1-3)] by blast
  then show ?thesis by (simp add: leaf_input_def hash32.expand)
qed

lemma tx_id_inj:
  assumes "no_collision env S" "id_input env t \<in> S" "id_input env u \<in> S"
    and "tx_id env t = tx_id env u"
  shows "borsh_signed_tx env t = borsh_signed_tx env u"
proof -
  have "hash_input env (id_input env t) = hash_input env (id_input env u)"
    using assms(4) by (simp add: id_input_def hash_input_def tx_id_def hash_bytes_def)
  then have "id_input env t = id_input env u"
    using no_collisionD [OF assms(1-3)] by blast
  then show ?thesis by (simp add: id_input_def tx_canonical_bytes_def)
qed

text \<open>A non-empty list never has the root of the empty one.\<close>

lemma merkle_root_empty_iff:
  assumes "no_collision env S" "merkle_inputs env txs \<subseteq> S" "(MERKLE_EMPTY_DOMAIN, []) \<in> S"
  shows "merkle_root env txs = hash_bytes env MERKLE_EMPTY_DOMAIN [] \<longleftrightarrow> txs = []"
proof (cases "txs = []")
  case False
  have "\<forall>h \<in> set (map (merkle_leaf env) txs). node_depth env S 0 h"
    using assms(2) by (auto simp: merkle_leaf_def merkle_inputs_def leaf_input_def)
  then obtain k where "node_depth env S (0 + k) (hd (merkle_levels env (map (merkle_leaf env) txs)))"
    using merkle_levels_depth [of "map (merkle_leaf env) txs" env S 0] assms(2) False
    by (auto simp: merkle_inputs_def)
  with empty_not_node [OF assms(1,3)] False show ?thesis by (metis merkle_root_def)
qed (simp add: merkle_root_def)

lemma merkle_root_leaves:
  assumes nc: "no_collision env S" and len: "blake3_length env"
    and sub: "merkle_inputs env txs1 \<subseteq> S" "merkle_inputs env txs2 \<subseteq> S"
    and ne: "txs1 \<noteq> []" "txs2 \<noteq> []"
    and dist: "distinct (map (merkle_leaf env) txs1)" "distinct (map (merkle_leaf env) txs2)"
    and eq: "merkle_root env txs1 = merkle_root env txs2"
  shows "map (merkle_leaf env) txs1 = map (merkle_leaf env) txs2"
proof (rule merkle_levels_inj [OF nc len, where n = 0])
  show "\<forall>h \<in> set (map (merkle_leaf env) txs1) \<union> set (map (merkle_leaf env) txs2). node_depth env S 0 h"
    using sub by (auto simp: merkle_leaf_def merkle_inputs_def leaf_input_def)
  show "set (level_inputs env (map (merkle_leaf env) txs1)) \<subseteq> S"
    "set (level_inputs env (map (merkle_leaf env) txs2)) \<subseteq> S"
    using sub ne by (auto simp: merkle_inputs_def)
qed (use ne dist eq in \<open>simp_all add: merkle_root_def\<close>)

end
