(* ===== verification/Commit.thy ===== *)
theory Commit
  imports BTree Merkle
begin

text \<open>
  \<open>kcoin-protocol/src/commit.rs\<close>: precommit votes, commit certificates, their
  verification against a fixed validator list and the quorum size. The locale
  \<open>quorum_system\<close> is the interface agreement proofs use; it is interpreted on the
  quorums this file accepts.
\<close>

section \<open>Data\<close>

record commit_vote =
  cv_protocol_version :: u16
  cv_chain_id :: chain_id
  cv_height :: u64
  cv_round :: u32
  cv_block_hash :: hash32

record commit_signature =
  cs_validator :: validator_id
  cs_signature :: bytes

record commit_certificate =
  cc_protocol_version :: u16
  cc_chain_id :: chain_id
  cc_height :: u64
  cc_round :: u32
  cc_block_hash :: hash32
  cc_signatures :: "commit_signature list"

record commit_env = block_env +
  borsh_commit_vote :: "commit_vote \<Rightarrow> bytes"
  borsh_certificate :: "commit_certificate \<Rightarrow> bytes"
  unborsh_certificate :: "bytes \<Rightarrow> commit_certificate option"

section \<open>Votes\<close>

definition commit_vote_new :: "chain_id \<Rightarrow> u64 \<Rightarrow> u32 \<Rightarrow> hash32 \<Rightarrow> commit_vote" where
  "commit_vote_new chain height round block =
     \<lparr>cv_protocol_version = PROTOCOL_VERSION, cv_chain_id = chain, cv_height = height,
      cv_round = round, cv_block_hash = block\<rparr>"

definition vote_signing_bytes :: "'z commit_env_scheme \<Rightarrow> commit_vote \<Rightarrow> bytes" where
  "vote_signing_bytes env v = COMMIT_SIGNATURE_PREFIX @ borsh_commit_vote env v"

definition vote_validate_shape :: "commit_vote \<Rightarrow> validation_error + unit" where
  "vote_validate_shape v =
     (if cv_protocol_version v \<noteq> PROTOCOL_VERSION
      then Inl (UnsupportedProtocolVersion PROTOCOL_VERSION (cv_protocol_version v))
      else chain_id_validate (cv_chain_id v))"

definition validator_from_signing_key :: "'z crypto_env_scheme \<Rightarrow> bytes \<Rightarrow> validator_id" where
  "validator_from_signing_key env key = ValidatorId (ed25519_public env key)"

definition commit_signature_sign ::
  "'z commit_env_scheme \<Rightarrow> commit_vote \<Rightarrow> bytes \<Rightarrow> commit_signature" where
  "commit_signature_sign env vote signing_key =
     \<lparr>cs_validator = validator_from_signing_key env signing_key,
      cs_signature = ed25519_sign env signing_key (vote_signing_bytes env vote)\<rparr>"

section \<open>Certificates\<close>

text \<open>\<open>floor(2N/3) + 1\<close>, without the multiplication.\<close>

definition quorum_size :: "nat \<Rightarrow> nat" where
  "quorum_size validator_count =
     (if validator_count = 0 then 0 else validator_count - ((validator_count - 1) div 3))"

definition certificate_new :: "commit_vote \<Rightarrow> commit_signature list \<Rightarrow> commit_certificate" where
  "certificate_new vote signatures =
     \<lparr>cc_protocol_version = cv_protocol_version vote, cc_chain_id = cv_chain_id vote,
      cc_height = cv_height vote, cc_round = cv_round vote,
      cc_block_hash = cv_block_hash vote,
      cc_signatures = sort_key cs_validator signatures\<rparr>"

definition certificate_vote :: "commit_certificate \<Rightarrow> commit_vote" where
  "certificate_vote c =
     \<lparr>cv_protocol_version = cc_protocol_version c, cv_chain_id = cc_chain_id c,
      cv_height = cc_height c, cv_round = cc_round c, cv_block_hash = cc_block_hash c\<rparr>"

definition certificate_canonical_bytes :: "'z commit_env_scheme \<Rightarrow> commit_certificate \<Rightarrow> bytes" where
  "certificate_canonical_bytes env c = borsh_certificate env c"

text \<open>The loop over the signatures, with \<open>seen\<close> and \<open>previous\<close> as in the code.\<close>

fun verify_signatures ::
  "'z commit_env_scheme \<Rightarrow> validator_id list \<Rightarrow> commit_vote \<Rightarrow> validator_id list \<Rightarrow>
   validator_id option \<Rightarrow> commit_signature list \<Rightarrow> validation_error + validator_id list" where
  "verify_signatures env authorized vote seen previous [] = Inr seen"
| "verify_signatures env authorized vote seen previous (cs # rest) =
     (if cs_validator cs \<notin> set authorized then Inl UnauthorizedValidator
      else if cs_validator cs \<in> set seen then Inl DuplicateValidator
      else if (case previous of None \<Rightarrow> False | Some v \<Rightarrow> v \<ge> cs_validator cs)
      then Inl InvalidCommitCertificate
      else if \<not> ed25519_key_ok env (vid_as_bytes (cs_validator cs)) then Inl InvalidPublicKey
      else if \<not> ed25519_verify_strict env (vid_as_bytes (cs_validator cs))
              (vote_signing_bytes env vote) (cs_signature cs)
      then Inl InvalidSignature
      else verify_signatures env authorized vote (bset_insert (cs_validator cs) seen)
             (Some (cs_validator cs)) rest)"

definition certificate_verify ::
  "'z commit_env_scheme \<Rightarrow> commit_certificate \<Rightarrow> validator_id list \<Rightarrow> validation_error + unit" where
  "certificate_verify env c validators =
     (if length (certificate_canonical_bytes env c) > MAX_COMMIT_CERTIFICATE_BYTES
      then Inl PayloadTooLarge
      else let vote = certificate_vote c in
        and_then (vote_validate_shape vote) (\<lambda>_.
          let authorized = bset_of validators in
          if authorized = [] \<or> length authorized \<noteq> length validators
          then Inl InvalidCommitCertificate
          else let required = quorum_size (length authorized) in
            and_then (verify_signatures env authorized vote [] None (cc_signatures c)) (\<lambda>seen.
              if length seen < required then Inl (InsufficientQuorum required (length seen))
              else Inr ())))"

definition declared_proposer_index :: "block \<Rightarrow> nat \<Rightarrow> nat" where
  "declared_proposer_index b validator_count =
     (let height_offset =
            saturating_sub (bh_height (bk_header b)) 1 mod (of_nat validator_count :: u64);
          round_offset = (ucast (bh_round (bk_header b)) :: u64) mod of_nat validator_count
      in unat ((height_offset + round_offset) mod of_nat validator_count))"

definition certificate_verify_for_block ::
  "'z commit_env_scheme \<Rightarrow> commit_certificate \<Rightarrow> block \<Rightarrow> validator_id list \<Rightarrow>
   validation_error + unit" where
  "certificate_verify_for_block env c b validators =
     (if cc_chain_id c \<noteq> bh_chain_id (bk_header b) \<or> cc_height c \<noteq> bh_height (bk_header b) \<or>
         cc_block_hash c \<noteq> consensus_hash env b \<or> cc_round c < bh_round (bk_header b)
      then Inl InvalidCommitCertificate
      else let validator_count = length validators in
        if validator_count = 0 then Inl InvalidCommitCertificate
        else let proposer_index = declared_proposer_index b validator_count in
          if bh_proposer (bk_header b) \<noteq> validators ! proposer_index
          then Inl InvalidCommitCertificate
          else certificate_verify env c validators)"

definition certificate_decode ::
  "'z commit_env_scheme \<Rightarrow> bytes \<Rightarrow> validation_error + commit_certificate" where
  "certificate_decode env x =
     (if length x > MAX_COMMIT_CERTIFICATE_BYTES then Inl PayloadTooLarge
      else ok_or (unborsh_certificate env x) Malformed)"

section \<open>Quorum arithmetic\<close>

lemma quorum_size_le: "quorum_size n \<le> n"
  by (simp add: quorum_size_def)

lemma quorum_size_pos: "0 < n \<Longrightarrow> 0 < quorum_size n"
  by (simp add: quorum_size_def)

lemma quorum_size_floor: "0 < n \<Longrightarrow> quorum_size n = 2 * n div 3 + 1"
  by (simp add: quorum_size_def)

lemma quorum_overlap: "0 < n \<Longrightarrow> n + (n - 1) div 3 < 2 * quorum_size n"
  by (simp add: quorum_size_def)

section \<open>Quorum systems\<close>

text \<open>
  What agreement needs of a family of quorums: two of them share more members than can
  be faulty.
\<close>

locale quorum_system =
  fixes members :: "'v set" and quorum :: "'v set \<Rightarrow> bool" and faults :: nat
  assumes members_finite: "finite members"
    and quorum_members: "quorum Q \<Longrightarrow> Q \<subseteq> members"
    and quorum_card_Int: "quorum Q \<Longrightarrow> quorum R \<Longrightarrow> faults < card (Q \<inter> R)"
begin

lemma quorum_honest_Int:
  assumes "quorum Q" "quorum R" "card (members \<inter> F) \<le> faults"
  shows "\<exists>v \<in> Q \<inter> R. v \<notin> F"
proof (rule ccontr)
  assume "\<not> (\<exists>v \<in> Q \<inter> R. v \<notin> F)"
  then have "Q \<inter> R \<subseteq> members \<inter> F"
    using quorum_members assms(1) by blast
  then have "card (Q \<inter> R) \<le> faults"
    using assms(3) members_finite by (meson card_mono finite_Int le_trans)
  with quorum_card_Int [OF assms(1,2)] show False by simp
qed

lemma quorum_honest: "quorum Q \<Longrightarrow> card (members \<inter> F) \<le> faults \<Longrightarrow> \<exists>v \<in> Q. v \<notin> F"
  using quorum_honest_Int [of Q Q] by blast

end

definition max_faults :: "'v list \<Rightarrow> nat" where
  "max_faults vs = (card (set vs) - 1) div 3"

definition is_quorum :: "'v list \<Rightarrow> 'v set \<Rightarrow> bool" where
  "is_quorum vs Q \<longleftrightarrow> vs \<noteq> [] \<and> Q \<subseteq> set vs \<and> quorum_size (card (set vs)) \<le> card Q"

interpretation bft: quorum_system "set vs" "is_quorum vs" "max_faults vs" for vs
proof
  show "finite (set vs)" by simp
  show "is_quorum vs Q \<Longrightarrow> Q \<subseteq> set vs" for Q by (simp add: is_quorum_def)
  fix Q R assume QR: "is_quorum vs Q" "is_quorum vs R"
  then have "card Q + card R \<le> card (set vs) + card (Q \<inter> R)"
    by (intro card_Int_ge) (auto simp: is_quorum_def)
  moreover have "0 < card (set vs)" using QR by (auto simp: is_quorum_def card_gt_0_iff)
  ultimately show "max_faults vs < card (Q \<inter> R)"
    using QR quorum_overlap [of "card (set vs)"] by (simp add: is_quorum_def max_faults_def)
qed

section \<open>What verification accepts\<close>

lemma size_exceeds_certificate:
  "length (x :: bytes) > MAX_COMMIT_CERTIFICATE_BYTES \<longleftrightarrow> int (length x) > 65536"
  by (simp add: MAX_COMMIT_CERTIFICATE_BYTES_def)

lemmas certificate_verify_code [code] = certificate_verify_def [unfolded size_exceeds_certificate]
lemmas certificate_decode_code [code] = certificate_decode_def [unfolded size_exceeds_certificate]

definition commit_signature_ok ::
  "'z commit_env_scheme \<Rightarrow> commit_vote \<Rightarrow> commit_signature \<Rightarrow> bool" where
  "commit_signature_ok env vote cs \<longleftrightarrow>
     ed25519_key_ok env (vid_as_bytes (cs_validator cs)) \<and>
     ed25519_verify_strict env (vid_as_bytes (cs_validator cs))
       (vote_signing_bytes env vote) (cs_signature cs)"

definition certificate_signers :: "commit_certificate \<Rightarrow> validator_id list" where
  "certificate_signers c = map cs_validator (cc_signatures c)"

lemma verify_signatures_ok:
  "verify_signatures env authorized vote seen previous sigs = Inr out \<longleftrightarrow>
     sorted_wrt (<) (map cs_validator sigs) \<and>
     (\<forall>p v. previous = Some p \<longrightarrow> v \<in> cs_validator ` set sigs \<longrightarrow> p < v) \<and>
     cs_validator ` set sigs \<subseteq> set authorized \<and>
     cs_validator ` set sigs \<inter> set seen = {} \<and>
     (\<forall>cs \<in> set sigs. commit_signature_ok env vote cs) \<and>
     out = fold bset_insert (map cs_validator sigs) seen"
proof (induction env authorized vote seen previous sigs rule: verify_signatures.induct)
  case (2 env authorized vote seen previous cs rest)
  then show ?case
    by (auto simp: commit_signature_ok_def not_le split: option.splits)
qed auto

lemma fold_bset_insert_length:
  "distinct xs \<Longrightarrow> length (fold bset_insert xs []) = length xs"
  using length_bset_of [of xs] by (simp add: bset_of_def distinct_card)

lemma certificate_verify_ok:
  "certificate_verify env c validators = Inr u \<longleftrightarrow>
     length (borsh_certificate env c) \<le> MAX_COMMIT_CERTIFICATE_BYTES \<and>
     cc_protocol_version c = PROTOCOL_VERSION \<and> chain_id_validate (cc_chain_id c) = Inr () \<and>
     validators \<noteq> [] \<and> distinct validators \<and>
     sorted_wrt (<) (certificate_signers c) \<and> set (certificate_signers c) \<subseteq> set validators \<and>
     (\<forall>cs \<in> set (cc_signatures c). commit_signature_ok env (certificate_vote c) cs) \<and>
     quorum_size (length validators) \<le> length (cc_signatures c)"
proof -
  have l: "length (bset_of validators) = length validators \<longleftrightarrow> distinct validators"
    by (metis length_bset_of card_distinct distinct_card)
  have n: "bset_of validators = [] \<longleftrightarrow> validators = []"
    by (metis set_bset_of set_empty)
  have f: "length (fold bset_insert (certificate_signers c) []) = length (cc_signatures c)"
    if "sorted_wrt (<) (certificate_signers c)"
    using that fold_bset_insert_length [of "certificate_signers c"]
    by (simp add: certificate_signers_def strict_sorted_iff)
  show ?thesis
    using l n f
    by (auto simp: certificate_verify_def Let_def result_simps verify_signatures_ok
        certificate_canonical_bytes_def vote_validate_shape_def certificate_vote_def
        certificate_signers_def not_less)
qed

lemma certificate_verify_quorum:
  assumes "certificate_verify env c validators = Inr u"
  shows "is_quorum validators (set (certificate_signers c))"
proof -
  have "distinct (certificate_signers c)"
    using assms by (simp add: certificate_verify_ok strict_sorted_iff)
  then have "card (set (certificate_signers c)) = length (cc_signatures c)"
    by (metis certificate_signers_def distinct_card length_map)
  with assms show ?thesis
    by (auto simp: certificate_verify_ok is_quorum_def distinct_card)
qed

lemma certificate_verify_for_block_ok:
  "certificate_verify_for_block env c b validators = Inr u \<longleftrightarrow>
     cc_chain_id c = bh_chain_id (bk_header b) \<and> cc_height c = bh_height (bk_header b) \<and>
     cc_block_hash c = block_hash env b \<and> bh_round (bk_header b) \<le> cc_round c \<and>
     validators \<noteq> [] \<and>
     bh_proposer (bk_header b) = validators ! declared_proposer_index b (length validators) \<and>
     certificate_verify env c validators = Inr ()"
  by (auto simp: certificate_verify_for_block_def Let_def consensus_hash_def not_less)

end
