(* ===== verification/Ledger.thy ===== *)
theory Ledger
  imports Commit
begin

text \<open>
  \<open>kcoin-protocol/src/ledger.rs\<close>: accounts, the arithmetic challenge, the reward
  schedule and the deterministic ledger state machine. Methods on \<open>&mut self\<close> return the
  receiver also when they fail, so that atomicity is a theorem. The well-formedness
  invariant, its preservation and the effect of every operation are in \<open>LedgerProps\<close>.
\<close>

section \<open>Data\<close>

record account_state =
  as_balance_atoms :: u64
  as_next_nonce :: u64
  as_display_name :: "rstring option"

definition account_default :: account_state where
  "account_default = \<lparr>as_balance_atoms = 0, as_next_nonce = 0, as_display_name = None\<rparr>"

datatype challenge_operation = Add | Subtract | Multiply

fun operation_symbol :: "challenge_operation \<Rightarrow> rchar" where
  "operation_symbol Add = 43"
| "operation_symbol Subtract = 45"
| "operation_symbol Multiply = 215"

record challenge =
  ch_id :: u64
  ch_operation :: challenge_operation
  ch_left :: u8
  ch_right :: u8

record validated_transaction =
  vt_id :: hash32
  vt_sender :: address

datatype transaction_outcome =
    TransferOutcome address u64
  | RewardClaimed u64 u64
  | DisplayNameUpdated "rstring option"

record transaction_receipt =
  tr_transaction_id :: hash32
  tr_sender :: address
  tr_nonce :: u64
  tr_outcome :: transaction_outcome

record ledger_state =
  ls_chain_id :: chain_id
  ls_height :: u64
  ls_tip_hash :: hash32
  ls_last_block_timestamp_ms :: u64
  ls_total_supply_atoms :: u64
  ls_active_challenge_id :: u64
  ls_accounts :: "(address, account_state) btree_map"
  ls_applied_transactions :: "hash32 list"

record state_commitment =
  sc_protocol_version :: u16
  sc_chain_id :: chain_id
  sc_height :: u64
  sc_last_block_timestamp_ms :: u64
  sc_total_supply_atoms :: u64
  sc_active_challenge_id :: u64
  sc_accounts :: "(address, account_state) btree_map"
  sc_applied_transactions :: "hash32 list"

record ledger_env = commit_env +
  borsh_state_commitment :: "state_commitment \<Rightarrow> bytes"

section \<open>Challenges and rewards\<close>

definition challenge_for_id :: "'z crypto_env_scheme \<Rightarrow> u64 \<Rightarrow> challenge" where
  "challenge_for_id env challenge =
     (let digest = hash_bytes env CHALLENGE_HASH_DOMAIN (u64_to_le_bytes challenge);
          bytes = hash_as_bytes digest;
          operation =
            (if bytes ! 0 mod 3 = 0 then Add
             else if bytes ! 0 mod 3 = 1 then Subtract else Multiply);
          left = 1 + bytes ! 1 mod 9;
          right = 1 + bytes ! 2 mod 9;
          (left, right) =
            (if operation = Subtract \<and> right > left then (right, left) else (left, right))
      in \<lparr>ch_id = challenge, ch_operation = operation, ch_left = left, ch_right = right\<rparr>)"

definition challenge_answer :: "challenge \<Rightarrow> u16" where
  "challenge_answer c =
     (case ch_operation c of
        Add \<Rightarrow> ucast (ch_left c) + ucast (ch_right c)
      | Subtract \<Rightarrow> ucast (ch_left c) - ucast (ch_right c)
      | Multiply \<Rightarrow> ucast (ch_left c) * ucast (ch_right c))"

definition REWARD_BAND_ATOMS :: u64 where "REWARD_BAND_ATOMS = 20000 * ATOMS_PER_KCOIN"
definition REWARDS_KCOIN :: "u64 list" where "REWARDS_KCOIN = [100, 50, 25, 10, 5]"

definition reward_for_supply :: "u64 \<Rightarrow> u64 option" where
  "reward_for_supply total_supply_atoms =
     (if total_supply_atoms \<ge> MAX_SUPPLY_ATOMS then None
      else let band = unat (total_supply_atoms div REWARD_BAND_ATOMS);
               reward_kcoin = REWARDS_KCOIN !
                 (if band < length REWARDS_KCOIN then band else length REWARDS_KCOIN - 1);
               reward_atoms = reward_kcoin * ATOMS_PER_KCOIN;
               remaining = MAX_SUPPLY_ATOMS - total_supply_atoms
           in Some (if reward_atoms < remaining then reward_atoms else remaining))"

section \<open>State\<close>

definition ledger_new :: "chain_id \<Rightarrow> ledger_state" where
  "ledger_new chain =
     \<lparr>ls_chain_id = chain, ls_height = 0, ls_tip_hash = Hash32_ZERO,
      ls_last_block_timestamp_ms = 0, ls_total_supply_atoms = 0, ls_active_challenge_id = 0,
      ls_accounts = [], ls_applied_transactions = []\<rparr>"

definition current_challenge :: "'z crypto_env_scheme \<Rightarrow> ledger_state \<Rightarrow> challenge" where
  "current_challenge env s = challenge_for_id env (ls_active_challenge_id s)"

definition account_or_default :: "ledger_state \<Rightarrow> address \<Rightarrow> account_state" where
  "account_or_default s a =
     (case bt_get (ls_accounts s) a of None \<Rightarrow> account_default | Some x \<Rightarrow> x)"

definition contains_transaction :: "ledger_state \<Rightarrow> hash32 \<Rightarrow> bool" where
  "contains_transaction s h \<longleftrightarrow> h \<in> set (ls_applied_transactions s)"

definition applied_transaction_count :: "ledger_state \<Rightarrow> nat" where
  "applied_transaction_count s = length (ls_applied_transactions s)"

definition state_root :: "'z ledger_env_scheme \<Rightarrow> ledger_state \<Rightarrow> hash32" where
  "state_root env s =
     (let commitment =
            \<lparr>sc_protocol_version = PROTOCOL_VERSION, sc_chain_id = ls_chain_id s,
             sc_height = ls_height s,
             sc_last_block_timestamp_ms = ls_last_block_timestamp_ms s,
             sc_total_supply_atoms = ls_total_supply_atoms s,
             sc_active_challenge_id = ls_active_challenge_id s,
             sc_accounts = ls_accounts s,
             sc_applied_transactions = ls_applied_transactions s\<rparr>
      in hash_bytes env STATE_HASH_DOMAIN (borsh_state_commitment env commitment))"

section \<open>Transactions\<close>

definition validate_transaction ::
  "'z tx_env_scheme \<Rightarrow> ledger_state \<Rightarrow> signed_transaction \<Rightarrow> u64 \<Rightarrow>
   validation_error + validated_transaction" where
  "validate_transaction env s t execution_height =
     and_then (tx_verify_signature env t) (\<lambda>_.
     let u = st_unsigned t in
     if ut_chain_id u \<noteq> ls_chain_id s
     then Inl (WrongChain (chain_str (ls_chain_id s)) (chain_str (ut_chain_id u)))
     else let tid = tx_id env t in
     if tid \<in> set (ls_applied_transactions s) then Inl DuplicateTransaction
     else if ut_expiry_height u < execution_height
     then Inl (Expired (ut_expiry_height u) execution_height)
     else let sender = sender_address env t;
              sender_account = account_or_default s sender in
     if ut_nonce u \<noteq> as_next_nonce sender_account
     then Inl (NonceMismatch (as_next_nonce sender_account) (ut_nonce u))
     else and_then (ok_or (checked_add (as_next_nonce sender_account) 1) ArithmeticOverflow) (\<lambda>_.
     and_then
       (case ut_action u of
          Transfer _ amount \<Rightarrow>
            if amount = 0 then Inl ZeroAmount
            else if as_balance_atoms sender_account < amount
            then Inl (InsufficientBalance (as_balance_atoms sender_account) amount)
            else Inr ()
        | ClaimReward challenge ans \<Rightarrow>
            if challenge \<noteq> ls_active_challenge_id s
            then Inl (StaleChallenge (ls_active_challenge_id s) challenge)
            else if ans \<noteq> challenge_answer (current_challenge env s)
            then Inl WrongChallengeAnswer
            else and_then (ok_or (reward_for_supply (ls_total_supply_atoms s)) SupplyExhausted)
              (\<lambda>reward.
            and_then (ok_or (checked_add (as_balance_atoms sender_account) reward)
                ArithmeticOverflow) (\<lambda>_.
            and_then (ok_or (checked_add (ls_active_challenge_id s) 1) ArithmeticOverflow)
              (\<lambda>_. Inr ())))
        | SetDisplayName name \<Rightarrow> validate_display_name name)
       (\<lambda>_. Inr \<lparr>vt_id = tid, vt_sender = sender\<rparr>)))"

text \<open>
  The \<open>match\<close> of \<open>apply_transaction\<close>: the ledger after it, the sender's account as it is
  about to be stored, and the outcome.
\<close>

fun apply_action ::
  "ledger_state \<Rightarrow> address \<Rightarrow> account_state \<Rightarrow> transaction_action \<Rightarrow>
   ledger_state \<times> (validation_error + account_state \<times> transaction_outcome)" where
  "apply_action s sender sender_account (Transfer recipient amount) =
     (if recipient \<noteq> sender then
        let recipient_account = account_or_default s recipient in
        (case checked_add (as_balance_atoms recipient_account) amount of
           None \<Rightarrow> (s, Inl ArithmeticOverflow)
         | Some recipient_balance \<Rightarrow>
           (case checked_sub (as_balance_atoms sender_account) amount of
              None \<Rightarrow> (s, Inl ArithmeticOverflow)
            | Some sender_balance \<Rightarrow>
              let sender_account = sender_account\<lparr>as_balance_atoms := sender_balance\<rparr>;
                  recipient_account = recipient_account\<lparr>as_balance_atoms := recipient_balance\<rparr>
              in (s\<lparr>ls_accounts := bt_insert recipient recipient_account (ls_accounts s)\<rparr>,
                  Inr (sender_account, TransferOutcome recipient amount))))
      else (s, Inr (sender_account, TransferOutcome recipient amount)))"
| "apply_action s sender sender_account (ClaimReward challenge _) =
     (case reward_for_supply (ls_total_supply_atoms s) of
        None \<Rightarrow> (s, Inl SupplyExhausted)
      | Some reward \<Rightarrow>
        (case checked_add (as_balance_atoms sender_account) reward of
           None \<Rightarrow> (s, Inl ArithmeticOverflow)
         | Some new_balance \<Rightarrow>
           (case checked_add (ls_total_supply_atoms s) reward of
              None \<Rightarrow> (s, Inl ArithmeticOverflow)
            | Some new_supply \<Rightarrow>
              (case checked_add (ls_active_challenge_id s) 1 of
                 None \<Rightarrow> (s, Inl ArithmeticOverflow)
               | Some next_challenge \<Rightarrow>
                 (s\<lparr>ls_total_supply_atoms := new_supply,
                    ls_active_challenge_id := next_challenge\<rparr>,
                  Inr (sender_account\<lparr>as_balance_atoms := new_balance\<rparr>,
                       RewardClaimed challenge reward))))))"
| "apply_action s sender sender_account (SetDisplayName name) =
     (s, Inr (sender_account\<lparr>as_display_name := name\<rparr>, DisplayNameUpdated name))"

definition apply_transaction ::
  "'z tx_env_scheme \<Rightarrow> ledger_state \<Rightarrow> signed_transaction \<Rightarrow> u64 \<Rightarrow>
   ledger_state \<times> (validation_error + transaction_receipt)" where
  "apply_transaction env s t execution_height =
     (case validate_transaction env s t execution_height of
        Inl e \<Rightarrow> (s, Inl e)
      | Inr validated \<Rightarrow>
        let sender = vt_sender validated;
            sender_account = account_or_default s sender in
        case checked_add (as_next_nonce sender_account) 1 of
          None \<Rightarrow> (s, Inl ArithmeticOverflow)
        | Some next_nonce \<Rightarrow>
          st_then (apply_action s sender sender_account (ut_action (st_unsigned t)))
            (\<lambda>s1 (sender_account, outcome).
              (s1\<lparr>ls_accounts :=
                    bt_insert sender (sender_account\<lparr>as_next_nonce := next_nonce\<rparr>)
                      (ls_accounts s1),
                  ls_applied_transactions :=
                    bset_insert (vt_id validated) (ls_applied_transactions s1)\<rparr>,
               Inr \<lparr>tr_transaction_id = vt_id validated, tr_sender = sender,
                    tr_nonce = ut_nonce (st_unsigned t), tr_outcome = outcome\<rparr>)))"

fun apply_transactions ::
  "'z tx_env_scheme \<Rightarrow> ledger_state \<Rightarrow> signed_transaction list \<Rightarrow> u64 \<Rightarrow>
   ledger_state \<times> (validation_error + transaction_receipt list)" where
  "apply_transactions env s [] h = (s, Inr [])"
| "apply_transactions env s (t # ts) h =
     st_then (apply_transaction env s t h) (\<lambda>s1 r.
       st_then (apply_transactions env s1 ts h) (\<lambda>s2 rs. (s2, Inr (r # rs))))"

section \<open>Blocks\<close>

definition normalized_proposal_timestamp :: "ledger_state \<Rightarrow> u64 \<Rightarrow> u64" where
  "normalized_proposal_timestamp s requested_ms =
     (if ls_height s = 0 then min requested_ms MAX_BLOCK_TIMESTAMP_MS
      else min
        (min (max requested_ms (ls_last_block_timestamp_ms s))
          (saturating_add (ls_last_block_timestamp_ms s) MAX_BLOCK_TIMESTAMP_STEP_MS))
        MAX_BLOCK_TIMESTAMP_MS)"

definition build_block ::
  "'z ledger_env_scheme \<Rightarrow> ledger_state \<Rightarrow> validator_id \<Rightarrow> u32 \<Rightarrow> u64 \<Rightarrow>
   signed_transaction list \<Rightarrow> validation_error + block" where
  "build_block env s proposer round timestamp_ms transactions =
     (case checked_add (ls_height s) 1 of
        None \<Rightarrow> Inl ArithmeticOverflow
      | Some height \<Rightarrow>
        let timestamp_ms = normalized_proposal_timestamp s timestamp_ms in
        case apply_transactions env s transactions height of
          (_, Inl e) \<Rightarrow> Inl e
        | (candidate, Inr _) \<Rightarrow>
          let candidate = candidate\<lparr>ls_height := height,
                ls_last_block_timestamp_ms := timestamp_ms\<rparr>
          in Inr (block_new env (ls_chain_id s) height (ls_tip_hash s) proposer round
                    timestamp_ms (state_root env candidate) transactions))"

definition apply_block ::
  "'z ledger_env_scheme \<Rightarrow> ledger_state \<Rightarrow> block \<Rightarrow>
   ledger_state \<times> (validation_error + transaction_receipt list)" where
  "apply_block env s b =
     (case validate_commitments env b of
        Inl e \<Rightarrow> (s, Inl e)
      | Inr _ \<Rightarrow>
        let header = bk_header b in
        if bh_chain_id header \<noteq> ls_chain_id s
        then (s, Inl (WrongChain (chain_str (ls_chain_id s)) (chain_str (bh_chain_id header))))
        else case checked_add (ls_height s) 1 of
          None \<Rightarrow> (s, Inl ArithmeticOverflow)
        | Some expected \<Rightarrow>
          if bh_height header \<noteq> expected
          then (s, Inl (InvalidBlockHeight expected (bh_height header)))
          else if bh_parent_hash header \<noteq> ls_tip_hash s then (s, Inl InvalidParentHash)
          else if bh_timestamp_ms header > MAX_BLOCK_TIMESTAMP_MS \<or>
                  ls_height s > 0 \<and>
                  (bh_timestamp_ms header < ls_last_block_timestamp_ms s \<or>
                   bh_timestamp_ms header >
                     saturating_add (ls_last_block_timestamp_ms s) MAX_BLOCK_TIMESTAMP_STEP_MS)
          then (s, Inl InvalidTimestamp)
          else case apply_transactions env s (bk_transactions b) (bh_height header) of
            (_, Inl e) \<Rightarrow> (s, Inl e)
          | (candidate, Inr receipts) \<Rightarrow>
            let candidate = candidate\<lparr>ls_height := bh_height header,
                  ls_last_block_timestamp_ms := bh_timestamp_ms header\<rparr> in
            if state_root env candidate \<noteq> bh_state_root header
            then (s, Inl InvalidStateRoot)
            else (candidate\<lparr>ls_tip_hash := block_hash env b\<rparr>, Inr receipts))"

definition apply_finalized_block ::
  "'z ledger_env_scheme \<Rightarrow> ledger_state \<Rightarrow> block \<Rightarrow> commit_certificate \<Rightarrow> validator_id list \<Rightarrow>
   ledger_state \<times> (validation_error + transaction_receipt list)" where
  "apply_finalized_block env s b certificate validators =
     (case certificate_verify_for_block env certificate b validators of
        Inl e \<Rightarrow> (s, Inl e)
      | Inr _ \<Rightarrow> apply_block env s b)"

section \<open>Replay\<close>

fun replay_blocks_from ::
  "'z ledger_env_scheme \<Rightarrow> ledger_state \<Rightarrow> block list \<Rightarrow> validation_error + ledger_state" where
  "replay_blocks_from env s [] = Inr s"
| "replay_blocks_from env s (b # bs) =
     (case apply_block env s b of
        (_, Inl e) \<Rightarrow> Inl e
      | (s', Inr _) \<Rightarrow> replay_blocks_from env s' bs)"

definition replay_blocks ::
  "'z ledger_env_scheme \<Rightarrow> chain_id \<Rightarrow> block list \<Rightarrow> validation_error + ledger_state" where
  "replay_blocks env chain blocks = replay_blocks_from env (ledger_new chain) blocks"

fun replay_finalized_from ::
  "'z ledger_env_scheme \<Rightarrow> ledger_state \<Rightarrow> (block \<times> commit_certificate) list \<Rightarrow>
   validator_id list \<Rightarrow> validation_error + ledger_state" where
  "replay_finalized_from env s [] validators = Inr s"
| "replay_finalized_from env s ((b, certificate) # history) validators =
     (case apply_finalized_block env s b certificate validators of
        (_, Inl e) \<Rightarrow> Inl e
      | (s', Inr _) \<Rightarrow> replay_finalized_from env s' history validators)"

definition replay_finalized_blocks ::
  "'z ledger_env_scheme \<Rightarrow> chain_id \<Rightarrow> (block \<times> commit_certificate) list \<Rightarrow>
   validator_id list \<Rightarrow> validation_error + ledger_state" where
  "replay_finalized_blocks env chain history validators =
     replay_finalized_from env (ledger_new chain) history validators"

end
