(* ===== verification/LedgerProps.thy ===== *)
theory LedgerProps
  imports Ledger
begin

text \<open>
  The ledger of \<open>ledger.rs\<close> is well formed in every reachable state: balances sum to the
  issued supply, the supply is the closed-form schedule of the number of claims and
  never passes the cap, nonces count the applied transactions. The first part works on
  the reward schedule, the second on one transaction, the third on blocks and replay.
\<close>

section \<open>Rewards\<close>

text \<open>KCoin issued after \<open>n\<close> successful claims, band by band.\<close>

definition issued_kcoin :: "nat \<Rightarrow> nat" where
  "issued_kcoin n =
     (if n \<le> 200 then 100 * n
      else if n \<le> 600 then 20000 + 50 * (n - 200)
      else if n \<le> 1400 then 40000 + 25 * (n - 600)
      else if n \<le> 3400 then 60000 + 10 * (n - 1400)
      else 80000 + 5 * (n - 3400))"

definition issued_atoms :: "nat \<Rightarrow> nat" where
  "issued_atoms n = 1000000 * issued_kcoin n"

definition MAX_CLAIMS :: nat where "MAX_CLAIMS = 7400"

lemma unat_MAX_SUPPLY [simp]: "unat MAX_SUPPLY_ATOMS = 100000000000"
  by (simp add: MAX_SUPPLY_ATOMS_def ATOMS_PER_KCOIN_def)

lemma unat_BAND [simp]: "unat REWARD_BAND_ATOMS = 20000000000"
  by (simp add: REWARD_BAND_ATOMS_def ATOMS_PER_KCOIN_def)

definition band_reward :: "nat \<Rightarrow> nat" where
  "band_reward band = 1000000 *
     (if band = 0 then 100 else if band = 1 then 50 else if band = 2 then 25
      else if band = 3 then 10 else 5)"

lemma band_reward_word:
  "unat (REWARDS_KCOIN ! (if band < length REWARDS_KCOIN then band else length REWARDS_KCOIN - 1)
      * ATOMS_PER_KCOIN) = band_reward band"
proof -
  consider "band = 0" | "band = 1" | "band = 2" | "band = 3" | "band \<ge> 4" by linarith
  then show ?thesis
  proof cases
    case 5
    then have "(if band < length REWARDS_KCOIN then band else length REWARDS_KCOIN - 1) = 4"
      by (auto simp: REWARDS_KCOIN_def)
    then show ?thesis
      using 5 by (simp only:) (simp add: REWARDS_KCOIN_def ATOMS_PER_KCOIN_def band_reward_def)
  qed (simp_all add: REWARDS_KCOIN_def ATOMS_PER_KCOIN_def band_reward_def)
qed

lemma reward_for_supply_unat:
  "reward_for_supply s =
     (if 100000000000 \<le> unat s then None
      else Some (of_nat (min (band_reward (unat s div 20000000000)) (100000000000 - unat s))))"
proof (cases "MAX_SUPPLY_ATOMS \<le> s")
  case True
  then have "100000000000 \<le> unat s" by (simp add: word_le_nat_alt)
  with True show ?thesis by (simp add: reward_for_supply_def)
next
  case False
  then have lt: "unat s < 100000000000" by (simp add: word_le_nat_alt)
  let ?w = "REWARDS_KCOIN ! (if unat (s div REWARD_BAND_ATOMS) < length REWARDS_KCOIN
       then unat (s div REWARD_BAND_ATOMS) else length REWARDS_KCOIN - 1) * ATOMS_PER_KCOIN"
  have w: "unat ?w = band_reward (unat s div 20000000000)"
    by (subst band_reward_word) (simp add: unat_div)
  have r: "unat (MAX_SUPPLY_ATOMS - s) = 100000000000 - unat s"
    using False by (subst unat_sub_le) auto
  have "(if ?w < MAX_SUPPLY_ATOMS - s then ?w else MAX_SUPPLY_ATOMS - s) =
      of_nat (min (unat ?w) (unat (MAX_SUPPLY_ATOMS - s)))"
    by (simp add: word_less_nat_alt min_def)
  with False lt show ?thesis
    by (simp only: reward_for_supply_def Let_def w r if_False not_le) simp
qed

lemma reward_for_supply_Some:
  assumes "reward_for_supply s = Some r"
  shows "unat s < 100000000000 \<and>
     unat r = min (band_reward (unat s div 20000000000)) (100000000000 - unat s)"
proof -
  have lt: "unat s < 100000000000" using assms by (auto simp: reward_for_supply_unat split: if_splits)
  have "min (band_reward (unat s div 20000000000)) (100000000000 - unat s) \<le> 100000000"
    by (simp add: band_reward_def min_le_iff_disj)
  then have "min (band_reward (unat s div 20000000000)) (100000000000 - unat s) < 2 ^ 64"
    by simp
  with lt assms show ?thesis
    by (auto simp: reward_for_supply_unat unat_of_nat)
qed

text \<open>One claim moves the supply along the schedule.\<close>

lemma issued_step:
  assumes "n < MAX_CLAIMS"
  shows "issued_atoms (Suc n) = issued_atoms n +
     min (band_reward (issued_atoms n div 20000000000)) (100000000000 - issued_atoms n)"
proof -
  have nz: "n < 7400" using assms by (simp add: MAX_CLAIMS_def)
  consider "n < 200" | "200 \<le> n" "n < 600" | "600 \<le> n" "n < 1400" | "1400 \<le> n" "n < 3400"
    | "3400 \<le> n" by linarith
  then show ?thesis
  proof cases
    case 1
    then have "issued_atoms n div 20000000000 = 0"
      by (auto simp: issued_atoms_def issued_kcoin_def)
    with 1 show ?thesis by (auto simp: issued_atoms_def issued_kcoin_def band_reward_def)
  next
    case 2
    then have i: "issued_atoms n = 1000000 * (20000 + 50 * (n - 200))"
      by (auto simp: issued_atoms_def issued_kcoin_def)
    with 2 have "issued_atoms n div 20000000000 = 1"
      by (intro div_nat_eqI) auto
    with 2 i show ?thesis by (auto simp: issued_atoms_def issued_kcoin_def band_reward_def)
  next
    case 3
    then have i: "issued_atoms n = 1000000 * (40000 + 25 * (n - 600))"
      by (auto simp: issued_atoms_def issued_kcoin_def)
    with 3 have "issued_atoms n div 20000000000 = 2"
      by (intro div_nat_eqI) auto
    with 3 i show ?thesis by (auto simp: issued_atoms_def issued_kcoin_def band_reward_def)
  next
    case 4
    then have i: "issued_atoms n = 1000000 * (60000 + 10 * (n - 1400))"
      by (auto simp: issued_atoms_def issued_kcoin_def)
    with 4 have "issued_atoms n div 20000000000 = 3"
      by (intro div_nat_eqI) auto
    with 4 i show ?thesis by (auto simp: issued_atoms_def issued_kcoin_def band_reward_def)
  next
    case 5
    then have i: "issued_atoms n = 1000000 * (80000 + 5 * (n - 3400))"
      by (auto simp: issued_atoms_def issued_kcoin_def)
    with 5 nz have "issued_atoms n div 20000000000 = 4"
      by (intro div_nat_eqI) auto
    with 5 nz i show ?thesis by (auto simp: issued_atoms_def issued_kcoin_def band_reward_def)
  qed
qed

lemma issued_max: "issued_atoms MAX_CLAIMS = 100000000000"
  by (simp add: issued_atoms_def issued_kcoin_def MAX_CLAIMS_def)

lemma issued_lt_iff: "n \<le> MAX_CLAIMS \<Longrightarrow> issued_atoms n < 100000000000 \<longleftrightarrow> n < MAX_CLAIMS"
  by (auto simp: issued_atoms_def issued_kcoin_def MAX_CLAIMS_def)

lemma issued_le: "n \<le> MAX_CLAIMS \<Longrightarrow> issued_atoms n \<le> 100000000000"
  using issued_lt_iff issued_max by (metis le_eq_less_or_eq)

section \<open>Challenges\<close>

lemma mod9_bound: "unat ((1::u8) + b mod 9) = 1 + unat b mod 9"
proof -
  have "unat (b mod 9) = unat b mod 9" by (simp add: unat_mod)
  moreover have "unat b mod 9 < 9" by simp
  ultimately show ?thesis by (subst unat_add_less) auto
qed

lemma challenge_for_id_digits:
  "1 \<le> unat (ch_left (challenge_for_id env n)) \<and> unat (ch_left (challenge_for_id env n)) \<le> 9 \<and>
   1 \<le> unat (ch_right (challenge_for_id env n)) \<and> unat (ch_right (challenge_for_id env n)) \<le> 9 \<and>
   (ch_operation (challenge_for_id env n) = Subtract \<longrightarrow>
     ch_right (challenge_for_id env n) \<le> ch_left (challenge_for_id env n)) \<and>
   ch_id (challenge_for_id env n) = n"
proof -
  have "unat b mod 9 \<le> 8" for b :: u8
    using mod_less_divisor [of 9 "unat b"] by linarith
  then show ?thesis
    by (simp add: challenge_for_id_def Let_def mod9_bound not_less less_imp_le)
qed

section \<open>The invariant\<close>

definition total_balance :: "ledger_state \<Rightarrow> nat" where
  "total_balance s = bt_sum (\<lambda>a. unat (as_balance_atoms a)) (ls_accounts s)"

definition total_nonces :: "ledger_state \<Rightarrow> nat" where
  "total_nonces s = bt_sum (\<lambda>a. unat (as_next_nonce a)) (ls_accounts s)"

definition ledger_wf :: "ledger_state \<Rightarrow> bool" where
  "ledger_wf s \<longleftrightarrow>
     bt_wf (ls_accounts s) \<and>
     sorted (ls_applied_transactions s) \<and> distinct (ls_applied_transactions s) \<and>
     total_balance s = unat (ls_total_supply_atoms s) \<and>
     unat (ls_active_challenge_id s) \<le> MAX_CLAIMS \<and>
     unat (ls_total_supply_atoms s) = issued_atoms (unat (ls_active_challenge_id s)) \<and>
     total_nonces s = length (ls_applied_transactions s) \<and>
     ls_last_block_timestamp_ms s \<le> MAX_BLOCK_TIMESTAMP_MS"

lemma ledger_wf_new: "ledger_wf (ledger_new chain)"
  by (simp add: ledger_wf_def ledger_new_def total_balance_def total_nonces_def
      issued_atoms_def issued_kcoin_def)

lemma ledger_wf_supply: "ledger_wf s \<Longrightarrow> unat (ls_total_supply_atoms s) \<le> 100000000000"
  by (simp add: ledger_wf_def issued_le)

definition balance :: "ledger_state \<Rightarrow> address \<Rightarrow> nat" where
  "balance s a = unat (as_balance_atoms (account_or_default s a))"

definition nonce :: "ledger_state \<Rightarrow> address \<Rightarrow> nat" where
  "nonce s a = unat (as_next_nonce (account_or_default s a))"

lemma balance_le_supply: "ledger_wf s \<Longrightarrow> balance s a \<le> unat (ls_total_supply_atoms s)"
  unfolding ledger_wf_def total_balance_def balance_def account_or_default_def
  by (auto simp: account_default_def split: option.splits
      dest!: bt_sum_ge [where f = "\<lambda>a. unat (as_balance_atoms a)"])

text \<open>Two different accounts together hold at most the supply.\<close>

lemma bt_sum_two:
  assumes "bt_wf m" "bt_get m a = Some x" "bt_get m b = Some y" "a \<noteq> b"
  shows "f x + f y \<le> bt_sum f m"
proof -
  have "bt_get (bt_remove a m) b = Some y" using assms by simp
  then have y: "f y \<le> bt_sum f (bt_remove a m)" by (rule bt_sum_ge)
  have "bt_sum f m = bt_sum f (bt_remove a m) + f x"
    using assms(1,2)
  proof (induction m)
    case (Cons p m)
    obtain k v where p: "p = (k, v)" by fastforce
    show ?case
    proof (cases "k = a")
      case True
      have "bt_remove a m = m"
        using Cons.prems(1) True p by (auto simp: bt_remove_def bt_wf_Cons intro!: filter_True)
      with Cons True p show ?thesis by (simp add: bt_sum_def bt_remove_def bt_get_def)
    next
      case False
      with Cons p show ?thesis by (auto simp: bt_sum_def bt_remove_def bt_get_def bt_wf_Cons)
    qed
  qed simp
  with y show ?thesis by simp
qed

lemma balance_two_le_supply:
  assumes "ledger_wf s" "a \<noteq> b"
  shows "balance s a + balance s b \<le> unat (ls_total_supply_atoms s)"
proof (cases "bt_get (ls_accounts s) a = None \<or> bt_get (ls_accounts s) b = None")
  case True
  then have "balance s a = 0 \<or> balance s b = 0"
    by (auto simp: balance_def account_or_default_def account_default_def)
  then show ?thesis
    using balance_le_supply [OF assms(1), of a] balance_le_supply [OF assms(1), of b] by auto
next
  case False
  then obtain x y where "bt_get (ls_accounts s) a = Some x" "bt_get (ls_accounts s) b = Some y"
    by auto
  then show ?thesis
    using assms bt_sum_two [of "ls_accounts s" a x b y "\<lambda>a. unat (as_balance_atoms a)"]
    by (simp add: ledger_wf_def total_balance_def balance_def account_or_default_def)
qed

section \<open>One transaction\<close>

lemma apply_action_error: "apply_action s a acc act = (s', Inl e) \<Longrightarrow> s' = s"
  by (cases act) (auto simp: Let_def split: if_splits option.splits)

lemma apply_transaction_error: "apply_transaction env s t h = (s', Inl e) \<Longrightarrow> s' = s"
  by (auto simp: apply_transaction_def Let_def st_then_def split: sum.splits option.splits prod.splits
      dest: apply_action_error)

lemma apply_action_frame:
  "apply_action s a acc act = (s', r) \<Longrightarrow>
     ls_chain_id s' = ls_chain_id s \<and> ls_height s' = ls_height s \<and> ls_tip_hash s' = ls_tip_hash s \<and>
     ls_last_block_timestamp_ms s' = ls_last_block_timestamp_ms s \<and>
     ls_applied_transactions s' = ls_applied_transactions s"
  by (cases act) (auto simp: Let_def split: if_splits option.splits)

lemma apply_transaction_frame:
  "apply_transaction env s t h = (s', r) \<Longrightarrow>
     ls_chain_id s' = ls_chain_id s \<and> ls_height s' = ls_height s \<and> ls_tip_hash s' = ls_tip_hash s \<and>
     ls_last_block_timestamp_ms s' = ls_last_block_timestamp_ms s"
  by (auto simp: apply_transaction_def Let_def st_then_def split: sum.splits option.splits prod.splits
      dest: apply_action_frame)

text \<open>What a successful call went through, in the order of the code.\<close>

lemma apply_transaction_okE:
  assumes "apply_transaction env s t h = (s', Inr r)"
  obtains s1 acc outcome where
    "validate_transaction env s t h = Inr \<lparr>vt_id = tx_id env t, vt_sender = sender_address env t\<rparr>"
    "unat (as_next_nonce (account_or_default s (sender_address env t))) + 1 < 2 ^ 64"
    "apply_action s (sender_address env t) (account_or_default s (sender_address env t))
       (ut_action (st_unsigned t)) = (s1, Inr (acc, outcome))"
    "s' = s1\<lparr>ls_accounts := bt_insert (sender_address env t)
               (acc\<lparr>as_next_nonce :=
                  as_next_nonce (account_or_default s (sender_address env t)) + 1\<rparr>) (ls_accounts s1),
             ls_applied_transactions := bset_insert (tx_id env t) (ls_applied_transactions s1)\<rparr>"
    "r = \<lparr>tr_transaction_id = tx_id env t, tr_sender = sender_address env t,
          tr_nonce = ut_nonce (st_unsigned t), tr_outcome = outcome\<rparr>"
proof -
  have v: "validate_transaction env s t h = Inr v \<Longrightarrow>
      v = \<lparr>vt_id = tx_id env t, vt_sender = sender_address env t\<rparr>" for v
    by (auto simp: validate_transaction_def Let_def result_simps split: if_splits)
  show thesis
    using assms that
    by (auto simp: apply_transaction_def Let_def st_then_def arith_simps
        split: sum.splits option.splits prod.splits dest!: v)
qed

lemma validate_transaction_ok:
  "validate_transaction env s t h = Inr v \<longleftrightarrow>
     tx_verify_signature env t = Inr () \<and> ut_chain_id (st_unsigned t) = ls_chain_id s \<and>
     tx_id env t \<notin> set (ls_applied_transactions s) \<and> h \<le> ut_expiry_height (st_unsigned t) \<and>
     ut_nonce (st_unsigned t) = as_next_nonce (account_or_default s (sender_address env t)) \<and>
     nonce s (sender_address env t) + 1 < 2 ^ 64 \<and>
     (case ut_action (st_unsigned t) of
        Transfer _ amount \<Rightarrow> amount \<noteq> 0 \<and> unat amount \<le> balance s (sender_address env t)
      | ClaimReward c ans \<Rightarrow>
          c = ls_active_challenge_id s \<and> ans = challenge_answer (current_challenge env s) \<and>
          (\<exists>reward. reward_for_supply (ls_total_supply_atoms s) = Some reward \<and>
             balance s (sender_address env t) + unat reward < 2 ^ 64) \<and>
          unat (ls_active_challenge_id s) + 1 < 2 ^ 64
      | SetDisplayName name \<Rightarrow> validate_display_name name = Inr ()) \<and>
     v = \<lparr>vt_id = tx_id env t, vt_sender = sender_address env t\<rparr>"
  by (cases "ut_action (st_unsigned t)")
    (auto simp: validate_transaction_def Let_def and_then_eq_Inr ok_or_eq_Inr arith_simps balance_def
      nonce_def not_less word_le_nat_alt word_less_nat_alt split: if_splits)

text \<open>
  On a well-formed ledger the re-checks of \<open>apply_transaction\<close> cannot fail: balances are
  bounded by the supply, which is far below \<open>u64::MAX\<close>.
\<close>

lemma apply_action_succeeds:
  assumes wf: "ledger_wf s" and v: "validate_transaction env s t h = Inr v"
  shows "\<exists>s1 x. apply_action s (sender_address env t) (account_or_default s (sender_address env t))
           (ut_action (st_unsigned t)) = (s1, Inr x)"
proof (cases "ut_action (st_unsigned t)")
  case (Transfer recipient amount)
  let ?a = "sender_address env t"
  have am: "unat amount \<le> balance s ?a" using v Transfer by (auto simp: validate_transaction_ok)
  show ?thesis
  proof (cases "recipient = ?a")
    case False
    have "balance s recipient + balance s ?a \<le> 100000000000"
      using balance_two_le_supply [OF wf False] ledger_wf_supply [OF wf] by simp
    with am have r: "unat (as_balance_atoms (account_or_default s recipient)) + unat amount < 2 ^ 64"
      by (simp add: balance_def)
    have m: "amount \<le> as_balance_atoms (account_or_default s ?a)"
      using am by (simp add: balance_def word_le_nat_alt)
    show ?thesis using Transfer False r m by (simp add: checked_add_def checked_sub_def Let_def)
  qed (use Transfer in auto)
next
  case (ClaimReward c ans)
  let ?a = "sender_address env t"
  obtain reward where rw: "reward_for_supply (ls_total_supply_atoms s) = Some reward"
    "unat (as_balance_atoms (account_or_default s ?a)) + unat reward < 2 ^ 64"
    "unat (ls_active_challenge_id s) + 1 < 2 ^ 64"
    using v ClaimReward by (auto simp: validate_transaction_ok balance_def)
  have "unat (ls_total_supply_atoms s) + unat reward \<le> 100000000000"
    using reward_for_supply_Some [OF rw(1)] by linarith
  then have "unat (ls_total_supply_atoms s) + unat reward < 2 ^ 64" by simp
  with rw ClaimReward show ?thesis by (simp add: checked_add_def)
qed simp

lemma apply_transaction_succeeds:
  assumes wf: "ledger_wf s" and v: "validate_transaction env s t h = Inr v"
  shows "\<exists>s' r. apply_transaction env s t h = (s', Inr r)"
proof -
  obtain s1 acc out where a: "apply_action s (sender_address env t)
      (account_or_default s (sender_address env t)) (ut_action (st_unsigned t)) = (s1, Inr (acc, out))"
    using apply_action_succeeds [OF wf v] by (metis surj_pair)
  have "v = \<lparr>vt_id = tx_id env t, vt_sender = sender_address env t\<rparr>"
    and "checked_add (as_next_nonce (account_or_default s (sender_address env t))) 1 \<noteq> None"
    using v by (auto simp: validate_transaction_ok arith_simps nonce_def not_le)
  with a v show ?thesis by (auto simp: apply_transaction_def Let_def)
qed

section \<open>Effects\<close>

lemma account_update [simp]:
  "account_or_default (s\<lparr>ls_accounts := bt_insert k v m, ls_applied_transactions := x\<rparr>) a =
     (if a = k then v else account_or_default (s\<lparr>ls_accounts := m\<rparr>) a)"
  "account_or_default (s\<lparr>ls_accounts := bt_insert k v m\<rparr>) a =
     (if a = k then v else account_or_default (s\<lparr>ls_accounts := m\<rparr>) a)"
  "account_or_default (s\<lparr>ls_accounts := ls_accounts s\<rparr>) a = account_or_default s a"
  "account_or_default (s\<lparr>ls_total_supply_atoms := y, ls_active_challenge_id := z\<rparr>) a =
     account_or_default s a"
  "account_or_default (s\<lparr>ls_total_supply_atoms := y, ls_active_challenge_id := z,
      ls_accounts := ls_accounts s\<rparr>) a = account_or_default s a"
  by (simp_all add: account_or_default_def)

lemma nonce_after:
  assumes "apply_transaction env s t h = (s', Inr r)"
  shows "nonce s' a = (if a = sender_address env t then nonce s a + 1 else nonce s a)"
proof -
  obtain s1 acc out where *:
    "unat (as_next_nonce (account_or_default s (sender_address env t))) + 1 < 2 ^ 64"
    "apply_action s (sender_address env t) (account_or_default s (sender_address env t))
       (ut_action (st_unsigned t)) = (s1, Inr (acc, out))"
    "s' = s1\<lparr>ls_accounts := bt_insert (sender_address env t)
               (acc\<lparr>as_next_nonce :=
                  as_next_nonce (account_or_default s (sender_address env t)) + 1\<rparr>) (ls_accounts s1),
             ls_applied_transactions := bset_insert (tx_id env t) (ls_applied_transactions s1)\<rparr>"
    using assms by (rule apply_transaction_okE)
  have "a \<noteq> sender_address env t \<Longrightarrow> as_next_nonce (account_or_default s1 a) =
      as_next_nonce (account_or_default s a)"
    using *(2) by (cases "ut_action (st_unsigned t)")
      (auto simp: Let_def split: if_splits option.splits)
  with * show ?thesis by (auto simp: nonce_def unat_add_less)
qed

lemma applied_after:
  assumes "apply_transaction env s t h = (s', Inr r)"
  shows "ls_applied_transactions s' = bset_insert (tx_id env t) (ls_applied_transactions s) \<and>
     tx_id env t \<notin> set (ls_applied_transactions s) \<and> tr_transaction_id r = tx_id env t"
  using assms
  by (elim apply_transaction_okE) (auto simp: validate_transaction_ok dest: apply_action_frame)

lemma transfer_after:
  assumes "apply_transaction env s t h = (s', Inr r)"
    and "ut_action (st_unsigned t) = Transfer recipient amount"
  defines "sender \<equiv> sender_address env t"
  shows "unat amount \<le> balance s sender \<and>
     balance s' a =
       (if sender = recipient then balance s a
        else if a = sender then balance s a - unat amount
        else if a = recipient then balance s a + unat amount
        else balance s a) \<and>
     ls_total_supply_atoms s' = ls_total_supply_atoms s \<and>
     ls_active_challenge_id s' = ls_active_challenge_id s \<and>
     tr_outcome r = TransferOutcome recipient amount"
proof -
  obtain s1 acc out where *:
    "validate_transaction env s t h = Inr \<lparr>vt_id = tx_id env t, vt_sender = sender\<rparr>"
    "apply_action s sender (account_or_default s sender) (ut_action (st_unsigned t)) =
       (s1, Inr (acc, out))"
    "s' = s1\<lparr>ls_accounts := bt_insert sender
               (acc\<lparr>as_next_nonce := as_next_nonce (account_or_default s sender) + 1\<rparr>) (ls_accounts s1),
             ls_applied_transactions := bset_insert (tx_id env t) (ls_applied_transactions s1)\<rparr>"
    "tr_outcome r = out"
    using assms(1) unfolding sender_def
    by (elim apply_transaction_okE) simp
  have le: "unat amount \<le> balance s sender"
    using *(1) assms(2) by (auto simp: validate_transaction_ok sender_def)
  show ?thesis
    using *(2-4) le assms(2)
    by (auto simp: Let_def balance_def arith_simps unat_sub_le unat_add_less split: if_splits option.splits)
qed

lemma claim_after:
  assumes "apply_transaction env s t h = (s', Inr r)"
    and "ut_action (st_unsigned t) = ClaimReward c ans"
  defines "sender \<equiv> sender_address env t"
  shows "\<exists>reward. reward_for_supply (ls_total_supply_atoms s) = Some reward \<and>
     c = ls_active_challenge_id s \<and> ans = challenge_answer (current_challenge env s) \<and>
     balance s' a = (if a = sender then balance s a + unat reward else balance s a) \<and>
     unat (ls_total_supply_atoms s') = unat (ls_total_supply_atoms s) + unat reward \<and>
     unat (ls_active_challenge_id s') = unat (ls_active_challenge_id s) + 1 \<and>
     tr_outcome r = RewardClaimed c reward"
proof -
  obtain s1 acc out where *:
    "validate_transaction env s t h = Inr \<lparr>vt_id = tx_id env t, vt_sender = sender\<rparr>"
    "apply_action s sender (account_or_default s sender) (ut_action (st_unsigned t)) =
       (s1, Inr (acc, out))"
    "s' = s1\<lparr>ls_accounts := bt_insert sender
               (acc\<lparr>as_next_nonce := as_next_nonce (account_or_default s sender) + 1\<rparr>) (ls_accounts s1),
             ls_applied_transactions := bset_insert (tx_id env t) (ls_applied_transactions s1)\<rparr>"
    "tr_outcome r = out"
    using assms(1) unfolding sender_def
    by (elim apply_transaction_okE) simp
  have "c = ls_active_challenge_id s \<and> ans = challenge_answer (current_challenge env s)"
    using *(1) assms(2) by (auto simp: validate_transaction_ok)
  then show ?thesis
    using *(2-4) assms(2)
    by (auto simp: Let_def balance_def arith_simps unat_add_less split: option.splits)
qed

section \<open>Preservation\<close>

lemma unat_default [simp]:
  "as_balance_atoms account_default = 0" "as_next_nonce account_default = 0"
  by (simp_all add: account_default_def)

lemma get_default:
  "(case bt_get (ls_accounts s) a of None \<Rightarrow> account_default | Some w \<Rightarrow> w) = account_or_default s a"
  by (simp add: account_or_default_def)

text \<open>How the two account sums move when the code stores the accounts of a transaction.\<close>

lemma sums_store_one:
  fixes f :: "account_state \<Rightarrow> nat"
  assumes "bt_wf (ls_accounts s)" and "f account_default = 0"
  shows "bt_sum f (bt_insert a v (ls_accounts s)) + f (account_or_default s a) =
      bt_sum f (ls_accounts s) + f v"
  using bt.total_insert_default [of "ls_accounts s" f account_default a v] assms
  by (simp add: get_default)

lemma sums_store_two:
  fixes f :: "account_state \<Rightarrow> nat"
  assumes "bt_wf (ls_accounts s)" and "f account_default = 0" and "a \<noteq> b"
  shows "bt_sum f (bt_insert a v (bt_insert b w (ls_accounts s))) +
      (f (account_or_default s a) + f (account_or_default s b)) = bt_sum f (ls_accounts s) + (f v + f w)"
proof -
  let ?s1 = "s\<lparr>ls_accounts := bt_insert b w (ls_accounts s)\<rparr>"
  have "account_or_default ?s1 a = account_or_default s a" using assms(3) by simp
  then have "bt_sum f (bt_insert a v (bt_insert b w (ls_accounts s))) + f (account_or_default s a) =
      bt_sum f (bt_insert b w (ls_accounts s)) + f v"
    using sums_store_one [of ?s1 f a v] assms by simp
  moreover have "bt_sum f (bt_insert b w (ls_accounts s)) + f (account_or_default s b) =
      bt_sum f (ls_accounts s) + f w"
    by (rule sums_store_one) (use assms in auto)
  ultimately show ?thesis by simp
qed

lemma totals_after:
  assumes wf: "bt_wf (ls_accounts s)" and ok: "apply_transaction env s t h = (s', Inr r)"
  shows "bt_wf (ls_accounts s') \<and> total_nonces s' = total_nonces s + 1 \<and>
    total_balance s' + unat (ls_total_supply_atoms s) =
      total_balance s + unat (ls_total_supply_atoms s')"
proof -
  let ?a = "sender_address env t" and ?acc = "account_or_default s (sender_address env t)"
  obtain s1 acc out where
    n: "unat (as_next_nonce ?acc) + 1 < 2 ^ 64" and
    a: "apply_action s ?a ?acc (ut_action (st_unsigned t)) = (s1, Inr (acc, out))" and
    s': "s' = s1\<lparr>ls_accounts := bt_insert ?a
               (acc\<lparr>as_next_nonce := as_next_nonce ?acc + 1\<rparr>) (ls_accounts s1),
             ls_applied_transactions := bset_insert (tx_id env t) (ls_applied_transactions s1)\<rparr>"
    using ok by (rule apply_transaction_okE)
  have n1: "unat (as_next_nonce ?acc + 1) = unat (as_next_nonce ?acc) + 1"
    using n by (subst unat_add_less) auto
  note one = sums_store_one [OF wf, where a = ?a] and two = sums_store_two [OF wf, where a = ?a]
  let ?b = "\<lambda>x. unat (as_balance_atoms x)" and ?n = "\<lambda>x. unat (as_next_nonce x)"
  show ?thesis
  proof (cases "ut_action (st_unsigned t)")
    case (Transfer recipient amount)
    show ?thesis
    proof (cases "recipient = ?a")
      case True
      then show ?thesis
        using a s' wf Transfer n1 one [of ?b "?acc\<lparr>as_next_nonce := as_next_nonce ?acc + 1\<rparr>"]
          one [of ?n "?acc\<lparr>as_next_nonce := as_next_nonce ?acc + 1\<rparr>"]
        by (auto simp: total_balance_def total_nonces_def)
    next
      case False
      let ?rec = "account_or_default s recipient"
      from a Transfer False have
        le: "amount \<le> as_balance_atoms ?acc"
        and fit: "unat (as_balance_atoms ?rec) + unat amount < 2 ^ 64"
        and acc: "acc = ?acc\<lparr>as_balance_atoms := as_balance_atoms ?acc - amount\<rparr>"
        and s1: "s1 = s\<lparr>ls_accounts := bt_insert recipient
            (?rec\<lparr>as_balance_atoms := as_balance_atoms ?rec + amount\<rparr>) (ls_accounts s)\<rparr>"
        by (auto simp: Let_def arith_simps split: if_splits option.splits)
      have am: "unat amount \<le> unat (as_balance_atoms ?acc)" using le by (simp add: word_le_nat_alt)
      have w: "unat (as_balance_atoms ?rec + amount) = unat (as_balance_atoms ?rec) + unat amount"
        using fit by (subst unat_add_less) auto
      let ?v = "acc\<lparr>as_next_nonce := as_next_nonce ?acc + 1\<rparr>"
        and ?w = "?rec\<lparr>as_balance_atoms := as_balance_atoms ?rec + amount\<rparr>"
      show ?thesis
        using two [of ?b recipient ?v ?w] two [of ?n recipient ?v ?w] False s' s1 wf acc n1 w am
        by (simp add: total_balance_def total_nonces_def unat_sub_le [OF le])
    qed
  next
    case (ClaimReward c ans)
    then obtain reward where
      "unat (as_balance_atoms ?acc) + unat reward < 2 ^ 64"
      "unat (ls_total_supply_atoms s) + unat reward < 2 ^ 64" and
      acc: "acc = ?acc\<lparr>as_balance_atoms := as_balance_atoms ?acc + reward\<rparr>" and
      s1: "ls_accounts s1 = ls_accounts s" "ls_total_supply_atoms s1 = ls_total_supply_atoms s + reward"
      using a by (auto simp: arith_simps split: option.splits)
    then have w: "unat (as_balance_atoms ?acc + reward) = unat (as_balance_atoms ?acc) + unat reward"
      "unat (ls_total_supply_atoms s + reward) = unat (ls_total_supply_atoms s) + unat reward"
      by (simp_all add: unat_add_less)
    let ?v = "acc\<lparr>as_next_nonce := as_next_nonce ?acc + 1\<rparr>"
    show ?thesis
      using one [of ?b ?v] one [of ?n ?v] s' s1 wf acc n1 w
      by (simp add: total_balance_def total_nonces_def)
  next
    case (SetDisplayName name)
    then show ?thesis
      using a s' wf n1 one [of ?b "?acc\<lparr>as_display_name := name, as_next_nonce := as_next_nonce ?acc + 1\<rparr>"]
        one [of ?n "?acc\<lparr>as_display_name := name, as_next_nonce := as_next_nonce ?acc + 1\<rparr>"]
      by (auto simp: total_balance_def total_nonces_def)
  qed
qed

lemma supply_after:
  assumes wf: "ledger_wf s" and ok: "apply_transaction env s t h = (s', Inr r)"
  shows "unat (ls_active_challenge_id s') \<le> MAX_CLAIMS \<and>
    unat (ls_total_supply_atoms s') = issued_atoms (unat (ls_active_challenge_id s'))"
proof (cases "ut_action (st_unsigned t)")
  case (Transfer recipient amount)
  with transfer_after [OF ok] wf show ?thesis by (auto simp: ledger_wf_def)
next
  case (ClaimReward c ans)
  then obtain reward where
    r: "reward_for_supply (ls_total_supply_atoms s) = Some reward"
    "unat (ls_total_supply_atoms s') = unat (ls_total_supply_atoms s) + unat reward"
    "unat (ls_active_challenge_id s') = unat (ls_active_challenge_id s) + 1"
    using claim_after [OF ok] by blast
  let ?n = "unat (ls_active_challenge_id s)"
  have i: "?n \<le> MAX_CLAIMS" "unat (ls_total_supply_atoms s) = issued_atoms ?n"
    using wf by (auto simp: ledger_wf_def)
  with reward_for_supply_Some [OF r(1)] have "?n < MAX_CLAIMS" by (simp add: issued_lt_iff)
  with issued_step [OF this] i r reward_for_supply_Some [OF r(1)] show ?thesis by simp
next
  case (SetDisplayName name)
  with ok have "ls_total_supply_atoms s' = ls_total_supply_atoms s \<and>
      ls_active_challenge_id s' = ls_active_challenge_id s"
    by (elim apply_transaction_okE) auto
  with wf show ?thesis by (auto simp: ledger_wf_def)
qed

lemma apply_transaction_wf:
  assumes wf: "ledger_wf s" and ok: "apply_transaction env s t h = (s', Inr r)"
  shows "ledger_wf s'"
  using wf totals_after [OF _ ok] supply_after [OF wf ok] applied_after [OF ok]
    apply_transaction_frame [OF ok]
  by (auto simp: ledger_wf_def length_bset_insert)

lemma apply_transaction_wf_always:
  assumes "ledger_wf s" shows "ledger_wf (fst (apply_transaction env s t h))"
proof (cases "apply_transaction env s t h")
  case (Pair s' r)
  with assms show ?thesis
    by (cases r) (auto dest: apply_transaction_wf apply_transaction_error)
qed

interpretation tx_machine: atomic_machine "\<lambda>s t. apply_transaction env s t h" ledger_wf for env h
  by unfold_locales (auto dest: apply_transaction_wf apply_transaction_error)

lemma apply_transactions_run:
  "apply_transactions env s ts h = run_all (\<lambda>s t. apply_transaction env s t h) s ts"
  by (induction ts arbitrary: s) auto

lemma apply_transactions_wf: "ledger_wf s \<Longrightarrow> apply_transactions env s ts h = (s', r) \<Longrightarrow> ledger_wf s'"
  unfolding apply_transactions_run by (rule tx_machine.run_inv)

text \<open>What every later state keeps of an earlier one.\<close>

definition extends :: "ledger_state \<Rightarrow> ledger_state \<Rightarrow> bool" where
  "extends s s' \<longleftrightarrow> ls_chain_id s' = ls_chain_id s \<and>
     set (ls_applied_transactions s) \<subseteq> set (ls_applied_transactions s') \<and>
     (\<forall>a. nonce s a \<le> nonce s' a)"

lemma extends_refl [simp]: "extends s s" and
  extends_trans: "extends a b \<Longrightarrow> extends b c \<Longrightarrow> extends a c"
  by (auto simp: extends_def intro: order_trans)

lemma extends_apply_transaction: "apply_transaction env s t h = (s', Inr r) \<Longrightarrow> extends s s'"
  using nonce_after [of env s t h s' r] applied_after [of env s t h s' r]
    apply_transaction_frame [of env s t h s' "Inr r"]
  by (auto simp: extends_def)

lemma extends_apply_transactions: "apply_transactions env s ts h = (s', r) \<Longrightarrow> extends s s'"
  unfolding apply_transactions_run
  by (rule tx_machine.run_rel [where R = extends])
    (auto intro: extends_trans extends_apply_transaction)

lemma apply_transactions_frame:
  "apply_transactions env s ts h = (s', r) \<Longrightarrow>
     ls_chain_id s' = ls_chain_id s \<and> ls_height s' = ls_height s \<and> ls_tip_hash s' = ls_tip_hash s \<and>
     ls_last_block_timestamp_ms s' = ls_last_block_timestamp_ms s"
  unfolding apply_transactions_run
  by (rule tx_machine.run_rel [where R = "\<lambda>s s'. ls_chain_id s' = ls_chain_id s \<and>
        ls_height s' = ls_height s \<and> ls_tip_hash s' = ls_tip_hash s \<and>
        ls_last_block_timestamp_ms s' = ls_last_block_timestamp_ms s"])
    (auto dest: apply_transaction_frame)

lemma apply_transactions_ids:
  assumes "apply_transactions env s ts h = (s', Inr rs)"
  shows "map tr_transaction_id rs = map (tx_id env) ts \<and> distinct (map (tx_id env) ts) \<and>
     set (map (tx_id env) ts) \<inter> set (ls_applied_transactions s) = {} \<and>
     set (ls_applied_transactions s') = set (ls_applied_transactions s) \<union> set (map (tx_id env) ts)"
  using assms
proof (induction ts arbitrary: s rs)
  case (Cons t ts)
  then obtain s1 r rs1 where *: "apply_transaction env s t h = (s1, Inr r)"
    "apply_transactions env s1 ts h = (s', Inr rs1)" "rs = r # rs1"
    by (auto simp: st_then_eq_Inr)
  with Cons.IH [OF *(2)] applied_after [OF *(1)] show ?case by auto
qed simp

section \<open>Blocks\<close>

lemma apply_block_error: "apply_block env s b = (s', Inl e) \<Longrightarrow> s' = s"
  by (auto simp: apply_block_def Let_def split: sum.splits option.splits prod.splits if_splits)

definition timestamp_ok :: "ledger_state \<Rightarrow> u64 \<Rightarrow> bool" where
  "timestamp_ok s ts \<longleftrightarrow> ts \<le> MAX_BLOCK_TIMESTAMP_MS \<and>
     (ls_height s = 0 \<or> ls_last_block_timestamp_ms s \<le> ts \<and>
        ts \<le> saturating_add (ls_last_block_timestamp_ms s) MAX_BLOCK_TIMESTAMP_STEP_MS)"

lemma word_gt_0_iff: "(0 < (x :: 'n::len word)) \<longleftrightarrow> x \<noteq> 0"
  by (simp add: word_neq_0_conv)

lemma apply_block_ok:
  "apply_block env s b = (s', Inr rs) \<longleftrightarrow>
     validate_commitments env b = Inr () \<and> bh_chain_id (bk_header b) = ls_chain_id s \<and>
     unat (ls_height s) + 1 < 2 ^ 64 \<and> bh_height (bk_header b) = ls_height s + 1 \<and>
     bh_parent_hash (bk_header b) = ls_tip_hash s \<and> timestamp_ok s (bh_timestamp_ms (bk_header b)) \<and>
     (\<exists>c. apply_transactions env s (bk_transactions b) (bh_height (bk_header b)) = (c, Inr rs) \<and>
        bh_state_root (bk_header b) = state_root env
          (c\<lparr>ls_height := bh_height (bk_header b),
             ls_last_block_timestamp_ms := bh_timestamp_ms (bk_header b)\<rparr>) \<and>
        s' = c\<lparr>ls_height := bh_height (bk_header b),
               ls_last_block_timestamp_ms := bh_timestamp_ms (bk_header b),
               ls_tip_hash := block_hash env b\<rparr>)"
  (is "?L = ?R")
proof
  assume ?L
  then show ?R
    by (auto simp: apply_block_def Let_def arith_simps timestamp_ok_def not_less word_gt_0_iff
        split: sum.splits option.splits prod.splits if_splits)
next
  assume R: ?R
  then have "checked_add (ls_height s) 1 = Some (ls_height s + 1)" by (simp add: arith_simps)
  with R show ?L
    by (auto simp: apply_block_def Let_def timestamp_ok_def not_less word_gt_0_iff)
qed

lemma wf_header_update:
  "ledger_wf (c\<lparr>ls_height := h, ls_last_block_timestamp_ms := ts, ls_tip_hash := tip\<rparr>) \<longleftrightarrow>
     ledger_wf (c\<lparr>ls_last_block_timestamp_ms := ts\<rparr>)"
  by (simp add: ledger_wf_def total_balance_def total_nonces_def)

lemma apply_block_wf:
  assumes "ledger_wf s" "apply_block env s b = (s', Inr rs)" shows "ledger_wf s'"
proof -
  obtain c where c: "apply_transactions env s (bk_transactions b) (bh_height (bk_header b)) = (c, Inr rs)"
    "s' = c\<lparr>ls_height := bh_height (bk_header b),
           ls_last_block_timestamp_ms := bh_timestamp_ms (bk_header b), ls_tip_hash := block_hash env b\<rparr>"
    and ts: "bh_timestamp_ms (bk_header b) \<le> MAX_BLOCK_TIMESTAMP_MS"
    using assms(2) by (auto simp: apply_block_ok timestamp_ok_def)
  have "ledger_wf c" using assms(1) c(1) by (rule apply_transactions_wf)
  with c ts show ?thesis
    by (simp add: wf_header_update) (simp add: ledger_wf_def total_balance_def total_nonces_def)
qed

interpretation block_machine: atomic_machine "apply_block env" ledger_wf for env
  by unfold_locales (auto dest: apply_block_wf apply_block_error)

lemma extends_apply_block:
  assumes "apply_block env s b = (s', Inr rs)" shows "extends s s'"
proof -
  obtain c where "extends s c" "s' = c\<lparr>ls_height := bh_height (bk_header b),
      ls_last_block_timestamp_ms := bh_timestamp_ms (bk_header b), ls_tip_hash := block_hash env b\<rparr>"
    using assms by (auto simp: apply_block_ok dest: extends_apply_transactions)
  then show ?thesis by (simp add: extends_def nonce_def account_or_default_def)
qed

lemma apply_finalized_block_ok:
  "apply_finalized_block env s b c vs = (s', Inr rs) \<longleftrightarrow>
     certificate_verify_for_block env c b vs = Inr () \<and> apply_block env s b = (s', Inr rs)"
  by (auto simp: apply_finalized_block_def split: sum.splits)

text \<open>A built block applies to the ledger it was built on.\<close>

lemma build_block_applies:
  assumes "ledger_wf s" and "chain_id_validate (ls_chain_id s) = Inr ()"
    and "build_block env s proposer round ts txs = Inr b"
    and "length (block_canonical_bytes env b) \<le> MAX_BLOCK_BYTES"
  shows "\<exists>s' rs. apply_block env s b = (s', Inr rs) \<and> ledger_wf s' \<and>
     bk_transactions b = txs \<and> bh_proposer (bk_header b) = proposer \<and> bh_round (bk_header b) = round"
proof -
  obtain c rs where h: "unat (ls_height s) + 1 < 2 ^ 64"
    and c: "apply_transactions env s txs (ls_height s + 1) = (c, Inr rs)"
    and b: "b = block_new env (ls_chain_id s) (ls_height s + 1) (ls_tip_hash s) proposer round
        (normalized_proposal_timestamp s ts)
        (state_root env (c\<lparr>ls_height := ls_height s + 1,
           ls_last_block_timestamp_ms := normalized_proposal_timestamp s ts\<rparr>)) txs"
    using assms(3)
    by (auto simp: build_block_def Let_def arith_simps split: option.splits prod.splits sum.splits)
  have last: "ls_last_block_timestamp_ms s \<le> MAX_BLOCK_TIMESTAMP_MS"
    using assms(1) by (simp add: ledger_wf_def)
  have "ls_last_block_timestamp_ms s \<le>
      saturating_add (ls_last_block_timestamp_ms s) MAX_BLOCK_TIMESTAMP_STEP_MS"
    using unat_u64_less [of "ls_last_block_timestamp_ms s"]
    by (simp add: word_le_nat_alt unat_saturating_add)
  then have "timestamp_ok s (normalized_proposal_timestamp s ts)"
    using last
    by (auto simp: timestamp_ok_def normalized_proposal_timestamp_def min_le_iff_disj le_max_iff_disj)
  then have "apply_block env s b =
      (c\<lparr>ls_height := ls_height s + 1,
         ls_last_block_timestamp_ms := normalized_proposal_timestamp s ts,
         ls_tip_hash := block_hash env b\<rparr>, Inr rs)"
    using assms(2,4) h c
    by (simp add: apply_block_ok validate_commitments_ok b block_new_def block_canonical_bytes_def)
  with apply_block_wf [OF assms(1) this] b show ?thesis by (auto simp: block_new_def)
qed

section \<open>Replay\<close>

lemma replay_blocks_from_run:
  "replay_blocks_from env s bs = Inr s' \<longleftrightarrow> (\<exists>rs. run_all (apply_block env) s bs = (s', Inr rs))"
proof (induction bs arbitrary: s)
  case (Cons b bs)
  then show ?case
    by (auto simp: result_simps split: prod.splits sum.splits)
qed simp

lemma replay_finalized_blocks_from:
  "replay_finalized_from env s hist vs = Inr s' \<longleftrightarrow>
     replay_blocks_from env s (map fst hist) = Inr s' \<and>
     (\<forall>(b, c) \<in> set hist. certificate_verify_for_block env c b vs = Inr ())"
proof (induction env s hist vs rule: replay_finalized_from.induct)
  case (2 env s b c history vs)
  then show ?case
    by (auto simp: apply_finalized_block_def split: prod.splits sum.splits)
qed simp

lemma replay_wf: "ledger_wf s \<Longrightarrow> replay_blocks_from env s bs = Inr s' \<Longrightarrow> ledger_wf s'"
  by (auto simp: replay_blocks_from_run intro: block_machine.run_inv)

lemma replay_extends: "replay_blocks_from env s bs = Inr s' \<Longrightarrow> extends s s'"
  unfolding replay_blocks_from_run
  by (elim exE, rule block_machine.run_rel [where R = extends])
    (auto intro: extends_trans extends_apply_block)

end
