(* ===== verification/Demo.thy ===== *)
theory Demo
  imports LedgerProps
begin

text \<open>
  Concrete third-party primitives and small protocol values, at which the witnesses of
  the properties evaluate the definitions: a 32-byte digest that keeps the domain's last
  letter and the input, signatures that repeat the key, encoders that write the fields
  the examples vary.
\<close>

definition demo_hash :: "string \<Rightarrow> bytes \<Rightarrow> bytes" where
  "demo_hash domain x = take 32 (of_char (last domain) # of_nat (length x) # x @ replicate 32 0)"

definition demo_env :: ledger_env where
  "demo_env =
     \<lparr>blake3_derive_key = demo_hash,
      ed25519_public = (\<lambda>sk. take 32 (sk @ replicate 32 0)),
      ed25519_sign = (\<lambda>sk m. take 32 (sk @ replicate 32 0) @ take 32 (sk @ replicate 32 0)),
      ed25519_key_ok = (\<lambda>k. length k = 32),
      ed25519_verify_strict = (\<lambda>k m s. s = k @ k),
      bech32m_encode = (\<lambda>hrp d. Some (hrp @ map unat d)),
      bech32_decode = (\<lambda>s. if take 5 s = str ''kcoin'' then Some (take 5 s, map of_nat (drop 5 s)) else None),
      hex_encode = (\<lambda>x. concat (map (\<lambda>b. [48 + unat b div 16 mod 10, 48 + unat b mod 10]) x)),
      hex_decode = (\<lambda>s. None),
      borsh_unsigned_tx = (\<lambda>u. ucast (ut_nonce u) # ut_sender_public_key u),
      borsh_signed_tx = (\<lambda>t. ucast (ut_nonce (st_unsigned t)) # take 8 (ut_sender_public_key (st_unsigned t))),
      unborsh_signed_tx = (\<lambda>x. None),
      borsh_header = (\<lambda>h. [ucast (bh_height h), ucast (bh_round h)]),
      borsh_block = (\<lambda>b. []),
      unborsh_block = (\<lambda>x. None),
      borsh_commit_vote = (\<lambda>v. [ucast (cv_round v)]),
      borsh_certificate = (\<lambda>c. []),
      unborsh_certificate = (\<lambda>x. None),
      borsh_state_commitment = (\<lambda>sc. [ucast (sc_height sc), ucast (sc_active_challenge_id sc)])\<rparr>"

lemma demo_blake3_length: "blake3_length demo_env"
  by (auto simp: blake3_length_def demo_env_def demo_hash_def min_def)

lemma demo_ed25519_correct: "ed25519_correct demo_env"
  by (auto simp: ed25519_correct_def demo_env_def min_def)

definition demo_key :: "u8 \<Rightarrow> bytes" where
  "demo_key n = replicate 32 n"

definition demo_chain :: chain_id where
  "demo_chain = ChainId (str ''testnet'')"

definition demo_tx :: "u8 \<Rightarrow> u64 \<Rightarrow> transaction_action \<Rightarrow> signed_transaction" where
  "demo_tx n k action =
     \<lparr>st_unsigned = unsigned_new demo_chain (demo_key n) k 100 action,
      st_signature = demo_key n @ demo_key n\<rparr>"

definition demo_address :: "u8 \<Rightarrow> address" where
  "demo_address n = address_from_public_key demo_env (demo_key n)"

text \<open>Validator 1 claims the first challenge, then pays 7 atoms to account 2.\<close>

definition demo_claim :: signed_transaction where
  "demo_claim = demo_tx 1 0 (ClaimReward 0 (challenge_answer (challenge_for_id demo_env 0)))"

definition demo_transfer :: signed_transaction where
  "demo_transfer = demo_tx 1 1 (Transfer (demo_address 2) 7)"

definition demo_claimed :: ledger_state where
  "demo_claimed = fst (apply_transaction demo_env (ledger_new demo_chain) demo_claim 1)"

definition demo_paid :: ledger_state where
  "demo_paid = fst (apply_transaction demo_env demo_claimed demo_transfer 1)"

definition demo_proposer :: validator_id where
  "demo_proposer = ValidatorId (demo_key 1)"

text \<open>A first block with both transactions, and the ledger after it.\<close>

definition demo_block :: block where
  "demo_block = (case build_block demo_env (ledger_new demo_chain) demo_proposer 0 5
       [demo_claim, demo_transfer] of
     Inr b \<Rightarrow> b | Inl _ \<Rightarrow> block_new demo_env demo_chain 0 Hash32_ZERO demo_proposer 0 0 Hash32_ZERO [])"

definition demo_after_block :: ledger_state where
  "demo_after_block = fst (apply_block demo_env (ledger_new demo_chain) demo_block)"

text \<open>Four validators; three of them certify the block.\<close>

definition demo_validators :: "validator_id list" where
  "demo_validators = map (\<lambda>n. ValidatorId (demo_key n)) [1, 2, 3, 4]"

definition demo_certificate_by :: "u8 list \<Rightarrow> commit_certificate" where
  "demo_certificate_by signers =
     (let vote = commit_vote_new demo_chain 1 0 (block_hash demo_env demo_block)
      in certificate_new vote (map (\<lambda>n. commit_signature_sign demo_env vote (demo_key n)) signers))"

lemma demo_claim_applies:
  "is_ok (snd (apply_transaction demo_env (ledger_new demo_chain) demo_claim 1))"
  by code_simp

lemma demo_transfer_applies: "is_ok (snd (apply_transaction demo_env demo_claimed demo_transfer 1))"
  by code_simp

lemma demo_block_built:
  "build_block demo_env (ledger_new demo_chain) demo_proposer 0 5 [demo_claim, demo_transfer] =
     Inr demo_block"
  by code_simp

lemma demo_block_applies: "is_ok (snd (apply_block demo_env (ledger_new demo_chain) demo_block))"
  by code_simp

lemma demo_certificate_ok:
  "certificate_verify_for_block demo_env (demo_certificate_by [3, 1, 2]) demo_block demo_validators = Inr ()"
  by code_simp

lemma demo_certificate_ok2:
  "certificate_verify_for_block demo_env (demo_certificate_by [2, 4, 3]) demo_block demo_validators = Inr ()"
  by code_simp

end
