(* ===== verification/ProtocolProps.thy ===== *)
theory ProtocolProps
  imports Demo
begin

text \<open>
  The properties of the protocol crate, each with a witness on the values of \<open>Demo\<close>.
  They rest on the invariants and effect lemmas of \<open>LedgerProps\<close>, on \<open>Merkle\<close> and on
  the acceptance lemmas of \<open>Commit\<close>.
\<close>

section \<open>Supply and balances\<close>

text \<open>
  C15: In every ledger that replaying a chain of blocks from genesis can produce, the
  account balances sum to the issued supply, the supply is the five-band reward schedule
  of the number of claims and at most 100,000 KCoin, at most 7,400 claims ever succeed,
  and the account nonces count exactly the applied transactions.
\<close>

theorem replayed_ledger_conserves_supply:
  assumes "replay_blocks env chain blocks = Inr s"
  shows "total_balance s = unat (ls_total_supply_atoms s) \<and>
     unat (ls_total_supply_atoms s) = issued_atoms (unat (ls_active_challenge_id s)) \<and>
     unat (ls_total_supply_atoms s) \<le> 100000 * 1000000 \<and>
     unat (ls_active_challenge_id s) \<le> 7400 \<and>
     total_nonces s = applied_transaction_count s"
proof -
  have "ledger_wf s"
    using assms unfolding replay_blocks_def by (rule replay_wf [OF ledger_wf_new])
  then show ?thesis
    using ledger_wf_supply [of s]
    by (simp add: ledger_wf_def applied_transaction_count_def MAX_CLAIMS_def)
qed

lemma demo_replay: "replay_blocks demo_env demo_chain [demo_block] = Inr demo_after_block"
  by code_simp

theorem replayed_ledger_conserves_supply_witness:
  "total_balance demo_after_block = unat (ls_total_supply_atoms demo_after_block)"
  using replayed_ledger_conserves_supply [OF demo_replay] by simp

text \<open>
  C33: On a well-formed ledger \<open>apply_transaction\<close> succeeds exactly when
  \<open>validate_transaction\<close> does: a rejected transaction returns the same error and leaves
  the ledger as it was, and after a validated one the arithmetic re-checks never fail and
  the ledger is well formed again.
\<close>

theorem apply_transaction_agrees_with_validation:
  assumes "ledger_wf s"
  shows "case validate_transaction env s t h of
      Inl e \<Rightarrow> apply_transaction env s t h = (s, Inl e)
    | Inr v \<Rightarrow> \<exists>s' r. apply_transaction env s t h = (s', Inr r) \<and> ledger_wf s' \<and>
        tr_transaction_id r = vt_id v \<and> tr_sender r = vt_sender v"
proof (cases "validate_transaction env s t h")
  case (Inl e)
  then show ?thesis by (simp add: apply_transaction_def)
next
  case (Inr v)
  with assms obtain s' r where ok: "apply_transaction env s t h = (s', Inr r)"
    using apply_transaction_succeeds by blast
  then have "tr_transaction_id r = vt_id v \<and> tr_sender r = vt_sender v"
    using Inr by (elim apply_transaction_okE) auto
  with Inr ok apply_transaction_wf [OF assms ok] show ?thesis by auto
qed

theorem apply_transaction_agrees_with_validation_witness:
  "\<exists>s' r. apply_transaction demo_env (ledger_new demo_chain) demo_claim 1 = (s', Inr r) \<and> ledger_wf s'"
proof -
  have "is_ok (validate_transaction demo_env (ledger_new demo_chain) demo_claim 1)"
    by code_simp
  then show ?thesis
    using apply_transaction_agrees_with_validation [OF ledger_wf_new [of demo_chain], of demo_env demo_claim 1]
    by (auto simp: is_ok_iff)
qed

text \<open>
  C38: A successful transfer moves exactly its amount: the sender had it, the recipient
  gains it, a transfer to oneself and every other balance are unchanged, the sender's
  nonce alone advances by one, and supply and challenge stay.
\<close>

theorem transfer_moves_exactly_the_amount:
  assumes "apply_transaction env s t h = (s', Inr r)"
    and "ut_action (st_unsigned t) = Transfer recipient amount"
  shows "unat amount \<le> balance s (sender_address env t) \<and> amount \<noteq> 0 \<and>
     balance s' a =
       (if sender_address env t = recipient then balance s a
        else if a = sender_address env t then balance s a - unat amount
        else if a = recipient then balance s a + unat amount
        else balance s a) \<and>
     nonce s' a = (if a = sender_address env t then nonce s a + 1 else nonce s a) \<and>
     ls_total_supply_atoms s' = ls_total_supply_atoms s \<and>
     ls_active_challenge_id s' = ls_active_challenge_id s"
proof -
  have "amount \<noteq> 0"
    using assms by (elim apply_transaction_okE) (auto simp: validate_transaction_ok)
  then show ?thesis
    using transfer_after [OF assms] nonce_after [OF assms(1)] by simp
qed

lemma is_ok_pair: "is_ok (snd p) \<Longrightarrow> \<exists>r. p = (fst p, Inr r)"
  by (cases p) (auto simp: is_ok_iff)

theorem transfer_moves_exactly_the_amount_witness:
  "balance demo_paid (demo_address 2) = balance demo_claimed (demo_address 2) + 7"
proof -
  obtain r where ok: "apply_transaction demo_env demo_claimed demo_transfer 1 = (demo_paid, Inr r)"
    using is_ok_pair [OF demo_transfer_applies] by (auto simp: demo_paid_def)
  have act: "ut_action (st_unsigned demo_transfer) = Transfer (demo_address 2) 7"
    by (simp add: demo_transfer_def demo_tx_def unsigned_new_def)
  have ne: "sender_address demo_env demo_transfer \<noteq> demo_address 2"
    by code_simp
  from transfer_moves_exactly_the_amount [OF ok act, of "demo_address 2"] ne show ?thesis by auto
qed

text \<open>
  C39: A successful claim answers the active challenge, credits the sender with exactly
  the scheduled reward, raises the supply by the same amount and opens the next challenge;
  no other balance changes, and the sender's nonce alone advances.
\<close>

theorem claim_issues_exactly_the_reward:
  assumes "apply_transaction env s t h = (s', Inr r)"
    and "ut_action (st_unsigned t) = ClaimReward c ans"
  shows "\<exists>reward. reward_for_supply (ls_total_supply_atoms s) = Some reward \<and>
     c = ls_active_challenge_id s \<and> ans = challenge_answer (current_challenge env s) \<and>
     balance s' a = (if a = sender_address env t then balance s a + unat reward else balance s a) \<and>
     nonce s' a = (if a = sender_address env t then nonce s a + 1 else nonce s a) \<and>
     unat (ls_total_supply_atoms s') = unat (ls_total_supply_atoms s) + unat reward \<and>
     unat (ls_active_challenge_id s') = unat (ls_active_challenge_id s) + 1 \<and>
     tr_outcome r = RewardClaimed c reward"
  using claim_after [OF assms] nonce_after [OF assms(1)] by auto

theorem claim_issues_exactly_the_reward_witness:
  "unat (ls_total_supply_atoms demo_claimed) = 100000000"
proof -
  obtain r where ok: "apply_transaction demo_env (ledger_new demo_chain) demo_claim 1 = (demo_claimed, Inr r)"
    using is_ok_pair [OF demo_claim_applies] by (auto simp: demo_claimed_def)
  have act: "ut_action (st_unsigned demo_claim) =
      ClaimReward 0 (challenge_answer (challenge_for_id demo_env 0))"
    by (simp add: demo_claim_def demo_tx_def unsigned_new_def)
  obtain reward where r: "reward_for_supply (ls_total_supply_atoms (ledger_new demo_chain)) = Some reward"
    "unat (ls_total_supply_atoms demo_claimed) =
       unat (ls_total_supply_atoms (ledger_new demo_chain)) + unat reward"
    using claim_issues_exactly_the_reward [OF ok act] by blast
  from reward_for_supply_Some [OF r(1)] r(2) show ?thesis
    by (simp add: ledger_new_def band_reward_def)
qed

text \<open>
  The reward is the documented table: nothing once 100,000 KCoin are issued, else
  100, 50, 25, 10 or 5 KCoin by bands of 20,000, cut so that issuance lands exactly on
  the cap.
\<close>

theorem reward_schedule:
  "map_option unat (reward_for_supply s) =
     (if 100000 * 1000000 \<le> unat s then None
      else Some (min (100000 * 1000000 - unat s)
        (1000000 *
          (if unat s < 20000 * 1000000 then 100
           else if unat s < 40000 * 1000000 then 50
           else if unat s < 60000 * 1000000 then 25
           else if unat s < 80000 * 1000000 then 10 else 5))))"
proof (cases "reward_for_supply s")
  case None
  then show ?thesis by (simp add: reward_for_supply_unat split: if_splits)
next
  case (Some r)
  have b: "band_reward (unat s div 20000000000) = 1000000 *
      (if unat s < 20000000000 then 100 else if unat s < 40000000000 then 50
       else if unat s < 60000000000 then 25 else if unat s < 80000000000 then 10 else 5)"
  proof -
    have "unat s div 20000000000 = 0 \<longleftrightarrow> unat s < 20000000000"
      "unat s div 20000000000 = 1 \<longleftrightarrow> 20000000000 \<le> unat s \<and> unat s < 40000000000"
      "unat s div 20000000000 = 2 \<longleftrightarrow> 40000000000 \<le> unat s \<and> unat s < 60000000000"
      "unat s div 20000000000 = 3 \<longleftrightarrow> 60000000000 \<le> unat s \<and> unat s < 80000000000"
      by linarith+
    then show ?thesis by (simp add: band_reward_def)
  qed
  with Some reward_for_supply_Some [OF Some] show ?thesis by (simp add: min.commute)
qed

text \<open>
  Every generated challenge has operands from 1 to 9, subtraction never underflows,
  and the 16-bit answer is the exact sum, difference or product.
\<close>

theorem challenge_answer_exact:
  "let c = challenge_for_id env n; l = unat (ch_left c); r = unat (ch_right c) in
     ch_id c = n \<and> l \<in> {1..9} \<and> r \<in> {1..9} \<and>
     int (unat (challenge_answer c)) =
       (case ch_operation c of
          Add \<Rightarrow> int l + int r | Subtract \<Rightarrow> int l - int r | Multiply \<Rightarrow> int l * int r)"
proof -
  define c where "c = challenge_for_id env n"
  have b: "1 \<le> unat (ch_left c)" "unat (ch_left c) \<le> 9" "1 \<le> unat (ch_right c)"
    "unat (ch_right c) \<le> 9" "ch_operation c = Subtract \<Longrightarrow> ch_right c \<le> ch_left c" "ch_id c = n"
    using challenge_for_id_digits [of env n] by (auto simp: c_def)
  have p: "unat (ch_left c) * unat (ch_right c) \<le> 81"
    using mult_le_mono [OF b(2,4)] by simp
  have u: "unat (ucast (x :: u8) :: u16) = unat x" for x
    using unat_u8_less [of x] by (simp add: unsigned_ucast_eq take_bit_nat_eq_self)
  have "int (unat (challenge_answer c)) =
       (case ch_operation c of Add \<Rightarrow> int (unat (ch_left c)) + int (unat (ch_right c))
        | Subtract \<Rightarrow> int (unat (ch_left c)) - int (unat (ch_right c))
        | Multiply \<Rightarrow> int (unat (ch_left c)) * int (unat (ch_right c)))"
  proof (cases "ch_operation c")
    case Add
    have "unat (ucast (ch_left c) + ucast (ch_right c) :: u16) = unat (ch_left c) + unat (ch_right c)"
      using b by (subst unat_add_less) (simp_all add: u)
    with Add show ?thesis by (simp add: challenge_answer_def)
  next
    case Subtract
    then have "unat (ucast (ch_left c) - ucast (ch_right c) :: u16) = unat (ch_left c) - unat (ch_right c)"
      using b by (subst unat_sub_le) (simp_all add: u word_le_nat_alt)
    with Subtract b show ?thesis by (simp add: challenge_answer_def word_le_nat_alt)
  next
    case Multiply
    have "unat (ucast (ch_left c) * ucast (ch_right c) :: u16) = unat (ch_left c) * unat (ch_right c)"
      using p by (simp add: unat_word_ariths u)
    with Multiply show ?thesis by (simp add: challenge_answer_def)
  qed
  with b show ?thesis by (simp add: Let_def c_def [symmetric])
qed

section \<open>Replay and replay protection\<close>

text \<open>
  C35: Once applied, a transaction never applies again: in every ledger reached from there
  by further transactions and any chain of blocks, at every height, it is rejected as a
  duplicate and the ledger does not change.
\<close>

theorem applied_transaction_never_applies_again:
  assumes "apply_transaction env s t h = (s1, Inr r)"
    and "apply_transactions env s1 ts h1 = (s2, q)"
    and "replay_blocks_from env s2 blocks = Inr s3"
  shows "apply_transaction env s3 t h2 = (s3, Inl DuplicateTransaction)"
proof -
  have "extends s1 s3"
    using assms(2,3) by (blast intro: extends_trans extends_apply_transactions replay_extends)
  moreover have "tx_id env t \<in> set (ls_applied_transactions s1)"
    using applied_after [OF assms(1)] by simp
  ultimately have dup: "tx_id env t \<in> set (ls_applied_transactions s3)"
    and chain: "ls_chain_id s3 = ls_chain_id s"
    using apply_transaction_frame [OF assms(1)] by (auto simp: extends_def)
  have "tx_verify_signature env t = Inr ()" "ut_chain_id (st_unsigned t) = ls_chain_id s"
    using assms(1) by (auto elim!: apply_transaction_okE simp: validate_transaction_ok)
  with dup chain show ?thesis
    by (simp add: apply_transaction_def validate_transaction_def Let_def)
qed

theorem applied_transaction_never_applies_again_witness:
  "apply_transaction demo_env demo_paid demo_claim 9 = (demo_paid, Inl DuplicateTransaction)"
proof -
  obtain r where c: "apply_transaction demo_env (ledger_new demo_chain) demo_claim 1 = (demo_claimed, Inr r)"
    using is_ok_pair [OF demo_claim_applies] by (auto simp: demo_claimed_def)
  obtain q where "apply_transaction demo_env demo_claimed demo_transfer 1 = (demo_paid, Inr q)"
    using is_ok_pair [OF demo_transfer_applies] by (auto simp: demo_paid_def)
  then have t: "apply_transactions demo_env demo_claimed [demo_transfer] 1 = (demo_paid, Inr [q])"
    by simp
  show ?thesis
    by (rule applied_transaction_never_applies_again [OF c t, of "[]"]) simp
qed

text \<open>
  C25: \<open>apply_block\<close> is atomic and accepts exactly the right blocks: valid commitments,
  same chain, next height, parent equal to the tip, a timestamp in the allowed window,
  every transaction applicable in order, and the declared state root. An accepted block
  becomes the tip and its receipts carry its transaction identifiers, all distinct and
  new; a rejected one leaves the ledger unchanged.
\<close>

theorem apply_block_accepts_exactly:
  "(case apply_block env s b of
      (s', Inl e) \<Rightarrow> s' = s
    | (s', Inr rs) \<Rightarrow>
        ls_height s' = ls_height s + 1 \<and> ls_tip_hash s' = block_hash env b \<and>
        map tr_transaction_id rs = map (tx_id env) (bk_transactions b) \<and>
        distinct (map (tx_id env) (bk_transactions b)) \<and>
        set (map (tx_id env) (bk_transactions b)) \<inter> set (ls_applied_transactions s) = {}) \<and>
   (is_ok (snd (apply_block env s b)) \<longleftrightarrow>
      validate_commitments env b = Inr () \<and> bh_chain_id (bk_header b) = ls_chain_id s \<and>
      unat (ls_height s) + 1 < 2 ^ 64 \<and> bh_height (bk_header b) = ls_height s + 1 \<and>
      bh_parent_hash (bk_header b) = ls_tip_hash s \<and>
      bh_timestamp_ms (bk_header b) \<le> MAX_BLOCK_TIMESTAMP_MS \<and>
      (ls_height s \<noteq> 0 \<longrightarrow>
         ls_last_block_timestamp_ms s \<le> bh_timestamp_ms (bk_header b) \<and>
         unat (bh_timestamp_ms (bk_header b)) \<le> unat (ls_last_block_timestamp_ms s) + 60000) \<and>
      (\<exists>c rs. apply_transactions env s (bk_transactions b) (bh_height (bk_header b)) = (c, Inr rs) \<and>
         bh_state_root (bk_header b) = state_root env
           (c\<lparr>ls_height := bh_height (bk_header b),
              ls_last_block_timestamp_ms := bh_timestamp_ms (bk_header b)\<rparr>)))"
proof (intro conjI)
  show "case apply_block env s b of
      (s', Inl e) \<Rightarrow> s' = s
    | (s', Inr rs) \<Rightarrow>
        ls_height s' = ls_height s + 1 \<and> ls_tip_hash s' = block_hash env b \<and>
        map tr_transaction_id rs = map (tx_id env) (bk_transactions b) \<and>
        distinct (map (tx_id env) (bk_transactions b)) \<and>
        set (map (tx_id env) (bk_transactions b)) \<inter> set (ls_applied_transactions s) = {}"
  proof (cases "apply_block env s b")
    case (Pair s' r)
    show ?thesis
    proof (cases r)
      case (Inl e)
      with Pair show ?thesis by (simp add: apply_block_error)
    next
      case (Inr rs)
      with Pair obtain c where
        "apply_transactions env s (bk_transactions b) (ls_height s + 1) = (c, Inr rs)"
        "ls_height s' = ls_height s + 1" "ls_tip_hash s' = block_hash env b"
        by (auto simp: apply_block_ok)
      with Pair Inr apply_transactions_ids [OF this(1)] show ?thesis by simp
    qed
  qed
next
  have sat: "ts \<le> saturating_add l MAX_BLOCK_TIMESTAMP_STEP_MS \<longleftrightarrow> unat ts \<le> unat l + 60000"
    for ts l :: u64
  proof -
    have "unat ts \<le> 18446744073709551615" using unat_u64_less [of ts] by simp
    then show ?thesis
      by (simp add: word_le_nat_alt unat_saturating_add MAX_BLOCK_TIMESTAMP_STEP_MS_def)
  qed
  have "is_ok (snd (apply_block env s b)) \<longleftrightarrow> (\<exists>s' rs. apply_block env s b = (s', Inr rs))"
    by (metis is_ok_iff prod.collapse snd_conv)
  then show "is_ok (snd (apply_block env s b)) \<longleftrightarrow>
      validate_commitments env b = Inr () \<and> bh_chain_id (bk_header b) = ls_chain_id s \<and>
      unat (ls_height s) + 1 < 2 ^ 64 \<and> bh_height (bk_header b) = ls_height s + 1 \<and>
      bh_parent_hash (bk_header b) = ls_tip_hash s \<and>
      bh_timestamp_ms (bk_header b) \<le> MAX_BLOCK_TIMESTAMP_MS \<and>
      (ls_height s \<noteq> 0 \<longrightarrow>
         ls_last_block_timestamp_ms s \<le> bh_timestamp_ms (bk_header b) \<and>
         unat (bh_timestamp_ms (bk_header b)) \<le> unat (ls_last_block_timestamp_ms s) + 60000) \<and>
      (\<exists>c rs. apply_transactions env s (bk_transactions b) (bh_height (bk_header b)) = (c, Inr rs) \<and>
         bh_state_root (bk_header b) = state_root env
           (c\<lparr>ls_height := bh_height (bk_header b),
              ls_last_block_timestamp_ms := bh_timestamp_ms (bk_header b)\<rparr>))"
    by (auto simp: apply_block_ok timestamp_ok_def sat)
qed

theorem apply_block_accepts_exactly_witness:
  "ls_height demo_after_block = ls_height (ledger_new demo_chain) + 1 \<and>
   ls_tip_hash demo_after_block = block_hash demo_env demo_block"
proof -
  obtain rs where "apply_block demo_env (ledger_new demo_chain) demo_block = (demo_after_block, Inr rs)"
    using demo_replay by (auto simp: replay_blocks_def split: prod.splits sum.splits)
  then show ?thesis
    using apply_block_accepts_exactly
      [where env = demo_env and s = "ledger_new demo_chain" and b = demo_block] by simp
qed

text \<open>
  A block that \<open>build_block\<close> produces on a well-formed ledger, whatever wall-clock
  time was requested, is accepted by \<open>apply_block\<close> on the same ledger, provided its
  encoding fits the block size limit and the chain identifier is valid.
\<close>

theorem built_block_is_accepted:
  assumes "ledger_wf s" and "chain_id_validate (ls_chain_id s) = Inr ()"
    and "build_block env s proposer round ts txs = Inr b"
    and "length (block_canonical_bytes env b) \<le> MAX_BLOCK_BYTES"
  shows "\<exists>s' rs. apply_block env s b = (s', Inr rs) \<and> ledger_wf s' \<and>
     bk_transactions b = txs \<and> bh_proposer (bk_header b) = proposer \<and> bh_round (bk_header b) = round"
  using assms by (rule build_block_applies)

theorem built_block_is_accepted_witness:
  "\<exists>s' rs. apply_block demo_env (ledger_new demo_chain) demo_block = (s', Inr rs) \<and> ledger_wf s'"
proof -
  have v: "chain_id_validate (ls_chain_id (ledger_new demo_chain)) = Inr ()" by code_simp
  have l: "length (block_canonical_bytes demo_env demo_block) \<le> MAX_BLOCK_BYTES"
    by (simp add: block_canonical_bytes_def demo_env_def)
  from built_block_is_accepted [OF ledger_wf_new v demo_block_built l] show ?thesis by auto
qed

text \<open>
  Replaying certified history is exactly replaying its blocks and checking every
  certificate: the resulting ledger is that of \<open>replay_blocks\<close>, and replay fails as soon
  as one certificate does not verify for its block.
\<close>

theorem replay_finalized_is_replay_plus_certificates:
  "replay_finalized_blocks env chain history validators = Inr s \<longleftrightarrow>
     replay_blocks env chain (map fst history) = Inr s \<and>
     (\<forall>i < length history.
        certificate_verify_for_block env (snd (history ! i)) (fst (history ! i)) validators = Inr ())"
proof -
  have "(\<forall>(b, c) \<in> set history. certificate_verify_for_block env c b validators = Inr ()) \<longleftrightarrow>
     (\<forall>i < length history.
        certificate_verify_for_block env (snd (history ! i)) (fst (history ! i)) validators = Inr ())"
    by (force simp: all_set_conv_all_nth split_beta)
  then show ?thesis
    unfolding replay_finalized_blocks_def replay_blocks_def by (simp add: replay_finalized_blocks_from)
qed

theorem replay_finalized_is_replay_plus_certificates_witness:
  "replay_finalized_blocks demo_env demo_chain [(demo_block, demo_certificate_by [3, 1, 2])]
     demo_validators = Inr demo_after_block"
  using demo_replay demo_certificate_ok
  by (subst replay_finalized_is_replay_plus_certificates) simp

lemma replay_chain:
  "replay_blocks_from env s blocks = Inr s' \<Longrightarrow>
     unat (ls_height s') = unat (ls_height s) + length blocks \<and>
     ls_tip_hash s' = (if blocks = [] then ls_tip_hash s else block_hash env (last blocks)) \<and>
     (\<forall>i < length blocks. unat (bh_height (bk_header (blocks ! i))) = unat (ls_height s) + i + 1 \<and>
        bh_parent_hash (bk_header (blocks ! i)) =
          (if i = 0 then ls_tip_hash s else block_hash env (blocks ! (i - 1))))"
proof (induction blocks arbitrary: s)
  case (Cons b bs)
  then obtain s1 rs where s1: "apply_block env s b = (s1, Inr rs)" "replay_blocks_from env s1 bs = Inr s'"
    by (auto split: prod.splits sum.splits)
  then have st: "unat (ls_height s1) = unat (ls_height s) + 1" "ls_tip_hash s1 = block_hash env b"
    "unat (bh_height (bk_header b)) = unat (ls_height s) + 1" "bh_parent_hash (bk_header b) = ls_tip_hash s"
    by (auto simp: apply_block_ok unat_add_less)
  with Cons.IH [OF s1(2)] show ?case
    by (auto simp: nth_Cons split: nat.splits)
qed simp

text \<open>
  A replayed history is a hash-linked chain: block \<open>i\<close> has height \<open>i + 1\<close>, its parent
  hash is the hash of block \<open>i - 1\<close> (the zero digest for the first), and the ledger's
  height and tip are those of the last block.
\<close>

theorem replayed_history_is_a_chain:
  assumes "replay_blocks env chain blocks = Inr s"
  shows "unat (ls_height s) = length blocks \<and>
     ls_tip_hash s = (if blocks = [] then Hash32_ZERO else block_hash env (last blocks)) \<and>
     (\<forall>i < length blocks. unat (bh_height (bk_header (blocks ! i))) = i + 1 \<and>
        bh_parent_hash (bk_header (blocks ! i)) =
          (if i = 0 then Hash32_ZERO else block_hash env (blocks ! (i - 1))))"
  using replay_chain [OF assms [unfolded replay_blocks_def]] by (simp add: ledger_new_def)

theorem replayed_history_is_a_chain_witness:
  "ls_tip_hash demo_after_block = block_hash demo_env demo_block"
  using replayed_history_is_a_chain [OF demo_replay] by simp

section \<open>What the transaction root commits to\<close>

text \<open>
  C40: The Merkle root binds the transactions of duplicate-free lists: where BLAKE3 has no
  collision among the inputs the two computations hash and the transaction codec is
  injective on the lists, equal roots mean the same transactions in the same order.
\<close>

theorem merkle_root_binds_transactions:
  assumes "no_collision env (merkle_inputs env txs1 \<union> merkle_inputs env txs2)"
    and "blake3_length env"
    and "inj_on (borsh_signed_tx env) (set txs1 \<union> set txs2)"
    and "distinct (map (tx_id env) txs1)" and "distinct (map (tx_id env) txs2)"
    and "merkle_root env txs1 = merkle_root env txs2"
  shows "txs1 = txs2"
proof -
  let ?S = "merkle_inputs env txs1 \<union> merkle_inputs env txs2" and ?T = "set txs1 \<union> set txs2"
  note nc = assms(1)
  have leaf_id: "tx_id env t = tx_id env u"
    if "merkle_leaf env t = merkle_leaf env u" "t \<in> ?T" "u \<in> ?T" for t u
    using that by (intro merkle_leaf_inj [OF nc]) (auto dest: merkle_inputs_mem)
  have id_tx: "t = u" if "tx_id env t = tx_id env u" "t \<in> ?T" "u \<in> ?T" for t u
  proof -
    have "borsh_signed_tx env t = borsh_signed_tx env u"
      using that by (intro tx_id_inj [OF nc]) (auto dest: merkle_inputs_mem)
    with assms(3) that(2,3) show ?thesis by (metis inj_onD)
  qed
  have dist: "distinct (map (merkle_leaf env) txs1)" "distinct (map (merkle_leaf env) txs2)"
    using assms(4,5) by (auto simp: distinct_map intro!: inj_onI dest: leaf_id inj_onD)
  have "map (merkle_leaf env) txs1 = map (merkle_leaf env) txs2"
  proof (cases "txs1 = [] \<or> txs2 = []")
    case True
    then have "(MERKLE_EMPTY_DOMAIN, []) \<in> ?S" by (auto simp: merkle_inputs_def)
    with True assms(6) merkle_root_empty_iff [OF nc] show ?thesis
      by (metis Un_upper1 Un_upper2)
  next
    case False
    then show ?thesis
      using assms(6) dist by (intro merkle_root_leaves [OF nc assms(2)]) auto
  qed
  moreover have "inj_on (merkle_leaf env) ?T"
    using leaf_id id_tx by (meson inj_onI)
  ultimately show ?thesis by (rule map_inj_on)
qed

lemma merkle_inputs_list:
  "merkle_inputs env txs = set (map (id_input env) txs @ map (leaf_input env) txs @
     (if txs = [] then [(MERKLE_EMPTY_DOMAIN, [])] else level_inputs env (map (merkle_leaf env) txs)))"
  by (auto simp: merkle_inputs_def)

theorem merkle_root_binds_transactions_witness:
  "merkle_root demo_env [demo_claim, demo_transfer] \<noteq> merkle_root demo_env [demo_transfer, demo_claim]"
proof
  let ?a = "[demo_claim, demo_transfer]" and ?b = "[demo_transfer, demo_claim]"
  let ?in = "\<lambda>txs. map (id_input demo_env) txs @ map (leaf_input demo_env) txs @
      (if txs = [] then [(MERKLE_EMPTY_DOMAIN, [])] else level_inputs demo_env (map (merkle_leaf demo_env) txs))"
  assume root: "merkle_root demo_env ?a = merkle_root demo_env ?b"
  have "distinct (map (hash_input demo_env) (remdups (?in ?a @ ?in ?b)))"
    by code_simp
  then have "inj_on (hash_input demo_env) (set (?in ?a @ ?in ?b))"
    by (simp only: distinct_map set_remdups)
  then have nc: "no_collision demo_env (merkle_inputs demo_env ?a \<union> merkle_inputs demo_env ?b)"
    unfolding merkle_inputs_list no_collision_def set_append .
  have "distinct (map (borsh_signed_tx demo_env) ?a)" by code_simp
  then have inj: "inj_on (borsh_signed_tx demo_env) (set ?a \<union> set ?b)"
    by (auto simp: inj_on_def)
  have dist: "distinct (map (tx_id demo_env) ?a)" "distinct (map (tx_id demo_env) ?b)" by code_simp+
  have "?a = ?b"
    by (rule merkle_root_binds_transactions [OF nc demo_blake3_length inj dist root])
  then have "tx_id demo_env demo_claim = tx_id demo_env demo_transfer" by (metis list.inject)
  with dist(1) show False by (metis distinct_length_2_or_more list.simps(9))
qed

text \<open>
  The root alone does not determine a transaction list: repeating the last of an odd
  number (at least three) of transactions keeps the root. The ledger rejects every such
  list, on every state and at every height, because the repeated transaction is a
  duplicate.
\<close>

theorem merkle_root_repeats_last_transaction:
  assumes "odd (length txs)" and "1 < length txs"
  shows "merkle_root env (txs @ [last txs]) = merkle_root env txs \<and>
     \<not> is_ok (snd (apply_transactions env s (txs @ [last txs]) h))"
proof
  let ?l = "map (merkle_leaf env) txs"
  have ne: "txs \<noteq> []" using assms(2) by auto
  have l: "map (merkle_leaf env) (txs @ [last txs]) = ?l @ [last ?l]"
    using ne by (simp add: last_map)
  have "merkle_next env (?l @ [last ?l]) = merkle_next env ?l"
    using assms(1) by (intro merkle_next_dup_last) simp
  then have "merkle_levels env (?l @ [last ?l]) = merkle_levels env ?l"
    using assms(2) ne
    by (simp add: merkle_levels.simps [of env "?l @ [last ?l]"] merkle_levels.simps [of env ?l])
  then show "merkle_root env (txs @ [last txs]) = merkle_root env txs"
    using ne l by (simp add: merkle_root_def)
  have "\<not> distinct (map (tx_id env) (txs @ [last txs]))" using ne by simp
  then show "\<not> is_ok (snd (apply_transactions env s (txs @ [last txs]) h))"
    using apply_transactions_ids [of env s "txs @ [last txs]" h]
    by (metis is_ok_iff prod.collapse)
qed

theorem merkle_root_repeats_last_transaction_witness:
  "merkle_root demo_env [demo_claim, demo_transfer, demo_claim, demo_claim] =
   merkle_root demo_env [demo_claim, demo_transfer, demo_claim]"
  using merkle_root_repeats_last_transaction [of "[demo_claim, demo_transfer, demo_claim]" demo_env]
  by simp

section \<open>Certificates\<close>

text \<open>
  The quorum size is \<open>floor(2N/3) + 1\<close>, never more than the validators; two quorums
  overlap in more than \<open>floor((N-1)/3)\<close> validators, and the validators that remain when that
  many fail are still a quorum.
\<close>

theorem quorum_size_is_byzantine_quorum:
  assumes "0 < n"
  shows "quorum_size n = 2 * n div 3 + 1 \<and> quorum_size n \<le> n \<and>
     (n - 1) div 3 < 2 * quorum_size n - n \<and> quorum_size n \<le> n - (n - 1) div 3"
  using assms quorum_overlap [OF assms] quorum_size_floor [OF assms] quorum_size_le [of n]
  unfolding quorum_size_def by linarith

theorem quorum_size_is_byzantine_quorum_witness: "quorum_size 4 = 3"
  using quorum_size_is_byzantine_quorum [of 4] by simp

text \<open>
  C32: \<open>certificate_verify\<close> accepts exactly the well-formed quorum certificates: bounded
  size, right version and chain identifier, a non-empty validator list without
  duplicates, signers in strictly increasing order taken from that list, a strict
  signature of each over the certified vote, and at least a quorum of them.
\<close>

theorem certificate_verify_accepts_exactly:
  "certificate_verify env c validators = Inr () \<longleftrightarrow>
     length (certificate_canonical_bytes env c) \<le> 65536 \<and>
     cc_protocol_version c = 1 \<and> chain_id_validate (cc_chain_id c) = Inr () \<and>
     validators \<noteq> [] \<and> distinct validators \<and>
     sorted_wrt (<) (certificate_signers c) \<and> set (certificate_signers c) \<subseteq> set validators \<and>
     quorum_size (length validators) \<le> length (cc_signatures c) \<and>
     (\<forall>cs \<in> set (cc_signatures c).
        ed25519_key_ok env (vid_as_bytes (cs_validator cs)) \<and>
        ed25519_verify_strict env (vid_as_bytes (cs_validator cs))
          (vote_signing_bytes env (certificate_vote c)) (cs_signature cs))"
  by (auto simp: certificate_verify_ok commit_signature_ok_def MAX_COMMIT_CERTIFICATE_BYTES_def
      certificate_canonical_bytes_def)

theorem certificate_verify_accepts_exactly_witness:
  "certificate_verify demo_env (demo_certificate_by [3, 1, 2]) demo_validators = Inr () \<and>
   certificate_verify demo_env (demo_certificate_by [3, 1]) demo_validators \<noteq> Inr ()"
proof
  show "certificate_verify demo_env (demo_certificate_by [3, 1, 2]) demo_validators = Inr ()"
    by code_simp
  have "length (cc_signatures (demo_certificate_by [3, 1])) = 2" by code_simp
  then show "certificate_verify demo_env (demo_certificate_by [3, 1]) demo_validators \<noteq> Inr ()"
    by (subst certificate_verify_accepts_exactly) (simp add: demo_validators_def quorum_size_def)
qed

text \<open>
  Two verified certificates over the same validators always share a signer outside any
  set of at most \<open>floor((N-1)/3)\<close> faulty validators, and that validator's signatures verify
  for both certified votes.
\<close>

theorem certificates_share_an_honest_signer:
  assumes "certificate_verify env c1 validators = Inr ()"
    and "certificate_verify env c2 validators = Inr ()"
    and "card (set validators \<inter> faulty) \<le> (length validators - 1) div 3"
  shows "\<exists>v. v \<notin> faulty \<and> v \<in> set validators \<and>
     (\<exists>s1 \<in> set (cc_signatures c1). cs_validator s1 = v \<and>
        ed25519_verify_strict env (vid_as_bytes v)
          (vote_signing_bytes env (certificate_vote c1)) (cs_signature s1)) \<and>
     (\<exists>s2 \<in> set (cc_signatures c2). cs_validator s2 = v \<and>
        ed25519_verify_strict env (vid_as_bytes v)
          (vote_signing_bytes env (certificate_vote c2)) (cs_signature s2))"
proof -
  have q: "is_quorum validators (set (certificate_signers c1))"
    "is_quorum validators (set (certificate_signers c2))"
    using assms(1,2) by (auto intro: certificate_verify_quorum)
  have "card (set validators \<inter> faulty) \<le> max_faults validators"
    using assms(1,3) by (simp add: max_faults_def certificate_verify_ok distinct_card)
  then obtain v where v: "v \<in> set (certificate_signers c1)" "v \<in> set (certificate_signers c2)" "v \<notin> faulty"
    using bft.quorum_honest_Int [OF q] by blast
  then obtain s1 s2 where "s1 \<in> set (cc_signatures c1)" "cs_validator s1 = v"
    "s2 \<in> set (cc_signatures c2)" "cs_validator s2 = v"
    by (auto simp: certificate_signers_def)
  moreover from this have "commit_signature_ok env (certificate_vote c1) s1"
    "commit_signature_ok env (certificate_vote c2) s2"
    using assms(1,2) by (auto simp: certificate_verify_ok)
  moreover have "v \<in> set validators" using v(1) assms(1) by (auto simp: certificate_verify_ok)
  ultimately show ?thesis
    using v(3) by (intro exI [of _ v]) (auto simp: commit_signature_ok_def)
qed

theorem certificates_share_an_honest_signer_witness:
  "\<exists>v. v \<notin> {ValidatorId (demo_key 4)} \<and>
     v \<in> set (certificate_signers (demo_certificate_by [3, 1, 2])) \<inter>
         set (certificate_signers (demo_certificate_by [2, 4, 3]))"
proof -
  have v: "certificate_verify demo_env (demo_certificate_by [3, 1, 2]) demo_validators = Inr ()"
    "certificate_verify demo_env (demo_certificate_by [2, 4, 3]) demo_validators = Inr ()"
    by code_simp+
  have "card (set demo_validators \<inter> {ValidatorId (demo_key 4)}) \<le> card {ValidatorId (demo_key 4)}"
    by (intro card_mono) auto
  then have "card (set demo_validators \<inter> {ValidatorId (demo_key 4)}) \<le> (length demo_validators - 1) div 3"
    by (simp add: demo_validators_def)
  from certificates_share_an_honest_signer [OF v this] show ?thesis
    by (force simp: certificate_signers_def)
qed

lemma assembled_certificate:
  assumes "distinct (map (validator_from_signing_key env) keys)"
  shows "set (certificate_signers (certificate_new vote (map (commit_signature_sign env vote) keys))) =
      validator_from_signing_key env ` set keys \<and>
    sorted_wrt (<) (certificate_signers (certificate_new vote (map (commit_signature_sign env vote) keys)))"
proof -
  let ?c = "certificate_new vote (map (commit_signature_sign env vote) keys)"
  have signers: "certificate_signers ?c =
      map cs_validator (sort_key cs_validator (map (commit_signature_sign env vote) keys))"
    by (simp add: certificate_new_def certificate_signers_def)
  have m: "map cs_validator (map (commit_signature_sign env vote) keys) =
      map (validator_from_signing_key env) keys"
    by (simp add: commit_signature_sign_def)
  have "distinct (certificate_signers ?c)"
    using assms unfolding signers m [symmetric]
    by (auto simp: distinct_map inj_on_def)
  moreover have "set (certificate_signers ?c) = validator_from_signing_key env ` set keys"
    unfolding signers by (simp add: image_image commit_signature_sign_def)
  ultimately show ?thesis by (simp add: strict_sorted_iff signers)
qed

text \<open>
  Precommit signatures of distinct authorized validators over one vote, in any order
  and at least a quorum of them, assemble with \<open>certificate_new\<close> into a certificate that
  verifies.
\<close>

theorem signed_precommits_form_a_certificate:
  assumes "ed25519_correct env"
    and "chain_id_validate (cv_chain_id vote) = Inr ()" and "cv_protocol_version vote = 1"
    and "distinct (map (validator_from_signing_key env) keys)"
    and "validator_from_signing_key env ` set keys \<subseteq> set validators" and "distinct validators"
    and "validators \<noteq> []" and "quorum_size (length validators) \<le> length keys"
    and "c = certificate_new vote (map (commit_signature_sign env vote) keys)"
    and "length (certificate_canonical_bytes env c) \<le> MAX_COMMIT_CERTIFICATE_BYTES"
  shows "certificate_verify env c validators = Inr ()"
proof -
  have "certificate_vote c = vote"
    by (simp add: certificate_vote_def assms(9) certificate_new_def)
  moreover have "commit_signature_ok env vote cs" if "cs \<in> set (cc_signatures c)" for cs
    using that assms(1)
    by (auto simp: assms(9) certificate_new_def commit_signature_ok_def commit_signature_sign_def
        validator_from_signing_key_def ed25519_correct_def)
  moreover have "cc_protocol_version c = 1" "cc_chain_id c = cv_chain_id vote"
    "length (cc_signatures c) = length keys"
    by (simp_all add: assms(3,9) certificate_new_def)
  ultimately show ?thesis
    using assms assembled_certificate [OF assms(4), of vote]
    by (simp add: certificate_verify_ok certificate_canonical_bytes_def)
qed

theorem signed_precommits_form_a_certificate_witness:
  "certificate_verify demo_env (demo_certificate_by [3, 1, 2]) demo_validators = Inr ()"
proof (rule signed_precommits_form_a_certificate [OF demo_ed25519_correct,
    where vote = "commit_vote_new demo_chain 1 0 (block_hash demo_env demo_block)"
      and keys = "map demo_key [3, 1, 2]"])
  show "demo_certificate_by [3, 1, 2] =
      certificate_new (commit_vote_new demo_chain 1 0 (block_hash demo_env demo_block))
        (map (commit_signature_sign demo_env (commit_vote_new demo_chain 1 0 (block_hash demo_env demo_block)))
          (map demo_key [3, 1, 2]))"
    by (simp add: demo_certificate_by_def Let_def)
  show "length (certificate_canonical_bytes demo_env (demo_certificate_by [3, 1, 2])) \<le>
      MAX_COMMIT_CERTIFICATE_BYTES"
    by (simp add: certificate_canonical_bytes_def demo_env_def)
qed code_simp+

section \<open>Transactions and addresses\<close>

text \<open>
  A transaction signed with the key it names passes signature verification, and
  decoding its canonical bytes gives back exactly it, with the same identifier; decoding
  accepts nothing that is longer than the limit or whose signature does not verify.
\<close>

theorem signed_transaction_round_trip:
  assumes "ed25519_correct env" and "tx_sign env u signing_key = Inr t"
    and "unborsh_signed_tx env (borsh_signed_tx env t) = Some t"
    and "length (tx_canonical_bytes env t) \<le> MAX_TRANSACTION_BYTES"
  shows "tx_verify_signature env t = Inr () \<and> tx_decode env (tx_canonical_bytes env t) = Inr t \<and>
     (\<forall>x t'. tx_decode env x = Inr t' \<longrightarrow>
        length x \<le> 4096 \<and> tx_verify_signature env t' = Inr ())"
  using tx_sign_verifies [OF assms(1,2)] assms(3,4)
  by (simp add: tx_decode_ok tx_canonical_bytes_def MAX_TRANSACTION_BYTES_def)

lemma tx_sign_decoder: "tx_sign (env\<lparr>unborsh_signed_tx := f\<rparr>) u k = tx_sign env u k"
  by (simp add: tx_sign_def tx_signing_bytes_def)

theorem signed_transaction_round_trip_witness:
  "\<exists>t. tx_sign demo_env (st_unsigned demo_transfer) (demo_key 1) = Inr t \<and>
     tx_decode (demo_env\<lparr>unborsh_signed_tx := \<lambda>x. Some t\<rparr>) (tx_canonical_bytes demo_env t) = Inr t"
proof -
  have "is_ok (tx_sign demo_env (st_unsigned demo_transfer) (demo_key 1))" by code_simp
  then obtain t where t: "tx_sign demo_env (st_unsigned demo_transfer) (demo_key 1) = Inr t"
    by (auto simp: is_ok_iff)
  let ?env = "demo_env\<lparr>unborsh_signed_tx := \<lambda>x. Some t\<rparr>"
  have e: "ed25519_correct ?env" using demo_ed25519_correct by (simp add: ed25519_correct_def)
  have s: "tx_sign ?env (st_unsigned demo_transfer) (demo_key 1) = Inr t"
    using t by (simp add: tx_sign_decoder)
  have "length (tx_canonical_bytes ?env t) \<le> MAX_TRANSACTION_BYTES"
    by (simp add: tx_canonical_bytes_def demo_env_def MAX_TRANSACTION_BYTES_def)
  from signed_transaction_round_trip [OF e s _ this] t show ?thesis
    by (simp add: tx_canonical_bytes_def)
qed

text \<open>
  A display name is accepted exactly when it is non-empty, at most 64 UTF-8 bytes and
  32 characters, without control characters and without white space at either end; clearing
  the name is always accepted.
\<close>

theorem display_name_accepted_exactly:
  "validate_display_name name = Inr () \<longleftrightarrow>
     (case name of None \<Rightarrow> True
      | Some n \<Rightarrow> n \<noteq> [] \<and> str_len n \<le> 64 \<and> length n \<le> 32 \<and>
          \<not> is_whitespace (hd n) \<and> \<not> is_whitespace (last n) \<and> (\<forall>c \<in> set n. \<not> is_control c))"
proof (cases name)
  case None
  then show ?thesis by (simp add: validate_display_name_def)
next
  case (Some n)
  then show ?thesis by (simp add: validate_display_name_ok)
qed

theorem display_name_accepted_exactly_witness:
  "validate_display_name (Some (str ''Kim '')) \<noteq> Inr () \<and> validate_display_name (Some (str ''Kim'')) = Inr ()"
proof
  have "is_whitespace (last (str ''Kim ''))" by code_simp
  then show "validate_display_name (Some (str ''Kim '')) \<noteq> Inr ()"
    by (subst display_name_accepted_exactly) simp
  show "validate_display_name (Some (str ''Kim'')) = Inr ()" by code_simp
qed

text \<open>
  Printing and parsing an address are inverse: the canonical text of a 20-byte address
  parses to it, and any text that parses to an address is that canonical text, so every
  address has exactly one accepted spelling.
\<close>

theorem address_text_round_trip:
  assumes "bech32m_roundtrip env" and "length (addr_as_bytes a) = 20"
  shows "\<exists>shown. address_display env a = Some shown \<and>
     (\<forall>v. address_from_str env v = Some (Inr a) \<longleftrightarrow> v = shown)"
proof -
  obtain shown where t: "bech32m_encode env ADDRESS_HRP (addr_as_bytes a) = Some shown"
    "bech32_decode env shown = Some (ADDRESS_HRP, addr_as_bytes a)"
    using assms by (auto simp: bech32m_roundtrip_def)
  then have "address_from_str env shown = Some (Inr a)"
    using assms(2) by (simp add: address_from_str_def address_display_def Let_def ADDRESS_LENGTH_def)
  moreover have "v = shown" if "address_from_str env v = Some (Inr a)" for v
    using address_from_str_canonical [OF that] t(1) by (simp add: address_display_def)
  ultimately have "\<forall>v. address_from_str env v = Some (Inr a) \<longleftrightarrow> v = shown" by blast
  moreover have "address_display env a = Some shown" using t(1) by (simp add: address_display_def)
  ultimately show ?thesis by blast
qed

theorem address_text_round_trip_witness:
  "\<exists>text. address_display demo_env (demo_address 1) = Some text \<and>
     address_from_str demo_env text = Some (Inr (demo_address 1))"
proof -
  have u: "map (of_nat \<circ> unat) d = d" for d :: bytes by (induction d) simp_all
  have "bech32m_roundtrip demo_env"
    by (simp add: bech32m_roundtrip_def demo_env_def ADDRESS_HRP_def str_def u)
  moreover have "length (addr_as_bytes (demo_address 1)) = 20" by code_simp
  ultimately show ?thesis using address_text_round_trip by blast
qed

end
