(* ===== verification/ConsensusTypes.thy ===== *)
theory ConsensusTypes
  imports Ledger "HOL-Library.Product_Lexorder"
begin

text \<open>
  \<open>kcoin-consensus/src/types.rs\<close>: identities, the validator set with its proposer
  rotation, votes and proposals with their signing bytes, certificates and their
  conversion to and from the protocol's, the durable safety state, events, effects,
  evidence and the configuration. Names that the protocol crate or the library already
  uses carry a prefix (\<open>C\<close> for the consensus validator identity and certificate).
  \<open>usize\<close> is 64 bits wide; a \<open>Duration\<close> is its number of nanoseconds.
\<close>

section \<open>Identities\<close>

datatype block_id = BlockId (blk_bytes: bytes)

instantiation block_id :: linorder
begin
definition less_eq_block_id :: "block_id \<Rightarrow> block_id \<Rightarrow> bool" where
  "less_eq_block_id a b \<longleftrightarrow> blk_bytes a \<le> blk_bytes b"
definition less_block_id :: "block_id \<Rightarrow> block_id \<Rightarrow> bool" where
  "less_block_id a b \<longleftrightarrow> blk_bytes a < blk_bytes b"
instance
  by standard (auto simp: less_eq_block_id_def less_block_id_def block_id.expand)
end

definition block_id_of_hash :: "hash32 \<Rightarrow> block_id" where
  "block_id_of_hash h = BlockId (hash_as_bytes h)"

definition hash_of_block_id :: "block_id \<Rightarrow> hash32" where
  "hash_of_block_id b = Hash32 (blk_bytes b)"

datatype cvalidator_id = CValidatorId (cvid_bytes: bytes)

instantiation cvalidator_id :: linorder
begin
definition less_eq_cvalidator_id :: "cvalidator_id \<Rightarrow> cvalidator_id \<Rightarrow> bool" where
  "less_eq_cvalidator_id a b \<longleftrightarrow> cvid_bytes a \<le> cvid_bytes b"
definition less_cvalidator_id :: "cvalidator_id \<Rightarrow> cvalidator_id \<Rightarrow> bool" where
  "less_cvalidator_id a b \<longleftrightarrow> cvid_bytes a < cvid_bytes b"
instance
  by standard (auto simp: less_eq_cvalidator_id_def less_cvalidator_id_def cvalidator_id.expand)
end

definition cvid_of_protocol :: "validator_id \<Rightarrow> cvalidator_id" where
  "cvid_of_protocol v = CValidatorId (vid_as_bytes v)"

definition cvid_to_protocol :: "cvalidator_id \<Rightarrow> validator_id" where
  "cvid_to_protocol v = ValidatorId (cvid_bytes v)"

section \<open>Validator set\<close>

datatype validator_set_error = ValidatorSetEmpty | ValidatorSetDuplicate cvalidator_id

datatype validator_set = ValidatorSet (vs_validators: "cvalidator_id list")

fun first_repeat :: "cvalidator_id list \<Rightarrow> cvalidator_id list \<Rightarrow> cvalidator_id option" where
  "first_repeat seen [] = None"
| "first_repeat seen (v # vs) = (if v \<in> set seen then Some v else first_repeat (bset_insert v seen) vs)"

definition validator_set_new :: "cvalidator_id list \<Rightarrow> validator_set_error + validator_set" where
  "validator_set_new validators =
     (if validators = [] then Inl ValidatorSetEmpty
      else case first_repeat [] validators of
        Some v \<Rightarrow> Inl (ValidatorSetDuplicate v)
      | None \<Rightarrow> Inr (ValidatorSet validators))"

definition vs_contains :: "validator_set \<Rightarrow> cvalidator_id \<Rightarrow> bool" where
  "vs_contains vs v \<longleftrightarrow> v \<in> set (vs_validators vs)"

definition vs_len :: "validator_set \<Rightarrow> nat" where
  "vs_len vs = length (vs_validators vs)"

definition vs_quorum :: "validator_set \<Rightarrow> nat" where
  "vs_quorum vs = quorum_size (length (vs_validators vs))"

text \<open>
  The sum of the two offsets is computed in \<open>usize\<close>; it wraps in the release profile
  (and panics in a debug build) when it reaches \<open>2 ^ 64\<close>.
\<close>

definition vs_proposer :: "validator_set \<Rightarrow> u64 \<Rightarrow> u32 \<Rightarrow> cvalidator_id" where
  "vs_proposer vs height round =
     (let height_offset = saturating_sub height 1;
          index = (height_offset + ucast round) mod of_nat (length (vs_validators vs))
      in vs_validators vs ! unat index)"

section \<open>Votes and proposals\<close>

datatype vote_kind = Prevote | Precommit

fun vote_kind_rank :: "vote_kind \<Rightarrow> nat" where
  "vote_kind_rank Prevote = 0" | "vote_kind_rank Precommit = 1"

instantiation vote_kind :: linorder
begin
definition less_eq_vote_kind :: "vote_kind \<Rightarrow> vote_kind \<Rightarrow> bool" where
  "less_eq_vote_kind a b \<longleftrightarrow> vote_kind_rank a \<le> vote_kind_rank b"
definition less_vote_kind :: "vote_kind \<Rightarrow> vote_kind \<Rightarrow> bool" where
  "less_vote_kind a b \<longleftrightarrow> vote_kind_rank a < vote_kind_rank b"
instance
proof
  fix x y :: vote_kind
  show "x \<le> y \<Longrightarrow> y \<le> x \<Longrightarrow> x = y"
    by (cases x; cases y) (simp_all add: less_eq_vote_kind_def)
qed (auto simp: less_eq_vote_kind_def less_vote_kind_def)
end

datatype vote_value = VoteNil | VoteBlock block_id

fun vote_value_rank :: "vote_value \<Rightarrow> block_id list" where
  "vote_value_rank VoteNil = []" | "vote_value_rank (VoteBlock b) = [b]"

lemma vote_value_rank_inj: "vote_value_rank x = vote_value_rank y \<Longrightarrow> x = y"
  by (cases x; cases y) simp_all

instantiation vote_value :: linorder
begin
definition less_eq_vote_value :: "vote_value \<Rightarrow> vote_value \<Rightarrow> bool" where
  "less_eq_vote_value a b \<longleftrightarrow> vote_value_rank a \<le> vote_value_rank b"
definition less_vote_value :: "vote_value \<Rightarrow> vote_value \<Rightarrow> bool" where
  "less_vote_value a b \<longleftrightarrow> vote_value_rank a < vote_value_rank b"
instance
  by standard (auto simp: less_eq_vote_value_def less_vote_value_def intro: vote_value_rank_inj)
end

record vote =
  v_chain_id :: rstring
  v_height :: u64
  v_round :: u32
  v_kind :: vote_kind
  v_validator :: cvalidator_id
  v_value :: vote_value

record signed_vote =
  sv_vote :: vote
  sv_signature :: bytes

record proposal =
  p_chain_id :: rstring
  p_height :: u64
  p_round :: u32
  p_proposer :: cvalidator_id
  p_block_id :: block_id
  p_valid_round :: "u32 option"
  p_valid_round_proof :: "signed_vote list"

record signed_proposal =
  sp_proposal :: proposal
  sp_signature :: bytes

datatype signable_message = SignableProposal proposal | SignableVote vote

datatype signed_message = MessageProposal signed_proposal | MessageVote signed_vote

record consensus_env = ledger_env +
  borsh_signable :: "signable_message \<Rightarrow> bytes option"

datatype signing_bytes_error = SigningInvalidChainId | SigningSerialization

text \<open>
  A block precommit is signed as the protocol's \<open>CommitVote\<close>; everything else as the
  Borsh encoding of the message, which separates the domains by its variant.
\<close>

definition signable_signing_bytes ::
  "'z consensus_env_scheme \<Rightarrow> signable_message \<Rightarrow> signing_bytes_error + bytes" where
  "signable_signing_bytes env message =
     (let generic = ok_or (borsh_signable env message) SigningSerialization in
      case message of
        SignableProposal _ \<Rightarrow> generic
      | SignableVote v \<Rightarrow>
        (case (v_kind v, v_value v) of
           (Precommit, VoteBlock b) \<Rightarrow>
             (case chain_id_new (v_chain_id v) of
                Inl _ \<Rightarrow> Inl SigningInvalidChainId
              | Inr chain \<Rightarrow>
                Inr (vote_signing_bytes env
                  (commit_vote_new chain (v_height v) (v_round v) (hash_of_block_id b))))
         | _ \<Rightarrow> generic))"

fun signable_round :: "signable_message \<Rightarrow> u32" where
  "signable_round (SignableProposal p) = p_round p"
| "signable_round (SignableVote v) = v_round v"

fun message_signable :: "signed_message \<Rightarrow> signable_message" where
  "message_signable (MessageProposal p) = SignableProposal (sp_proposal p)"
| "message_signable (MessageVote v) = SignableVote (sv_vote v)"

fun message_signature :: "signed_message \<Rightarrow> bytes" where
  "message_signature (MessageProposal p) = sp_signature p"
| "message_signature (MessageVote v) = sv_signature v"

definition message_signing_bytes ::
  "'z consensus_env_scheme \<Rightarrow> signed_message \<Rightarrow> signing_bytes_error + bytes" where
  "message_signing_bytes env message = signable_signing_bytes env (message_signable message)"

section \<open>Commit certificates\<close>

record ccertificate =
  ct_chain_id :: rstring
  ct_height :: u64
  ct_round :: u32
  ct_block_id :: block_id
  ct_precommits :: "signed_vote list"

datatype protocol_certificate_error =
    CertificateInvalidChainId
  | MismatchedPrecommit
  | InvalidSignatureLength nat

definition precommit_to_protocol ::
  "ccertificate \<Rightarrow> signed_vote \<Rightarrow> protocol_certificate_error + commit_signature" where
  "precommit_to_protocol c precommit =
     (let v = sv_vote precommit in
      if v_kind v \<noteq> Precommit \<or> v_value v \<noteq> VoteBlock (ct_block_id c) \<or>
         v_chain_id v \<noteq> ct_chain_id c \<or> v_height v \<noteq> ct_height c \<or> v_round v \<noteq> ct_round c
      then Inl MismatchedPrecommit
      else if length (sv_signature precommit) \<noteq> 64
      then Inl (InvalidSignatureLength (length (sv_signature precommit)))
      else Inr \<lparr>cs_validator = cvid_to_protocol (v_validator v),
                cs_signature = sv_signature precommit\<rparr>)"

definition ccertificate_to_protocol ::
  "ccertificate \<Rightarrow> protocol_certificate_error + commit_certificate" where
  "ccertificate_to_protocol c =
     (case chain_id_new (ct_chain_id c) of
        Inl _ \<Rightarrow> Inl CertificateInvalidChainId
      | Inr chain \<Rightarrow>
        let vote = commit_vote_new chain (ct_height c) (ct_round c) (hash_of_block_id (ct_block_id c))
        in and_then (collect_results (precommit_to_protocol c) (ct_precommits c)) (\<lambda>signatures.
             Inr (certificate_new vote signatures)))"

definition ccertificate_from_protocol :: "commit_certificate \<Rightarrow> ccertificate" where
  "ccertificate_from_protocol c =
     (let b = block_id_of_hash (cc_block_hash c) in
      \<lparr>ct_chain_id = chain_str (cc_chain_id c), ct_height = cc_height c, ct_round = cc_round c,
       ct_block_id = b,
       ct_precommits = map (\<lambda>s.
         \<lparr>sv_vote =
            \<lparr>v_chain_id = chain_str (cc_chain_id c), v_height = cc_height c, v_round = cc_round c,
             v_kind = Precommit, v_validator = cvid_of_protocol (cs_validator s),
             v_value = VoteBlock b\<rparr>,
          sv_signature = cs_signature s\<rparr>) (cc_signatures c)\<rparr>)"

section \<open>Events and effects\<close>

datatype phase = PhasePropose | PhasePrevote | PhasePrecommit | PhaseFinalized

type_synonym duration = int

record safety_state =
  ss_height :: u64
  ss_round :: u32
  ss_locked_round :: "u32 option"
  ss_locked_block :: "block_id option"
  ss_valid_round :: "u32 option"
  ss_valid_block :: "block_id option"
  ss_valid_round_proof :: "signed_vote list"

record timeout =
  to_height :: u64
  to_round :: u32
  to_phase :: phase
  to_after :: duration

datatype event =
    Start
  | ProposalReady u64 u32 block_id
  | Message signed_message
  | Persisted signed_message
  | TimeoutEvent timeout
  | Certificate ccertificate

record finalization =
  fin_height :: u64
  fin_round :: u32
  fin_block_id :: block_id
  fin_certificate :: ccertificate

datatype evidence =
    DoubleVote cvalidator_id signed_vote signed_vote
  | DoubleProposal cvalidator_id signed_proposal signed_proposal

datatype effect =
    RequestProposal u64 u32 "block_id option" "u32 option"
  | PersistBeforeBroadcast signable_message safety_state
  | Broadcast signed_message
  | ScheduleTimeout timeout
  | Finalize finalization
  | EvidenceEffect evidence

section \<open>Configuration\<close>

record consensus_config =
  cfg_chain_id :: rstring
  cfg_propose_timeout :: duration
  cfg_prevote_timeout :: duration
  cfg_precommit_timeout :: duration
  cfg_timeout_step :: duration
  cfg_max_cached_rounds :: u64
  cfg_max_round_ahead :: u32
  cfg_max_rounds_per_height :: u32
  cfg_max_signature_bytes :: u64

definition DURATION_MAX :: duration where
  "DURATION_MAX = 18446744073709551615 * 1000000000 + 999999999"

definition from_millis :: "int \<Rightarrow> duration" where "from_millis ms = ms * 1000000"

definition duration_saturating_mul :: "duration \<Rightarrow> u32 \<Rightarrow> duration" where
  "duration_saturating_mul d n = min (d * uint n) DURATION_MAX"

definition duration_saturating_add :: "duration \<Rightarrow> duration \<Rightarrow> duration" where
  "duration_saturating_add a b = min (a + b) DURATION_MAX"

definition config_for_chain :: "rstring \<Rightarrow> consensus_config" where
  "config_for_chain chain =
     \<lparr>cfg_chain_id = chain, cfg_propose_timeout = from_millis 800,
      cfg_prevote_timeout = from_millis 500, cfg_precommit_timeout = from_millis 500,
      cfg_timeout_step = from_millis 100, cfg_max_cached_rounds = 64, cfg_max_round_ahead = 16,
      cfg_max_rounds_per_height = 10000, cfg_max_signature_bytes = 128\<rparr>"

definition timeout_for :: "consensus_config \<Rightarrow> phase \<Rightarrow> u32 \<Rightarrow> duration" where
  "timeout_for cfg ph round =
     (let base = (case ph of
            PhasePropose \<Rightarrow> cfg_propose_timeout cfg
          | PhasePrevote \<Rightarrow> cfg_prevote_timeout cfg
          | PhasePrecommit \<Rightarrow> cfg_precommit_timeout cfg
          | PhaseFinalized \<Rightarrow> 0);
          step = duration_saturating_mul (cfg_timeout_step cfg) round
      in duration_saturating_add base step)"

section \<open>Facts\<close>

lemma block_id_hash_inverse [simp]:
  "block_id_of_hash (hash_of_block_id b) = b" "hash_of_block_id (block_id_of_hash h) = h"
  by (simp_all add: block_id_of_hash_def hash_of_block_id_def)

lemma cvid_protocol_inverse [simp]:
  "cvid_of_protocol (cvid_to_protocol v) = v" "cvid_to_protocol (cvid_of_protocol w) = w"
  by (simp_all add: cvid_of_protocol_def cvid_to_protocol_def)

lemma first_repeat_None: "first_repeat seen vs = None \<longleftrightarrow> distinct vs \<and> set vs \<inter> set seen = {}"
  by (induction seen vs rule: first_repeat.induct) auto

lemma validator_set_new_ok:
  "validator_set_new validators = Inr vs \<longleftrightarrow>
     validators \<noteq> [] \<and> distinct validators \<and> vs = ValidatorSet validators"
  using first_repeat_None [of "[]" validators]
  by (auto simp: validator_set_new_def split: option.splits)

end
