(* ===== verification/Engine.thy ===== *)
theory Engine
  imports ConsensusTypes
begin

text \<open>
  \<open>kcoin-consensus/src/engine.rs\<close>: one validator's consensus state machine for a single
  height, every method of \<open>Consensus\<close> as a function on the record \<open>consensus\<close>. A method
  on \<open>&mut self\<close> returns the state it leaves behind with its result, also when the result
  is an error: the caller then sees no effects, but the state keeps what was changed
  before the error.
\<close>

section \<open>Signatures and validators\<close>

datatype app_error = AppInvalidSignature | AppInvalidProposal | AppInvalidCertificate | AppOther rstring

fun signing_error_text :: "signing_bytes_error \<Rightarrow> rstring" where
  "signing_error_text SigningInvalidChainId = str ''chain ID is not valid for the KCoin protocol''"
| "signing_error_text SigningSerialization = str ''canonical serialization failed''"

definition verify_ed25519 ::
  "'z consensus_env_scheme \<Rightarrow> cvalidator_id \<Rightarrow> signable_message \<Rightarrow> bytes \<Rightarrow> app_error + unit" where
  "verify_ed25519 env signer message signature =
     (if length signature \<noteq> 64 then Inl AppInvalidSignature
      else if \<not> ed25519_key_ok env (cvid_bytes signer) then Inl AppInvalidSignature
      else and_then (map_err (\<lambda>e. AppOther (signing_error_text e)) (signable_signing_bytes env message))
        (\<lambda>x. if ed25519_verify_strict env (cvid_bytes signer) x signature then Inr ()
              else Inl AppInvalidSignature))"

definition verify_ed25519_proposal ::
  "'z consensus_env_scheme \<Rightarrow> signed_proposal \<Rightarrow> app_error + unit" where
  "verify_ed25519_proposal env p =
     verify_ed25519 env (p_proposer (sp_proposal p)) (SignableProposal (sp_proposal p)) (sp_signature p)"

definition verify_ed25519_vote :: "'z consensus_env_scheme \<Rightarrow> signed_vote \<Rightarrow> app_error + unit" where
  "verify_ed25519_vote env v =
     verify_ed25519 env (v_validator (sv_vote v)) (SignableVote (sv_vote v)) (sv_signature v)"

text \<open>The trait \<open>MessageValidator\<close>: what the embedding node supplies.\<close>

record message_validator =
  validate_proposal :: "signed_proposal \<Rightarrow> app_error + unit"
  validate_vote :: "signed_vote \<Rightarrow> app_error + unit"
  validate_certificate_app :: "ccertificate \<Rightarrow> app_error + unit"

datatype consensus_error =
    ZeroHeight
  | LocalValidatorNotFound cvalidator_id
  | InvalidConfig string
  | AlreadyStarted
  | NotStarted
  | RestoredHeightMismatch u64 u64
  | MalformedSafetyState
  | RestoredRoundOutOfRange u32
  | RestoredDecisionSigner cvalidator_id cvalidator_id
  | MessageWrongChain rstring rstring
  | MessageWrongHeight u64 u64
  | UnknownValidator cvalidator_id
  | UnexpectedProposer u32 cvalidator_id cvalidator_id
  | RoundOutsideWindow u32
  | RoundLimitReached u32
  | SignatureTooLarge
  | InvalidValidRoundProof
  | InvalidCertificate
  | ProposalNotRequested u64 u32
  | UnexpectedPersistedMessage
  | ConflictingCommit block_id block_id
  | ValidationFailed app_error

section \<open>State\<close>

datatype decision_key = ProposalKey u32 | VoteKey u32 vote_kind

fun decision_key_rank :: "decision_key \<Rightarrow> nat \<times> u32 \<times> vote_kind" where
  "decision_key_rank (ProposalKey r) = (0, r, Prevote)"
| "decision_key_rank (VoteKey r k) = (1, r, k)"

lemma decision_key_rank_inj: "decision_key_rank x = decision_key_rank y \<Longrightarrow> x = y"
  by (cases x; cases y) simp_all

instantiation decision_key :: linorder
begin
definition less_eq_decision_key :: "decision_key \<Rightarrow> decision_key \<Rightarrow> bool" where
  "less_eq_decision_key a b \<longleftrightarrow> decision_key_rank a \<le> decision_key_rank b"
definition less_decision_key :: "decision_key \<Rightarrow> decision_key \<Rightarrow> bool" where
  "less_decision_key a b \<longleftrightarrow> decision_key_rank a < decision_key_rank b"
instance
proof
  fix x y :: decision_key
  show "(x < y) = (x \<le> y \<and> \<not> y \<le> x)"
    unfolding less_eq_decision_key_def less_decision_key_def by (rule less_le_not_le)
  show "x \<le> x" unfolding less_eq_decision_key_def by (rule order_refl)
  show "x \<le> y \<or> y \<le> x" unfolding less_eq_decision_key_def by (rule linear)
  show "x \<le> z" if "x \<le> y" "y \<le> z" for z
    using that unfolding less_eq_decision_key_def by (rule order_trans)
  show "x = y" if "x \<le> y" "y \<le> x"
    using that unfolding less_eq_decision_key_def by (intro decision_key_rank_inj antisym)
qed
end

fun decision_key_round :: "decision_key \<Rightarrow> u32" where
  "decision_key_round (ProposalKey r) = r"
| "decision_key_round (VoteKey r _) = r"

fun key_of_signable :: "signable_message \<Rightarrow> decision_key" where
  "key_of_signable (SignableProposal p) = ProposalKey (p_round p)"
| "key_of_signable (SignableVote v) = VoteKey (v_round v) (v_kind v)"

record consensus =
  c_local_id :: cvalidator_id
  c_validators :: validator_set
  c_config :: consensus_config
  c_height :: u64
  c_round :: u32
  c_phase :: phase
  c_started :: bool
  c_finalized :: "finalization option"
  c_locked_round :: "u32 option"
  c_locked_block :: "block_id option"
  c_valid_round :: "u32 option"
  c_valid_block :: "block_id option"
  c_valid_proof :: "signed_vote list"
  c_proposals :: "(u32, signed_proposal) btree_map"
  c_votes :: "(u32 \<times> vote_kind, (cvalidator_id, signed_vote) btree_map) btree_map"
  c_requested_proposals :: "u32 list"
  c_local_decisions :: "(decision_key, signable_message) btree_map"
  c_pending_persistence :: "(decision_key, signable_message) btree_map"

definition consensus_new ::
  "cvalidator_id \<Rightarrow> validator_set \<Rightarrow> u64 \<Rightarrow> consensus_config \<Rightarrow> consensus_error + consensus" where
  "consensus_new local_id validators height config =
     (if height = 0 then Inl ZeroHeight
      else if \<not> vs_contains validators local_id then Inl (LocalValidatorNotFound local_id)
      else if \<not> is_ok (chain_id_new (cfg_chain_id config))
      then Inl (InvalidConfig ''chain_id must be a valid KCoin protocol chain ID'')
      else if cfg_max_cached_rounds config = 0
      then Inl (InvalidConfig ''max_cached_rounds must be greater than zero'')
      else if cfg_max_rounds_per_height config = 0
      then Inl (InvalidConfig ''max_rounds_per_height must be greater than zero'')
      else if cfg_max_signature_bytes config = 0
      then Inl (InvalidConfig ''max_signature_bytes must be greater than zero'')
      else Inr
        \<lparr>c_local_id = local_id, c_validators = validators, c_config = config,
         c_height = height, c_round = 0, c_phase = PhasePropose, c_started = False,
         c_finalized = None, c_locked_round = None, c_locked_block = None,
         c_valid_round = None, c_valid_block = None, c_valid_proof = [],
         c_proposals = [], c_votes = [], c_requested_proposals = [],
         c_local_decisions = [], c_pending_persistence = []\<rparr>)"

definition engine_safety_state :: "consensus \<Rightarrow> safety_state" where
  "engine_safety_state c =
     \<lparr>ss_height = c_height c, ss_round = c_round c, ss_locked_round = c_locked_round c,
      ss_locked_block = c_locked_block c, ss_valid_round = c_valid_round c,
      ss_valid_block = c_valid_block c, ss_valid_round_proof = c_valid_proof c\<rparr>"

definition engine_locked :: "consensus \<Rightarrow> (u32 \<times> block_id) option" where
  "engine_locked c =
     (case (c_locked_round c, c_locked_block c) of
        (Some round, Some b) \<Rightarrow> Some (round, b) | _ \<Rightarrow> None)"

definition engine_valid_value :: "consensus \<Rightarrow> (u32 \<times> block_id) option" where
  "engine_valid_value c =
     (case (c_valid_round c, c_valid_block c) of
        (Some round, Some b) \<Rightarrow> Some (round, b) | _ \<Rightarrow> None)"

section \<open>Structural checks\<close>

definition validate_context :: "consensus \<Rightarrow> rstring \<Rightarrow> u64 \<Rightarrow> consensus_error + unit" where
  "validate_context c chain height =
     (if chain \<noteq> cfg_chain_id (c_config c)
      then Inl (MessageWrongChain (cfg_chain_id (c_config c)) chain)
      else if height \<noteq> c_height c then Inl (MessageWrongHeight (c_height c) height)
      else Inr ())"

definition validate_vote_structure :: "consensus \<Rightarrow> signed_vote \<Rightarrow> consensus_error + unit" where
  "validate_vote_structure c sgnd =
     (let v = sv_vote sgnd in
      and_then (validate_context c (v_chain_id v) (v_height v)) (\<lambda>_.
        if \<not> vs_contains (c_validators c) (v_validator v) then Inl (UnknownValidator (v_validator v))
        else if v_round v \<ge> cfg_max_rounds_per_height (c_config c)
        then Inl (RoundOutsideWindow (v_round v))
        else Inr ()))"

definition signature_too_large :: "consensus \<Rightarrow> bytes \<Rightarrow> bool" where
  "signature_too_large c signature \<longleftrightarrow>
     length signature > unat (cfg_max_signature_bytes (c_config c))"

text \<open>
  The loop over the votes of a proof (of a proposal, a restored safety state or a
  certificate): each vote is for the same round, kind and block, from a distinct known
  validator and authenticated by the embedding node. The three copies of the loop in the
  code differ in the vote kind and in the error of a mismatch.
\<close>

fun validate_proof_votes ::
  "consensus \<Rightarrow> message_validator \<Rightarrow> u32 \<Rightarrow> vote_kind \<Rightarrow> block_id \<Rightarrow> consensus_error \<Rightarrow>
   cvalidator_id list \<Rightarrow> signed_vote list \<Rightarrow> consensus_error + unit" where
  "validate_proof_votes c mv round kind b mismatch signers [] = Inr ()"
| "validate_proof_votes c mv round kind b mismatch signers (sgnd # rest) =
     (if signature_too_large c (sv_signature sgnd) then Inl SignatureTooLarge
      else and_then (validate_vote_structure c sgnd) (\<lambda>_.
        let v = sv_vote sgnd in
        if v_round v \<noteq> round \<or> v_kind v \<noteq> kind \<or> v_value v \<noteq> VoteBlock b \<or>
           v_validator v \<in> set signers
        then Inl mismatch
        else and_then (map_err ValidationFailed (validate_vote mv sgnd)) (\<lambda>_.
          validate_proof_votes c mv round kind b mismatch
            (bset_insert (v_validator v) signers) rest)))"

definition validate_proposal_structure ::
  "consensus \<Rightarrow> signed_proposal \<Rightarrow> message_validator \<Rightarrow> consensus_error + unit" where
  "validate_proposal_structure c sgnd mv =
     (let p = sp_proposal sgnd; vs = c_validators c in
      and_then (validate_context c (p_chain_id p) (p_height p)) (\<lambda>_.
        if \<not> vs_contains vs (p_proposer p) then Inl (UnknownValidator (p_proposer p))
        else let expected = vs_proposer vs (c_height c) (p_round p) in
        if p_proposer p \<noteq> expected then Inl (UnexpectedProposer (p_round p) expected (p_proposer p))
        else if p_round p \<ge> cfg_max_rounds_per_height (c_config c)
        then Inl (RoundOutsideWindow (p_round p))
        else case p_valid_round p of
          None \<Rightarrow> if p_valid_round_proof p = [] then Inr () else Inl InvalidValidRoundProof
        | Some valid_round \<Rightarrow>
          if valid_round < p_round p then
            if length (p_valid_round_proof p) < vs_quorum vs \<or>
               length (p_valid_round_proof p) > vs_len vs
            then Inl InvalidValidRoundProof
            else validate_proof_votes c mv valid_round Prevote (p_block_id p) InvalidValidRoundProof
                   [] (p_valid_round_proof p)
          else Inl InvalidValidRoundProof))"

definition validate_certificate ::
  "consensus \<Rightarrow> ccertificate \<Rightarrow> message_validator \<Rightarrow> consensus_error + unit" where
  "validate_certificate c ct mv =
     and_then (validate_context c (ct_chain_id ct) (ct_height ct)) (\<lambda>_.
       if ct_round ct \<ge> cfg_max_rounds_per_height (c_config c) \<or>
          length (ct_precommits ct) < vs_quorum (c_validators c) \<or>
          length (ct_precommits ct) > vs_len (c_validators c)
       then Inl InvalidCertificate
       else and_then (validate_proof_votes c mv (ct_round ct) Precommit (ct_block_id ct)
              InvalidCertificate [] (ct_precommits ct)) (\<lambda>_.
         map_err ValidationFailed (validate_certificate_app mv ct)))"

definition validate_message ::
  "consensus \<Rightarrow> signed_message \<Rightarrow> message_validator \<Rightarrow> consensus_error + unit" where
  "validate_message c message mv =
     (if signature_too_large c (message_signature message) then Inl SignatureTooLarge
      else case message of
        MessageProposal p \<Rightarrow>
          and_then (validate_proposal_structure c p mv) (\<lambda>_.
            map_err ValidationFailed (validate_proposal mv p))
      | MessageVote v \<Rightarrow>
          and_then (validate_vote_structure c v) (\<lambda>_.
            map_err ValidationFailed (validate_vote mv v)))"

section \<open>Restart\<close>

definition validate_restored_safety_state ::
  "consensus \<Rightarrow> safety_state \<Rightarrow> message_validator \<Rightarrow> consensus_error + unit" where
  "validate_restored_safety_state c ss mv =
     (let lock_is_well_formed =
            (case (ss_locked_round ss, ss_locked_block ss) of
               (None, None) \<Rightarrow> True
             | (Some round, Some _) \<Rightarrow> round \<le> ss_round ss
             | _ \<Rightarrow> False);
          valid_value_is_well_formed =
            (case (ss_valid_round ss, ss_valid_block ss) of
               (None, None) \<Rightarrow> ss_valid_round_proof ss = []
             | (Some round, Some _) \<Rightarrow>
                 round \<le> ss_round ss \<and>
                 length (ss_valid_round_proof ss) \<ge> vs_quorum (c_validators c) \<and>
                 length (ss_valid_round_proof ss) \<le> vs_len (c_validators c)
             | _ \<Rightarrow> False);
          lock_is_covered_by_valid_value =
            (case (ss_locked_round ss, ss_locked_block ss, ss_valid_round ss, ss_valid_block ss) of
               (None, None, _, _) \<Rightarrow> True
             | (Some locked_round, Some locked_block, Some valid_round, Some valid_block) \<Rightarrow>
                 valid_round > locked_round \<or>
                 valid_round = locked_round \<and> valid_block = locked_block
             | _ \<Rightarrow> False)
      in if \<not> lock_is_well_formed \<or> \<not> valid_value_is_well_formed \<or>
            \<not> lock_is_covered_by_valid_value
         then Inl MalformedSafetyState
         else case (ss_valid_round ss, ss_valid_block ss) of
           (Some valid_round, Some valid_block) \<Rightarrow>
             validate_proof_votes c mv valid_round Prevote valid_block MalformedSafetyState
               [] (ss_valid_round_proof ss)
         | _ \<Rightarrow> Inr ())"

definition consensus_new_with_safety_state ::
  "cvalidator_id \<Rightarrow> validator_set \<Rightarrow> u64 \<Rightarrow> consensus_config \<Rightarrow> safety_state \<Rightarrow>
   message_validator \<Rightarrow> consensus_error + consensus" where
  "consensus_new_with_safety_state local_id validators height config ss mv =
     (if ss_height ss \<noteq> height then Inl (RestoredHeightMismatch height (ss_height ss))
      else case checked_add (ss_round ss) 1 of
        None \<Rightarrow> Inl (RestoredRoundOutOfRange (ss_round ss))
      | Some resume_round \<Rightarrow>
        if \<not> resume_round < cfg_max_rounds_per_height config
        then Inl (RestoredRoundOutOfRange (ss_round ss))
        else and_then (consensus_new local_id validators height config) (\<lambda>c.
          and_then (validate_restored_safety_state c ss mv) (\<lambda>_.
            Inr (c\<lparr>c_round := resume_round, c_locked_round := ss_locked_round ss,
                   c_locked_block := ss_locked_block ss, c_valid_round := ss_valid_round ss,
                   c_valid_block := ss_valid_block ss,
                   c_valid_proof := ss_valid_round_proof ss\<rparr>))))"

definition restore_local_decision ::
  "consensus \<Rightarrow> signable_message \<Rightarrow> consensus \<times> (consensus_error + unit)" where
  "restore_local_decision c message =
     (if c_started c then (c, Inl AlreadyStarted)
      else let origin =
            (case message of
               SignableProposal p \<Rightarrow>
                 let expected = vs_proposer (c_validators c) (c_height c) (p_round p) in
                 if p_proposer p \<noteq> expected
                 then Inl (UnexpectedProposer (p_round p) expected (p_proposer p))
                 else Inr (p_chain_id p, p_height p, p_proposer p)
             | SignableVote v \<Rightarrow> Inr (v_chain_id v, v_height v, v_validator v))
      in case origin of
        Inl e \<Rightarrow> (c, Inl e)
      | Inr (chain, height, signer) \<Rightarrow>
        case validate_context c chain height of
          Inl e \<Rightarrow> (c, Inl e)
        | Inr _ \<Rightarrow>
          if signer \<noteq> c_local_id c then (c, Inl (RestoredDecisionSigner (c_local_id c) signer))
          else if signable_round message \<ge> c_round c \<or>
                  signable_round message \<ge> cfg_max_rounds_per_height (c_config c)
          then (c, Inl MalformedSafetyState)
          else let key = key_of_signable message in
            case bt_get (c_local_decisions c) key of
              Some existing \<Rightarrow>
                (c, if existing = message then Inr () else Inl UnexpectedPersistedMessage)
            | None \<Rightarrow>
                (c\<lparr>c_local_decisions := bt_insert key message (c_local_decisions c)\<rparr>, Inr ()))"

section \<open>Caches and quorums\<close>

definition cache_minimum :: "consensus \<Rightarrow> u32" where
  "cache_minimum c =
     saturating_sub (c_round c) (ucast (saturating_sub (cfg_max_cached_rounds (c_config c)) 1))"

definition cache_maximum :: "consensus \<Rightarrow> u32" where
  "cache_maximum c = saturating_add (c_round c) (cfg_max_round_ahead (c_config c))"

definition round_is_cacheable :: "consensus \<Rightarrow> u32 \<Rightarrow> bool" where
  "round_is_cacheable c round \<longleftrightarrow> cache_minimum c \<le> round \<and> round \<le> cache_maximum c"

definition prune_caches :: "consensus \<Rightarrow> consensus" where
  "prune_caches c =
     c\<lparr>c_proposals := bt_retain (round_is_cacheable c) (c_proposals c),
       c_votes := bt_retain (\<lambda>(round, _). round_is_cacheable c round) (c_votes c),
       c_requested_proposals := filter (round_is_cacheable c) (c_requested_proposals c),
       c_local_decisions :=
         bt_retain (\<lambda>key. round_is_cacheable c (decision_key_round key)) (c_local_decisions c),
       c_pending_persistence :=
         bt_retain (\<lambda>key. round_is_cacheable c (decision_key_round key)) (c_pending_persistence c)\<rparr>"

definition group_votes :: "signed_vote list \<Rightarrow> (vote_value, signed_vote list) btree_map" where
  "group_votes svs =
     fold (\<lambda>sv m. let value = v_value (sv_vote sv) in
              bt_insert value
                ((case bt_get m value of None \<Rightarrow> [] | Some entry \<Rightarrow> entry) @ [sv]) m) svs []"

definition quorum_votes ::
  "consensus \<Rightarrow> u32 \<Rightarrow> vote_kind \<Rightarrow> (vote_value \<times> signed_vote list) option" where
  "quorum_votes c round kind =
     (case bt_get (c_votes c) (round, kind) of
        None \<Rightarrow> None
      | Some votes \<Rightarrow>
        find (\<lambda>(_, vs). length vs \<ge> vs_quorum (c_validators c)) (group_votes (bt_values votes)))"

definition cached_round_count :: "consensus \<Rightarrow> nat" where
  "cached_round_count c =
     length (bset_of (bt_keys (c_proposals c) @ map fst (bt_keys (c_votes c))))"

definition engine_vote_count :: "consensus \<Rightarrow> u32 \<Rightarrow> vote_kind \<Rightarrow> nat" where
  "engine_vote_count c round kind =
     (case bt_get (c_votes c) (round, kind) of None \<Rightarrow> 0 | Some votes \<Rightarrow> length votes)"

definition preflight_message ::
  "consensus \<Rightarrow> signed_message \<Rightarrow> message_validator \<Rightarrow> consensus_error + bool" where
  "preflight_message c message mv =
     and_then (validate_message c message mv) (\<lambda>_.
       Inr (round_is_cacheable c (signable_round (message_signable message))))"

section \<open>Voting\<close>

definition engine_timeout :: "consensus \<Rightarrow> phase \<Rightarrow> timeout" where
  "engine_timeout c ph =
     \<lparr>to_height = c_height c, to_round = c_round c, to_phase = ph,
      to_after = timeout_for (c_config c) ph (c_round c)\<rparr>"

definition prevote_for :: "consensus \<Rightarrow> proposal \<Rightarrow> vote_value" where
  "prevote_for c p =
     (case (c_locked_round c, c_locked_block c) of
        (None, None) \<Rightarrow> VoteBlock (p_block_id p)
      | (locked_round, Some locked) \<Rightarrow>
          if locked = p_block_id p then VoteBlock (p_block_id p)
          else (case locked_round of
              Some locked_round \<Rightarrow>
                (case p_valid_round p of
                   Some valid_round \<Rightarrow>
                     if valid_round > locked_round then VoteBlock (p_block_id p) else VoteNil
                 | None \<Rightarrow> VoteNil)
            | None \<Rightarrow> VoteNil)
      | _ \<Rightarrow> VoteNil)"

definition cast_vote ::
  "vote_kind \<Rightarrow> vote_value \<Rightarrow> consensus \<times> effect list \<Rightarrow> consensus \<times> effect list" where
  "cast_vote kind value = (\<lambda>(c, effects).
     let message = SignableVote
           \<lparr>v_chain_id = cfg_chain_id (c_config c), v_height = c_height c, v_round = c_round c,
            v_kind = kind, v_validator = c_local_id c, v_value = value\<rparr>;
         key = VoteKey (c_round c) kind
     in if bt_get (c_local_decisions c) key \<noteq> None then (c, effects)
        else let c1 = c\<lparr>c_local_decisions := bt_insert key message (c_local_decisions c),
                        c_pending_persistence := bt_insert key message (c_pending_persistence c)\<rparr>;
                 ph = (case kind of Prevote \<Rightarrow> PhasePrevote | Precommit \<Rightarrow> PhasePrecommit);
                 c2 = c1\<lparr>c_phase := ph\<rparr>
             in (c2, effects @ [PersistBeforeBroadcast message (engine_safety_state c1),
                                ScheduleTimeout (engine_timeout c2 (c_phase c2))]))"

definition request_persistence ::
  "consensus \<Rightarrow> signable_message \<Rightarrow> consensus \<times> (consensus_error + effect list)" where
  "request_persistence c message =
     (let key = key_of_signable message in
      case bt_get (c_local_decisions c) key of
        Some existing \<Rightarrow>
          (c, if existing = message then Inr [] else Inl UnexpectedPersistedMessage)
      | None \<Rightarrow>
          let c1 = c\<lparr>c_local_decisions := bt_insert key message (c_local_decisions c),
                     c_pending_persistence := bt_insert key message (c_pending_persistence c)\<rparr>
          in (c1, Inr [PersistBeforeBroadcast message (engine_safety_state c1)]))"

definition finalize :: "consensus \<Rightarrow> ccertificate \<Rightarrow> consensus \<times> (consensus_error + effect list)" where
  "finalize c certificate =
     (case c_finalized c of
        Some finalized \<Rightarrow>
          (c, if fin_block_id finalized = ct_block_id certificate then Inr []
              else Inl (ConflictingCommit (fin_block_id finalized) (ct_block_id certificate)))
      | None \<Rightarrow>
          let f = \<lparr>fin_height = ct_height certificate, fin_round = ct_round certificate,
                   fin_block_id = ct_block_id certificate, fin_certificate = certificate\<rparr>
          in (c\<lparr>c_phase := PhaseFinalized, c_finalized := Some f\<rparr>, Inr [Finalize f]))"

text \<open>The first half of \<open>evaluate_round\<close>: what a prevote quorum triggers.\<close>

definition update_valid :: "consensus \<Rightarrow> u32 \<Rightarrow> block_id \<Rightarrow> signed_vote list \<Rightarrow> consensus" where
  "update_valid c round b proof_votes =
     (if round \<le> c_round c \<and>
         (case c_valid_round c of None \<Rightarrow> True | Some known \<Rightarrow> round > known)
      then c\<lparr>c_valid_round := Some round, c_valid_block := Some b, c_valid_proof := proof_votes\<rparr>
      else c)"

definition evaluate_prevotes ::
  "u32 \<Rightarrow> consensus \<times> effect list \<Rightarrow> consensus \<times> effect list" where
  "evaluate_prevotes round = (\<lambda>(c, effects).
     case quorum_votes c round Prevote of
       Some (VoteBlock b, proof_votes) \<Rightarrow>
         let has_proposal =
               (case bt_get (c_proposals c) round of
                  None \<Rightarrow> False
                | Some p \<Rightarrow> p_block_id (sp_proposal p) = b);
             c1 = (if has_proposal then update_valid c round b proof_votes else c)
         in if has_proposal \<and> round = c_round c1 \<and> c_phase c1 = PhasePrevote
            then cast_vote Precommit (VoteBlock b)
                   (c1\<lparr>c_locked_round := Some round, c_locked_block := Some b\<rparr>, effects)
            else (c1, effects)
     | Some (VoteNil, _) \<Rightarrow>
         if round = c_round c \<and> c_phase c = PhasePrevote
         then cast_vote Precommit VoteNil (c, effects)
         else (c, effects)
     | None \<Rightarrow> (c, effects))"

definition evaluate_precommits ::
  "u32 \<Rightarrow> message_validator \<Rightarrow> consensus \<times> effect list \<Rightarrow>
   consensus \<times> (consensus_error + effect list)" where
  "evaluate_precommits round mv = (\<lambda>(c, effects).
     case quorum_votes c round Precommit of
       Some (VoteBlock b, precommits) \<Rightarrow>
         let certificate =
               \<lparr>ct_chain_id = cfg_chain_id (c_config c), ct_height = c_height c, ct_round = round,
                ct_block_id = b, ct_precommits = precommits\<rparr>
         in (case validate_certificate_app mv certificate of
               Inl e \<Rightarrow> (c, Inl (ValidationFailed e))
             | Inr _ \<Rightarrow> st_then (finalize c certificate) (\<lambda>c1 more. (c1, Inr (effects @ more))))
     | _ \<Rightarrow> (c, Inr effects))"

definition evaluate_round ::
  "u32 \<Rightarrow> message_validator \<Rightarrow> consensus \<times> effect list \<Rightarrow>
   consensus \<times> (consensus_error + effect list)" where
  "evaluate_round round mv p = evaluate_precommits round mv (evaluate_prevotes round p)"

definition activate_current_round ::
  "message_validator \<Rightarrow> consensus \<times> effect list \<Rightarrow> consensus \<times> (consensus_error + effect list)" where
  "activate_current_round mv = (\<lambda>(c, effects).
     let p = (if c_phase c = PhasePropose then
                (case bt_get (c_proposals c) (c_round c) of
                   None \<Rightarrow> (c, effects)
                 | Some sgnd \<Rightarrow>
                     cast_vote Prevote (prevote_for c (sp_proposal sgnd)) (c, effects))
              else (c, effects))
     in evaluate_round (c_round (fst p)) mv p)"

section \<open>Events\<close>

definition enter_round ::
  "consensus \<Rightarrow> u32 \<Rightarrow> message_validator \<Rightarrow> consensus \<times> (consensus_error + effect list)" where
  "enter_round c round mv =
     (if round \<ge> cfg_max_rounds_per_height (c_config c) then (c, Inl (RoundLimitReached round))
      else let c1 = prune_caches (c\<lparr>c_round := round, c_phase := PhasePropose\<rparr>);
               effects = [ScheduleTimeout (engine_timeout c1 PhasePropose)]
      in if bt_get (c_proposals c1) round \<noteq> None then activate_current_round mv (c1, effects)
         else if vs_proposer (c_validators c1) (c_height c1) round = c_local_id c1
         then (c1\<lparr>c_requested_proposals := bset_insert round (c_requested_proposals c1)\<rparr>,
               Inr (effects @
                 [RequestProposal (c_height c1) round (c_valid_block c1) (c_valid_round c1)]))
         else (c1, Inr effects))"

definition proposal_ready ::
  "consensus \<Rightarrow> u64 \<Rightarrow> u32 \<Rightarrow> block_id \<Rightarrow> consensus \<times> (consensus_error + effect list)" where
  "proposal_ready c height round b =
     (if height \<noteq> c_height c then (c, Inl (MessageWrongHeight (c_height c) height))
      else if round \<notin> set (c_requested_proposals c)
      then (c, Inl (ProposalNotRequested height round))
      else let c1 = c\<lparr>c_requested_proposals := removeAll round (c_requested_proposals c)\<rparr>;
               proof_votes =
                 (case c_valid_round c1 of
                    Some valid_round \<Rightarrow>
                      if valid_round < round \<and> c_valid_block c1 = Some b
                      then c_valid_proof c1 else []
                  | None \<Rightarrow> []);
               valid_round = (if proof_votes = [] then None else c_valid_round c1)
      in request_persistence c1 (SignableProposal
           \<lparr>p_chain_id = cfg_chain_id (c_config c1), p_height = height, p_round = round,
            p_proposer = c_local_id c1, p_block_id = b, p_valid_round = valid_round,
            p_valid_round_proof = proof_votes\<rparr>))"

definition accept_proposal ::
  "consensus \<Rightarrow> signed_proposal \<Rightarrow> message_validator \<Rightarrow>
   consensus \<times> (consensus_error + effect list)" where
  "accept_proposal c p mv =
     (let round = p_round (sp_proposal p) in
      if \<not> round_is_cacheable c round then (c, Inr [])
      else case bt_get (c_proposals c) round of
        Some first \<Rightarrow>
          (c, Inr (if first = p then []
                   else [EvidenceEffect (DoubleProposal (p_proposer (sp_proposal p)) first p)]))
      | None \<Rightarrow>
          let c1 = c\<lparr>c_proposals := bt_insert round p (c_proposals c)\<rparr>
          in if round = c_round c1 then activate_current_round mv (c1, []) else (c1, Inr []))"

definition accept_vote ::
  "consensus \<Rightarrow> signed_vote \<Rightarrow> message_validator \<Rightarrow> consensus \<times> (consensus_error + effect list)" where
  "accept_vote c v mv =
     (let round = v_round (sv_vote v); validator = v_validator (sv_vote v) in
      if \<not> round_is_cacheable c round then (c, Inr [])
      else let key = (round, v_kind (sv_vote v));
               by_validator = (case bt_get (c_votes c) key of None \<Rightarrow> [] | Some entry \<Rightarrow> entry);
               c1 = c\<lparr>c_votes := bt_insert key by_validator (c_votes c)\<rparr>
      in case bt_get by_validator validator of
           Some first \<Rightarrow>
             (c1, Inr (if first = v then [] else [EvidenceEffect (DoubleVote validator first v)]))
         | None \<Rightarrow>
             let c2 = c1\<lparr>c_votes := bt_insert key (bt_insert validator v by_validator) (c_votes c1)\<rparr>
             in evaluate_round round mv (c2, []))"

definition accept_validated_message ::
  "consensus \<Rightarrow> signed_message \<Rightarrow> message_validator \<Rightarrow>
   consensus \<times> (consensus_error + effect list)" where
  "accept_validated_message c message mv =
     (case message of MessageProposal p \<Rightarrow> accept_proposal c p mv | MessageVote v \<Rightarrow> accept_vote c v mv)"

definition receive_message ::
  "consensus \<Rightarrow> signed_message \<Rightarrow> message_validator \<Rightarrow>
   consensus \<times> (consensus_error + effect list)" where
  "receive_message c message mv =
     (case validate_message c message mv of
        Inl e \<Rightarrow> (c, Inl e)
      | Inr _ \<Rightarrow> accept_validated_message c message mv)"

definition engine_persisted ::
  "consensus \<Rightarrow> signed_message \<Rightarrow> message_validator \<Rightarrow>
   consensus \<times> (consensus_error + effect list)" where
  "engine_persisted c message mv =
     (let signable = message_signable message; key = key_of_signable signable in
      if bt_get (c_pending_persistence c) key \<noteq> Some signable
      then (c, Inl UnexpectedPersistedMessage)
      else case validate_message c message mv of
        Inl e \<Rightarrow> (c, Inl e)
      | Inr _ \<Rightarrow>
        let c1 = c\<lparr>c_pending_persistence := bt_remove key (c_pending_persistence c)\<rparr>
        in st_then (accept_validated_message c1 message mv) (\<lambda>c2 effects.
             (c2, Inr (Broadcast message # effects))))"

definition handle_timeout ::
  "consensus \<Rightarrow> timeout \<Rightarrow> message_validator \<Rightarrow> consensus \<times> (consensus_error + effect list)" where
  "handle_timeout c t mv =
     (if to_height t \<noteq> c_height c \<or> to_round t \<noteq> c_round c \<or> to_phase t \<noteq> c_phase c \<or>
         to_after t \<noteq> timeout_for (c_config c) (c_phase c) (c_round c)
      then (c, Inr [])
      else case c_phase c of
        PhasePropose \<Rightarrow>
          let p = cast_vote Prevote VoteNil (c, []) in evaluate_round (c_round (fst p)) mv p
      | PhasePrevote \<Rightarrow>
          let p = cast_vote Precommit VoteNil (c, []) in evaluate_round (c_round (fst p)) mv p
      | PhasePrecommit \<Rightarrow>
          (case checked_add (c_round c) 1 of
             None \<Rightarrow> (c, Inl (RoundLimitReached (c_round c)))
           | Some next \<Rightarrow> enter_round c next mv)
      | PhaseFinalized \<Rightarrow> (c, Inr []))"

definition engine_step ::
  "consensus \<Rightarrow> event \<Rightarrow> message_validator \<Rightarrow> consensus \<times> (consensus_error + effect list)" where
  "engine_step c ev mv =
     (case ev of
        Start \<Rightarrow>
          if c_started c then (c, Inl AlreadyStarted)
          else enter_round (c\<lparr>c_started := True\<rparr>) (c_round c) mv
      | Certificate certificate \<Rightarrow>
          (case validate_certificate c certificate mv of
             Inl e \<Rightarrow> (c, Inl e)
           | Inr _ \<Rightarrow> finalize c certificate)
      | _ \<Rightarrow>
          if \<not> c_started c then (c, Inl NotStarted)
          else if c_finalized c \<noteq> None then (c, Inr [])
          else case ev of
            ProposalReady height round b \<Rightarrow> proposal_ready c height round b
          | Message message \<Rightarrow> receive_message c message mv
          | Persisted message \<Rightarrow> engine_persisted c message mv
          | TimeoutEvent t \<Rightarrow> handle_timeout c t mv
          | _ \<Rightarrow> (c, Inr []))"

end
