(* ===== verification/EngineInv.thy ===== *)
theory EngineInv
  imports Engine
begin

text \<open>
  The invariant of \<open>Consensus\<close>. Which votes are authentic is a parameter: every vote the
  embedding node's validator accepted satisfies it. The votes a validator has cast are
  read off the log of its \<open>PersistBeforeBroadcast\<close> effects, each with the safety state
  that is stored with it.
\<close>

section \<open>Vocabulary\<close>

text \<open>What never changes during the life of a \<open>Consensus\<close> value.\<close>

record instance_ctx =
  x_me :: cvalidator_id
  x_vs :: validator_set
  x_cfg :: consensus_config
  x_height :: u64

definition ctx_of :: "consensus \<Rightarrow> instance_ctx" where
  "ctx_of c = \<lparr>x_me = c_local_id c, x_vs = c_validators c, x_cfg = c_config c, x_height = c_height c\<rparr>"

definition ctx_ok :: "instance_ctx \<Rightarrow> bool" where
  "ctx_ok X \<longleftrightarrow> distinct (vs_validators (x_vs X)) \<and> x_me X \<in> set (vs_validators (x_vs X)) \<and> x_height X \<noteq> 0"

definition cvote :: "instance_ctx \<Rightarrow> u32 \<Rightarrow> vote_kind \<Rightarrow> vote_value \<Rightarrow> cvalidator_id \<Rightarrow> vote" where
  "cvote X r k val q =
     \<lparr>v_chain_id = cfg_chain_id (x_cfg X), v_height = x_height X, v_round = r, v_kind = k,
      v_validator = q, v_value = val\<rparr>"

lemma eq_cvote:
  "v = cvote X r k val q \<longleftrightarrow>
     v_chain_id v = cfg_chain_id (x_cfg X) \<and> v_height v = x_height X \<and> v_round v = r \<and>
     v_kind v = k \<and> v_validator v = q \<and> v_value v = val"
  by (cases v) (auto simp: cvote_def)

lemma cvote_fields [simp]:
  "v_round (cvote X r k val q) = r" "v_kind (cvote X r k val q) = k"
  "v_value (cvote X r k val q) = val" "v_validator (cvote X r k val q) = q"
  by (simp_all add: cvote_def)

lemma ctx_of_update [simp]:
  "ctx_of (c\<lparr>c_phase := x0\<rparr>) = ctx_of c"
  "ctx_of (c\<lparr>c_started := x1\<rparr>) = ctx_of c"
  "ctx_of (c\<lparr>c_finalized := x2\<rparr>) = ctx_of c"
  "ctx_of (c\<lparr>c_proposals := x3\<rparr>) = ctx_of c"
  "ctx_of (c\<lparr>c_votes := x4\<rparr>) = ctx_of c"
  "ctx_of (c\<lparr>c_requested_proposals := x5\<rparr>) = ctx_of c"
  "ctx_of (c\<lparr>c_local_decisions := x6\<rparr>) = ctx_of c"
  "ctx_of (c\<lparr>c_pending_persistence := x7\<rparr>) = ctx_of c"
  "ctx_of (c\<lparr>c_round := x8\<rparr>) = ctx_of c"
  "ctx_of (c\<lparr>c_locked_round := x9\<rparr>) = ctx_of c"
  "ctx_of (c\<lparr>c_locked_block := x10\<rparr>) = ctx_of c"
  "ctx_of (c\<lparr>c_valid_round := x11\<rparr>) = ctx_of c"
  "ctx_of (c\<lparr>c_valid_block := x12\<rparr>) = ctx_of c"
  "ctx_of (c\<lparr>c_valid_proof := x13\<rparr>) = ctx_of c"
  by (simp_all add: ctx_of_def)

lemma safety_state_update [simp]:
  "engine_safety_state (c\<lparr>c_phase := x0\<rparr>) = engine_safety_state c"
  "engine_safety_state (c\<lparr>c_started := x1\<rparr>) = engine_safety_state c"
  "engine_safety_state (c\<lparr>c_finalized := x2\<rparr>) = engine_safety_state c"
  "engine_safety_state (c\<lparr>c_proposals := x3\<rparr>) = engine_safety_state c"
  "engine_safety_state (c\<lparr>c_votes := x4\<rparr>) = engine_safety_state c"
  "engine_safety_state (c\<lparr>c_requested_proposals := x5\<rparr>) = engine_safety_state c"
  "engine_safety_state (c\<lparr>c_local_decisions := x6\<rparr>) = engine_safety_state c"
  "engine_safety_state (c\<lparr>c_pending_persistence := x7\<rparr>) = engine_safety_state c"
  by (simp_all add: engine_safety_state_def)

lemma ctx_of_fields [simp]:
  "x_me (ctx_of c) = c_local_id c" "x_vs (ctx_of c) = c_validators c"
  "x_cfg (ctx_of c) = c_config c" "x_height (ctx_of c) = c_height c"
  by (simp_all add: ctx_of_def)

abbreviation signer :: "signed_vote \<Rightarrow> cvalidator_id" where
  "signer sv \<equiv> v_validator (sv_vote sv)"

text \<open>A vote of which an authentic signed copy exists.\<close>

definition authv :: "(signed_vote \<Rightarrow> bool) \<Rightarrow> vote \<Rightarrow> bool" where
  "authv auth v \<longleftrightarrow> (\<exists>sv. auth sv \<and> sv_vote sv = v)"

lemma authv_mono: "authv auth v \<Longrightarrow> (\<And>sv. auth sv \<Longrightarrow> auth' sv) \<Longrightarrow> authv auth' v"
  unfolding authv_def by blast

text \<open>A quorum whose members all cast the same authentic vote.\<close>

definition quorum_for ::
  "(signed_vote \<Rightarrow> bool) \<Rightarrow> instance_ctx \<Rightarrow> u32 \<Rightarrow> vote_kind \<Rightarrow> block_id \<Rightarrow> bool" where
  "quorum_for auth X r k b \<longleftrightarrow>
     (\<exists>Q. is_quorum (vs_validators (x_vs X)) Q \<and> (\<forall>q \<in> Q. authv auth (cvote X r k (VoteBlock b) q)))"

definition signed_ok ::
  "(signed_vote \<Rightarrow> bool) \<Rightarrow> instance_ctx \<Rightarrow> u32 \<Rightarrow> vote_kind \<Rightarrow> signed_vote \<Rightarrow> bool" where
  "signed_ok auth X r k sv \<longleftrightarrow>
     sv_vote sv = cvote X r k (v_value (sv_vote sv)) (signer sv) \<and>
     signer sv \<in> set (vs_validators (x_vs X)) \<and> r < cfg_max_rounds_per_height (x_cfg X) \<and>
     length (sv_signature sv) \<le> unat (cfg_max_signature_bytes (x_cfg X)) \<and> auth sv"

definition proof_ok ::
  "(signed_vote \<Rightarrow> bool) \<Rightarrow> instance_ctx \<Rightarrow> u32 \<Rightarrow> vote_kind \<Rightarrow> block_id \<Rightarrow> signed_vote list \<Rightarrow> bool" where
  "proof_ok auth X r k b svs \<longleftrightarrow>
     distinct (map signer svs) \<and> vs_quorum (x_vs X) \<le> length svs \<and> length svs \<le> vs_len (x_vs X) \<and>
     (\<forall>sv \<in> set svs. signed_ok auth X r k sv \<and> v_value (sv_vote sv) = VoteBlock b)"

lemma quorum_for_mono: "quorum_for auth X r k b \<Longrightarrow> (\<And>v. auth v \<Longrightarrow> auth' v) \<Longrightarrow> quorum_for auth' X r k b"
  unfolding quorum_for_def using authv_mono by blast

lemma proof_ok_mono: "proof_ok auth X r k b svs \<Longrightarrow> (\<And>v. auth v \<Longrightarrow> auth' v) \<Longrightarrow> proof_ok auth' X r k b svs"
  unfolding proof_ok_def signed_ok_def by blast

lemma quorum_signers:
  assumes "distinct (map signer svs)" "signer ` set svs \<subseteq> set (vs_validators vs)"
    and "distinct (vs_validators vs)" "vs_validators vs \<noteq> []" "vs_quorum vs \<le> length svs"
  shows "is_quorum (vs_validators vs) (signer ` set svs)"
proof -
  have "card (signer ` set svs) = length svs"
    using assms(1) by (metis distinct_card length_map set_map)
  with assms show ?thesis
    by (simp add: is_quorum_def vs_quorum_def distinct_card)
qed

lemma proof_ok_quorum:
  assumes "ctx_ok X" "proof_ok auth X r k b svs"
  shows "quorum_for auth X r k b"
  unfolding quorum_for_def
proof (intro exI conjI ballI)
  show "is_quorum (vs_validators (x_vs X)) (signer ` set svs)"
    using assms by (intro quorum_signers) (auto simp: ctx_ok_def proof_ok_def signed_ok_def)
  fix q assume "q \<in> signer ` set svs"
  then obtain sv where "sv \<in> set svs" "q = signer sv" by blast
  with assms(2) show "authv auth (cvote X r k (VoteBlock b) q)"
    by (metis authv_def proof_ok_def signed_ok_def)
qed

text \<open>Two quorums always share a member, and one outside any tolerated faulty set.\<close>

lemma quorum_for_common:
  assumes "quorum_for auth X r k b" "quorum_for auth X r' k' b'"
    and "card (set (vs_validators (x_vs X)) \<inter> F) \<le> max_faults (vs_validators (x_vs X))"
  shows "\<exists>q \<in> set (vs_validators (x_vs X)). q \<notin> F \<and>
     authv auth (cvote X r k (VoteBlock b) q) \<and> authv auth (cvote X r' k' (VoteBlock b') q)"
proof -
  obtain Q R where Q: "is_quorum (vs_validators (x_vs X)) Q" "\<forall>q \<in> Q. authv auth (cvote X r k (VoteBlock b) q)"
    and R: "is_quorum (vs_validators (x_vs X)) R" "\<forall>q \<in> R. authv auth (cvote X r' k' (VoteBlock b') q)"
    using assms(1,2) unfolding quorum_for_def by blast
  obtain q where "q \<in> Q" "q \<in> R" "q \<notin> F"
    using bft.quorum_honest_Int [OF Q(1) R(1) assms(3)] by blast
  with Q R show ?thesis by (auto simp: is_quorum_def)
qed

lemma quorum_for_member:
  assumes "quorum_for auth X r k b"
    and "card (set (vs_validators (x_vs X)) \<inter> F) \<le> max_faults (vs_validators (x_vs X))"
  shows "\<exists>q \<in> set (vs_validators (x_vs X)). q \<notin> F \<and> authv auth (cvote X r k (VoteBlock b) q)"
  using quorum_for_common [OF assms(1,1,2)] by blast

section \<open>Checks establish well-formed votes\<close>

lemma validate_context_ok:
  "validate_context c chain h = Inr u \<longleftrightarrow> chain = cfg_chain_id (c_config c) \<and> h = c_height c"
  by (auto simp: validate_context_def)

lemma validate_vote_structure_ok:
  "validate_vote_structure c sv = Inr u \<longleftrightarrow>
     sv_vote sv = cvote (ctx_of c) (v_round (sv_vote sv)) (v_kind (sv_vote sv)) (v_value (sv_vote sv)) (signer sv) \<and>
     signer sv \<in> set (vs_validators (c_validators c)) \<and>
     v_round (sv_vote sv) < cfg_max_rounds_per_height (c_config c)"
  by (auto simp: validate_vote_structure_def Let_def result_simps validate_context_ok vs_contains_def
      eq_cvote not_le)

lemma validate_proof_votes_ok:
  "validate_proof_votes c mv r k b e signers svs = Inr u \<longleftrightarrow>
     distinct (map signer svs) \<and> signer ` set svs \<inter> set signers = {} \<and>
     (\<forall>sv \<in> set svs. \<not> signature_too_large c (sv_signature sv) \<and>
        validate_vote_structure c sv = Inr () \<and> v_round (sv_vote sv) = r \<and>
        v_kind (sv_vote sv) = k \<and> v_value (sv_vote sv) = VoteBlock b \<and>
        validate_vote mv sv = Inr ())"
proof (induction svs arbitrary: signers)
  case (Cons sv svs)
  then show ?case by (auto simp: result_simps Let_def)
qed simp

lemma proof_votes_proof_ok:
  assumes "validate_proof_votes c mv r k b e [] svs = Inr u"
    and "vs_quorum (c_validators c) \<le> length svs" "length svs \<le> vs_len (c_validators c)"
    and "\<And>sv. sv \<in> set svs \<Longrightarrow> validate_vote mv sv = Inr () \<Longrightarrow> auth sv"
  shows "proof_ok auth (ctx_of c) r k b svs"
  using assms
  by (auto simp: proof_ok_def signed_ok_def validate_proof_votes_ok validate_vote_structure_ok
      signature_too_large_def not_less eq_cvote)

text \<open>Restoring accepts a well-formed proof again.\<close>

lemma proof_ok_validates:
  assumes "proof_ok auth (ctx_of c) r k b svs"
    and "\<And>sv. sv \<in> set svs \<Longrightarrow> validate_vote mv sv = Inr ()"
  shows "validate_proof_votes c mv r k b e [] svs = Inr ()"
  using assms
  by (auto simp: proof_ok_def signed_ok_def validate_proof_votes_ok validate_vote_structure_ok
      signature_too_large_def not_less eq_cvote)

section \<open>Quorums in the vote cache\<close>

lemma group_votes_get:
  "bt_get (group_votes svs) val =
     (if \<exists>sv \<in> set svs. v_value (sv_vote sv) = val
      then Some (filter (\<lambda>sv. v_value (sv_vote sv) = val) svs) else None)"
proof (induction svs rule: rev_induct)
  case Nil
  then show ?case by (simp add: group_votes_def)
next
  case (snoc sv svs)
  have step: "group_votes (svs @ [sv]) =
      bt_insert (v_value (sv_vote sv))
        ((case bt_get (group_votes svs) (v_value (sv_vote sv)) of None \<Rightarrow> [] | Some e \<Rightarrow> e) @ [sv])
        (group_votes svs)"
    by (simp add: group_votes_def Let_def)
  show ?case unfolding step using snoc by auto
qed

lemma group_votes_wf: "bt_wf (group_votes svs)"
proof -
  have "bt_wf m \<Longrightarrow> bt_wf (fold (\<lambda>sv m. let value = v_value (sv_vote sv) in
      bt_insert value ((case bt_get m value of None \<Rightarrow> [] | Some entry \<Rightarrow> entry) @ [sv]) m) svs m)" for m
    by (induction svs arbitrary: m) (auto simp: Let_def)
  from this [of "[]"] show ?thesis by (simp add: group_votes_def)
qed

lemma quorum_votes_Some:
  assumes "quorum_votes c r k = Some (val, svs)"
  shows "\<exists>m. bt_get (c_votes c) (r, k) = Some m \<and>
     svs = filter (\<lambda>sv. v_value (sv_vote sv) = val) (bt_values m) \<and>
     vs_quorum (c_validators c) \<le> length svs"
proof -
  obtain m where m: "bt_get (c_votes c) (r, k) = Some m"
    and f: "find (\<lambda>(_, vs). length vs \<ge> vs_quorum (c_validators c)) (group_votes (bt_values m)) = Some (val, svs)"
    using assms by (auto simp: quorum_votes_def split: option.splits)
  have "(val, svs) \<in> set (group_votes (bt_values m))" "vs_quorum (c_validators c) \<le> length svs"
    using f by (auto simp: find_Some_iff) (metis nth_mem)
  then have "bt_get (group_votes (bt_values m)) val = Some svs"
    by (simp add: bt_get_iff group_votes_wf)
  with m \<open>vs_quorum (c_validators c) \<le> length svs\<close> show ?thesis
    by (auto simp: group_votes_get split: if_splits)
qed

lemma quorum_votes_exists:
  assumes "bt_get (c_votes c) (r, k) = Some m" and "0 < vs_quorum (c_validators c)"
    and "vs_quorum (c_validators c) \<le> length (filter (\<lambda>sv. v_value (sv_vote sv) = val) (bt_values m))"
  shows "quorum_votes c r k \<noteq> None"
proof -
  let ?f = "filter (\<lambda>sv. v_value (sv_vote sv) = val) (bt_values m)"
  have "?f \<noteq> []" using assms by auto
  then have "bt_get (group_votes (bt_values m)) val = Some ?f"
    by (auto simp: group_votes_get filter_empty_conv)
  then have "(val, ?f) \<in> set (group_votes (bt_values m))" by (rule bt_get_in_set)
  with assms show ?thesis by (auto simp: quorum_votes_def find_None_iff)
qed

section \<open>The invariant\<close>

type_synonym decision_log = "(signable_message \<times> safety_state) list"

fun effect_decision :: "effect \<Rightarrow> decision_log" where
  "effect_decision (PersistBeforeBroadcast m ss) = [(m, ss)]"
| "effect_decision _ = []"

definition effect_log :: "effect list \<Rightarrow> decision_log" where
  "effect_log effects = concat (map effect_decision effects)"

lemma effect_log_simps [simp]:
  "effect_log [] = []" "effect_log (e # es) = effect_decision e @ effect_log es"
  "effect_log (xs @ ys) = effect_log xs @ effect_log ys"
  by (simp_all add: effect_log_def)

definition log_votes :: "decision_log \<Rightarrow> vote set" where
  "log_votes log = {v. \<exists>ss. (SignableVote v, ss) \<in> set log}"

lemma log_votes_simps [simp]:
  "log_votes [] = {}" "log_votes (xs @ ys) = log_votes xs \<union> log_votes ys"
  "log_votes ((SignableVote v, ss) # xs) = insert v (log_votes xs)"
  "log_votes ((SignableProposal p, ss) # xs) = log_votes xs"
  by (auto simp: log_votes_def)

definition votes_inv ::
  "(signed_vote \<Rightarrow> bool) \<Rightarrow> instance_ctx \<Rightarrow>
   (u32 \<times> vote_kind, (cvalidator_id, signed_vote) btree_map) btree_map \<Rightarrow> bool" where
  "votes_inv auth X votes \<longleftrightarrow>
     (\<forall>r k m. bt_get votes (r, k) = Some m \<longrightarrow>
        bt_wf m \<and> (\<forall>q sv. bt_get m q = Some sv \<longrightarrow> signer sv = q \<and> signed_ok auth X r k sv))"

definition props_inv ::
  "(signed_vote \<Rightarrow> bool) \<Rightarrow> instance_ctx \<Rightarrow> (u32, signed_proposal) btree_map \<Rightarrow> bool" where
  "props_inv auth X props \<longleftrightarrow>
     (\<forall>r sp. bt_get props r = Some sp \<longrightarrow>
        p_round (sp_proposal sp) = r \<and>
        (\<forall>vr. p_valid_round (sp_proposal sp) = Some vr \<longrightarrow>
           vr < r \<and> quorum_for auth X vr Prevote (p_block_id (sp_proposal sp))))"

text \<open>
  The votes of a correct validator: its own, at most one per round and kind, block
  precommits only on a prevote quorum, and a later prevote for another block only after
  a prevote quorum for that block in a round in between.
\<close>

definition precommits :: "vote \<Rightarrow> block_id \<Rightarrow> bool" where
  "precommits v b \<longleftrightarrow> v_kind v = Precommit \<and> v_value v = VoteBlock b"

definition prevotes :: "vote \<Rightarrow> block_id \<Rightarrow> bool" where
  "prevotes v b \<longleftrightarrow> v_kind v = Prevote \<and> v_value v = VoteBlock b"

definition switch_justified ::
  "(signed_vote \<Rightarrow> bool) \<Rightarrow> instance_ctx \<Rightarrow> vote set \<Rightarrow> u32 \<Rightarrow> block_id \<Rightarrow> bool" where
  "switch_justified auth X H r b' \<longleftrightarrow>
     (\<forall>v \<in> H. \<forall>b. precommits v b \<longrightarrow> v_round v < r \<longrightarrow> b \<noteq> b' \<longrightarrow>
        (\<exists>vr. v_round v < vr \<and> vr < r \<and> quorum_for auth X vr Prevote b'))"

definition history_ok :: "(signed_vote \<Rightarrow> bool) \<Rightarrow> instance_ctx \<Rightarrow> vote set \<Rightarrow> bool" where
  "history_ok auth X H \<longleftrightarrow>
     (\<forall>v \<in> H. v = cvote X (v_round v) (v_kind v) (v_value v) (x_me X)) \<and>
     (\<forall>v \<in> H. \<forall>w \<in> H. v_round v = v_round w \<longrightarrow> v_kind v = v_kind w \<longrightarrow> v = w) \<and>
     (\<forall>v \<in> H. \<forall>b. precommits v b \<longrightarrow> quorum_for auth X (v_round v) Prevote b) \<and>
     (\<forall>w \<in> H. \<forall>b'. prevotes w b' \<longrightarrow> switch_justified auth X H (v_round w) b')"

definition lock_covers :: "vote set \<Rightarrow> safety_state \<Rightarrow> bool" where
  "lock_covers H ss \<longleftrightarrow>
     (\<forall>v \<in> H. \<forall>b. precommits v b \<longrightarrow>
        (\<exists>lr lb. ss_locked_round ss = Some lr \<and> ss_locked_block ss = Some lb \<and> v_round v \<le> lr \<and>
           (lr = v_round v \<longrightarrow> lb = b)))"

text \<open>What a stored safety state guarantees about the votes stored up to it.\<close>

definition safety_ok :: "(signed_vote \<Rightarrow> bool) \<Rightarrow> instance_ctx \<Rightarrow> vote set \<Rightarrow> safety_state \<Rightarrow> bool" where
  "safety_ok auth X H ss \<longleftrightarrow>
     ss_height ss = x_height X \<and> (\<forall>v \<in> H. v_round v \<le> ss_round ss) \<and>
     (case (ss_valid_round ss, ss_valid_block ss) of
        (None, None) \<Rightarrow> ss_valid_round_proof ss = []
      | (Some r, Some b) \<Rightarrow> r \<le> ss_round ss \<and> proof_ok auth X r Prevote b (ss_valid_round_proof ss)
      | _ \<Rightarrow> False) \<and>
     (case (ss_locked_round ss, ss_locked_block ss) of
        (None, None) \<Rightarrow> True
      | (Some lr, Some lb) \<Rightarrow> lr \<le> ss_round ss \<and> quorum_for auth X lr Prevote lb \<and>
          (\<exists>vr vb. ss_valid_round ss = Some vr \<and> ss_valid_block ss = Some vb \<and>
             (lr < vr \<or> vr = lr \<and> vb = lb))
      | _ \<Rightarrow> False) \<and>
     lock_covers H ss"

definition log_ok :: "(signed_vote \<Rightarrow> bool) \<Rightarrow> instance_ctx \<Rightarrow> decision_log \<Rightarrow> bool" where
  "log_ok auth X log \<longleftrightarrow>
     (\<forall>i < length log. safety_ok auth X (log_votes (take (Suc i) log)) (snd (log ! i)))"

definition phase_ok :: "vote set \<Rightarrow> consensus \<Rightarrow> bool" where
  "phase_ok H c \<longleftrightarrow>
     (\<forall>v \<in> H. v_round v = c_round c \<longrightarrow> c_started c \<and>
        (v_kind v = Prevote \<longrightarrow> c_phase c \<noteq> PhasePropose) \<and>
        (v_kind v = Precommit \<longrightarrow> c_phase c \<in> {PhasePrecommit, PhaseFinalized})) \<and>
     (c_locked_round c = Some (c_round c) \<longrightarrow> c_started c \<and> c_phase c \<noteq> PhasePropose) \<and>
     (c_valid_round c = Some (c_round c) \<longrightarrow> c_started c \<and>
        (\<exists>m. bt_get (c_votes c) (c_round c, Prevote) = Some m \<and>
             set (c_valid_proof c) \<subseteq> set (bt_values m))) \<and>
     (\<not> c_started c \<longrightarrow> c_proposals c = [] \<and> c_votes c = [] \<and> c_requested_proposals c = [] \<and>
        c_pending_persistence c = [])"

definition finalization_ok :: "(signed_vote \<Rightarrow> bool) \<Rightarrow> instance_ctx \<Rightarrow> finalization \<Rightarrow> bool" where
  "finalization_ok auth X f \<longleftrightarrow>
     fin_height f = x_height X \<and> ct_chain_id (fin_certificate f) = cfg_chain_id (x_cfg X) \<and>
     ct_height (fin_certificate f) = x_height X \<and> ct_round (fin_certificate f) = fin_round f \<and>
     ct_block_id (fin_certificate f) = fin_block_id f \<and>
     proof_ok auth X (fin_round f) Precommit (fin_block_id f) (ct_precommits (fin_certificate f))"

definition engine_inv ::
  "(signed_vote \<Rightarrow> bool) \<Rightarrow> instance_ctx \<Rightarrow> decision_log \<Rightarrow> consensus \<Rightarrow> bool" where
  "engine_inv auth X log c \<longleftrightarrow>
     ctx_of c = X \<and> ctx_ok X \<and> votes_inv auth X (c_votes c) \<and> props_inv auth X (c_proposals c) \<and>
     history_ok auth X (log_votes log) \<and> log_ok auth X log \<and>
     safety_ok auth X (log_votes log) (engine_safety_state c) \<and> phase_ok (log_votes log) c \<and>
     (\<forall>f. c_finalized c = Some f \<longrightarrow> finalization_ok auth X f)"

text \<open>The votes an event carries, by whoever cast them.\<close>

fun message_votes :: "signed_message \<Rightarrow> signed_vote list" where
  "message_votes (MessageProposal p) = p_valid_round_proof (sp_proposal p)"
| "message_votes (MessageVote v) = [v]"

fun event_votes :: "event \<Rightarrow> signed_vote list" where
  "event_votes (Message m) = message_votes m"
| "event_votes (Persisted m) = message_votes m"
| "event_votes (Certificate ct) = ct_precommits ct"
| "event_votes _ = []"

lemma validate_vote_structure_frame:
  "validate_vote_structure (c\<lparr>c_pending_persistence := m\<rparr>) = validate_vote_structure c"
  by (rule ext) (simp add: validate_vote_structure_def validate_context_def Let_def cong: if_cong)

lemma validate_proof_votes_frame:
  "validate_proof_votes (c\<lparr>c_pending_persistence := m\<rparr>) mv r k b e s svs =
   validate_proof_votes c mv r k b e s svs"
  by (induction svs arbitrary: s)
    (simp_all add: signature_too_large_def validate_vote_structure_frame Let_def cong: if_cong)

lemma validate_message_frame:
  "validate_message (c\<lparr>c_pending_persistence := m\<rparr>) message mv = validate_message c message mv"
  by (simp add: validate_message_def validate_proposal_structure_def validate_context_def
      signature_too_large_def validate_vote_structure_frame validate_proof_votes_frame Let_def
      cong: if_cong option.case_cong signed_message.case_cong)

section \<open>Fewer votes, more authentic ones\<close>

lemma history_ok_subset: "history_ok auth X H \<Longrightarrow> H' \<subseteq> H \<Longrightarrow> history_ok auth X H'"
  unfolding history_ok_def switch_justified_def by blast

lemma safety_ok_subset: "safety_ok auth X H ss \<Longrightarrow> H' \<subseteq> H \<Longrightarrow> safety_ok auth X H' ss"
  unfolding safety_ok_def lock_covers_def by blast

lemma phase_ok_subset: "phase_ok H c \<Longrightarrow> H' \<subseteq> H \<Longrightarrow> phase_ok H' c"
  unfolding phase_ok_def by blast

lemma log_ok_append: "log_ok auth X (xs @ ys) \<Longrightarrow> log_ok auth X xs"
  unfolding log_ok_def by (auto simp: nth_append dest: spec split: if_splits)

lemma log_ok_snoc:
  "log_ok auth X (log @ [(m, ss)]) \<longleftrightarrow>
     log_ok auth X log \<and> safety_ok auth X (log_votes (log @ [(m, ss)])) ss"
  by (auto simp: log_ok_def nth_append less_Suc_eq)

lemma engine_inv_prefix: "engine_inv auth X (log @ l) c \<Longrightarrow> engine_inv auth X log c"
  unfolding engine_inv_def
  by (auto intro: history_ok_subset safety_ok_subset phase_ok_subset log_ok_append)

lemma history_ok_mono:
  assumes "history_ok auth X H" and "\<And>v. auth v \<Longrightarrow> auth' v"
  shows "history_ok auth' X H"
proof -
  have q: "quorum_for auth X r k b \<Longrightarrow> quorum_for auth' X r k b" for r k b
    using quorum_for_mono [of auth X r k b auth', OF _ assms(2)] .
  then have "switch_justified auth X H r b \<Longrightarrow> switch_justified auth' X H r b" for r b
    unfolding switch_justified_def by blast
  with assms(1) q show ?thesis unfolding history_ok_def by simp
qed

lemma safety_ok_mono:
  assumes "safety_ok auth X H ss" and "\<And>v. auth v \<Longrightarrow> auth' v"
  shows "safety_ok auth' X H ss"
  using assms(1) quorum_for_mono [of auth X _ _ _ auth', OF _ assms(2)]
    proof_ok_mono [of auth X _ _ _ _ auth', OF _ assms(2)]
  by (auto simp: safety_ok_def split: option.splits)

lemma engine_inv_mono:
  assumes "engine_inv auth X log c" and "\<And>v. auth v \<Longrightarrow> auth' v"
  shows "engine_inv auth' X log c"
proof -
  have "votes_inv auth' X (c_votes c)"
    using assms unfolding engine_inv_def votes_inv_def signed_ok_def by blast
  moreover have "props_inv auth' X (c_proposals c)"
    using assms quorum_for_mono [of auth X _ _ _ auth', OF _ assms(2)]
    unfolding engine_inv_def props_inv_def by blast
  moreover have "log_ok auth' X log"
    using assms safety_ok_mono [of auth X _ _ auth', OF _ assms(2)]
    unfolding engine_inv_def log_ok_def by blast
  moreover have "finalization_ok auth' X f" if "c_finalized c = Some f" for f
    using assms(1) that proof_ok_mono [of auth X _ _ _ _ auth', OF _ assms(2)]
    unfolding engine_inv_def finalization_ok_def by blast
  ultimately show ?thesis
    using assms(1) history_ok_mono [of auth X _ auth', OF _ assms(2)]
      safety_ok_mono [of auth X _ _ auth', OF _ assms(2)]
    unfolding engine_inv_def by blast
qed

end
