(* ===== verification/EngineStep.thy ===== *)
theory EngineStep
  imports EngineInv
begin

text \<open>
  Every step of \<open>Consensus\<close> keeps \<open>engine_inv\<close>: first the operations the handlers share
  (casting a vote, updating the valid value and the lock, finalizing, entering a round),
  then the handlers in the order of \<open>engine.rs\<close>, then both constructors.
\<close>

lemma u32_less_add_1:
  fixes r :: u32
  shows "unat r + 1 < 2 ^ 32 \<Longrightarrow> r < r + 1"
  using unat_add_less [of r 1] by (simp add: word_less_nat_alt)

section \<open>Unpacking the invariant\<close>

lemma engine_invD:
  assumes "engine_inv auth X log c"
  shows "ctx_of c = X" "ctx_ok X" "votes_inv auth X (c_votes c)" "props_inv auth X (c_proposals c)"
    "history_ok auth X (log_votes log)" "log_ok auth X log"
    "safety_ok auth X (log_votes log) (engine_safety_state c)" "phase_ok (log_votes log) c"
    "c_finalized c = Some f \<Longrightarrow> finalization_ok auth X f"
  using assms unfolding engine_inv_def by auto

lemma safety_state_fields [simp]:
  "ss_height (engine_safety_state c) = c_height c" "ss_round (engine_safety_state c) = c_round c"
  "ss_locked_round (engine_safety_state c) = c_locked_round c"
  "ss_locked_block (engine_safety_state c) = c_locked_block c"
  "ss_valid_round (engine_safety_state c) = c_valid_round c"
  "ss_valid_block (engine_safety_state c) = c_valid_block c"
  "ss_valid_round_proof (engine_safety_state c) = c_valid_proof c"
  by (simp_all add: engine_safety_state_def)

lemma vote_round_le:
  "engine_inv auth X log c \<Longrightarrow> v \<in> log_votes log \<Longrightarrow> v_round v \<le> c_round c"
  by (auto simp: engine_inv_def safety_ok_def)

text \<open>In the propose phase no vote of the current round exists and the lock is older.\<close>

lemma propose_phase_fresh:
  assumes "engine_inv auth X log c" "c_phase c = PhasePropose"
  shows "v \<in> log_votes log \<Longrightarrow> v_round v < c_round c"
    and "c_locked_round c = Some lr \<Longrightarrow> lr < c_round c"
proof -
  have ph: "phase_ok (log_votes log) c" by (rule engine_invD(8) [OF assms(1)])
  have "v_round v \<noteq> c_round c" if "v \<in> log_votes log" for v
    using ph that assms(2) unfolding phase_ok_def by (cases "v_kind v") auto
  then show "v \<in> log_votes log \<Longrightarrow> v_round v < c_round c"
    using vote_round_le [OF assms(1), of v] by (auto simp: order.strict_iff_order)
  assume l: "c_locked_round c = Some lr"
  then have "lr \<le> c_round c"
    using assms(1) by (auto simp: engine_inv_def safety_ok_def split: option.splits)
  moreover have "lr \<noteq> c_round c"
    using ph l assms(2) unfolding phase_ok_def by auto
  ultimately show "lr < c_round c" by simp
qed

section \<open>Casting a vote\<close>

definition own_vote :: "consensus \<Rightarrow> vote_kind \<Rightarrow> vote_value \<Rightarrow> vote" where
  "own_vote c kind value = cvote (ctx_of c) (c_round c) kind value (c_local_id c)"

definition can_cast :: "(signed_vote \<Rightarrow> bool) \<Rightarrow> decision_log \<Rightarrow> consensus \<Rightarrow> vote_kind \<Rightarrow> vote_value \<Rightarrow> bool" where
  "can_cast auth log c kind value \<longleftrightarrow> c_started c \<and>
     (case kind of
        Prevote \<Rightarrow> c_phase c = PhasePropose \<and>
          (\<forall>b. value = VoteBlock b \<longrightarrow>
             switch_justified auth (ctx_of c) (log_votes log) (c_round c) b)
      | Precommit \<Rightarrow> c_phase c = PhasePrevote \<and>
          (\<forall>b. value = VoteBlock b \<longrightarrow> c_locked_round c = Some (c_round c) \<and> c_locked_block c = Some b))"

lemma cast_vote_cases:
  "cast_vote kind value (c, effs) = (c, effs) \<or>
   (\<exists>decisions pending. cast_vote kind value (c, effs) =
     (c\<lparr>c_local_decisions := decisions, c_pending_persistence := pending,
        c_phase := (case kind of Prevote \<Rightarrow> PhasePrevote | Precommit \<Rightarrow> PhasePrecommit)\<rparr>,
      effs @ [PersistBeforeBroadcast (SignableVote (own_vote c kind value)) (engine_safety_state c),
              ScheduleTimeout (engine_timeout c (case kind of Prevote \<Rightarrow> PhasePrevote | Precommit \<Rightarrow> PhasePrecommit))]))"
  by (auto simp: cast_vote_def Let_def own_vote_def cvote_def engine_safety_state_def engine_timeout_def)

lemma history_insert:
  assumes H: "history_ok auth X H" and own: "v = cvote X (v_round v) (v_kind v) (v_value v) (x_me X)"
    and rounds: "\<And>w. w \<in> H \<Longrightarrow> v_round w \<le> v_round v"
    and fresh: "\<And>w. w \<in> H \<Longrightarrow> v_round w = v_round v \<Longrightarrow> v_kind w \<noteq> v_kind v"
    and pc: "\<And>b. precommits v b \<Longrightarrow> quorum_for auth X (v_round v) Prevote b"
    and pv: "\<And>b. prevotes v b \<Longrightarrow> switch_justified auth X H (v_round v) b"
  shows "history_ok auth X (insert v H)"
proof -
  have sj: "switch_justified auth X (insert v H) r b" if "switch_justified auth X H r b" "r \<le> v_round v" for r b
    using that unfolding switch_justified_def by auto
  have "switch_justified auth X (insert v H) (v_round w) b" if "w \<in> insert v H" "prevotes w b" for w b
    using that sj [OF pv] sj [of "v_round w" b] H rounds unfolding history_ok_def by auto
  moreover have "w = w'" if "w \<in> insert v H" "w' \<in> insert v H" "v_round w = v_round w'" "v_kind w = v_kind w'" for w w'
  proof -
    have "\<forall>x \<in> H. \<forall>y \<in> H. v_round x = v_round y \<longrightarrow> v_kind x = v_kind y \<longrightarrow> x = y"
      using H unfolding history_ok_def by (elim conjE)
    with that fresh [of w] fresh [of w'] show ?thesis by auto
  qed
  ultimately show ?thesis
    using H own pc unfolding history_ok_def by simp
qed

lemma cast_vote_inv:
  assumes inv: "engine_inv auth X (log @ effect_log effs) c"
    and can: "can_cast auth (log @ effect_log effs) c kind value"
    and cast: "cast_vote kind value (c, effs) = (c', effs')"
  shows "engine_inv auth X (log @ effect_log effs') c' \<and> c_round c' = c_round c \<and> c_started c'"
  using cast_vote_cases [of kind "value" c effs]
proof (elim disjE exE)
  assume "cast_vote kind value (c, effs) = (c, effs)"
  with assms show ?thesis by (simp add: can_cast_def)
next
  fix decisions pending
  let ?ph = "case kind of Prevote \<Rightarrow> PhasePrevote | Precommit \<Rightarrow> PhasePrecommit"
  let ?v = "own_vote c kind value" and ?H = "log_votes (log @ effect_log effs)"
  assume eq: "cast_vote kind value (c, effs) =
     (c\<lparr>c_local_decisions := decisions, c_pending_persistence := pending, c_phase := ?ph\<rparr>,
      effs @ [PersistBeforeBroadcast (SignableVote ?v) (engine_safety_state c),
              ScheduleTimeout (engine_timeout c ?ph)])"
  note D = engine_invD [OF inv]
  have v: "v_round ?v = c_round c" "v_kind ?v = kind" "v_value ?v = value"
    "?v = cvote X (c_round c) kind value (x_me X)"
    using D(1) by (auto simp: own_vote_def)
  have fresh: "v_kind w \<noteq> kind" if "w \<in> ?H" "v_round w = c_round c" for w
    using that D(8) can by (cases kind) (auto simp: phase_ok_def can_cast_def)
  have locked: "quorum_for auth X (c_round c) Prevote b" if "precommits ?v b" for b
    using that can D(7) v by (cases kind) (auto simp: can_cast_def precommits_def safety_ok_def)
  have "history_ok auth X (insert ?v ?H)"
  proof (rule history_insert [OF D(5)])
    show "w \<in> ?H \<Longrightarrow> v_round w \<le> v_round ?v" for w using vote_round_le [OF inv] v(1) by simp
    show "prevotes ?v b \<Longrightarrow> switch_justified auth X ?H (v_round ?v) b" for b
      using can v D(1) by (cases kind) (auto simp: can_cast_def prevotes_def)
  qed (use fresh locked v in auto)
  moreover have "safety_ok auth X (insert ?v ?H) (engine_safety_state c)"
  proof -
    have "lock_covers (insert ?v ?H) (engine_safety_state c)"
      using D(7) can v by (cases kind) (auto simp: safety_ok_def lock_covers_def precommits_def can_cast_def)
    with D(7) v(1) show ?thesis by (auto simp: safety_ok_def)
  qed
  moreover have "phase_ok (insert ?v ?H) (c\<lparr>c_local_decisions := decisions, c_pending_persistence := pending, c_phase := ?ph\<rparr>)"
    using D(8) can v by (cases kind) (auto simp: phase_ok_def can_cast_def)
  ultimately show ?thesis
    using D cast can eq
    by (auto simp: engine_inv_def ctx_of_def engine_safety_state_def log_ok_snoc can_cast_def
        simp flip: append_assoc)
qed

section \<open>Quorums\<close>

lemma bt_values_signers:
  assumes "votes_inv auth X votes" "bt_get votes (r, k) = Some m"
  shows "distinct (map signer (bt_values m))"
    and "sv \<in> set (bt_values m) \<Longrightarrow> signed_ok auth X r k sv \<and> bt_get m (signer sv) = Some sv"
proof -
  have wf: "bt_wf m" and sv: "\<And>q sv. bt_get m q = Some sv \<Longrightarrow> signer sv = q \<and> signed_ok auth X r k sv"
    using assms unfolding votes_inv_def by blast+
  have "map signer (bt_values m) = map fst m"
    using sv wf by (auto simp: bt_values_def bt_get_iff)
  with bt_wf_distinct [OF wf] show "distinct (map signer (bt_values m))" by simp
  show "sv \<in> set (bt_values m) \<Longrightarrow> signed_ok auth X r k sv \<and> bt_get m (signer sv) = Some sv"
    using sv wf by (fastforce simp: bt_values_def bt_get_iff)
qed

lemma vs_quorum_pos: "ctx_ok X \<Longrightarrow> 0 < vs_quorum (x_vs X)"
  by (auto simp: ctx_ok_def vs_quorum_def intro!: quorum_size_pos)

lemma quorum_votes_proof_ok:
  assumes inv: "engine_inv auth X log c" and q: "quorum_votes c r k = Some (VoteBlock b, svs)"
  shows "proof_ok auth X r k b svs"
    and "\<exists>m. bt_get (c_votes c) (r, k) = Some m \<and> set svs \<subseteq> set (bt_values m)"
proof -
  obtain m where m: "bt_get (c_votes c) (r, k) = Some m"
    and f: "svs = filter (\<lambda>sv. v_value (sv_vote sv) = VoteBlock b) (bt_values m)"
    and l: "vs_quorum (c_validators c) \<le> length svs"
    using quorum_votes_Some [OF q] by blast
  note D = engine_invD [OF inv]
  note B = bt_values_signers [OF D(3) m]
  show "\<exists>m. bt_get (c_votes c) (r, k) = Some m \<and> set svs \<subseteq> set (bt_values m)"
    using m f by auto
  have dist: "distinct (map signer svs)"
    using B(1) unfolding f by (rule distinct_map_filter)
  moreover have "length svs \<le> vs_len (x_vs X)"
  proof -
    have "card (signer ` set svs) \<le> card (set (vs_validators (x_vs X)))"
      using B(2) by (intro card_mono) (auto simp: f signed_ok_def)
    with dist show ?thesis
      using D(2) by (metis ctx_ok_def distinct_card length_map set_map vs_len_def)
  qed
  moreover have "vs_quorum (x_vs X) \<le> length svs" using l D(1) by auto
  ultimately show "proof_ok auth X r k b svs"
    using B(2) by (auto simp: proof_ok_def f)
qed

text \<open>Two blocks never both have a prevote quorum among the cached votes of a round.\<close>

lemma cached_quorum_unique:
  assumes inv: "engine_inv auth X log c" and m: "bt_get (c_votes c) (r, k) = Some m"
    and p: "proof_ok auth' X r k b svs" "set svs \<subseteq> set (bt_values m)"
    and p': "proof_ok auth'' X r k b' svs'" "set svs' \<subseteq> set (bt_values m)"
  shows "b = b'"
proof -
  note D = engine_invD [OF inv]
  have Q: "is_quorum (vs_validators (x_vs X)) (signer ` set svs)"
    "is_quorum (vs_validators (x_vs X)) (signer ` set svs')"
    using p(1) p'(1) D(2) by (intro quorum_signers; auto simp: ctx_ok_def proof_ok_def signed_ok_def)+
  obtain q where "q \<in> signer ` set svs" "q \<in> signer ` set svs'"
    using bft.quorum_honest_Int [OF Q, of "{}"] by auto
  then obtain sv sv' where sv: "sv \<in> set svs" "sv' \<in> set svs'" "signer sv = signer sv'" by auto
  then have "sv \<in> set (bt_values m)" "sv' \<in> set (bt_values m)" using p(2) p'(2) by auto
  then have "bt_get m (signer sv) = Some sv" "bt_get m (signer sv) = Some sv'"
    using bt_values_signers(2) [OF D(3) m] sv(3) by metis+
  then have "sv = sv'" by simp
  with sv p(1) p'(1) show ?thesis by (auto simp: proof_ok_def)
qed

lemma vote_cached_started:
  assumes "engine_inv auth X log c" "bt_get (c_votes c) k = Some m"
  shows "c_started c"
  using assms engine_invD(8) [OF assms(1)] by (auto simp: phase_ok_def)

section \<open>Valid value and lock\<close>

lemma update_valid_inv:
  assumes inv: "engine_inv auth X log c" and q: "quorum_votes c r Prevote = Some (VoteBlock b, svs)"
  shows "engine_inv auth X log (update_valid c r b svs)"
proof (cases "r \<le> c_round c \<and> (case c_valid_round c of None \<Rightarrow> True | Some known \<Rightarrow> r > known)")
  case True
  note D = engine_invD [OF inv]
  let ?c = "c\<lparr>c_valid_round := Some r, c_valid_block := Some b, c_valid_proof := svs\<rparr>"
  note P = quorum_votes_proof_ok [OF inv q]
  have "safety_ok auth X (log_votes log) (engine_safety_state ?c)"
    using D(7) True P(1)
    by (auto simp: safety_ok_def lock_covers_def split: option.splits)
  moreover have "phase_ok (log_votes log) ?c"
    using D(8) P(2) vote_cached_started [OF inv] unfolding phase_ok_def by auto
  ultimately show ?thesis
    using D True by (simp add: engine_inv_def update_valid_def ctx_of_def)
qed (use inv in \<open>auto simp: update_valid_def\<close>)

lemma update_valid_current:
  assumes inv: "engine_inv auth X log c" and q: "quorum_votes c r Prevote = Some (VoteBlock b, svs)"
    and r: "r = c_round c"
  shows "c_valid_round (update_valid c r b svs) = Some r \<and> c_valid_block (update_valid c r b svs) = Some b"
proof (cases "c_valid_round c")
  case (Some known)
  note D = engine_invD [OF inv]
  obtain vb where vb: "c_valid_block c = Some vb" "known \<le> c_round c"
    "proof_ok auth X known Prevote vb (c_valid_proof c)"
    using D(7) Some by (auto simp: safety_ok_def split: option.splits)
  show ?thesis
  proof (cases "known = r")
    case True
    obtain m where m: "bt_get (c_votes c) (c_round c, Prevote) = Some m" "set svs \<subseteq> set (bt_values m)"
      using quorum_votes_proof_ok(2) [OF inv q] r by blast
    have "set (c_valid_proof c) \<subseteq> set (bt_values m)"
      using D(8) Some True r m(1) by (auto simp: phase_ok_def)
    with cached_quorum_unique [OF inv m(1), of auth vb "c_valid_proof c" auth b svs] m vb(3)
      quorum_votes_proof_ok(1) [OF inv q] True r have "vb = b" by auto
    with Some vb True show ?thesis by (auto simp: update_valid_def)
  next
    case False
    with vb(2) r Some show ?thesis by (auto simp: update_valid_def order.strict_iff_order)
  qed
qed (use r in \<open>auto simp: update_valid_def\<close>)

lemma lock_inv:
  assumes inv: "engine_inv auth X log c" and ph: "c_phase c = PhasePrevote" "c_started c"
    and valid: "c_valid_round c = Some (c_round c)" "c_valid_block c = Some b"
  shows "engine_inv auth X log (c\<lparr>c_locked_round := Some (c_round c), c_locked_block := Some b\<rparr>)"
proof -
  note D = engine_invD [OF inv]
  have q: "quorum_for auth X (c_round c) Prevote b"
    using D(2,7) valid by (auto simp: safety_ok_def intro: proof_ok_quorum)
  have "v_round v < c_round c" if "v \<in> log_votes log" "precommits v b'" for v b'
    using that D(8) ph vote_round_le [OF inv that(1)]
    by (auto simp: phase_ok_def precommits_def order.strict_iff_order)
  then have "lock_covers (log_votes log)
      (engine_safety_state (c\<lparr>c_locked_round := Some (c_round c), c_locked_block := Some b\<rparr>))"
    by (fastforce simp: lock_covers_def)
  with D(7) q valid have "safety_ok auth X (log_votes log)
      (engine_safety_state (c\<lparr>c_locked_round := Some (c_round c), c_locked_block := Some b\<rparr>))"
    by (auto simp: safety_ok_def)
  moreover have "phase_ok (log_votes log) (c\<lparr>c_locked_round := Some (c_round c), c_locked_block := Some b\<rparr>)"
    using D(8) ph by (auto simp: phase_ok_def)
  ultimately show ?thesis
    using D by (simp add: engine_inv_def ctx_of_def)
qed

lemma update_valid_frame [simp]:
  "c_round (update_valid c r b svs) = c_round c" "c_phase (update_valid c r b svs) = c_phase c"
  "c_started (update_valid c r b svs) = c_started c"
  by (simp_all add: update_valid_def)

section \<open>Evaluating a round\<close>

lemma evaluate_prevotes_inv:
  assumes inv: "engine_inv auth X (log @ effect_log effs) c"
    and eval: "evaluate_prevotes r (c, effs) = (c', effs')"
  shows "engine_inv auth X (log @ effect_log effs') c'"
proof (cases "quorum_votes c r Prevote")
  case None
  with assms show ?thesis by (simp add: evaluate_prevotes_def)
next
  case (Some qv)
  obtain val svs where qv: "quorum_votes c r Prevote = Some (val, svs)" using Some by (cases qv) simp
  have started: "c_started c"
    using quorum_votes_Some [OF qv] vote_cached_started [OF inv] by blast
  show ?thesis
  proof (cases val)
    case VoteNil
    have "can_cast auth (log @ effect_log effs) c Precommit VoteNil" if "c_phase c = PhasePrevote"
      using that started by (simp add: can_cast_def)
    with qv VoteNil eval inv show ?thesis
      by (auto simp: evaluate_prevotes_def split: if_splits dest: cast_vote_inv [OF inv])
  next
    case (VoteBlock b)
    note qb = qv [unfolded VoteBlock]
    let ?c = "update_valid c r b svs"
    note U = update_valid_inv [OF inv qb]
    show ?thesis
    proof (cases "(case bt_get (c_proposals c) r of None \<Rightarrow> False | Some p \<Rightarrow> p_block_id (sp_proposal p) = b)")
      case True
      show ?thesis
      proof (cases "r = c_round c \<and> c_phase c = PhasePrevote")
        case cond: True
        let ?l = "?c\<lparr>c_locked_round := Some r, c_locked_block := Some b\<rparr>"
        have "engine_inv auth X (log @ effect_log effs) ?l"
          using lock_inv [OF U] update_valid_current [OF inv qb] cond started by simp
        moreover have "can_cast auth (log @ effect_log effs) ?l Precommit (VoteBlock b)"
          using cond started by (simp add: can_cast_def)
        moreover have "cast_vote Precommit (VoteBlock b) (?l, effs) = (c', effs')"
          using eval qb True cond by (simp add: evaluate_prevotes_def Let_def)
        ultimately show ?thesis using cast_vote_inv by blast
      next
        case False
        with eval qb True U show ?thesis by (auto simp: evaluate_prevotes_def Let_def)
      qed
    next
      case False
      then have "(c', effs') = (c, effs)"
        using eval qb by (auto simp: evaluate_prevotes_def Let_def split: option.splits)
      with inv show ?thesis by simp
    qed
  qed
qed

lemma finalize_inv:
  assumes inv: "engine_inv auth X log c" and fin: "finalize c ct = (c', r)"
    and ct: "ct_chain_id ct = cfg_chain_id (x_cfg X)" "ct_height ct = x_height X"
      "proof_ok auth X (ct_round ct) Precommit (ct_block_id ct) (ct_precommits ct)"
  shows "engine_inv auth X log c' \<and> (\<forall>effs. r = Inr effs \<longrightarrow> effect_log effs = [])"
proof (cases "c_finalized c")
  case (Some f)
  with inv fin show ?thesis by (auto simp: finalize_def split: if_splits)
next
  case None
  let ?f = "\<lparr>fin_height = ct_height ct, fin_round = ct_round ct, fin_block_id = ct_block_id ct,
      fin_certificate = ct\<rparr>"
  note D = engine_invD [OF inv]
  have c': "c' = c\<lparr>c_phase := PhaseFinalized, c_finalized := Some ?f\<rparr>" "r = Inr [Finalize ?f]"
    using fin None by (simp_all add: finalize_def Let_def)
  have "phase_ok (log_votes log) c'"
    using D(8) by (simp add: phase_ok_def c')
  moreover have "finalization_ok auth X ?f"
    using ct by (simp add: finalization_ok_def)
  ultimately show ?thesis
    using D unfolding engine_inv_def by (simp add: c')
qed

lemma evaluate_precommits_inv:
  assumes inv: "engine_inv auth X (log @ effect_log effs) c"
    and eval: "evaluate_precommits r mv (c, effs) = (c', res)"
  shows "engine_inv auth X (log @ (case res of Inl _ \<Rightarrow> [] | Inr effs' \<Rightarrow> effect_log effs')) c'"
proof -
  note D = engine_invD [OF inv]
  note pre = engine_inv_prefix [OF inv]
  show ?thesis
  proof (cases "\<exists>b svs. quorum_votes c r Precommit = Some (VoteBlock b, svs)")
    case False
    then have "evaluate_precommits r mv (c, effs) = (c, Inr effs)"
      by (auto simp: evaluate_precommits_def split: option.splits vote_value.splits)
    with eval inv show ?thesis by auto
  next
    case True
    then obtain b svs where q: "quorum_votes c r Precommit = Some (VoteBlock b, svs)" by blast
    define ct where "ct = \<lparr>ct_chain_id = cfg_chain_id (c_config c), ct_height = c_height c, ct_round = r,
        ct_block_id = b, ct_precommits = svs\<rparr>"
    have ct: "ct_chain_id ct = cfg_chain_id (x_cfg X)" "ct_height ct = x_height X"
      "proof_ok auth X (ct_round ct) Precommit (ct_block_id ct) (ct_precommits ct)"
      using D(1) quorum_votes_proof_ok(1) [OF inv q] by (auto simp: ct_def)
    obtain c1 r1 where fin: "finalize c ct = (c1, r1)" by fastforce
    have e: "evaluate_precommits r mv (c, effs) =
        (case validate_certificate_app mv ct of Inl e \<Rightarrow> (c, Inl (ValidationFailed e))
         | Inr _ \<Rightarrow> st_then (c1, r1) (\<lambda>c1 more. (c1, Inr (effs @ more))))"
      by (simp add: evaluate_precommits_def q ct_def [symmetric] fin split: sum.split)
    have "engine_inv auth X (log @ effect_log effs) c1" "\<And>more. r1 = Inr more \<Longrightarrow> effect_log more = []"
      using finalize_inv [OF inv fin ct] by auto
    with eval e pre engine_inv_prefix show ?thesis
      by (cases r1; cases "validate_certificate_app mv ct") auto
  qed
qed

text \<open>The log a result contributes: nothing when the effects are lost with an error.\<close>

definition result_log :: "consensus_error + effect list \<Rightarrow> decision_log" where
  "result_log r = (case r of Inl _ \<Rightarrow> [] | Inr effs \<Rightarrow> effect_log effs)"

lemma result_log_simps [simp]: "result_log (Inl e) = []" "result_log (Inr effs) = effect_log effs"
  by (simp_all add: result_log_def)

lemma evaluate_round_inv:
  assumes "engine_inv auth X (log @ effect_log effs) c"
    and "evaluate_round r mv (c, effs) = (c', res)"
  shows "engine_inv auth X (log @ result_log res) c'"
proof -
  obtain c1 effs1 where e: "evaluate_prevotes r (c, effs) = (c1, effs1)" by fastforce
  with evaluate_prevotes_inv [OF assms(1) e] evaluate_precommits_inv [of auth X log effs1 c1 r mv c' res] assms(2)
  show ?thesis by (simp add: evaluate_round_def result_log_def)
qed

text \<open>The prevote the engine casts for a cached proposal respects every earlier precommit.\<close>

lemma prevote_for_justified:
  assumes inv: "engine_inv auth X log c" and ph: "c_phase c = PhasePropose"
    and cached: "bt_get (c_proposals c) (c_round c) = Some sp"
    and vote: "prevote_for c (sp_proposal sp) = VoteBlock b"
  shows "switch_justified auth X (log_votes log) (c_round c) b"
  unfolding switch_justified_def
proof (intro ballI allI impI)
  fix v b0 assume v: "v \<in> log_votes log" "precommits v b0" "v_round v < c_round c" "b0 \<noteq> b"
  note D = engine_invD [OF inv]
  obtain lr lb where l: "c_locked_round c = Some lr" "c_locked_block c = Some lb" "v_round v \<le> lr"
    "lr = v_round v \<longrightarrow> lb = b0"
  proof -
    have "lock_covers (log_votes log) (engine_safety_state c)" using D(7) by (simp add: safety_ok_def)
    with v(1,2) that show ?thesis unfolding lock_covers_def safety_state_fields by blast
  qed
  have lr: "lr < c_round c" "quorum_for auth X lr Prevote lb"
    using propose_phase_fresh(2) [OF inv ph l(1)] D(7) l(1,2) by (auto simp: safety_ok_def)
  have p: "p_round (sp_proposal sp) = c_round c"
    "\<And>vr. p_valid_round (sp_proposal sp) = Some vr \<Longrightarrow>
       vr < c_round c \<and> quorum_for auth X vr Prevote (p_block_id (sp_proposal sp))"
    using D(4) cached unfolding props_inv_def by blast+
  show "\<exists>vr. v_round v < vr \<and> vr < c_round c \<and> quorum_for auth X vr Prevote b"
  proof (cases "lb = p_block_id (sp_proposal sp)")
    case True
    then have "lb = b" using vote l by (simp add: prevote_for_def)
    with l v(4) have "v_round v < lr" by (auto simp: order.strict_iff_order)
    with lr \<open>lb = b\<close> show ?thesis by blast
  next
    case False
    then obtain vr where "p_valid_round (sp_proposal sp) = Some vr" "lr < vr" "p_block_id (sp_proposal sp) = b"
      using vote l by (auto simp: prevote_for_def split: option.splits if_splits)
    with p(2) [of vr] l(3) show ?thesis by (auto intro: le_less_trans)
  qed
qed

lemma activate_inv:
  assumes inv: "engine_inv auth X (log @ effect_log effs) c" and started: "c_started c"
    and act: "activate_current_round mv (c, effs) = (c', res)"
  shows "engine_inv auth X (log @ result_log res) c'"
proof (cases "c_phase c = PhasePropose \<and> bt_get (c_proposals c) (c_round c) \<noteq> None")
  case False
  then have "evaluate_round (c_round c) mv (c, effs) = (c', res)"
    using act by (auto simp: activate_current_round_def Let_def split: if_splits option.splits)
  with evaluate_round_inv [OF inv] show ?thesis by blast
next
  case True
  then obtain sp where sp: "bt_get (c_proposals c) (c_round c) = Some sp" by blast
  obtain c1 effs1 where cast: "cast_vote Prevote (prevote_for c (sp_proposal sp)) (c, effs) = (c1, effs1)"
    by fastforce
  have "can_cast auth (log @ effect_log effs) c Prevote (prevote_for c (sp_proposal sp))"
    using True started prevote_for_justified [OF inv _ sp] engine_invD(1) [OF inv]
    by (simp add: can_cast_def)
  with cast_vote_inv [OF inv _ cast] have "engine_inv auth X (log @ effect_log effs1) c1" by blast
  moreover have "evaluate_round (c_round c1) mv (c1, effs1) = (c', res)"
    using act True sp cast by (simp add: activate_current_round_def)
  ultimately show ?thesis by (rule evaluate_round_inv)
qed

section \<open>Entering a round\<close>

lemma prune_caches_inv:
  assumes inv: "engine_inv auth X log c" and r: "c_valid_round c \<noteq> Some (c_round c)"
  shows "engine_inv auth X log (prune_caches c)"
proof -
  note D = engine_invD [OF inv]
  have "votes_inv auth X (c_votes (prune_caches c))"
    using D(3) by (auto simp: votes_inv_def prune_caches_def)
  moreover have "props_inv auth X (c_proposals (prune_caches c))"
    using D(4) by (auto simp: props_inv_def prune_caches_def)
  moreover have "phase_ok (log_votes log) (prune_caches c)"
    using D(8) r by (simp add: phase_ok_def prune_caches_def bt_retain_def)
  moreover have "ctx_of (prune_caches c) = X" "engine_safety_state (prune_caches c) = engine_safety_state c"
    "c_finalized (prune_caches c) = c_finalized c"
    using D(1) by (simp_all add: prune_caches_def)
  ultimately show ?thesis using D unfolding engine_inv_def by simp
qed

lemma advance_inv:
  assumes inv: "engine_inv auth X log c" and r: "c_round c < r \<or> r = c_round c \<and> \<not> c_started c"
  shows "engine_inv auth X log (c\<lparr>c_started := True, c_round := r, c_phase := PhasePropose\<rparr>) \<and>
    c_valid_round c \<noteq> Some r"
proof -
  note D = engine_invD [OF inv]
  let ?c = "c\<lparr>c_started := True, c_round := r, c_phase := PhasePropose\<rparr>"
  have le: "c_round c \<le> r" using r by auto
  have votes: "v_round v \<noteq> r" if "v \<in> log_votes log" for v
    using that r vote_round_le [OF inv that] D(8) by (auto simp: phase_ok_def)
  have lock: "lr \<noteq> r" if "c_locked_round c = Some lr" for lr
    using that r D(7,8) by (auto simp: phase_ok_def safety_ok_def split: option.splits)
  have valid: "vr \<noteq> r" if "c_valid_round c = Some vr" for vr
    using that r D(7,8) by (auto simp: phase_ok_def safety_ok_def split: option.splits)
  have "safety_ok auth X (log_votes log) (engine_safety_state ?c)"
    using D(7) le by (auto simp: safety_ok_def lock_covers_def split: option.splits)
  moreover have "phase_ok (log_votes log) ?c"
    using votes lock valid by (auto simp: phase_ok_def)
  ultimately show ?thesis
    using D valid by (auto simp: engine_inv_def)
qed

lemma enter_round_inv:
  assumes inv: "engine_inv auth X log c" and r: "c_round c < r \<or> r = c_round c \<and> \<not> c_started c"
    and enter: "enter_round (c\<lparr>c_started := True\<rparr>) r mv = (c', res)"
  shows "engine_inv auth X (log @ result_log res) c'"
proof (cases "r \<ge> cfg_max_rounds_per_height (c_config c)")
  case True
  have "engine_inv auth X log (c\<lparr>c_started := True\<rparr>)"
    using inv by (auto simp: engine_inv_def phase_ok_def)
  with True enter show ?thesis by (auto simp: enter_round_def)
next
  case False
  let ?c = "prune_caches (c\<lparr>c_started := True, c_round := r, c_phase := PhasePropose\<rparr>)"
  let ?effs = "[ScheduleTimeout (engine_timeout ?c PhasePropose)]"
  have inv': "engine_inv auth X (log @ effect_log ?effs) ?c"
    using advance_inv [OF inv r] prune_caches_inv by simp
  have started: "c_started ?c" by (simp add: prune_caches_def)
  show ?thesis
  proof (cases "bt_get (c_proposals ?c) r = None")
    case True
    have "engine_inv auth X log (?c\<lparr>c_requested_proposals := q\<rparr>)" for q
      using inv' started by (simp add: engine_inv_def phase_ok_def)
    with True enter False inv' show ?thesis
      by (auto simp: enter_round_def Let_def split: if_splits)
  next
    case act: False
    have "activate_current_round mv (?c, ?effs) = (c', res)"
      using enter False act by (simp add: enter_round_def Let_def)
    with activate_inv [OF inv' started] show ?thesis by blast
  qed
qed

section \<open>The handlers\<close>

lemma proposal_ready_inv:
  assumes inv: "engine_inv auth X log c" and started: "c_started c"
    and run: "proposal_ready c h r b = (c', res)"
  shows "engine_inv auth X (log @ result_log res) c'"
proof -
  let ?c = "c\<lparr>c_requested_proposals := removeAll r (c_requested_proposals c)\<rparr>"
  note D = engine_invD [OF inv]
  have inv1: "engine_inv auth X log ?c"
    using inv started by (simp add: engine_inv_def phase_ok_def)
  have req: "engine_inv auth X (log @ result_log res) c'"
    if "request_persistence ?c (SignableProposal p) = (c', res)" for p
  proof (cases "bt_get (c_local_decisions ?c) (key_of_signable (SignableProposal p))")
    case None
    have "safety_ok auth X (log_votes log) (engine_safety_state ?c)" using inv1 by (rule engine_invD(7))
    with None that inv1 started show ?thesis
      by (auto simp: request_persistence_def Let_def engine_inv_def log_ok_snoc phase_ok_def)
  next
    case (Some x)
    with that inv1 show ?thesis by (auto simp: request_persistence_def Let_def split: if_splits)
  qed
  show ?thesis
    using run inv req by (auto simp: proposal_ready_def Let_def split: if_splits)
qed

lemma accept_proposal_inv:
  assumes inv: "engine_inv auth X log c" and started: "c_started c"
    and ok: "validate_message c (MessageProposal p) mv = Inr u"
    and auth: "\<And>sv. sv \<in> set (p_valid_round_proof (sp_proposal p)) \<Longrightarrow> validate_vote mv sv = Inr () \<Longrightarrow>
      auth sv"
    and run: "accept_proposal c p mv = (c', res)"
  shows "engine_inv auth X (log @ result_log res) c'"
proof -
  note D = engine_invD [OF inv]
  let ?r = "p_round (sp_proposal p)"
  let ?c = "c\<lparr>c_proposals := bt_insert ?r p (c_proposals c)\<rparr>"
  have "vr < ?r \<and> quorum_for auth X vr Prevote (p_block_id (sp_proposal p))"
    if "p_valid_round (sp_proposal p) = Some vr" for vr
  proof -
    have "vr < ?r" and "vs_quorum (c_validators c) \<le> length (p_valid_round_proof (sp_proposal p))"
      "length (p_valid_round_proof (sp_proposal p)) \<le> vs_len (c_validators c)"
      "validate_proof_votes c mv vr Prevote (p_block_id (sp_proposal p)) InvalidValidRoundProof []
         (p_valid_round_proof (sp_proposal p)) = Inr ()"
      using ok that
      by (auto simp: validate_message_def validate_proposal_structure_def Let_def result_simps
          split: if_splits)
    with proof_votes_proof_ok [of c mv vr Prevote "p_block_id (sp_proposal p)" _ "p_valid_round_proof (sp_proposal p)" _ auth]
      auth D(1,2) show ?thesis using proof_ok_quorum by metis
  qed
  then have "props_inv auth X (c_proposals ?c)"
    using D(4) by (auto simp: props_inv_def)
  then have inv1: "engine_inv auth X (log @ effect_log []) ?c"
    using D started unfolding engine_inv_def by (simp add: phase_ok_def)
  have "c_started ?c" using started by simp
  with run inv activate_inv [OF inv1 _] show ?thesis
    using inv1 by (auto simp: accept_proposal_def Let_def split: if_splits option.splits)
qed

lemma accept_vote_inv:
  assumes inv: "engine_inv auth X log c" and started: "c_started c"
    and ok: "validate_message c (MessageVote v) mv = Inr u"
    and auth: "validate_vote mv v = Inr () \<Longrightarrow> auth v"
    and run: "accept_vote c v mv = (c', res)"
  shows "engine_inv auth X (log @ result_log res) c'"
proof -
  note D = engine_invD [OF inv]
  let ?r = "v_round (sv_vote v)" and ?k = "v_kind (sv_vote v)"
  define old where "old = (case bt_get (c_votes c) (?r, ?k) of None \<Rightarrow> [] | Some e \<Rightarrow> e)"
  let ?c1 = "c\<lparr>c_votes := bt_insert (?r, ?k) old (c_votes c)\<rparr>"
  let ?c2 = "?c1\<lparr>c_votes := bt_insert (?r, ?k) (bt_insert (signer v) v old) (c_votes ?c1)\<rparr>"
  have sok: "signed_ok auth X ?r ?k v"
    using ok auth D(1)
    by (auto simp: validate_message_def result_simps validate_vote_structure_ok signed_ok_def
        signature_too_large_def not_less split: if_splits)
  have old: "bt_wf old" "\<And>q sv. bt_get old q = Some sv \<Longrightarrow> signer sv = q \<and> signed_ok auth X ?r ?k sv"
    using D(3) unfolding votes_inv_def old_def by (auto split: option.splits)
  have same: "bt_get (bt_insert (?r, ?k) old (c_votes c)) (c_round c, Prevote) = Some m"
    if "bt_get (c_votes c) (c_round c, Prevote) = Some m" for m
    using that by (auto simp: old_def)
  have inv1: "engine_inv auth X log ?c1"
  proof -
    have "votes_inv auth X (c_votes ?c1)" using D(3) old by (auto simp: votes_inv_def)
    moreover have "phase_ok (log_votes log) ?c1"
      using D(8) started same by (auto simp: phase_ok_def)
    ultimately show ?thesis using D unfolding engine_inv_def by simp
  qed
  have inv2: "engine_inv auth X (log @ effect_log []) ?c2" if new: "bt_get old (signer v) = None"
  proof -
    have "set (bt_values m) \<subseteq> set (bt_values (bt_insert (signer v) v m))" if "bt_wf m" "bt_get m (signer v) = None" for m
    proof
      fix sv assume "sv \<in> set (bt_values m)"
      then obtain q where "(q, sv) \<in> set m" by (auto simp: bt_values_def)
      then have "bt_get m q = Some sv" using that(1) by (simp add: bt_get_iff)
      then have "bt_get (bt_insert (signer v) v m) q = Some sv" using that(2) by auto
      then have "(q, sv) \<in> set (bt_insert (signer v) v m)" by (rule bt_get_in_set)
      then show "sv \<in> set (bt_values (bt_insert (signer v) v m))"
        by (force simp: bt_values_def)
    qed
    then have sub: "set (bt_values old) \<subseteq> set (bt_values (bt_insert (signer v) v old))"
      using old(1) new by blast
    have "\<exists>m'. bt_get (c_votes ?c2) (c_round c, Prevote) = Some m' \<and> set (c_valid_proof c) \<subseteq> set (bt_values m')"
      if "bt_get (c_votes c) (c_round c, Prevote) = Some m" "set (c_valid_proof c) \<subseteq> set (bt_values m)" for m
      using that sub by (cases "(c_round c, Prevote) = (?r, ?k)") (auto simp: old_def)
    then have "phase_ok (log_votes log) ?c2"
      using D(8) started by (auto simp: phase_ok_def)
    moreover have "votes_inv auth X (c_votes ?c2)" using D(3) old sok by (auto simp: votes_inv_def)
    ultimately show ?thesis using D unfolding engine_inv_def by simp
  qed
  show ?thesis
  proof (cases "\<not> round_is_cacheable c ?r")
    case True
    with run inv show ?thesis by (auto simp: accept_vote_def Let_def)
  next
    case False
    show ?thesis
    proof (cases "bt_get old (signer v)")
      case None
      then have "evaluate_round ?r mv (?c2, []) = (c', res)"
        using run False by (simp add: accept_vote_def Let_def old_def)
      with evaluate_round_inv [OF inv2 [OF None]] show ?thesis by blast
    next
      case (Some first)
      then have "(c', res) = (?c1, Inr (if first = v then [] else [EvidenceEffect (DoubleVote (signer v) first v)]))"
        using run False by (simp add: accept_vote_def Let_def old_def)
      with inv1 show ?thesis by auto
    qed
  qed
qed

lemma accept_message_inv:
  assumes inv: "engine_inv auth X log c" and started: "c_started c"
    and ok: "validate_message c message mv = Inr u"
    and auth: "\<And>sv. sv \<in> set (message_votes message) \<Longrightarrow> validate_vote mv sv = Inr () \<Longrightarrow> auth sv"
    and run: "accept_validated_message c message mv = (c', res)"
  shows "engine_inv auth X (log @ result_log res) c'"
proof (cases message)
  case (MessageProposal p)
  with assms accept_proposal_inv [OF inv started, of p mv u c' res] show ?thesis
    by (simp add: accept_validated_message_def)
next
  case (MessageVote v)
  with assms accept_vote_inv [OF inv started, of v mv u c' res] show ?thesis
    by (simp add: accept_validated_message_def)
qed

lemma receive_message_inv:
  assumes "engine_inv auth X log c" and "c_started c"
    and "\<And>sv. sv \<in> set (message_votes message) \<Longrightarrow> validate_vote mv sv = Inr () \<Longrightarrow> auth sv"
    and "receive_message c message mv = (c', res)"
  shows "engine_inv auth X (log @ result_log res) c'"
  using assms accept_message_inv [OF assms(1,2) _ assms(3)]
  by (auto simp: receive_message_def split: sum.splits)

lemma persisted_inv:
  assumes inv: "engine_inv auth X log c" and started: "c_started c"
    and auth: "\<And>sv. sv \<in> set (message_votes message) \<Longrightarrow> validate_vote mv sv = Inr () \<Longrightarrow> auth sv"
    and run: "engine_persisted c message mv = (c', res)"
  shows "engine_inv auth X (log @ result_log res) c'"
proof -
  let ?key = "key_of_signable (message_signable message)"
  let ?c = "c\<lparr>c_pending_persistence := bt_remove ?key (c_pending_persistence c)\<rparr>"
  have inv1: "engine_inv auth X log ?c"
    using inv started by (auto simp: engine_inv_def phase_ok_def)
  obtain c2 r2 where acc: "accept_validated_message ?c message mv = (c2, r2)" by fastforce
  show ?thesis
  proof (cases "bt_get (c_pending_persistence c) ?key = Some (message_signable message) \<and>
      is_ok (validate_message c message mv)")
    case False
    then have "c' = c \<and> result_log res = []"
      using run by (auto simp: engine_persisted_def Let_def split: if_splits sum.splits)
    with inv show ?thesis by simp
  next
    case True
    then obtain u where ok: "validate_message c message mv = Inr u" by (auto simp: is_ok_iff)
    then have "validate_message ?c message mv = Inr u"
      by (simp add: validate_message_frame)
    moreover have "c_started ?c" using started by simp
    ultimately have inv2: "engine_inv auth X (log @ result_log r2) c2"
      using auth acc by (intro accept_message_inv [OF inv1])
    have "st_then (c2, r2) (\<lambda>c2 effects. (c2, Inr (Broadcast message # effects))) = (c', res)"
      using run True ok acc by (simp add: engine_persisted_def)
    then have "c' = c2 \<and> result_log res = result_log r2" by (cases r2) auto
    with inv2 show ?thesis by simp
  qed
qed

lemma timeout_inv:
  assumes inv: "engine_inv auth X log c" and started: "c_started c"
    and run: "handle_timeout c t mv = (c', res)"
  shows "engine_inv auth X (log @ result_log res) c'"
proof -
  have cast: "engine_inv auth X (log @ result_log res) c'"
    if "can_cast auth log c k VoteNil"
      "(let p = cast_vote k VoteNil (c, []) in evaluate_round (c_round (fst p)) mv p) = (c', res)" for k
  proof -
    obtain c1 effs1 where p: "cast_vote k VoteNil (c, []) = (c1, effs1)" by fastforce
    with cast_vote_inv [of auth X log "[]" c k VoteNil c1 effs1] inv that(1)
    have "engine_inv auth X (log @ effect_log effs1) c1" by simp
    moreover have "evaluate_round (c_round c1) mv (c1, effs1) = (c', res)" using that(2) p by simp
    ultimately show ?thesis by (rule evaluate_round_inv)
  qed
  have enter: "engine_inv auth X (log @ result_log res) c'"
    if "checked_add (c_round c) 1 = Some nxt" "enter_round c nxt mv = (c', res)" for nxt
  proof -
    have "c_round c < nxt" using that(1) u32_less_add_1 [of "c_round c"] by (simp add: checked_add_Some)
    moreover have "c\<lparr>c_started := True\<rparr> = c" using started by simp
    ultimately show ?thesis using enter_round_inv [OF inv, of nxt mv c' res] that(2) by simp
  qed
  have "can_cast auth log c Prevote VoteNil" if "c_phase c = PhasePropose"
    using that started by (simp add: can_cast_def)
  moreover have "can_cast auth log c Precommit VoteNil" if "c_phase c = PhasePrevote"
    using that started by (simp add: can_cast_def)
  ultimately show ?thesis
    using run inv cast enter
    by (cases "c_phase c") (auto simp: handle_timeout_def simp del: Let_def split: if_splits option.splits)
qed

section \<open>The step\<close>

theorem engine_step_inv:
  assumes inv: "engine_inv auth X log c"
    and auth: "\<And>sv. sv \<in> set (event_votes ev) \<Longrightarrow> validate_vote mv sv = Inr () \<Longrightarrow> auth sv"
    and run: "engine_step c ev mv = (c', res)"
  shows "engine_inv auth X (log @ result_log res) c'"
proof (cases "ev = Start \<or> (\<exists>ct. ev = Certificate ct)")
  case True
  then show ?thesis
  proof (elim disjE exE)
    assume "ev = Start"
    with run inv enter_round_inv [OF inv, of "c_round c" mv c' res] show ?thesis
      by (auto simp: engine_step_def split: if_splits)
  next
    fix ct assume ev: "ev = Certificate ct"
    show ?thesis
    proof (cases "validate_certificate c ct mv")
      case (Inl e)
      with ev run inv show ?thesis by (auto simp: engine_step_def)
    next
      case (Inr u)
      have "proof_ok auth X (ct_round ct) Precommit (ct_block_id ct) (ct_precommits ct)"
        using Inr auth ev engine_invD(1) [OF inv]
        by (auto simp: validate_certificate_def result_simps not_less
            intro!: proof_votes_proof_ok [where mv = mv] split: if_splits)
      moreover have "ct_chain_id ct = cfg_chain_id (x_cfg X)" "ct_height ct = x_height X"
        using Inr engine_invD(1) [OF inv]
        by (auto simp: validate_certificate_def result_simps validate_context_ok)
      moreover have "finalize c ct = (c', res)" using Inr ev run by (simp add: engine_step_def)
      ultimately show ?thesis
        using finalize_inv [OF inv] by (cases res) auto
    qed
  qed
next
  case False
  show ?thesis
  proof (cases "\<not> c_started c \<or> c_finalized c \<noteq> None")
    case True
    with False run inv show ?thesis by (cases ev) (auto simp: engine_step_def split: if_splits)
  next
    case ready: False
    then have started: "c_started c" by simp
    show ?thesis
    proof (cases ev)
      case (ProposalReady h r b)
      with ready run proposal_ready_inv [OF inv started] show ?thesis by (simp add: engine_step_def)
    next
      case (Message m)
      with ready run auth show ?thesis
        by (intro receive_message_inv [OF inv started, of m mv]) (simp_all add: engine_step_def)
    next
      case (Persisted m)
      with ready run auth show ?thesis
        by (intro persisted_inv [OF inv started, of m mv]) (simp_all add: engine_step_def)
    next
      case (TimeoutEvent t)
      with ready run timeout_inv [OF inv started] show ?thesis by (simp add: engine_step_def)
    qed (use False in auto)
  qed
qed

end
