(* ===== verification/EngineStart.thy ===== *)
theory EngineStart
  imports EngineStep
begin

text \<open>
  The two constructors of \<open>Consensus\<close> and \<open>restore_local_decision\<close>: a fresh engine, and
  one restored from the last stored safety state, satisfy the invariant for the votes
  stored so far, and a stored safety state is accepted again.
\<close>

section \<open>Fresh engines\<close>

lemma consensus_new_ok:
  "consensus_new me vs h cfg = Inr c \<longleftrightarrow>
     h \<noteq> 0 \<and> me \<in> set (vs_validators vs) \<and> is_ok (chain_id_new (cfg_chain_id cfg)) \<and>
     cfg_max_cached_rounds cfg \<noteq> 0 \<and> cfg_max_rounds_per_height cfg \<noteq> 0 \<and>
     cfg_max_signature_bytes cfg \<noteq> 0 \<and>
     c = \<lparr>c_local_id = me, c_validators = vs, c_config = cfg,
          c_height = h, c_round = 0, c_phase = PhasePropose, c_started = False,
          c_finalized = None, c_locked_round = None, c_locked_block = None,
          c_valid_round = None, c_valid_block = None, c_valid_proof = [],
          c_proposals = [], c_votes = [], c_requested_proposals = [],
          c_local_decisions = [], c_pending_persistence = []\<rparr>"
  by (auto simp: consensus_new_def vs_contains_def)

lemma consensus_new_inv:
  assumes "consensus_new me vs h cfg = Inr c" and "distinct (vs_validators vs)"
  shows "engine_inv auth \<lparr>x_me = me, x_vs = vs, x_cfg = cfg, x_height = h\<rparr> [] c"
  using assms
  by (auto simp: consensus_new_ok engine_inv_def ctx_of_def ctx_ok_def votes_inv_def props_inv_def
      history_ok_def log_ok_def safety_ok_def lock_covers_def phase_ok_def)

section \<open>Restored engines\<close>

lemma new_with_safety_state_ok:
  "consensus_new_with_safety_state me vs h cfg ss mv = Inr c \<longleftrightarrow>
     ss_height ss = h \<and> unat (ss_round ss) + 1 < 2 ^ 32 \<and>
     ss_round ss + 1 < cfg_max_rounds_per_height cfg \<and>
     (\<exists>c0. consensus_new me vs h cfg = Inr c0 \<and> validate_restored_safety_state c0 ss mv = Inr () \<and>
       c = c0\<lparr>c_round := ss_round ss + 1, c_locked_round := ss_locked_round ss,
              c_locked_block := ss_locked_block ss, c_valid_round := ss_valid_round ss,
              c_valid_block := ss_valid_block ss, c_valid_proof := ss_valid_round_proof ss\<rparr>)"
  by (auto simp: consensus_new_with_safety_state_def result_simps arith_simps not_less
      split: option.splits)

lemma restored_inv:
  assumes new: "consensus_new_with_safety_state me vs h cfg ss mv = Inr c"
    and vs: "distinct (vs_validators vs)"
    and X: "X = \<lparr>x_me = me, x_vs = vs, x_cfg = cfg, x_height = h\<rparr>"
    and log: "log_ok auth X log" "history_ok auth X (log_votes log)"
    and ss: "log \<noteq> []" "ss = snd (last log)"
  shows "engine_inv auth X log c"
proof -
  obtain c0 where c0: "consensus_new me vs h cfg = Inr c0"
    and r: "unat (ss_round ss) + 1 < 2 ^ 32"
    and c: "c = c0\<lparr>c_round := ss_round ss + 1, c_locked_round := ss_locked_round ss,
              c_locked_block := ss_locked_block ss, c_valid_round := ss_valid_round ss,
              c_valid_block := ss_valid_block ss, c_valid_proof := ss_valid_round_proof ss\<rparr>"
    and h: "ss_height ss = h"
    using new by (auto simp: new_with_safety_state_ok)
  have lt: "ss_round ss < ss_round ss + 1" using r by (rule u32_less_add_1)
  have fresh: "c_height c0 = h" "c_votes c0 = []" "c_proposals c0 = []" "\<not> c_started c0"
    "c_requested_proposals c0 = []" "c_pending_persistence c0 = []" "c_finalized c0 = None"
    using c0 by (simp_all add: consensus_new_ok)
  have ok: "safety_ok auth X (log_votes log) ss"
  proof -
    have "safety_ok auth X (log_votes (take (Suc (length log - 1)) log)) (snd (log ! (length log - 1)))"
      using log(1) ss(1) unfolding log_ok_def by (metis Suc_pred' diff_less length_greater_0_conv lessI)
    then show ?thesis using ss by (simp add: last_conv_nth)
  qed
  have le: "r' \<le> ss_round ss \<Longrightarrow> r' \<le> ss_round ss + 1 \<and> r' \<noteq> ss_round ss + 1" for r'
    using lt by auto
  have "safety_ok auth X (log_votes log) (engine_safety_state c)"
    using ok le h by (auto simp: safety_ok_def lock_covers_def c fresh X split: option.splits)
  moreover have "phase_ok (log_votes log) c"
    using ok le lt fresh by (fastforce simp: phase_ok_def safety_ok_def c split: option.splits)
  moreover have "ctx_of c = X" "ctx_ok X"
    using c0 vs by (auto simp: consensus_new_ok c X ctx_of_def ctx_ok_def)
  ultimately show ?thesis
    using log fresh by (simp add: engine_inv_def c votes_inv_def props_inv_def)
qed

text \<open>Restoring a stored safety state succeeds while its proof still authenticates.\<close>

lemma restored_accepts:
  assumes c0: "consensus_new me vs h cfg = Inr c0"
    and X: "X = \<lparr>x_me = me, x_vs = vs, x_cfg = cfg, x_height = h\<rparr>"
    and ok: "safety_ok auth X H ss"
    and r: "ss_round ss + 1 < cfg_max_rounds_per_height cfg" "unat (ss_round ss) + 1 < 2 ^ 32"
    and mv: "\<And>sv. sv \<in> set (ss_valid_round_proof ss) \<Longrightarrow> validate_vote mv sv = Inr ()"
  shows "is_ok (consensus_new_with_safety_state me vs h cfg ss mv)"
proof -
  have ctx: "ctx_of c0 = X" using c0 X by (auto simp: consensus_new_ok ctx_of_def)
  have "validate_restored_safety_state c0 ss mv = Inr ()"
  proof (cases "ss_valid_round ss")
    case None
    with ok show ?thesis
      by (auto simp: safety_ok_def validate_restored_safety_state_def split: option.splits)
  next
    case (Some vr)
    then obtain vb where vb: "ss_valid_block ss = Some vb" "vr \<le> ss_round ss"
      "proof_ok auth X vr Prevote vb (ss_valid_round_proof ss)"
      using ok by (auto simp: safety_ok_def split: option.splits)
    have len: "vs_quorum (c_validators c0) \<le> length (ss_valid_round_proof ss)"
      "length (ss_valid_round_proof ss) \<le> vs_len (c_validators c0)"
      using vb(3) ctx by (auto simp: proof_ok_def)
    have "validate_proof_votes c0 mv vr Prevote vb MalformedSafetyState [] (ss_valid_round_proof ss) = Inr ()"
      using vb(3) ctx mv by (intro proof_ok_validates [of auth]) auto
    with ok Some vb len show ?thesis
      by (auto simp: safety_ok_def validate_restored_safety_state_def Let_def split: option.splits)
  qed
  with ok r c0 X show ?thesis
    by (auto simp: is_ok_iff new_with_safety_state_ok safety_ok_def)
qed

section \<open>Restored decisions\<close>

text \<open>The recovery loop over the stored decisions.\<close>

fun restore_all :: "consensus \<Rightarrow> signable_message list \<Rightarrow> consensus \<times> (consensus_error + unit)" where
  "restore_all c [] = (c, Inr ())"
| "restore_all c (m # ms) = st_then (restore_local_decision c m) (\<lambda>c1 _. restore_all c1 ms)"

lemma restore_local_decision_inv:
  assumes "engine_inv auth X log c" and "restore_local_decision c m = (c', r)"
  shows "engine_inv auth X log c'"
proof -
  have "\<exists>d. c' = c\<lparr>c_local_decisions := d\<rparr>"
    using assms(2)
    by (auto simp: restore_local_decision_def Let_def split: if_splits sum.splits prod.splits option.splits
        intro: exI [of _ "c_local_decisions c"])
  with assms(1) show ?thesis by (auto simp: engine_inv_def phase_ok_def)
qed

lemma restore_all_inv:
  "engine_inv auth X log c \<Longrightarrow> restore_all c ms = (c', r) \<Longrightarrow> engine_inv auth X log c'"
proof (induction ms arbitrary: c)
  case (Cons m ms)
  obtain c1 r1 where 1: "restore_local_decision c m = (c1, r1)" by fastforce
  with Cons.prems restore_local_decision_inv [OF Cons.prems(1) 1] Cons.IH [of c1] show ?case
    by (cases r1) auto
qed auto

end
