(* ===== verification/EngineEffects.thy ===== *)
theory EngineEffects
  imports EngineStart
begin

text \<open>
  What a step tells the embedding node: when it announces a finalization, when it
  releases a message for broadcast, what evidence it reports, and when it does nothing.
\<close>

section \<open>Finalizations\<close>

fun finalizations :: "effect list \<Rightarrow> finalization list" where
  "finalizations [] = []"
| "finalizations (Finalize f # es) = f # finalizations es"
| "finalizations (_ # es) = finalizations es"

lemma finalizations_append [simp]: "finalizations (xs @ ys) = finalizations xs @ finalizations ys"
  by (induction xs rule: finalizations.induct) auto

text \<open>
  A step either leaves the decision alone, or makes it (from none) and announces exactly
  that; a failing step leaves it alone.
\<close>

definition decides :: "consensus \<Rightarrow> consensus \<Rightarrow> consensus_error + effect list \<Rightarrow> bool" where
  "decides c c' res \<longleftrightarrow>
     (case res of
        Inl _ \<Rightarrow> c_finalized c' = c_finalized c
      | Inr effs \<Rightarrow>
          c_finalized c' = c_finalized c \<and> finalizations effs = [] \<or>
          c_finalized c = None \<and> (\<exists>f. c_finalized c' = Some f \<and> finalizations effs = [f]))"

lemma decides_from: "decides c1 c' res \<Longrightarrow> c_finalized c1 = c_finalized c \<Longrightarrow> decides c c' res"
  by (cases res) (auto simp: decides_def)

lemma decides_quiet:
  "c_finalized c' = c_finalized c \<Longrightarrow> finalizations effs = [] \<Longrightarrow> decides c c' (Inr effs)"
  by (simp add: decides_def)

lemma cast_vote_decides:
  "cast_vote k val (c, effs) = (c', effs') \<Longrightarrow>
     c_finalized c' = c_finalized c \<and> finalizations effs' = finalizations effs"
  using cast_vote_cases [of k val c effs] by auto

lemma evaluate_prevotes_decides:
  assumes "evaluate_prevotes r (c, effs) = (c', effs')"
  shows "c_finalized c' = c_finalized c \<and> finalizations effs' = finalizations effs"
  using assms
  by (auto simp: evaluate_prevotes_def Let_def update_valid_def split: option.splits vote_value.splits if_splits
      dest!: cast_vote_decides)

lemma finalize_decides: "finalize c ct = (c', res) \<Longrightarrow> decides c c' res"
  by (auto simp: finalize_def Let_def decides_def split: option.splits if_splits)

lemma evaluate_round_decides:
  assumes "evaluate_round r mv (c, effs) = (c', res)" and "finalizations effs = []"
  shows "decides c c' res"
proof -
  obtain c1 effs1 where e: "evaluate_prevotes r (c, effs) = (c1, effs1)" by fastforce
  have 1: "c_finalized c1 = c_finalized c" "finalizations effs1 = []"
    using evaluate_prevotes_decides [OF e] assms(2) by auto
  have "evaluate_precommits r mv (c1, effs1) = (c', res)"
    using assms(1) e by (simp add: evaluate_round_def)
  then have "res = Inr effs1 \<and> c' = c1 \<or> (\<exists>e. res = Inl e \<and> c' = c1) \<or>
      (\<exists>ct r1. finalize c1 ct = (c', r1) \<and> (case r1 of Inl e \<Rightarrow> res = Inl e | Inr added \<Rightarrow> res = Inr (effs1 @ added)))"
    unfolding evaluate_precommits_def Let_def
    by (auto simp: st_then_def split: option.splits vote_value.splits sum.splits prod.splits)
  then show ?thesis
  proof (elim disjE exE conjE)
    fix ct r1
    assume f: "finalize c1 ct = (c', r1)" and
      r: "case r1 of Inl e \<Rightarrow> res = Inl e | Inr added \<Rightarrow> res = Inr (effs1 @ added)"
    then show ?thesis using finalize_decides [OF f] 1 by (auto simp: decides_def split: sum.splits)
  qed (use 1 in \<open>auto simp: decides_def\<close>)
qed

lemma activate_decides:
  assumes "activate_current_round mv (c, effs) = (c', res)" and "finalizations effs = []"
  shows "decides c c' res"
proof -
  let ?p = "if c_phase c = PhasePropose then
      (case bt_get (c_proposals c) (c_round c) of None \<Rightarrow> (c, effs)
       | Some s \<Rightarrow> cast_vote Prevote (prevote_for c (sp_proposal s)) (c, effs)) else (c, effs)"
  obtain c1 effs1 where p: "?p = (c1, effs1)" by fastforce
  then have "c_finalized c1 = c_finalized c" "finalizations effs1 = []"
    using assms(2) by (auto split: if_splits option.splits dest!: cast_vote_decides)
  moreover have "evaluate_round (c_round c1) mv (c1, effs1) = (c', res)"
    using assms(1) p by (simp add: activate_current_round_def)
  ultimately show ?thesis by (blast intro: decides_from evaluate_round_decides)
qed

lemma enter_round_decides:
  assumes "enter_round c r mv = (c', res)"
  shows "decides c c' res"
proof (cases "r \<ge> cfg_max_rounds_per_height (c_config c)")
  case True
  with assms show ?thesis by (auto simp: enter_round_def decides_def)
next
  case False
  let ?c = "prune_caches (c\<lparr>c_round := r, c_phase := PhasePropose\<rparr>)"
  have f: "c_finalized ?c = c_finalized c" by (simp add: prune_caches_def)
  show ?thesis
  proof (cases "bt_get (c_proposals ?c) r = None")
    case True
    with assms False f show ?thesis
      by (auto simp: enter_round_def Let_def decides_def split: if_splits)
  next
    case act: False
    then have "activate_current_round mv (?c, [ScheduleTimeout (engine_timeout ?c PhasePropose)]) = (c', res)"
      using assms False by (simp add: enter_round_def Let_def)
    from activate_decides [OF this] f show ?thesis by (auto intro: decides_from)
  qed
qed

lemma accept_message_decides:
  assumes "accept_validated_message c m mv = (c', res)"
  shows "decides c c' res"
proof (cases m)
  case (MessageProposal p)
  let ?c = "c\<lparr>c_proposals := bt_insert (p_round (sp_proposal p)) p (c_proposals c)\<rparr>"
  have "decides c c' res" if "activate_current_round mv (?c, []) = (c', res)"
    using activate_decides [OF that] by (auto intro: decides_from)
  with assms MessageProposal show ?thesis
    by (auto simp: accept_validated_message_def accept_proposal_def Let_def
        split: if_splits option.splits intro!: decides_quiet)
next
  case (MessageVote v)
  have "decides c c' res" if "evaluate_round r mv (c\<lparr>c_votes := vs\<rparr>, []) = (c', res)" for r vs
    using evaluate_round_decides [OF that] by (auto intro: decides_from)
  with assms MessageVote show ?thesis
    by (auto simp: accept_validated_message_def accept_vote_def Let_def
        split: if_splits option.splits intro!: decides_quiet)
qed

lemma decides_refl [simp]: "decides c c (Inl e)" "decides c c (Inr [])"
  by (simp_all add: decides_def)

lemma engine_step_decides:
  assumes "engine_step c ev mv = (c', res)"
  shows "decides c c' res"
proof -
  have timeout: "decides c c' res" if run: "handle_timeout c t mv = (c', res)" for t
  proof -
    have "decides c c' res"
      if "(let p = cast_vote k VoteNil (c, []) in evaluate_round (c_round (fst p)) mv p) = (c', res)" for k
    proof -
      obtain c1 effs1 where p: "cast_vote k VoteNil (c, []) = (c1, effs1)" by fastforce
      then have "evaluate_round (c_round c1) mv (c1, effs1) = (c', res)" using that by simp
      with cast_vote_decides [OF p] show ?thesis by (auto intro: decides_from evaluate_round_decides)
    qed
    with run show ?thesis
      by (auto simp: handle_timeout_def simp del: Let_def split: if_splits phase.splits option.splits
          dest!: enter_round_decides)
  qed
  have persisted: "decides c c' res" if "engine_persisted c m mv = (c', res)" for m
  proof -
    let ?c = "c\<lparr>c_pending_persistence := bt_remove (key_of_signable (message_signable m)) (c_pending_persistence c)\<rparr>"
    obtain c2 r2 where a: "accept_validated_message ?c m mv = (c2, r2)" by fastforce
    from accept_message_decides [OF a] that a show ?thesis
      by (cases r2) (auto simp: engine_persisted_def Let_def decides_def split: if_splits sum.splits)
  qed
  have start: "decides c c' res" if "enter_round (c\<lparr>c_started := True\<rparr>) (c_round c) mv = (c', res)"
    using enter_round_decides [OF that] by (auto intro: decides_from)
  have ready: "decides c c' res" if "proposal_ready c h r b = (c', res)" for h r b
    using that
    by (auto simp: proposal_ready_def request_persistence_def Let_def decides_def split: if_splits option.splits)
  show ?thesis
    using assms timeout persisted start ready
    by (auto simp: engine_step_def receive_message_def
        split: event.splits if_splits sum.splits dest: accept_message_decides finalize_decides)
qed

section \<open>What evaluating a round leaves alone\<close>

definition caches :: "consensus \<Rightarrow> instance_ctx \<times> u32 \<times> (u32, signed_proposal) btree_map \<times>
    (u32 \<times> vote_kind, (cvalidator_id, signed_vote) btree_map) btree_map \<times> bool" where
  "caches c = (ctx_of c, c_round c, c_proposals c, c_votes c, c_started c)"

lemma caches_fields:
  assumes "caches c' = caches c"
  shows "c_round c' = c_round c" "c_proposals c' = c_proposals c" "c_votes c' = c_votes c"
    "c_started c' = c_started c" "c_config c' = c_config c" "c_validators c' = c_validators c"
    "c_height c' = c_height c" "c_local_id c' = c_local_id c" "ctx_of c' = ctx_of c"
  using assms by (auto simp: caches_def ctx_of_def)

text \<open>Effects of voting: decisions to persist, timeouts and the finalization.\<close>

fun voting_effect :: "effect \<Rightarrow> bool" where
  "voting_effect (PersistBeforeBroadcast (SignableVote _) _) = True"
| "voting_effect (ScheduleTimeout _) = True"
| "voting_effect (Finalize _) = True"
| "voting_effect _ = False"

lemma cast_vote_frame:
  assumes "cast_vote k val (c, effs) = (c', effs')"
  shows "caches c' = caches c \<and> (\<exists>added. effs' = effs @ added \<and> list_all voting_effect added)"
  using cast_vote_cases [of k val c effs] assms by (auto simp: caches_def)

lemma evaluate_prevotes_frame:
  assumes "evaluate_prevotes r (c, effs) = (c', effs')"
  shows "caches c' = caches c \<and> (\<exists>added. effs' = effs @ added \<and> list_all voting_effect added)"
proof -
  have u: "caches (update_valid c r b svs) = caches c" for b svs
    by (simp add: update_valid_def caches_def)
  have l: "caches (update_valid c r b svs\<lparr>c_locked_round := x, c_locked_block := y\<rparr>) = caches c" for b svs x y
    by (simp add: update_valid_def caches_def)
  show ?thesis
    using assms u l
    by (auto simp: evaluate_prevotes_def Let_def split: option.splits vote_value.splits if_splits
        dest!: cast_vote_frame)
qed

lemma evaluate_round_frame:
  assumes "evaluate_round r mv (c, effs) = (c', res)"
  shows "caches c' = caches c \<and>
    (\<forall>effs'. res = Inr effs' \<longrightarrow> (\<exists>added. effs' = effs @ added \<and> list_all voting_effect added))"
proof -
  obtain c1 effs1 where e: "evaluate_prevotes r (c, effs) = (c1, effs1)" by fastforce
  obtain added1 where 1: "caches c1 = caches c" "effs1 = effs @ added1" "list_all voting_effect added1"
    using evaluate_prevotes_frame [OF e] by blast
  have p: "evaluate_precommits r mv (c1, effs1) = (c', res)"
    using assms e by (simp add: evaluate_round_def)
  have "caches c' = caches c1 \<and>
    (\<forall>effs'. res = Inr effs' \<longrightarrow> (\<exists>added. effs' = effs1 @ added \<and> list_all voting_effect added))"
    using p unfolding evaluate_precommits_def Let_def finalize_def
    by (auto simp: caches_def split: option.splits vote_value.splits sum.splits if_splits)
  with 1 show ?thesis by auto
qed

lemma activate_frame:
  assumes "activate_current_round mv (c, effs) = (c', res)"
  shows "caches c' = caches c \<and>
    (\<forall>effs'. res = Inr effs' \<longrightarrow> (\<exists>added. effs' = effs @ added \<and> list_all voting_effect added))"
proof -
  let ?p = "if c_phase c = PhasePropose then
      (case bt_get (c_proposals c) (c_round c) of None \<Rightarrow> (c, effs)
       | Some s \<Rightarrow> cast_vote Prevote (prevote_for c (sp_proposal s)) (c, effs)) else (c, effs)"
  obtain c1 effs1 where p: "?p = (c1, effs1)" by fastforce
  then obtain added1 where 1: "caches c1 = caches c" "effs1 = effs @ added1" "list_all voting_effect added1"
    by (auto split: if_splits option.splits dest!: cast_vote_frame)
  have "evaluate_round (c_round c1) mv (c1, effs1) = (c', res)"
    using assms p by (simp add: activate_current_round_def)
  from evaluate_round_frame [OF this] 1 show ?thesis by auto
qed

lemma quorum_votes_frame:
  "c_votes c' = c_votes c \<Longrightarrow> c_validators c' = c_validators c \<Longrightarrow> quorum_votes c' r k = quorum_votes c r k"
  by (simp add: quorum_votes_def split: option.split)

lemma round_is_cacheable_frame:
  "c_round c' = c_round c \<Longrightarrow> c_config c' = c_config c \<Longrightarrow> round_is_cacheable c' r = round_is_cacheable c r"
  by (simp add: round_is_cacheable_def cache_minimum_def cache_maximum_def)

section \<open>Facts about every step\<close>

text \<open>
  The interface of a step for properties of the caches: \<open>I\<close> depends only on what voting
  leaves alone, and holds after pruning to a new round and after each kind of insertion.
\<close>

locale cache_property =
  fixes I :: "consensus \<Rightarrow> bool" and accepts :: "message_validator \<Rightarrow> bool"
  assumes quiet: "I c \<Longrightarrow> caches c' = caches c \<Longrightarrow> (c_finalized c \<noteq> None \<Longrightarrow> c_finalized c' \<noteq> None) \<Longrightarrow> I c'"
    and enter: "I c \<Longrightarrow> I (prune_caches (c\<lparr>c_started := True, c_round := r, c_phase := PhasePropose\<rparr>))"
    and start: "I c \<Longrightarrow> I (c\<lparr>c_started := True\<rparr>)"
    and propose: "I c \<Longrightarrow> round_is_cacheable c r \<Longrightarrow> I (c\<lparr>c_proposals := bt_insert r p (c_proposals c)\<rparr>)"
    and vote: "I c \<Longrightarrow> round_is_cacheable c r \<Longrightarrow> accepts mv \<Longrightarrow>
      evaluate_round r mv (c\<lparr>c_votes := bt_insert (r, k) m (c_votes c)\<rparr>, []) = (c', res) \<Longrightarrow> I c'"
    and revote: "I c \<Longrightarrow> round_is_cacheable c r \<Longrightarrow>
      m = (case bt_get (c_votes c) (r, k) of None \<Rightarrow> [] | Some e \<Rightarrow> e) \<Longrightarrow>
      I (c\<lparr>c_votes := bt_insert (r, k) m (c_votes c)\<rparr>)"
begin

lemma decided_kept: "decides c c' res \<Longrightarrow> c_finalized c \<noteq> None \<Longrightarrow> c_finalized c' \<noteq> None"
  by (auto simp: decides_def split: sum.splits)

lemma activate_keeps: "I c \<Longrightarrow> activate_current_round mv (c, effs) = (c', res) \<Longrightarrow> finalizations effs = [] \<Longrightarrow> I c'"
  by (rule quiet [of c c']) (auto dest: activate_frame activate_decides decided_kept)

lemma evaluate_keeps: "I c \<Longrightarrow> evaluate_round r mv (c, effs) = (c', res) \<Longrightarrow> finalizations effs = [] \<Longrightarrow> I c'"
  by (rule quiet [of c c']) (auto dest: evaluate_round_frame evaluate_round_decides decided_kept)

lemma enter_keeps:
  assumes "I c" "enter_round (c\<lparr>c_started := True\<rparr>) r mv = (c', res)"
  shows "I c'"
proof (cases "r \<ge> cfg_max_rounds_per_height (c_config c)")
  case True
  with assms start [OF assms(1)] show ?thesis by (simp add: enter_round_def)
next
  case False
  let ?c = "prune_caches (c\<lparr>c_started := True, c_round := r, c_phase := PhasePropose\<rparr>)"
  have I: "I ?c" using assms(1) by (rule enter)
  show ?thesis
  proof (cases "bt_get (c_proposals ?c) r = None")
    case True
    have "I (?c\<lparr>c_requested_proposals := q\<rparr>)" for q
      by (rule quiet [OF I]) (simp_all add: caches_def)
    with True assms False I show ?thesis by (auto simp: enter_round_def Let_def split: if_splits)
  next
    case act: False
    then have "activate_current_round mv (?c, [ScheduleTimeout (engine_timeout ?c PhasePropose)]) = (c', res)"
      using assms False by (simp add: enter_round_def Let_def)
    with I show ?thesis by (rule activate_keeps) simp
  qed
qed

lemma accept_keeps:
  assumes I: "I c" and mv: "accepts mv" and run: "accept_validated_message c m mv = (c', res)"
  shows "I c'"
proof (cases m)
  case (MessageProposal p)
  let ?r = "p_round (sp_proposal p)"
  let ?c = "c\<lparr>c_proposals := bt_insert ?r p (c_proposals c)\<rparr>"
  have "I c'" if "activate_current_round mv (?c, []) = (c', res)" "round_is_cacheable c ?r"
    by (rule activate_keeps [OF propose [OF I that(2)] that(1)]) simp
  with run MessageProposal I propose [OF I, of ?r p] show ?thesis
    by (auto simp: accept_validated_message_def accept_proposal_def Let_def split: if_splits option.splits)
next
  case (MessageVote v)
  let ?r = "v_round (sv_vote v)" and ?k = "v_kind (sv_vote v)"
  define old where "old = (case bt_get (c_votes c) (?r, ?k) of None \<Rightarrow> [] | Some e \<Rightarrow> e)"
  let ?c1 = "c\<lparr>c_votes := bt_insert (?r, ?k) old (c_votes c)\<rparr>"
  have c: "round_is_cacheable ?c1 ?r = round_is_cacheable c ?r"
    by (simp add: round_is_cacheable_def cache_minimum_def cache_maximum_def)
  have I1: "I ?c1" if "round_is_cacheable c ?r"
    using revote [OF I that, of old ?k] by (simp add: old_def)
  have "I c'" if "round_is_cacheable c ?r"
      "evaluate_round ?r mv (?c1\<lparr>c_votes := bt_insert (?r, ?k) x (c_votes ?c1)\<rparr>, []) = (c', res)" for x
    using vote [OF I1 [OF that(1)] _ mv that(2)] c that(1) by simp
  with run MessageVote I I1 show ?thesis
    by (auto simp: accept_validated_message_def accept_vote_def Let_def old_def [symmetric]
        split: if_splits option.splits)
qed

lemma step_keeps:
  assumes I: "I c" and mv: "accepts mv" and run: "engine_step c ev mv = (c', res)"
  shows "I c'"
proof -
  have fin: "I c'" if "finalize c ct = (c', res)" for ct
    by (rule quiet [OF I])
      (use that in \<open>auto simp: finalize_def Let_def caches_def split: option.splits\<close>)
  have ready: "I c'" if "proposal_ready c h r b = (c', res)" for h r b
    by (rule quiet [OF I])
      (use that in \<open>auto simp: proposal_ready_def request_persistence_def Let_def caches_def
         split: if_splits option.splits\<close>)
  have persisted: "I c'" if "engine_persisted c m mv = (c', res)" for m
  proof -
    let ?c = "c\<lparr>c_pending_persistence := bt_remove (key_of_signable (message_signable m)) (c_pending_persistence c)\<rparr>"
    have 1: "I ?c" by (rule quiet [OF I]) (simp_all add: caches_def)
    obtain c2 r2 where a: "accept_validated_message ?c m mv = (c2, r2)" by fastforce
    from accept_keeps [OF 1 mv a] that a I show ?thesis
      by (cases r2) (auto simp: engine_persisted_def Let_def split: if_splits sum.splits)
  qed
  have timeout: "I c'" if t: "handle_timeout c t mv = (c', res)" and s: "c_started c" for t
  proof -
    have "I c'" if "(let p = cast_vote k VoteNil (c, []) in evaluate_round (c_round (fst p)) mv p) = (c', res)" for k
    proof -
      obtain c1 effs1 where p: "cast_vote k VoteNil (c, []) = (c1, effs1)" by fastforce
      then have "evaluate_round (c_round c1) mv (c1, effs1) = (c', res)" using that by simp
      moreover have "I c1"
        by (rule quiet [OF I]) (use cast_vote_frame [OF p] cast_vote_decides [OF p] in simp_all)
      ultimately show ?thesis using cast_vote_decides [OF p] evaluate_keeps by simp
    qed
    moreover have "I c'" if "enter_round c r mv = (c', res)" for r
    proof -
      have "c\<lparr>c_started := True\<rparr> = c" using s by simp
      with that show ?thesis using enter_keeps [OF I, of r mv c' res] by metis
    qed
    ultimately show ?thesis
      using t I by (auto simp: handle_timeout_def simp del: Let_def split: if_splits phase.splits option.splits)
  qed
  have "I c'" if "ev = Start"
    using that run I enter_keeps [OF I] by (auto simp: engine_step_def split: if_splits)
  then show ?thesis
    using run I fin ready persisted timeout accept_keeps [OF I mv]
    by (auto simp: engine_step_def receive_message_def split: event.splits if_splits sum.splits)
qed

end

end
