(* ===== verification/Agreement.thy ===== *)
theory Agreement
  imports EngineEffects
begin

text \<open>
  A network of validators running \<open>Consensus\<close> for one height, with crashes, lost messages
  and Byzantine validators, and the agreement of everything the correct ones finalize.

  Each correct validator is an engine, the queue of decisions it asked to persist, the
  log of decisions that were signed and stored (in one transaction each, with the safety
  state), and the finalizations it announced. A vote is authentic when its signer is
  faulty or has stored that very vote; a step may only bring votes that are authentic if
  they pass the validator's signature check. Messages are otherwise arbitrary: any event,
  in any order, any number of times, at any validator.
\<close>

section \<open>The network\<close>

record node =
  nd_engine :: consensus
  nd_outbox :: decision_log
  nd_durable :: decision_log
  nd_decided :: "finalization list"

type_synonym network = "cvalidator_id \<Rightarrow> node"

record setting =
  set_validators :: validator_set
  set_config :: consensus_config
  set_height :: u64
  set_faulty :: "cvalidator_id list"

definition node_ctx :: "setting \<Rightarrow> cvalidator_id \<Rightarrow> instance_ctx" where
  "node_ctx S p =
     \<lparr>x_me = p, x_vs = set_validators S, x_cfg = set_config S, x_height = set_height S\<rparr>"

definition honest :: "setting \<Rightarrow> cvalidator_id \<Rightarrow> bool" where
  "honest S p \<longleftrightarrow> p \<in> set (vs_validators (set_validators S)) \<and> p \<notin> set (set_faulty S)"

definition stored_votes :: "network \<Rightarrow> cvalidator_id \<Rightarrow> vote set" where
  "stored_votes net p = log_votes (nd_durable (net p))"

definition vote_stored :: "decision_log \<Rightarrow> vote \<Rightarrow> bool" where
  "vote_stored log v \<longleftrightarrow> SignableVote v \<in> set (map fst log)"

definition authentic :: "setting \<Rightarrow> network \<Rightarrow> signed_vote \<Rightarrow> bool" where
  "authentic S net sv \<longleftrightarrow>
     signer sv \<in> set (set_faulty S) \<or> vote_stored (nd_durable (net (signer sv))) (sv_vote sv)"

definition result_finals :: "consensus_error + effect list \<Rightarrow> finalization list" where
  "result_finals r = (case r of Inl _ \<Rightarrow> [] | Inr effs \<Rightarrow> finalizations effs)"

text \<open>
  What can happen at one validator: an event is processed; the oldest requested decision
  is signed and stored, or lost; the process restarts from what is stored.
\<close>

datatype action =
    Deliver cvalidator_id event message_validator
  | Persist cvalidator_id
  | Lose cvalidator_id
  | Restart cvalidator_id message_validator

definition admissible :: "setting \<Rightarrow> network \<Rightarrow> event \<Rightarrow> message_validator \<Rightarrow> bool" where
  "admissible S net ev mv \<longleftrightarrow>
     (\<forall>sv \<in> set (event_votes ev). validate_vote mv sv = Inr () \<longrightarrow> authentic S net sv)"

definition restart_engine ::
  "setting \<Rightarrow> cvalidator_id \<Rightarrow> decision_log \<Rightarrow> message_validator \<Rightarrow> consensus option" where
  "restart_engine S p log mv =
     (if log = [] then
        (case consensus_new p (set_validators S) (set_height S) (set_config S) of
           Inl _ \<Rightarrow> None | Inr c \<Rightarrow> Some c)
      else
        (case consensus_new_with_safety_state p (set_validators S) (set_height S) (set_config S)
            (snd (last log)) mv of
           Inl _ \<Rightarrow> None
         | Inr c \<Rightarrow>
           (case restore_all c (map fst log) of (c', Inr _) \<Rightarrow> Some c' | _ \<Rightarrow> None)))"

fun net_step :: "setting \<Rightarrow> network \<Rightarrow> action \<Rightarrow> network option" where
  "net_step S net (Deliver p ev mv) =
     (if honest S p \<and> admissible S net ev mv then
        (let n = net p; (c, res) = engine_step (nd_engine n) ev mv in
         Some (net(p := n\<lparr>nd_engine := c, nd_outbox := nd_outbox n @ result_log res,
                          nd_decided := nd_decided n @ result_finals res\<rparr>)))
      else None)"
| "net_step S net (Persist p) =
     (case nd_outbox (net p) of
        [] \<Rightarrow> None
      | d # rest \<Rightarrow>
          Some (net(p := (net p)\<lparr>nd_outbox := rest, nd_durable := nd_durable (net p) @ [d]\<rparr>)))"
| "net_step S net (Lose p) =
     (case nd_outbox (net p) of
        [] \<Rightarrow> None
      | d # rest \<Rightarrow> Some (net(p := (net p)\<lparr>nd_outbox := rest\<rparr>)))"
| "net_step S net (Restart p mv) =
     (if honest S p then
        (case restart_engine S p (nd_durable (net p)) mv of
           None \<Rightarrow> None
         | Some c \<Rightarrow> Some (net(p := (net p)\<lparr>nd_engine := c, nd_outbox := []\<rparr>)))
      else None)"

definition net_init :: "setting \<Rightarrow> network \<Rightarrow> bool" where
  "net_init S net \<longleftrightarrow>
     (\<forall>p. nd_outbox (net p) = [] \<and> nd_durable (net p) = [] \<and> nd_decided (net p) = []) \<and>
     (\<forall>p. honest S p \<longrightarrow>
        consensus_new p (set_validators S) (set_height S) (set_config S) = Inr (nd_engine (net p)))"

inductive reachable :: "setting \<Rightarrow> network \<Rightarrow> bool" for S where
  reachable_init: "net_init S net \<Longrightarrow> reachable S net"
| reachable_step: "reachable S net \<Longrightarrow> net_step S net a = Some net' \<Longrightarrow> reachable S net'"

inductive_cases reachableE: "reachable S net"

text \<open>At most \<open>floor((N - 1) / 3)\<close> of the \<open>N\<close> distinct validators are faulty.\<close>

definition tolerates :: "setting \<Rightarrow> bool" where
  "tolerates S \<longleftrightarrow>
     distinct (vs_validators (set_validators S)) \<and>
     card (set (vs_validators (set_validators S)) \<inter> set (set_faulty S)) \<le>
       max_faults (vs_validators (set_validators S))"

section \<open>The network invariant\<close>

definition net_inv :: "setting \<Rightarrow> network \<Rightarrow> bool" where
  "net_inv S net \<longleftrightarrow>
     (\<forall>p. honest S p \<longrightarrow>
        engine_inv (authentic S net) (node_ctx S p) (nd_durable (net p) @ nd_outbox (net p)) (nd_engine (net p)) \<and>
        (\<forall>f \<in> set (nd_decided (net p)). finalization_ok (authentic S net) (node_ctx S p) f))"

lemma vote_stored_log_votes: "vote_stored log v \<longleftrightarrow> v \<in> log_votes log"
  by (force simp: vote_stored_def log_votes_def)

lemma authentic_mono:
  assumes "\<And>p. log_votes (nd_durable (net p)) \<subseteq> log_votes (nd_durable (net' p))"
  shows "authentic S net sv \<Longrightarrow> authentic S net' sv"
  using assms unfolding authentic_def vote_stored_log_votes by blast

lemma finalization_ok_mono:
  "finalization_ok auth X f \<Longrightarrow> (\<And>sv. auth sv \<Longrightarrow> auth' sv) \<Longrightarrow> finalization_ok auth' X f"
  unfolding finalization_ok_def using proof_ok_mono by blast

text \<open>Changing one validator, with at least as many stored votes, keeps the others' invariants.\<close>

lemma net_inv_update:
  assumes inv: "net_inv S net"
    and sub: "log_votes (nd_durable (net p)) \<subseteq> log_votes (nd_durable n)"
    and n: "honest S p \<Longrightarrow>
       engine_inv (authentic S (net(p := n))) (node_ctx S p) (nd_durable n @ nd_outbox n) (nd_engine n) \<and>
       (\<forall>f \<in> set (nd_decided n). finalization_ok (authentic S (net(p := n))) (node_ctx S p) f)"
  shows "net_inv S (net(p := n))"
proof -
  have mono: "authentic S net sv \<Longrightarrow> authentic S (net(p := n)) sv" for sv
    by (rule authentic_mono) (use sub in auto)
  show ?thesis
    using inv n engine_inv_mono [of "authentic S net" _ _ _ "authentic S (net(p := n))", OF _ mono]
      finalization_ok_mono [of "authentic S net" _ _ "authentic S (net(p := n))", OF _ mono]
    unfolding net_inv_def by auto
qed

lemma engine_inv_drop:
  assumes "engine_inv auth X (log @ d # rest) c"
  shows "engine_inv auth X (log @ rest) c"
proof -
  have sub: "log_votes (log @ rest) \<subseteq> log_votes (log @ d # rest)"
    by (auto simp: log_votes_def)
  have "log_ok auth X (log @ d # rest) \<Longrightarrow> log_ok auth X (log @ rest)"
  proof (induction rest rule: rev_induct)
    case Nil
    then show ?case by (simp add: log_ok_snoc [where m = "fst d" and ss = "snd d", simplified])
  next
    case (snoc x xs)
    have "log_votes (log @ xs @ [x]) \<subseteq> log_votes (log @ d # xs @ [x])" by (auto simp: log_votes_def)
    with snoc log_ok_snoc [of auth X "log @ d # xs" "fst x" "snd x"] log_ok_snoc [of auth X "log @ xs" "fst x" "snd x"]
    show ?case by (auto intro: safety_ok_subset)
  qed
  with assms sub show ?thesis
    unfolding engine_inv_def by (auto intro: history_ok_subset safety_ok_subset phase_ok_subset)
qed

lemma net_init_inv:
  assumes "net_init S net" "tolerates S"
  shows "net_inv S net"
  using assms consensus_new_inv by (force simp: net_init_def net_inv_def tolerates_def node_ctx_def)

lemma deliver_inv:
  assumes inv: "net_inv S net" and hon: "honest S p" and adm: "admissible S net ev mv"
    and run: "engine_step (nd_engine (net p)) ev mv = (c, res)"
  shows "net_inv S (net(p := (net p)\<lparr>nd_engine := c, nd_outbox := nd_outbox (net p) @ result_log res,
    nd_decided := nd_decided (net p) @ result_finals res\<rparr>))"
proof (rule net_inv_update [OF inv])
  let ?n = "(net p)\<lparr>nd_engine := c, nd_outbox := nd_outbox (net p) @ result_log res,
    nd_decided := nd_decided (net p) @ result_finals res\<rparr>"
  have auth: "authentic S (net(p := ?n)) = authentic S net"
    by (rule ext) (simp add: authentic_def)
  have old: "engine_inv (authentic S net) (node_ctx S p) (nd_durable (net p) @ nd_outbox (net p)) (nd_engine (net p))"
    "\<And>f. f \<in> set (nd_decided (net p)) \<Longrightarrow> finalization_ok (authentic S net) (node_ctx S p) f"
    using inv hon unfolding net_inv_def by blast+
  have new: "engine_inv (authentic S net) (node_ctx S p) ((nd_durable (net p) @ nd_outbox (net p)) @ result_log res) c"
    using adm by (intro engine_step_inv [OF old(1) _ run]) (auto simp: admissible_def)
  have "finalization_ok (authentic S net) (node_ctx S p) f" if "f \<in> set (result_finals res)" for f
  proof -
    have "c_finalized c = Some f"
      using that engine_step_decides [OF run] by (auto simp: result_finals_def decides_def split: sum.splits)
    with new show ?thesis by (rule engine_invD(9))
  qed
  with old new auth show "engine_inv (authentic S (net(p := ?n))) (node_ctx S p)
       (nd_durable ?n @ nd_outbox ?n) (nd_engine ?n) \<and>
     (\<forall>f \<in> set (nd_decided ?n). finalization_ok (authentic S (net(p := ?n))) (node_ctx S p) f)"
    by auto
qed simp

lemma restart_inv:
  assumes inv: "engine_inv auth (node_ctx S p) (log @ rest) c0" and vs: "tolerates S"
    and run: "restart_engine S p log mv = Some c"
  shows "engine_inv auth (node_ctx S p) log c"
proof (cases "log = []")
  case True
  then have "consensus_new p (set_validators S) (set_height S) (set_config S) = Inr c"
    using run by (auto simp: restart_engine_def split: sum.splits)
  with True vs consensus_new_inv show ?thesis by (auto simp: tolerates_def node_ctx_def)
next
  case False
  note D = engine_invD [OF engine_inv_prefix [OF inv]]
  obtain c1 u where c1: "consensus_new_with_safety_state p (set_validators S) (set_height S) (set_config S)
      (snd (last log)) mv = Inr c1" and r: "restore_all c1 (map fst log) = (c, Inr u)"
    using run False by (auto simp: restart_engine_def split: sum.splits prod.splits)
  have "engine_inv auth (node_ctx S p) log c1"
    using vs D(5,6) False by (intro restored_inv [OF c1]) (auto simp: tolerates_def node_ctx_def)
  then show ?thesis using r by (rule restore_all_inv)
qed

lemma net_step_inv:
  assumes inv: "net_inv S net" and vs: "tolerates S" and run: "net_step S net a = Some net'"
  shows "net_inv S net'"
proof -
  have eng: "engine_inv (authentic S net) (node_ctx S p) (nd_durable (net p) @ nd_outbox (net p)) (nd_engine (net p))"
    "\<forall>f \<in> set (nd_decided (net p)). finalization_ok (authentic S net) (node_ctx S p) f" if "honest S p" for p
    using inv that unfolding net_inv_def by blast+
  have same: "authentic S (net(p := n)) = authentic S net" if "nd_durable n = nd_durable (net p)" for p n
    using that by (intro ext) (simp add: authentic_def)
  show ?thesis
  proof (cases a)
    case (Deliver p ev mv)
    obtain c res where s: "engine_step (nd_engine (net p)) ev mv = (c, res)" by fastforce
    with run Deliver deliver_inv [OF inv _ _ s] show ?thesis by (auto simp: Let_def split: if_splits)
  next
    case (Persist p)
    then obtain d rest where o: "nd_outbox (net p) = d # rest"
      and net': "net' = net(p := (net p)\<lparr>nd_outbox := rest, nd_durable := nd_durable (net p) @ [d]\<rparr>)"
      using run by (auto split: list.splits)
    let ?n = "(net p)\<lparr>nd_outbox := rest, nd_durable := nd_durable (net p) @ [d]\<rparr>"
    have mono: "authentic S net sv \<Longrightarrow> authentic S (net(p := ?n)) sv" for sv
      by (rule authentic_mono) auto
    show ?thesis unfolding net'
    proof (rule net_inv_update [OF inv])
      assume "honest S p"
      with eng [of p] o show "engine_inv (authentic S (net(p := ?n))) (node_ctx S p)
          (nd_durable ?n @ nd_outbox ?n) (nd_engine ?n) \<and>
        (\<forall>f \<in> set (nd_decided ?n). finalization_ok (authentic S (net(p := ?n))) (node_ctx S p) f)"
        by (auto intro: engine_inv_mono [OF _ mono] finalization_ok_mono [OF _ mono])
    qed auto
  next
    case (Lose p)
    then obtain d rest where o: "nd_outbox (net p) = d # rest"
      and net': "net' = net(p := (net p)\<lparr>nd_outbox := rest\<rparr>)"
      using run by (auto split: list.splits)
    show ?thesis unfolding net'
      by (rule net_inv_update [OF inv]) (use eng [of p] o same in \<open>auto intro: engine_inv_drop\<close>)
  next
    case (Restart p mv)
    then obtain c where hon: "honest S p" and c: "restart_engine S p (nd_durable (net p)) mv = Some c"
      and net': "net' = net(p := (net p)\<lparr>nd_engine := c, nd_outbox := []\<rparr>)"
      using run by (auto split: if_splits option.splits)
    show ?thesis unfolding net'
      by (rule net_inv_update [OF inv]) (use eng [OF hon] same restart_inv [OF _ vs c] in auto)
  qed
qed

lemma reachable_inv: "reachable S net \<Longrightarrow> tolerates S \<Longrightarrow> net_inv S net"
  by (induction rule: reachable.induct) (auto intro: net_init_inv net_step_inv)

section \<open>Agreement\<close>

lemma quorum_for_ctx: "quorum_for auth (node_ctx S p) r k b \<longleftrightarrow> quorum_for auth (node_ctx S q) r k b"
  by (simp add: quorum_for_def node_ctx_def cvote_def)

text \<open>An authentic vote of a correct validator is one it stored, so its history accounts for it.\<close>

lemma authentic_honest:
  assumes inv: "net_inv S net" and q: "honest S q" and a: "authv (authentic S net) (cvote X r k val q)"
  shows "cvote X r k val q \<in> log_votes (nd_durable (net q) @ nd_outbox (net q))"
    and "history_ok (authentic S net) (node_ctx S q) (log_votes (nd_durable (net q) @ nd_outbox (net q)))"
proof -
  show "cvote X r k val q \<in> log_votes (nd_durable (net q) @ nd_outbox (net q))"
    using a q by (auto simp: authv_def authentic_def honest_def vote_stored_log_votes)
  show "history_ok (authentic S net) (node_ctx S q) (log_votes (nd_durable (net q) @ nd_outbox (net q)))"
  proof (rule engine_invD(5))
    show "engine_inv (authentic S net) (node_ctx S q) (nd_durable (net q) @ nd_outbox (net q)) (nd_engine (net q))"
      using inv q by (simp add: net_inv_def)
  qed
qed

lemma common_honest:
  assumes "tolerates S" "quorum_for auth (node_ctx S p) r k b" "quorum_for auth (node_ctx S p) r' k' b'"
  obtains q where "honest S q" "authv auth (cvote (node_ctx S p) r k (VoteBlock b) q)"
    "authv auth (cvote (node_ctx S p) r' k' (VoteBlock b') q)"
  using quorum_for_common [OF assms(2,3), of "set (set_faulty S)"] assms(1)
  by (auto simp: tolerates_def honest_def node_ctx_def)

lemma precommit_quorum_has_prevotes:
  assumes inv: "net_inv S net" and tol: "tolerates S"
    and pc: "quorum_for (authentic S net) (node_ctx S p) r Precommit b"
  shows "quorum_for (authentic S net) (node_ctx S p) r Prevote b"
proof -
  obtain q where q: "honest S q" "authv (authentic S net) (cvote (node_ctx S p) r Precommit (VoteBlock b) q)"
    using common_honest [OF tol pc pc] by blast
  from authentic_honest [OF inv q]
  have "quorum_for (authentic S net) (node_ctx S q) r Prevote b"
    unfolding history_ok_def precommits_def by fastforce
  then show ?thesis using quorum_for_ctx by blast
qed

text \<open>
  After a precommit quorum for \<open>b\<close> in round \<open>r\<close> no other block gets a prevote quorum in
  round \<open>r\<close> or later.
\<close>

lemma no_conflicting_prevotes:
  assumes inv: "net_inv S net" and tol: "tolerates S"
    and pc: "quorum_for (authentic S net) (node_ctx S p) r Precommit b"
  shows "quorum_for (authentic S net) (node_ctx S p) r' Prevote b' \<Longrightarrow> r \<le> r' \<Longrightarrow> b' = b"
proof (induction "unat r'" arbitrary: r' rule: less_induct)
  case less
  let ?X = "node_ctx S p" and ?A = "authentic S net"
  show ?case
  proof (cases "r' = r")
    case True
    have "quorum_for ?A ?X r Prevote b"
      by (rule precommit_quorum_has_prevotes [OF inv tol pc])
    then obtain q where q: "honest S q" "authv ?A (cvote ?X r Prevote (VoteBlock b) q)"
      "authv ?A (cvote ?X r Prevote (VoteBlock b') q)"
      using common_honest [OF tol] less.prems(1) True by blast
    have "cvote ?X r Prevote (VoteBlock b) q = cvote ?X r Prevote (VoteBlock b') q"
      using authentic_honest(1) [OF inv q(1) q(2)] authentic_honest(1) [OF inv q(1) q(3)]
        authentic_honest(2) [OF inv q(1) q(2)]
      unfolding history_ok_def by fastforce
    then show ?thesis by (simp add: cvote_def)
  next
    case False
    then have lt: "r < r'" using less.prems(2) by simp
    obtain q where q: "honest S q" "authv ?A (cvote ?X r Precommit (VoteBlock b) q)"
      "authv ?A (cvote ?X r' Prevote (VoteBlock b') q)"
      using common_honest [OF tol pc less.prems(1)] by blast
    let ?H = "log_votes (nd_durable (net q) @ nd_outbox (net q))"
    have H: "history_ok ?A (node_ctx S q) ?H" by (rule authentic_honest(2) [OF inv q(1,2)])
    have "switch_justified ?A (node_ctx S q) ?H r' b'"
      using H authentic_honest(1) [OF inv q(1,3)]
      unfolding history_ok_def prevotes_def by fastforce
    then have "b \<noteq> b' \<Longrightarrow> \<exists>vr. r < vr \<and> vr < r' \<and> quorum_for ?A (node_ctx S q) vr Prevote b'"
      using authentic_honest(1) [OF inv q(1,2)] lt
      unfolding switch_justified_def precommits_def by fastforce
    then show ?thesis
      using less.hyps quorum_for_ctx [of ?A S q _ Prevote b' p]
      by (metis less_imp_le word_less_nat_alt)
  qed
qed

lemma commits_agree:
  assumes inv: "net_inv S net" and tol: "tolerates S"
    and "quorum_for (authentic S net) (node_ctx S p) r Precommit b"
    and "quorum_for (authentic S net) (node_ctx S p) r' Precommit b'"
  shows "b = b'"
  using no_conflicting_prevotes [OF inv tol] precommit_quorum_has_prevotes [OF inv tol] assms(3,4)
  by (metis linear)

text \<open>Running a list of actions.\<close>

fun net_run :: "setting \<Rightarrow> network \<Rightarrow> action list \<Rightarrow> network option" where
  "net_run S net [] = Some net"
| "net_run S net (a # as) =
     (case net_step S net a of None \<Rightarrow> None | Some net' \<Rightarrow> net_run S net' as)"

lemma net_run_reachable: "reachable S net \<Longrightarrow> net_run S net as = Some net' \<Longrightarrow> reachable S net'"
  by (induction S net as rule: net_run.induct) (auto split: option.splits intro: reachable_step)

end
