(* ===== verification/ConsensusDemo.thy ===== *)
theory ConsensusDemo
  imports Agreement
begin

text \<open>
  A concrete network for the witnesses: four validators, the last one faulty, the other
  three finalize the block proposed in round zero of height one.
\<close>

definition demo_id :: "u8 \<Rightarrow> cvalidator_id" where
  "demo_id n = CValidatorId [n]"

definition demo_config :: consensus_config where
  "demo_config = config_for_chain (str ''testnet'')"

definition demo_setting :: setting where
  "demo_setting =
     \<lparr>set_validators = ValidatorSet (map demo_id [1, 2, 3, 4]), set_config = demo_config,
      set_height = 1, set_faulty = [demo_id 4]\<rparr>"

definition accept_all :: message_validator where
  "accept_all = \<lparr>validate_proposal = (\<lambda>_. Inr ()), validate_vote = (\<lambda>_. Inr ()),
     validate_certificate_app = (\<lambda>_. Inr ())\<rparr>"

definition demo_engine :: "cvalidator_id \<Rightarrow> consensus" where
  "demo_engine p =
     (case consensus_new p (set_validators demo_setting) (set_height demo_setting) demo_config of
        Inr c \<Rightarrow> c
      | Inl _ \<Rightarrow> (case consensus_new (demo_id 1) (set_validators demo_setting) 1 demo_config of Inr c \<Rightarrow> c))"

definition demo_net0 :: network where
  "demo_net0 = (\<lambda>p. \<lparr>nd_engine = demo_engine p, nd_outbox = [], nd_durable = [], nd_decided = []\<rparr>)"

definition demo_bid :: block_id where "demo_bid = BlockId [7]"

definition demo_proposal :: signed_message where
  "demo_proposal = MessageProposal
     \<lparr>sp_proposal =
        \<lparr>p_chain_id = str ''testnet'', p_height = 1, p_round = 0, p_proposer = demo_id 1,
         p_block_id = demo_bid, p_valid_round = None, p_valid_round_proof = []\<rparr>,
      sp_signature = []\<rparr>"

definition demo_vote :: "u8 \<Rightarrow> vote_kind \<Rightarrow> signed_message" where
  "demo_vote n k = MessageVote
     \<lparr>sv_vote =
        \<lparr>v_chain_id = str ''testnet'', v_height = 1, v_round = 0, v_kind = k,
         v_validator = demo_id n, v_value = VoteBlock demo_bid\<rparr>,
      sv_signature = []\<rparr>"

definition deliver :: "u8 \<Rightarrow> event \<Rightarrow> action" where
  "deliver n ev = Deliver (demo_id n) ev accept_all"

definition persist_own :: "u8 \<Rightarrow> signed_message \<Rightarrow> action list" where
  "persist_own n m = [Persist (demo_id n), deliver n (Persisted m)]"

definition demo_actions :: "action list" where
  "demo_actions =
     deliver 1 Start # deliver 1 (ProposalReady 1 0 demo_bid) #
     persist_own 1 demo_proposal @ persist_own 1 (demo_vote 1 Prevote) @
     concat (map (\<lambda>n. [deliver n Start, deliver n (Message demo_proposal)] @
       persist_own n (demo_vote n Prevote)) [2, 3]) @
     concat (map (\<lambda>n. map (\<lambda>k. deliver n (Message (demo_vote k Prevote))) (removeAll n [1, 2, 3]) @
       persist_own n (demo_vote n Precommit)) [1, 2, 3]) @
     concat (map (\<lambda>n. map (\<lambda>k. deliver n (Message (demo_vote k Precommit))) (removeAll n [1, 2, 3])) [1, 2])"

definition demo_net :: network where
  "demo_net = (case net_run demo_setting demo_net0 demo_actions of Some net \<Rightarrow> net | None \<Rightarrow> demo_net0)"

text \<open>Two validators decide the block; each stored its precommit.\<close>

definition demo_outcome :: "network \<Rightarrow> bool" where
  "demo_outcome net \<longleftrightarrow>
     map fin_block_id (nd_decided (net (demo_id 1))) = [demo_bid] \<and>
     map fin_block_id (nd_decided (net (demo_id 2))) = [demo_bid] \<and>
     vote_stored (nd_durable (net (demo_id 1)))
       (case demo_vote 1 Precommit of MessageVote sv \<Rightarrow> sv_vote sv)"

lemma demo_run:
  "case net_run demo_setting demo_net0 demo_actions of None \<Rightarrow> False | Some net \<Rightarrow> demo_outcome net"
  by code_simp

lemma demo_tolerates: "tolerates demo_setting"
  by code_simp

lemma demo_honest: "honest demo_setting (demo_id 1)" "honest demo_setting (demo_id 2)"
  by code_simp+

lemma demo_net0_init: "net_init demo_setting demo_net0"
proof -
  have "\<forall>p \<in> set (vs_validators (set_validators demo_setting)).
      consensus_new p (set_validators demo_setting) (set_height demo_setting) (set_config demo_setting) =
      Inr (demo_engine p)"
    by code_simp
  then show ?thesis by (auto simp: net_init_def demo_net0_def honest_def)
qed

lemma demo_reachable: "reachable demo_setting demo_net"
  using net_run_reachable [OF reachable_init [OF demo_net0_init]] demo_run
  by (auto simp: demo_net_def split: option.splits)

lemma demo_net_outcome: "demo_outcome demo_net"
  using demo_run by (simp add: demo_net_def split: option.splits)

text \<open>
  A run in which validator 1 locks a block in round 0 and prevotes another one in round 2,
  after a prevote quorum for it in round 1 that contains the faulty validator.
\<close>

definition demo_bid2 :: block_id where "demo_bid2 = BlockId [8]"

definition demo_timeout :: "u32 \<Rightarrow> phase \<Rightarrow> event" where
  "demo_timeout r ph = TimeoutEvent
     \<lparr>to_height = 1, to_round = r, to_phase = ph, to_after = timeout_for demo_config ph r\<rparr>"

definition demo_prevote_at :: "u8 \<Rightarrow> u32 \<Rightarrow> block_id \<Rightarrow> signed_vote" where
  "demo_prevote_at n r b =
     \<lparr>sv_vote =
        \<lparr>v_chain_id = str ''testnet'', v_height = 1, v_round = r, v_kind = Prevote,
         v_validator = demo_id n, v_value = VoteBlock b\<rparr>,
      sv_signature = []\<rparr>"

definition demo_reproposal :: "u8 \<Rightarrow> u32 \<Rightarrow> u32 option \<Rightarrow> signed_vote list \<Rightarrow> signed_message" where
  "demo_reproposal n r vr votes = MessageProposal
     \<lparr>sp_proposal =
        \<lparr>p_chain_id = str ''testnet'', p_height = 1, p_round = r, p_proposer = demo_id n,
         p_block_id = demo_bid2, p_valid_round = vr, p_valid_round_proof = votes\<rparr>,
      sp_signature = []\<rparr>"

definition demo_switch_actions :: "action list" where
  "demo_switch_actions =
     [deliver 2 Start, deliver 2 (Message demo_proposal),
      deliver 2 (demo_timeout 0 PhasePrevote), deliver 2 (demo_timeout 0 PhasePrecommit),
      deliver 2 (ProposalReady 1 1 demo_bid2),
      Persist (demo_id 2), Persist (demo_id 2), Persist (demo_id 2),
      deliver 2 (Persisted (demo_reproposal 2 1 None [])), Persist (demo_id 2),
      deliver 3 Start, deliver 3 (demo_timeout 0 PhasePropose),
      deliver 3 (demo_timeout 0 PhasePrevote), deliver 3 (demo_timeout 0 PhasePrecommit),
      deliver 3 (Message (demo_reproposal 2 1 None [])),
      Persist (demo_id 3), Persist (demo_id 3), Persist (demo_id 3),
      deliver 1 Start, deliver 1 (Message demo_proposal), Persist (demo_id 1),
      deliver 1 (Persisted (demo_vote 1 Prevote)), deliver 1 (Message (demo_vote 2 Prevote)),
      deliver 1 (Message (demo_vote 4 Prevote)), Persist (demo_id 1),
      deliver 1 (demo_timeout 0 PhasePrecommit), deliver 1 (Message (demo_reproposal 2 1 None [])),
      deliver 1 (demo_timeout 1 PhasePrevote), deliver 1 (demo_timeout 1 PhasePrecommit),
      deliver 1 (Message (demo_reproposal 3 2 (Some 1)
        [demo_prevote_at 2 1 demo_bid2, demo_prevote_at 3 1 demo_bid2, demo_prevote_at 4 1 demo_bid2])),
      Persist (demo_id 1), Persist (demo_id 1), Persist (demo_id 1)]"

definition demo_switch_net :: network where
  "demo_switch_net =
     (case net_run demo_setting demo_net0 demo_switch_actions of Some net \<Rightarrow> net | None \<Rightarrow> demo_net0)"

definition demo_switch_outcome :: "network \<Rightarrow> bool" where
  "demo_switch_outcome net \<longleftrightarrow>
     vote_stored (nd_durable (net (demo_id 1)))
       (case demo_vote 1 Precommit of MessageVote sv \<Rightarrow> sv_vote sv) \<and>
     vote_stored (nd_durable (net (demo_id 1))) (sv_vote (demo_prevote_at 1 2 demo_bid2))"

lemma demo_switch_run:
  "case net_run demo_setting demo_net0 demo_switch_actions of
     None \<Rightarrow> False | Some net \<Rightarrow> demo_switch_outcome net"
  by code_simp

lemma demo_switch_reachable: "reachable demo_setting demo_switch_net"
  using net_run_reachable [OF reachable_init [OF demo_net0_init]] demo_switch_run
  by (auto simp: demo_switch_net_def split: option.splits)

lemma demo_switch_net_outcome: "demo_switch_outcome demo_switch_net"
  using demo_switch_run by (simp add: demo_switch_net_def split: option.splits)

end
