(* ===== verification/ConsensusProps.thy ===== *)
theory ConsensusProps
  imports ConsensusDemo Demo
begin

text \<open>
  The properties of the consensus crate: agreement and the discipline of stored votes in
  the network of \<open>Agreement\<close>, recovery, the certificates that leave the engine, and the
  conversions to and from the protocol crate.
\<close>

section \<open>Safety of the network\<close>

text \<open>
  C1: Agreement. In a network where at most \<open>floor((N-1)/3)\<close> of the \<open>N\<close> distinct validators
  are faulty, whatever messages arrive, are repeated, reordered or lost, and however
  often validators crash and restart from what they stored, any two finalizations that
  correct validators ever announce are for the same block.
\<close>

theorem finalized_blocks_agree:
  assumes "reachable S net" and "tolerates S"
    and "honest S p" and "f \<in> set (nd_decided (net p))"
    and "honest S q" and "g \<in> set (nd_decided (net q))"
  shows "fin_block_id f = fin_block_id g"
proof -
  note inv = reachable_inv [OF assms(1,2)]
  have ctx: "ctx_ok (node_ctx S p)" "ctx_ok (node_ctx S q)"
    using inv assms(3,5) by (auto simp: net_inv_def dest: engine_invD(2))
  have "finalization_ok (authentic S net) (node_ctx S p) f" "finalization_ok (authentic S net) (node_ctx S q) g"
    using inv assms(3-6) by (auto simp: net_inv_def)
  then have "quorum_for (authentic S net) (node_ctx S p) (fin_round f) Precommit (fin_block_id f)"
    "quorum_for (authentic S net) (node_ctx S q) (fin_round g) Precommit (fin_block_id g)"
    using ctx by (auto simp: finalization_ok_def intro: proof_ok_quorum)
  then show ?thesis
    using commits_agree [OF inv assms(2)] quorum_for_ctx by blast
qed

theorem finalized_blocks_agree_witness:
  "\<exists>f g. nd_decided (demo_net (demo_id 1)) = [f] \<and> nd_decided (demo_net (demo_id 2)) = [g] \<and>
     fin_block_id f = fin_block_id g"
proof -
  obtain f g where fg: "nd_decided (demo_net (demo_id 1)) = [f]" "nd_decided (demo_net (demo_id 2)) = [g]"
    using demo_net_outcome by (auto simp: demo_outcome_def)
  note h = demo_honest
  have "fin_block_id f = fin_block_id g"
    by (rule finalized_blocks_agree [OF demo_reachable demo_tolerates h(1) _ h(2)]) (simp_all add: fg)
  with fg show ?thesis by blast
qed

text \<open>
  C2: No equivocation. Of the votes a correct validator ever stored, and hence signed, in
  any run with crashes and restarts, no two differ for the same round and kind; a stored
  precommit for a block has a prevote quorum of its round behind it.
\<close>

theorem stored_votes_never_conflict:
  assumes "reachable S net" and "tolerates S" and "honest S p"
    and "vote_stored (nd_durable (net p)) v" and "vote_stored (nd_durable (net p)) w"
    and "v_round v = v_round w" and "v_kind v = v_kind w"
  shows "v = w \<and> (v_kind v = Precommit \<longrightarrow> (\<forall>b. v_value v = VoteBlock b \<longrightarrow>
     quorum_for (authentic S net) (node_ctx S p) (v_round v) Prevote b))"
proof -
  let ?H = "log_votes (nd_durable (net p) @ nd_outbox (net p))"
  have "engine_inv (authentic S net) (node_ctx S p) (nd_durable (net p) @ nd_outbox (net p)) (nd_engine (net p))"
    using reachable_inv [OF assms(1,2)] assms(3) by (simp add: net_inv_def)
  then have H: "history_ok (authentic S net) (node_ctx S p) ?H" by (rule engine_invD(5))
  have vw: "v \<in> ?H" "w \<in> ?H" using assms(4,5) by (auto simp: vote_stored_log_votes)
  have "v = w" using H vw assms(6,7) unfolding history_ok_def by blast
  moreover have "quorum_for (authentic S net) (node_ctx S p) (v_round v) Prevote b"
    if "v_kind v = Precommit" "v_value v = VoteBlock b" for b
    using H vw(1) that unfolding history_ok_def precommits_def by blast
  ultimately show ?thesis by blast
qed

theorem stored_votes_never_conflict_witness:
  "quorum_for (authentic demo_setting demo_net) (node_ctx demo_setting (demo_id 1)) 0 Prevote demo_bid"
proof -
  let ?v = "case demo_vote 1 Precommit of MessageVote sv \<Rightarrow> sv_vote sv"
  have h: "honest demo_setting (demo_id 1)" by (rule demo_honest(1))
  have v: "vote_stored (nd_durable (demo_net (demo_id 1))) ?v"
    using demo_net_outcome by (simp add: demo_outcome_def)
  have f: "v_kind ?v = Precommit" "v_value ?v = VoteBlock demo_bid" "v_round ?v = 0"
    by (simp_all add: demo_vote_def)
  show ?thesis
    using stored_votes_never_conflict [OF demo_reachable demo_tolerates h v v] f by simp
qed

text \<open>
  C3: The lock rule. When a correct validator stored a precommit for one block and a
  prevote for another block in a later round, some round in between has a prevote quorum
  of authentic votes for the other block.
\<close>

theorem vote_switch_needs_newer_quorum:
  assumes "reachable S net" and "tolerates S" and "honest S p"
    and "vote_stored (nd_durable (net p)) v" and "v_kind v = Precommit" and "v_value v = VoteBlock b"
    and "vote_stored (nd_durable (net p)) w" and "v_kind w = Prevote" and "v_value w = VoteBlock b'"
    and "v_round v < v_round w" and "b \<noteq> b'"
  shows "\<exists>r. v_round v < r \<and> r < v_round w \<and>
     quorum_for (authentic S net) (node_ctx S p) r Prevote b'"
proof -
  let ?H = "log_votes (nd_durable (net p) @ nd_outbox (net p))"
  have "engine_inv (authentic S net) (node_ctx S p) (nd_durable (net p) @ nd_outbox (net p)) (nd_engine (net p))"
    using reachable_inv [OF assms(1,2)] assms(3) by (simp add: net_inv_def)
  then have H: "history_ok (authentic S net) (node_ctx S p) ?H" by (rule engine_invD(5))
  have vw: "v \<in> ?H" "w \<in> ?H" using assms(4,7) by (auto simp: vote_stored_log_votes)
  have "switch_justified (authentic S net) (node_ctx S p) ?H (v_round w) b'"
    using H vw(2) assms(8,9) unfolding history_ok_def prevotes_def by blast
  with vw(1) assms(5,6,10,11) show ?thesis
    unfolding switch_justified_def precommits_def by blast
qed

theorem vote_switch_needs_newer_quorum_witness:
  "\<exists>r. 0 < r \<and> r < 2 \<and>
     quorum_for (authentic demo_setting demo_switch_net) (node_ctx demo_setting (demo_id 1)) r Prevote demo_bid2"
proof -
  let ?v = "case demo_vote 1 Precommit of MessageVote sv \<Rightarrow> sv_vote sv"
  let ?w = "sv_vote (demo_prevote_at 1 2 demo_bid2)"
  have s: "vote_stored (nd_durable (demo_switch_net (demo_id 1))) ?v"
    "vote_stored (nd_durable (demo_switch_net (demo_id 1))) ?w"
    using demo_switch_net_outcome by (simp_all add: demo_switch_outcome_def)
  have v: "v_kind ?v = Precommit" "v_value ?v = VoteBlock demo_bid" "v_round ?v = 0"
    by (simp_all add: demo_vote_def)
  have w: "v_kind ?w = Prevote" "v_value ?w = VoteBlock demo_bid2" "v_round ?w = 2"
    by (simp_all add: demo_prevote_at_def)
  have "demo_bid \<noteq> demo_bid2" "(0 :: u32) < 2" by code_simp+
  then show ?thesis
    using vote_switch_needs_newer_quorum [OF demo_switch_reachable demo_tolerates demo_honest(1) s(1) v(1,2) s(2) w(1,2)] v w
    by simp
qed

section \<open>Conversions to the protocol crate\<close>

text \<open>
  Converting a protocol certificate with a valid chain identifier, 64-byte signatures
  and ordered signers to a consensus certificate and back gives it again.
\<close>

theorem certificate_conversion_round_trip:
  assumes "chain_id_validate (cc_chain_id c) = Inr ()" and "cc_protocol_version c = PROTOCOL_VERSION"
    and "sorted (certificate_signers c)"
    and "\<forall>s \<in> set (cc_signatures c). length (cs_signature s) = 64"
  shows "ccertificate_to_protocol (ccertificate_from_protocol c) = Inr c"
proof -
  let ?ct = "ccertificate_from_protocol c"
  have chain: "chain_id_new (chain_str (cc_chain_id c)) = Inr (cc_chain_id c)"
    using assms(1) by (cases "cc_chain_id c") (simp add: chain_id_new_def)
  have "list_all2 (\<lambda>x y. precommit_to_protocol ?ct x = Inr y) (ct_precommits ?ct) (cc_signatures c)"
    using assms(4)
    by (auto simp: ccertificate_from_protocol_def precommit_to_protocol_def Let_def list_all2_map1
        intro!: list.rel_refl_strong)
  then have "collect_results (precommit_to_protocol ?ct) (ct_precommits ?ct) = Inr (cc_signatures c)"
    by (simp add: collect_results_ok)
  moreover have "sort_key cs_validator (cc_signatures c) = cc_signatures c"
    using assms(3) by (intro sort_key_id_if_sorted) (simp add: certificate_signers_def)
  ultimately show ?thesis
    using chain assms(2)
    by (simp add: ccertificate_to_protocol_def Let_def)
      (simp add: ccertificate_from_protocol_def certificate_new_def commit_vote_new_def Let_def)
qed

theorem certificate_conversion_round_trip_witness:
  "ccertificate_to_protocol (ccertificate_from_protocol (demo_certificate_by [1, 2, 3])) =
     Inr (demo_certificate_by [1, 2, 3])"
proof (rule certificate_conversion_round_trip)
  show "chain_id_validate (cc_chain_id (demo_certificate_by [1, 2, 3])) = Inr ()" by code_simp
  show "cc_protocol_version (demo_certificate_by [1, 2, 3]) = PROTOCOL_VERSION" by code_simp
  show "sorted (certificate_signers (demo_certificate_by [1, 2, 3]))" by code_simp
  show "\<forall>s \<in> set (cc_signatures (demo_certificate_by [1, 2, 3])). length (cs_signature s) = 64"
    by code_simp
qed

section \<open>Proposer rotation\<close>

lemma mod_sum_u64:
  assumes "n < 2 ^ 32" "0 < n" "unat a + unat b < 2 ^ 64"
  shows "unat ((a mod of_nat n + b mod of_nat n) mod of_nat n :: u64) = (unat a + unat b) mod n"
    and "unat ((a + b) mod of_nat n :: u64) = (unat a + unat b) mod n"
proof -
  have n: "unat (of_nat n :: u64) = n" using assms(1) by (simp add: unsigned_of_nat take_bit_nat_eq_self)
  have m: "unat (x mod of_nat n :: u64) = unat x mod n" for x using n by (simp add: unat_mod_distrib)
  have "unat a mod n + unat b mod n < 2 ^ 64"
  proof -
    have "x < n \<Longrightarrow> y < n \<Longrightarrow> n < 4294967296 \<Longrightarrow> x + y < 18446744073709551616" for x y :: nat
      by linarith
    from this [of "unat a mod n" "unat b mod n"] assms(1,2) show ?thesis by simp
  qed
  then have "unat (a mod of_nat n + b mod of_nat n :: u64) = unat a mod n + unat b mod n"
    by (subst unat_add_less) (simp_all add: m)
  then show "unat ((a mod of_nat n + b mod of_nat n) mod of_nat n :: u64) = (unat a + unat b) mod n"
    by (simp add: m mod_add_eq)
  show "unat ((a + b) mod of_nat n :: u64) = (unat a + unat b) mod n"
    using assms(3) by (simp add: m unat_add_less)
qed

text \<open>
  The two crates agree on whose turn it is: for every height and round whose sum stays
  below \<open>2 ^ 64\<close>, the consensus proposer is the validator that certificate verification
  expects in the header, at index \<open>(height - 1 + round) mod N\<close>.
\<close>

theorem proposer_rotations_agree:
  assumes "validators \<noteq> []" and "length validators < 2 ^ 32"
    and "unat (bh_height (bk_header b)) - 1 + unat (bh_round (bk_header b)) < 2 ^ 64"
  shows "cvid_to_protocol (vs_proposer (ValidatorSet (map cvid_of_protocol validators))
       (bh_height (bk_header b)) (bh_round (bk_header b))) =
     validators ! declared_proposer_index b (length validators) \<and>
   declared_proposer_index b (length validators) =
     (unat (bh_height (bk_header b)) - 1 + unat (bh_round (bk_header b))) mod length validators"
proof -
  let ?h = "saturating_sub (bh_height (bk_header b)) 1"
  let ?r = "ucast (bh_round (bk_header b)) :: u64"
  have h: "unat ?h = unat (bh_height (bk_header b)) - 1"
    by (simp add: unat_saturating_sub)
  have r: "unat ?r = unat (bh_round (bk_header b))"
    using unat_lt2p [of "bh_round (bk_header b)"] by (simp add: unsigned_ucast_eq take_bit_nat_eq_self)
  have n: "0 < length validators" using assms(1) by simp
  note M = mod_sum_u64 [OF assms(2) n, of ?h ?r, unfolded h r, OF assms(3)]
  have lt: "(unat (bh_height (bk_header b)) - 1 + unat (bh_round (bk_header b))) mod length validators < length validators"
    using n by simp
  show ?thesis
    using M lt by (simp add: vs_proposer_def declared_proposer_index_def Let_def)
qed

theorem proposer_rotations_agree_witness:
  "declared_proposer_index demo_block (length demo_validators) = 0"
proof -
  have "unat (bh_height (bk_header demo_block)) = 1" "unat (bh_round (bk_header demo_block)) = 0"
    by code_simp+
  then show ?thesis
    using proposer_rotations_agree [of demo_validators demo_block] by (simp add: demo_validators_def)
qed

end
