(* ===== verification/EngineCaches.thy ===== *)
theory EngineCaches
  imports EngineEffects
begin

text \<open>
  Two instances of \<open>cache_property\<close>: the caches hold rounds of the acceptance window only,
  and a cached precommit quorum for a block is always already finalized, unless a check of
  the embedding node has refused its certificate.
\<close>

section \<open>Bounded caches\<close>

definition cached_rounds :: "consensus \<Rightarrow> u32 set" where
  "cached_rounds c = fst ` set (c_proposals c) \<union> fst ` fst ` set (c_votes c)"

definition cache_bounded :: "consensus \<Rightarrow> bool" where
  "cache_bounded c \<longleftrightarrow> (\<forall>r \<in> cached_rounds c. round_is_cacheable c r)"

definition any_validator :: "message_validator \<Rightarrow> bool" where
  "any_validator mv \<longleftrightarrow> True"

lemma cached_rounds_votes:
  "cached_rounds (c\<lparr>c_votes := bt_insert (r, k) m (c_votes c)\<rparr>) = insert r (cached_rounds c)"
  by (simp add: cached_rounds_def)

lemma cached_rounds_proposals:
  "cached_rounds (c\<lparr>c_proposals := bt_insert r p (c_proposals c)\<rparr>) = insert r (cached_rounds c)"
  by (auto simp: cached_rounds_def)

interpretation bounded: cache_property cache_bounded any_validator
proof
  fix c c' :: consensus assume "cache_bounded c" "caches c' = caches c"
  then show "cache_bounded c'"
    using round_is_cacheable_frame [of c' c] caches_fields [of c' c]
    by (simp add: cache_bounded_def cached_rounds_def)
next
  fix c :: consensus and r
  let ?c = "c\<lparr>c_started := True, c_round := r, c_phase := PhasePropose\<rparr>"
  have "round_is_cacheable (prune_caches ?c) = round_is_cacheable ?c"
    by (rule ext) (simp add: round_is_cacheable_def cache_minimum_def cache_maximum_def prune_caches_def)
  then show "cache_bounded (prune_caches ?c)"
    by (auto simp: cache_bounded_def cached_rounds_def prune_caches_def bt_retain_def)
next
  fix c :: consensus assume "cache_bounded c"
  then show "cache_bounded (c\<lparr>c_started := True\<rparr>)"
    by (simp add: cache_bounded_def cached_rounds_def round_is_cacheable_frame [of "c\<lparr>c_started := True\<rparr>" c])
next
  fix c :: consensus and r p assume "cache_bounded c" "round_is_cacheable c r"
  then show "cache_bounded (c\<lparr>c_proposals := bt_insert r p (c_proposals c)\<rparr>)"
    using round_is_cacheable_frame [of "c\<lparr>c_proposals := bt_insert r p (c_proposals c)\<rparr>" c]
    by (simp add: cache_bounded_def cached_rounds_proposals)
next
  fix c c' :: consensus and r k m mv res
  let ?c = "c\<lparr>c_votes := bt_insert (r, k) m (c_votes c)\<rparr>"
  assume c: "cache_bounded c" "round_is_cacheable c r" and e: "evaluate_round r mv (?c, []) = (c', res)"
  note f = caches_fields [of c' ?c] evaluate_round_frame [OF e]
  have "cached_rounds c' = insert r (cached_rounds c)"
    using f cached_rounds_votes [where c = c and r = r and k = k and m = m] by (simp add: cached_rounds_def)
  moreover have "round_is_cacheable c' = round_is_cacheable c"
    by (rule ext, rule round_is_cacheable_frame) (use f in simp_all)
  ultimately show "cache_bounded c'" using c by (simp add: cache_bounded_def)
next
  fix c :: consensus and r k m assume "cache_bounded c" "round_is_cacheable c r"
  then show "cache_bounded (c\<lparr>c_votes := bt_insert (r, k) m (c_votes c)\<rparr>)"
    using round_is_cacheable_frame [of "c\<lparr>c_votes := bt_insert (r, k) m (c_votes c)\<rparr>" c]
    by (simp add: cache_bounded_def cached_rounds_votes)
qed

lemma cached_round_count_card: "cached_round_count c = card (cached_rounds c)"
  by (simp add: cached_round_count_def length_bset_of cached_rounds_def bt_keys_def image_image)

lemma window_card:
  fixes r :: u32
  shows "card {x. saturating_sub r a \<le> x \<and> x \<le> saturating_add r b} \<le> unat a + unat b + 1"
proof -
  let ?W = "{x. saturating_sub r a \<le> x \<and> x \<le> saturating_add r b}"
  have "unat ` ?W \<subseteq> {unat r - unat a .. unat r + unat b}"
    by (auto simp: word_le_nat_alt unat_saturating_sub unat_saturating_add)
  then have "card (unat ` ?W) \<le> card {unat r - unat a .. unat r + unat b}"
    by (intro card_mono) auto
  moreover have "card (unat ` ?W) = card ?W"
    by (intro card_image) (auto simp: inj_on_def word_unat_eq_iff)
  ultimately show ?thesis by simp
qed

lemma cache_bounded_count:
  assumes "cache_bounded c"
  shows "cached_round_count c \<le>
    (unat (cfg_max_cached_rounds (c_config c)) - 1) + unat (cfg_max_round_ahead (c_config c)) + 1"
proof -
  let ?a = "ucast (saturating_sub (cfg_max_cached_rounds (c_config c)) 1) :: u32"
  have "cached_rounds c \<subseteq> {x. cache_minimum c \<le> x \<and> x \<le> cache_maximum c}"
    using assms by (auto simp: cache_bounded_def round_is_cacheable_def)
  then have "card (cached_rounds c) \<le> card {x. cache_minimum c \<le> x \<and> x \<le> cache_maximum c}"
    by (intro card_mono) auto
  also have "\<dots> \<le> unat ?a + unat (cfg_max_round_ahead (c_config c)) + 1"
    unfolding cache_minimum_def cache_maximum_def by (rule window_card)
  also have "unat ?a \<le> unat (cfg_max_cached_rounds (c_config c)) - 1"
    by (simp add: unsigned_ucast_eq unat_saturating_sub take_bit_nat_less_eq_self
        flip: unat_saturating_sub [of _ 1, simplified])
  finally show ?thesis by (simp add: cached_round_count_card)
qed

section \<open>No quorum is missed\<close>

text \<open>The certificate that the engine makes of the precommits it holds for a block.\<close>

definition cached_certificate :: "consensus \<Rightarrow> u32 \<Rightarrow> block_id \<Rightarrow> signed_vote list \<Rightarrow> ccertificate" where
  "cached_certificate c r b svs =
     \<lparr>ct_chain_id = cfg_chain_id (c_config c), ct_height = c_height c, ct_round = r,
      ct_block_id = b, ct_precommits = svs\<rparr>"

text \<open>\<open>M\<close> are the validators that the embedding node may pass.\<close>

definition commits_decided :: "message_validator set \<Rightarrow> consensus \<Rightarrow> bool" where
  "commits_decided M c \<longleftrightarrow>
     (\<forall>r b svs. quorum_votes c r Precommit = Some (VoteBlock b, svs) \<longrightarrow>
        c_finalized c \<noteq> None \<or> (\<exists>mv \<in> M. \<not> is_ok (validate_certificate_app mv (cached_certificate c r b svs))))"

lemma cached_certificate_frame:
  "c_config c' = c_config c \<Longrightarrow> c_height c' = c_height c \<Longrightarrow> cached_certificate c' = cached_certificate c"
  by (intro ext) (simp add: cached_certificate_def)

lemma commits_decided_frame:
  assumes "commits_decided M c" "\<And>r b svs. quorum_votes c' r Precommit = Some (VoteBlock b, svs) \<Longrightarrow>
      quorum_votes c r Precommit = Some (VoteBlock b, svs)"
    and "c_config c' = c_config c" "c_height c' = c_height c" "c_finalized c \<noteq> None \<Longrightarrow> c_finalized c' \<noteq> None"
  shows "commits_decided M c'"
  using assms(1,2,5) unfolding commits_decided_def cached_certificate_frame [OF assms(3,4)] by blast

lemma evaluate_decides_quorum:
  assumes e: "evaluate_round r mv (c, effs) = (c', res)"
    and q: "quorum_votes c r Precommit = Some (VoteBlock b, svs)"
  shows "c_finalized c' \<noteq> None \<or> \<not> is_ok (validate_certificate_app mv (cached_certificate c r b svs))"
proof -
  obtain c1 effs1 where p: "evaluate_prevotes r (c, effs) = (c1, effs1)" by fastforce
  note f = caches_fields [of c1 c] evaluate_prevotes_frame [OF p]
  let ?ct = "cached_certificate c r b svs"
  have "quorum_votes c1 r Precommit = Some (VoteBlock b, svs)"
    using quorum_votes_frame [of c1 c] f q by simp
  moreover have "cached_certificate c1 = cached_certificate c" using f by (intro cached_certificate_frame) simp_all
  then have "\<lparr>ct_chain_id = cfg_chain_id (c_config c1), ct_height = c_height c1, ct_round = r, ct_block_id = b,
      ct_precommits = svs\<rparr> = ?ct"
    by (metis cached_certificate_def)
  ultimately have run: "evaluate_precommits r mv (c1, effs1) =
      (case validate_certificate_app mv ?ct of Inl e \<Rightarrow> (c1, Inl (ValidationFailed e))
       | Inr _ \<Rightarrow> st_then (finalize c1 ?ct) (\<lambda>c1 more. (c1, Inr (effs1 @ more))))"
    by (simp add: evaluate_precommits_def Let_def split: sum.split)
  obtain c2 y where fin: "finalize c1 ?ct = (c2, y)" by fastforce
  then have "c_finalized c2 \<noteq> None" by (auto simp: finalize_def Let_def split: option.splits)
  moreover have "evaluate_precommits r mv (c1, effs1) = (c', res)"
    using e p by (simp add: evaluate_round_def)
  ultimately show ?thesis
    using run fin by (cases "validate_certificate_app mv ?ct"; cases y) auto
qed

interpretation decided: cache_property "commits_decided M" "\<lambda>mv. mv \<in> M" for M
proof
  fix c c' :: consensus
  assume c: "commits_decided M c" "caches c' = caches c" "c_finalized c \<noteq> None \<Longrightarrow> c_finalized c' \<noteq> None"
  note f = caches_fields [OF c(2)]
  show "commits_decided M c'"
    by (rule commits_decided_frame [OF c(1) _ f(5,7) c(3)]) (simp_all add: quorum_votes_frame [OF f(3,6)])
next
  fix c :: consensus and r assume c: "commits_decided M c"
  let ?c = "prune_caches (c\<lparr>c_started := True, c_round := r, c_phase := PhasePropose\<rparr>)"
  have "quorum_votes ?c r' k = Some x \<Longrightarrow> quorum_votes c r' k = Some x" for r' k x
    by (auto simp: quorum_votes_def prune_caches_def split: option.splits if_splits)
  with c show "commits_decided M ?c"
    by (rule commits_decided_frame) (simp_all add: prune_caches_def)
next
  fix c :: consensus assume "commits_decided M c"
  then show "commits_decided M (c\<lparr>c_started := True\<rparr>)"
    by (rule commits_decided_frame) (simp_all add: quorum_votes_frame [of "c\<lparr>c_started := True\<rparr>" c])
next
  fix c :: consensus and r p assume "commits_decided M c"
  then show "commits_decided M (c\<lparr>c_proposals := bt_insert r p (c_proposals c)\<rparr>)"
    by (rule commits_decided_frame)
      (simp_all add: quorum_votes_frame [of "c\<lparr>c_proposals := bt_insert r p (c_proposals c)\<rparr>" c])
next
  fix c c' :: consensus and r k m mv res
  let ?c = "c\<lparr>c_votes := bt_insert (r, k) m (c_votes c)\<rparr>"
  assume c: "commits_decided M c" and mv: "mv \<in> M" and e: "evaluate_round r mv (?c, []) = (c', res)"
  note f = caches_fields [of c' ?c] evaluate_round_frame [OF e]
  have same: "quorum_votes c' r' k' = quorum_votes ?c r' k'" for r' k'
    using quorum_votes_frame [of c' ?c] f by simp
  have cert: "cached_certificate c' = cached_certificate c" "cached_certificate ?c = cached_certificate c"
    using f by (intro cached_certificate_frame; simp)+
  have kept: "c_finalized c \<noteq> None \<Longrightarrow> c_finalized c' \<noteq> None"
    using evaluate_round_decides [OF e] by (auto simp: decides_def split: sum.splits)
  have "c_finalized c' \<noteq> None \<or> (\<exists>mv \<in> M. \<not> is_ok (validate_certificate_app mv (cached_certificate c' r' b svs)))"
    if q: "quorum_votes ?c r' Precommit = Some (VoteBlock b, svs)" for r' b svs
  proof (cases "r' = r")
    case True
    with evaluate_decides_quorum [OF e] q mv show ?thesis unfolding cert by blast
  next
    case False
    then have "quorum_votes c r' Precommit = Some (VoteBlock b, svs)"
      using q by (simp add: quorum_votes_def split: option.splits)
    with c kept show ?thesis unfolding commits_decided_def cert by blast
  qed
  with same show "commits_decided M c'" by (simp add: commits_decided_def)
next
  fix c :: consensus and r k m assume c: "commits_decided M c"
    and m: "m = (case bt_get (c_votes c) (r, k) of None \<Rightarrow> [] | Some e \<Rightarrow> e)"
  let ?c = "c\<lparr>c_votes := bt_insert (r, k) m (c_votes c)\<rparr>"
  have "quorum_votes ?c r' k' = Some x \<Longrightarrow> quorum_votes c r' k' = Some x" for r' k' x
    using m by (cases "(r', k') = (r, k)")
      (auto simp: quorum_votes_def bt_values_def group_votes_def split: option.splits)
  with c show "commits_decided M ?c" by (rule commits_decided_frame) simp_all
qed

section \<open>Context and start\<close>

lemma prune_caches_fields: "ctx_of (prune_caches c) = ctx_of c" "c_started (prune_caches c) = c_started c"
  by (simp_all add: prune_caches_def ctx_of_def)

lemma started_of_updates:
  "c_started (c\<lparr>c_started := b, c_round := r, c_phase := ph\<rparr>) = b"
  "c_started (c\<lparr>c_started := b\<rparr>) = b"
  "c_started (c\<lparr>c_proposals := ps\<rparr>) = c_started c"
  "c_started (c\<lparr>c_votes := vs\<rparr>) = c_started c"
  by simp_all

lemma ctx_of_updates:
  "ctx_of (c\<lparr>c_started := b, c_round := r, c_phase := ph\<rparr>) = ctx_of c"
  "ctx_of (c\<lparr>c_started := b\<rparr>) = ctx_of c"
  "ctx_of (c\<lparr>c_proposals := ps\<rparr>) = ctx_of c"
  "ctx_of (c\<lparr>c_votes := vs\<rparr>) = ctx_of c"
  by (simp_all add: ctx_of_def)

interpretation fixed: cache_property "\<lambda>c. ctx_of c = X" any_validator for X
proof
  show "ctx_of c' = X" if "ctx_of c = X" "caches c' = caches c" for c c' :: consensus
    using that by (simp add: caches_def)
  show "ctx_of c' = X" if "ctx_of c = X"
    "evaluate_round r mv (c\<lparr>c_votes := bt_insert (r, k) m (c_votes c)\<rparr>, []) = (c', res)"
    for c c' :: consensus and r k m mv res
    using that evaluate_round_frame [of r mv "c\<lparr>c_votes := bt_insert (r, k) m (c_votes c)\<rparr>" "[]" c' res]
    by (simp add: caches_def ctx_of_updates)
qed (simp_all only: prune_caches_fields ctx_of_updates)

interpretation started: cache_property c_started any_validator
proof
  show "c_started c'" if "c_started c" "caches c' = caches c" for c c' :: consensus
    using that by (simp add: caches_def)
  show "c_started c'" if "c_started c"
    "evaluate_round r mv (c\<lparr>c_votes := bt_insert (r, k) m (c_votes c)\<rparr>, []) = (c', res)"
    for c c' :: consensus and r k m mv res
    using that evaluate_round_frame [of r mv "c\<lparr>c_votes := bt_insert (r, k) m (c_votes c)\<rparr>" "[]" c' res]
    by (simp add: caches_def)
qed (simp_all only: prune_caches_fields started_of_updates)

lemma step_context: "engine_step c ev mv = (c', res) \<Longrightarrow> ctx_of c' = ctx_of c"
  using fixed.step_keeps [of c "ctx_of c" mv ev c' res] by (simp add: any_validator_def)

lemma started_kept: "engine_step c ev mv = (c', res) \<Longrightarrow> c_started c \<Longrightarrow> c_started c'"
  using started.step_keeps [of c mv ev c' res] by (simp add: any_validator_def)

lemma unstarted_step:
  assumes "\<not> c_started c" "engine_step c ev mv = (c', res)"
  shows "c_started c' \<or> c_proposals c' = c_proposals c"
proof (cases "ev = Start")
  case True
  with assms started.enter_keeps [of "c\<lparr>c_started := True\<rparr>" "c_round c" mv c' res]
  show ?thesis by (simp add: engine_step_def)
next
  case False
  with assms show ?thesis
    by (cases ev) (auto simp: engine_step_def finalize_def Let_def split: sum.splits option.splits)
qed

end
