(* ===== verification/EngineProps.thy ===== *)
theory EngineProps
  imports EngineCaches ConsensusDemo Demo
begin

text \<open>
  Properties of a single engine: the certificates it finalizes are protocol certificates,
  its stored safety state is accepted again, finalization is irrevocable and silences it,
  messages are released only once stored, evidence is genuine, and preflight agrees with
  processing.
\<close>

section \<open>Runs of one engine\<close>

text \<open>
  An engine fed with any events by an embedding node whose checks always satisfy \<open>P\<close>, and
  the log of what it asked to persist. The node may stop at any time and restart from a
  prefix of the log that reached its disk: a new engine from the last safety state in it, into which
  the stored decisions are restored. \<open>votes_checked_by V\<close>: votes are checked with \<open>V\<close>.
\<close>

definition votes_checked_by :: "(signed_vote \<Rightarrow> app_error + unit) \<Rightarrow> message_validator \<Rightarrow> bool" where
  "votes_checked_by V mv \<longleftrightarrow> validate_vote mv = V"

inductive engine_runs ::
  "(message_validator \<Rightarrow> bool) \<Rightarrow> cvalidator_id \<Rightarrow> validator_set \<Rightarrow> u64 \<Rightarrow>
   consensus_config \<Rightarrow> decision_log \<Rightarrow> consensus \<Rightarrow> bool" for P me vs h cfg where
  runs_new: "consensus_new me vs h cfg = Inr c \<Longrightarrow> engine_runs P me vs h cfg [] c"
| runs_step: "engine_runs P me vs h cfg log c \<Longrightarrow> P mv \<Longrightarrow>
    engine_step c ev mv = (c', res) \<Longrightarrow> engine_runs P me vs h cfg (log @ result_log res) c'"
| runs_restart: "engine_runs P me vs h cfg (stored @ lost) c \<Longrightarrow> P mv \<Longrightarrow> stored \<noteq> [] \<Longrightarrow>
    consensus_new_with_safety_state me vs h cfg (snd (last stored)) mv = Inr c1 \<Longrightarrow>
    restore_all c1 (map fst stored) = (c', Inr u) \<Longrightarrow> engine_runs P me vs h cfg stored c'"

inductive_simps engine_runs_Nil: "engine_runs P me vs h cfg [] c"

lemma engine_runs_inv:
  assumes "engine_runs (votes_checked_by V) me vs h cfg log c" and "distinct (vs_validators vs)"
  shows "engine_inv (\<lambda>sv. V sv = Inr ()) \<lparr>x_me = me, x_vs = vs, x_cfg = cfg, x_height = h\<rparr> log c"
  using assms
proof induction
  case (runs_restart stored lost c mv c1 c' u)
  note D = engine_invD [OF engine_inv_prefix [OF runs_restart.IH [OF runs_restart.prems]]]
  have "engine_inv (\<lambda>sv. V sv = Inr ()) \<lparr>x_me = me, x_vs = vs, x_cfg = cfg, x_height = h\<rparr> stored c1"
    using runs_restart.prems runs_restart.hyps(3) D(5,6)
    by (intro restored_inv [OF runs_restart.hyps(4)]) simp_all
  then show ?case using runs_restart.hyps(5) by (rule restore_all_inv)
qed (auto intro: consensus_new_inv engine_step_inv simp: votes_checked_by_def)

lemma restore_all_frame:
  "restore_all c ms = (c', r) \<Longrightarrow> \<exists>d. c' = c\<lparr>c_local_decisions := d\<rparr>"
proof (induction ms arbitrary: c)
  case (Cons m ms)
  obtain c1 r1 where 1: "restore_local_decision c m = (c1, r1)" by fastforce
  then obtain d where "c1 = c\<lparr>c_local_decisions := d\<rparr>"
    by (auto simp: restore_local_decision_def Let_def split: if_splits sum.splits prod.splits option.splits
        intro: that [of "c_local_decisions c"])
  with 1 Cons show ?case by (cases r1) fastforce+
qed (auto intro: exI [of _ "c_local_decisions c'"])

text \<open>The engine after a restart: empty caches, not started, nothing finalized.\<close>

lemma restarted_fresh:
  assumes "consensus_new_with_safety_state me vs h cfg ss mv = Inr c1" "restore_all c1 ms = (c, r)"
  shows "c_proposals c = []" "c_votes c = []" "\<not> c_started c" "c_finalized c = None"
    "c_config c = cfg" "c_height c = h" "cfg_max_cached_rounds cfg \<noteq> 0" "is_ok (chain_id_new (cfg_chain_id cfg))"
  using assms(1) restore_all_frame [OF assms(2)] by (auto simp: new_with_safety_state_ok consensus_new_ok)

lemma engine_runs_new: "engine_runs P me vs h cfg log c \<Longrightarrow> \<exists>c0. consensus_new me vs h cfg = Inr c0"
  by (induction rule: engine_runs.induct) auto

lemma engine_runs_chain: "engine_runs P me vs h cfg log c \<Longrightarrow> is_ok (chain_id_new (cfg_chain_id cfg))"
  using engine_runs_new by (fastforce simp: consensus_new_ok)

lemma engine_runs_context: "engine_runs P me vs h cfg log c \<Longrightarrow> c_config c = cfg \<and> c_height c = h"
proof (induction rule: engine_runs.induct)
  case (runs_step log c mv ev c' res)
  then show ?case using step_context [of c ev mv c' res] by (simp add: ctx_of_def)
next
  case (runs_restart stored lost c mv c1 c' u)
  then show ?case using restarted_fresh(5,6) [OF runs_restart.hyps(4,5)] by simp
qed (simp add: consensus_new_ok)

section \<open>Certificates\<close>

lemma precommit_signature:
  assumes sv: "signed_ok auth X r Precommit sv" "v_value (sv_vote sv) = VoteBlock b"
    and ok: "verify_ed25519_vote env sv = Inr ()"
    and chain: "chain_id_new (cfg_chain_id (x_cfg X)) = Inr chain"
  shows "length (sv_signature sv) = 64"
    and "commit_signature_ok env (commit_vote_new chain (x_height X) r (hash_of_block_id b))
       \<lparr>cs_validator = cvid_to_protocol (signer sv), cs_signature = sv_signature sv\<rparr>"
proof -
  have v: "v_chain_id (sv_vote sv) = cfg_chain_id (x_cfg X)" "v_height (sv_vote sv) = x_height X"
    "v_round (sv_vote sv) = r" "v_kind (sv_vote sv) = Precommit"
    using sv(1) by (auto simp: signed_ok_def eq_cvote)
  have bytes: "signable_signing_bytes env (SignableVote (sv_vote sv)) =
      Inr (vote_signing_bytes env (commit_vote_new chain (x_height X) r (hash_of_block_id b)))"
    using v sv(2) chain by (simp add: signable_signing_bytes_def)
  show "length (sv_signature sv) = 64"
    using ok by (simp add: verify_ed25519_vote_def verify_ed25519_def split: if_splits)
  show "commit_signature_ok env (commit_vote_new chain (x_height X) r (hash_of_block_id b))
       \<lparr>cs_validator = cvid_to_protocol (signer sv), cs_signature = sv_signature sv\<rparr>"
    using ok bytes
    by (simp add: verify_ed25519_vote_def verify_ed25519_def commit_signature_ok_def cvid_to_protocol_def
        split: if_splits)
qed

text \<open>
  C4: Every block the engine finalizes, when the node checks votes with their Ed25519
  signatures, comes with a certificate that converts to a protocol certificate for that
  height, round and block, and the protocol crate verifies it against the same validators
  (given that its encoding fits the size limit).
\<close>

theorem finalization_certificate_verifies:
  assumes "engine_runs (votes_checked_by (verify_ed25519_vote env)) me vs h cfg log c" and "c_finalized c = Some f"
    and "distinct (vs_validators vs)"
  shows "\<exists>pc. ccertificate_to_protocol (fin_certificate f) = Inr pc \<and>
     cc_height pc = h \<and> cc_round pc = fin_round f \<and> cc_block_hash pc = hash_of_block_id (fin_block_id f) \<and>
     (length (certificate_canonical_bytes env pc) \<le> MAX_COMMIT_CERTIFICATE_BYTES \<longrightarrow>
        certificate_verify env pc (map cvid_to_protocol (vs_validators vs)) = Inr ())"
proof -
  let ?X = "\<lparr>x_me = me, x_vs = vs, x_cfg = cfg, x_height = h\<rparr>"
  let ?A = "\<lambda>sv. verify_ed25519_vote env sv = Inr ()"
  let ?ct = "fin_certificate f" and ?b = "fin_block_id f"
  note inv = engine_runs_inv [OF assms(1,3)]
  obtain chain where chain: "chain_id_new (cfg_chain_id cfg) = Inr chain"
    using engine_runs_chain [OF assms(1)] by (auto simp: is_ok_iff)
  have F: "ct_chain_id ?ct = cfg_chain_id cfg" "ct_height ?ct = h" "ct_round ?ct = fin_round f"
    "ct_block_id ?ct = ?b" "proof_ok ?A ?X (fin_round f) Precommit ?b (ct_precommits ?ct)"
    using engine_invD(9) [OF inv assms(2)] by (auto simp: finalization_ok_def)
  let ?vote = "commit_vote_new chain h (fin_round f) (hash_of_block_id ?b)"
  let ?cs = "\<lambda>sv. \<lparr>cs_validator = cvid_to_protocol (signer sv), cs_signature = sv_signature sv\<rparr>"
  let ?pc = "certificate_new ?vote (map ?cs (ct_precommits ?ct))"
  have sv: "signed_ok ?A ?X (fin_round f) Precommit sv" "v_value (sv_vote sv) = VoteBlock ?b"
    if "sv \<in> set (ct_precommits ?ct)" for sv
    using F(5) that by (auto simp: proof_ok_def)
  have P: "length (sv_signature sv) = 64 \<and> commit_signature_ok env ?vote (?cs sv)"
    if "sv \<in> set (ct_precommits ?ct)" for sv
    using precommit_signature [OF sv [OF that], where env = env and chain = chain] sv(1) [OF that] chain
    by (auto simp: signed_ok_def)
  have "collect_results (precommit_to_protocol ?ct) (ct_precommits ?ct) = Inr (map ?cs (ct_precommits ?ct))"
    unfolding collect_results_ok list_all2_map2
    by (intro list.rel_refl_strong) (use P sv F in \<open>auto simp: precommit_to_protocol_def Let_def signed_ok_def eq_cvote\<close>)
  then have conv: "ccertificate_to_protocol ?ct = Inr ?pc"
    using F chain by (simp add: ccertificate_to_protocol_def Let_def)
  have vote: "certificate_vote ?pc = ?vote"
    by (simp add: certificate_vote_def certificate_new_def)
  have signers: "certificate_signers ?pc = map cs_validator (sort_key cs_validator (map ?cs (ct_precommits ?ct)))"
    by (simp add: certificate_signers_def certificate_new_def)
  have inj: "inj_on cvid_to_protocol A" for A
    by (auto simp: inj_on_def cvid_to_protocol_def cvalidator_id.expand)
  have dist: "distinct (map cs_validator (map ?cs (ct_precommits ?ct)))"
    using F(5) distinct_map [of cvid_to_protocol "map signer (ct_precommits ?ct)"] inj
    by (simp add: proof_ok_def comp_def)
  have "distinct (certificate_signers ?pc)"
    using dist unfolding signers by (simp only: distinct_map distinct_sort set_sort)
  moreover have "sorted (certificate_signers ?pc)" unfolding signers by simp
  ultimately have "sorted_wrt (<) (certificate_signers ?pc)" by (simp add: strict_sorted_iff)
  moreover have "set (certificate_signers ?pc) \<subseteq> set (map cvid_to_protocol (vs_validators vs))"
    using sv unfolding signers by (auto simp: signed_ok_def)
  moreover have "distinct (map cvid_to_protocol (vs_validators vs))"
    using assms(3) inj by (simp add: distinct_map)
  moreover have "vs_validators vs \<noteq> []"
    using engine_invD(2) [OF inv] by (auto simp: ctx_ok_def)
  moreover have "quorum_size (length (vs_validators vs)) \<le> length (cc_signatures ?pc)"
    using F(5) by (simp add: proof_ok_def vs_quorum_def certificate_new_def)
  moreover have "\<forall>cs \<in> set (cc_signatures ?pc). commit_signature_ok env (certificate_vote ?pc) cs"
    using P unfolding vote by (auto simp: certificate_new_def)
  moreover have "cc_protocol_version ?pc = PROTOCOL_VERSION" "chain_id_validate (cc_chain_id ?pc) = Inr ()"
    "cc_height ?pc = h" "cc_round ?pc = fin_round f" "cc_block_hash ?pc = hash_of_block_id ?b"
    using chain by (auto simp: certificate_new_def commit_vote_new_def result_simps)
  ultimately show ?thesis
    using conv by (auto simp: certificate_verify_ok certificate_canonical_bytes_def)
qed

text \<open>A one-validator engine that finalizes its own proposal, with the signatures of the examples.\<close>

definition demo_consensus_env :: consensus_env where
  "demo_consensus_env = ledger_env.extend demo_env (consensus_env.fields (\<lambda>m. Some []))"

definition solo_id :: cvalidator_id where
  "solo_id = CValidatorId (demo_key 1)"

definition solo_validator :: message_validator where
  "solo_validator =
     \<lparr>validate_proposal = verify_ed25519_proposal demo_consensus_env,
      validate_vote = verify_ed25519_vote demo_consensus_env,
      validate_certificate_app = (\<lambda>_. Inr ())\<rparr>"

definition solo_vote :: "vote_kind \<Rightarrow> signed_vote" where
  "solo_vote k =
     \<lparr>sv_vote =
        \<lparr>v_chain_id = str ''testnet'', v_height = 1, v_round = 0, v_kind = k,
         v_validator = solo_id, v_value = VoteBlock demo_bid\<rparr>,
      sv_signature = demo_key 1 @ demo_key 1\<rparr>"

definition solo_proposal :: signed_message where
  "solo_proposal = MessageProposal
     \<lparr>sp_proposal =
        \<lparr>p_chain_id = str ''testnet'', p_height = 1, p_round = 0, p_proposer = solo_id,
         p_block_id = demo_bid, p_valid_round = None, p_valid_round_proof = []\<rparr>,
      sp_signature = demo_key 1 @ demo_key 1\<rparr>"

definition solo_events :: "event list" where
  "solo_events =
     [Start, ProposalReady 1 0 demo_bid, Persisted solo_proposal,
      Persisted (MessageVote (solo_vote Prevote)), Persisted (MessageVote (solo_vote Precommit))]"

fun engine_run ::
  "message_validator \<Rightarrow> consensus \<Rightarrow> decision_log \<Rightarrow> event list \<Rightarrow> consensus \<times> decision_log" where
  "engine_run mv c log [] = (c, log)"
| "engine_run mv c log (ev # evs) =
     (case engine_step c ev mv of (c', res) \<Rightarrow> engine_run mv c' (log @ result_log res) evs)"

lemma engine_run_runs:
  "engine_runs P me vs h cfg log c \<Longrightarrow> P mv \<Longrightarrow> engine_run mv c log evs = (c', log') \<Longrightarrow>
     engine_runs P me vs h cfg log' c'"
proof (induction mv c log evs rule: engine_run.induct)
  case (2 mv c log ev evs)
  obtain c1 res where s: "engine_step c ev mv = (c1, res)" by fastforce
  with 2 show ?case using runs_step [OF "2.prems"(1,2) s] by simp
qed simp

definition solo_fresh :: consensus where
  "solo_fresh = (case consensus_new solo_id (ValidatorSet [solo_id]) 1 demo_config of Inr c \<Rightarrow> c)"

definition solo_engine :: consensus where
  "solo_engine = fst (engine_run solo_validator solo_fresh [] solo_events)"

definition solo_log :: decision_log where
  "solo_log = snd (engine_run solo_validator solo_fresh [] solo_events)"

lemma solo_new: "consensus_new solo_id (ValidatorSet [solo_id]) 1 demo_config = Inr solo_fresh"
  by code_simp

lemma solo_runs:
  "engine_runs (votes_checked_by (verify_ed25519_vote demo_consensus_env)) solo_id (ValidatorSet [solo_id]) 1 demo_config
     solo_log solo_engine"
  using engine_run_runs [OF runs_new [OF solo_new], of "votes_checked_by (verify_ed25519_vote demo_consensus_env)"
      solo_validator solo_events solo_engine solo_log]
  by (simp add: votes_checked_by_def solo_validator_def solo_engine_def solo_log_def)

lemma solo_finalized: "map_option fin_block_id (c_finalized solo_engine) = Some demo_bid"
  by code_simp

theorem finalization_certificate_verifies_witness:
  "\<exists>pc. certificate_verify demo_consensus_env pc [cvid_to_protocol solo_id] = Inr () \<and>
     cc_block_hash pc = hash_of_block_id demo_bid"
proof -
  obtain f where f: "c_finalized solo_engine = Some f" "fin_block_id f = demo_bid"
    using solo_finalized by auto
  have "length (certificate_canonical_bytes demo_consensus_env pc) \<le> MAX_COMMIT_CERTIFICATE_BYTES" for pc
    by (simp add: certificate_canonical_bytes_def demo_consensus_env_def demo_env_def
        ledger_env.extend_def)
  with finalization_certificate_verifies [OF solo_runs f(1)] f(2) show ?thesis by auto
qed

section \<open>Recovery\<close>

text \<open>
  C6: Every safety state the engine ever asks to persist, before or after restarts from such
  states, is accepted at the next restart with the same validators, height, configuration
  and vote check, unless it is one of the last round the height allows: \<open>new_with_safety_state\<close>
  resumes in the round after the stored one, and refuses exactly if that
  reaches the round limit.
\<close>

theorem persisted_safety_state_restores:
  assumes "engine_runs (votes_checked_by V) me vs h cfg log c" and "distinct (vs_validators vs)"
    and "(message, ss) \<in> set log" and "votes_checked_by V mv"
  shows "is_ok (consensus_new_with_safety_state me vs h cfg ss mv) \<longleftrightarrow>
    unat (ss_round ss) + 1 < unat (cfg_max_rounds_per_height cfg)"
proof -
  let ?X = "\<lparr>x_me = me, x_vs = vs, x_cfg = cfg, x_height = h\<rparr>"
  let ?A = "\<lambda>sv. V sv = Inr ()"
  obtain c0 where c0: "consensus_new me vs h cfg = Inr c0"
    using engine_runs_new [OF assms(1)] by blast
  obtain i where i: "i < length log" "log ! i = (message, ss)"
    using assms(3) by (auto simp: in_set_conv_nth)
  have "log_ok ?A ?X log" by (rule engine_invD(6) [OF engine_runs_inv [OF assms(1,2)]])
  then have ok: "safety_ok ?A ?X (log_votes (take (Suc i) log)) ss"
    using i by (auto simp: log_ok_def)
  have limit: "unat (ss_round ss) + 1 < 2 ^ 32 \<and> ss_round ss + 1 < cfg_max_rounds_per_height cfg \<longleftrightarrow>
      unat (ss_round ss) + 1 < unat (cfg_max_rounds_per_height cfg)"
    using unat_lt2p [of "cfg_max_rounds_per_height cfg"] unat_add_less [of "ss_round ss" 1]
    by (auto simp: word_less_nat_alt)
  have "validate_vote mv sv = Inr ()" if "sv \<in> set (ss_valid_round_proof ss)" for sv
    using ok that assms(4)
    by (auto simp: safety_ok_def proof_ok_def signed_ok_def votes_checked_by_def split: option.splits)
  then have "unat (ss_round ss) + 1 < unat (cfg_max_rounds_per_height cfg) \<Longrightarrow>
      is_ok (consensus_new_with_safety_state me vs h cfg ss mv)"
    using restored_accepts [OF c0 refl ok] limit by blast
  moreover have "is_ok (consensus_new_with_safety_state me vs h cfg ss mv) \<Longrightarrow>
      unat (ss_round ss) + 1 < unat (cfg_max_rounds_per_height cfg)"
    using limit by (auto simp: is_ok_iff new_with_safety_state_ok)
  ultimately show ?thesis by blast
qed

text \<open>
  A state with a lock, stored in round 0; the engine restarted from it with its stored
  decisions, whose round 1 times out, and the state this one stores.
\<close>

definition solo_stored :: decision_log where
  "solo_stored = take 3 solo_log"

definition solo_restarted :: consensus where
  "solo_restarted =
     (case consensus_new_with_safety_state solo_id (ValidatorSet [solo_id]) 1 demo_config (snd (last solo_stored)) solo_validator of
        Inr c \<Rightarrow> fst (restore_all c (map fst solo_stored)))"

definition solo_second :: "consensus \<times> decision_log" where
  "solo_second = engine_run solo_validator solo_restarted solo_stored
     [Start, ProposalReady 1 1 demo_bid, TimeoutEvent \<lparr>to_height = 1, to_round = 1, to_phase = PhasePropose, to_after = 0\<rparr>]"

lemma solo_second_runs:
  "engine_runs (votes_checked_by (verify_ed25519_vote demo_consensus_env)) solo_id (ValidatorSet [solo_id]) 1 demo_config
     (snd solo_second) (fst solo_second)"
proof -
  have checked: "votes_checked_by (verify_ed25519_vote demo_consensus_env) solo_validator"
    by (simp add: votes_checked_by_def solo_validator_def)
  have "is_ok (consensus_new_with_safety_state solo_id (ValidatorSet [solo_id]) 1 demo_config
      (snd (last solo_stored)) solo_validator)"
    by code_simp
  then obtain c1 where c1: "consensus_new_with_safety_state solo_id (ValidatorSet [solo_id]) 1 demo_config
      (snd (last solo_stored)) solo_validator = Inr c1"
    by (auto simp: is_ok_iff)
  have "is_ok (snd (restore_all (case consensus_new_with_safety_state solo_id (ValidatorSet [solo_id]) 1 demo_config
      (snd (last solo_stored)) solo_validator of Inr c \<Rightarrow> c) (map fst solo_stored)))" "solo_stored \<noteq> []"
    by code_simp+
  then obtain u where u: "restore_all c1 (map fst solo_stored) = (solo_restarted, Inr u)" and ne: "solo_stored \<noteq> []"
    by (cases "restore_all c1 (map fst solo_stored)") (auto simp: c1 is_ok_iff solo_restarted_def)
  have "solo_log = solo_stored @ drop 3 solo_log" by (simp add: solo_stored_def)
  with solo_runs have "engine_runs (votes_checked_by (verify_ed25519_vote demo_consensus_env)) solo_id
      (ValidatorSet [solo_id]) 1 demo_config (solo_stored @ drop 3 solo_log) solo_engine" by simp
  from engine_run_runs [OF runs_restart [OF this checked ne c1 u] checked] show ?thesis
    by (metis prod.collapse solo_second_def)
qed

theorem persisted_safety_state_restores_witness:
  "\<exists>ss. ss_round ss = 1 \<and> ss_valid_round ss = Some 0 \<and> ss_locked_block ss = Some demo_bid \<and>
     is_ok (consensus_new_with_safety_state solo_id (ValidatorSet [solo_id]) 1 demo_config ss solo_validator)"
proof -
  have "\<exists>d \<in> set (snd solo_second). ss_locked_block (snd d) = Some demo_bid \<and> ss_valid_round (snd d) = Some 0 \<and>
      ss_round (snd d) = 1"
    by code_simp
  then obtain m ss where d: "(m, ss) \<in> set (snd solo_second)" "ss_locked_block ss = Some demo_bid"
    "ss_valid_round ss = Some 0" "ss_round ss = 1"
    by auto
  have "distinct (vs_validators (ValidatorSet [solo_id]))" by simp
  moreover have "votes_checked_by (verify_ed25519_vote demo_consensus_env) solo_validator"
    by (simp add: votes_checked_by_def solo_validator_def)
  moreover have "unat (ss_round ss) + 1 < unat (cfg_max_rounds_per_height demo_config)"
    using d(4) by (simp add: demo_config_def config_for_chain_def)
  ultimately show ?thesis
    using persisted_safety_state_restores [OF solo_second_runs _ d(1)] d(2-4) by blast
qed

section \<open>Finalization\<close>

text \<open>
  C7: Finalization is irrevocable and silences the engine: whatever event arrives
  afterwards, the decision stays, nothing is announced again, and the engine asks for no
  further signature on a vote or proposal.
\<close>

theorem finalized_engine_is_silent:
  assumes "engine_runs P me vs h cfg log c" and "c_finalized c = Some f"
    and "engine_step c ev mv = (c', res)"
  shows "c_finalized c' = Some f \<and> result_finals res = [] \<and> result_log res = []"
proof -
  have fin: "c_finalized c' = Some f \<and> result_finals res = []"
    using engine_step_decides [OF assms(3)] assms(2)
    by (auto simp: decides_def result_finals_def split: sum.splits)
  have fresh: "c_proposals c = [] \<or> c_started c"
    using assms(1)
  proof induction
    case (runs_step log c mv ev c' res)
    have "c_started c'" if "c_started c"
      using that runs_step.hyps(3) started_kept by blast
    moreover have "c_started c' \<or> c_proposals c' = c_proposals c" if "\<not> c_started c"
      using that runs_step.hyps(3) by (rule unstarted_step)
    ultimately show ?case using runs_step.IH by metis
  next
    case (runs_restart stored lost c mv c1 c' u)
    then show ?case using restarted_fresh(1) by blast
  qed (simp add: consensus_new_ok)
  have "result_log res = []"
  proof (cases ev)
    case Start
    have "prune_caches (c\<lparr>c_started := True, c_phase := PhasePropose\<rparr>) = x \<Longrightarrow> c_proposals x = []"
      if "c_proposals c = []" for x
      using that by (auto simp: prune_caches_def bt_retain_def)
    with Start assms(3) fresh show ?thesis
      by (auto simp: engine_step_def enter_round_def Let_def prune_caches_def bt_retain_def split: if_splits)
  next
    case (Certificate ct)
    with assms(2,3) show ?thesis
      by (auto simp: engine_step_def finalize_def split: sum.splits if_splits)
  qed (use assms(2,3) in \<open>auto simp: engine_step_def split: if_splits\<close>)
  with fin show ?thesis by blast
qed

theorem finalized_engine_is_silent_witness:
  "\<exists>c' res. engine_step solo_engine (Persisted solo_proposal) solo_validator = (c', res) \<and> result_log res = []"
proof -
  obtain f where f: "c_finalized solo_engine = Some f" using solo_finalized by auto
  obtain c' res where s: "engine_step solo_engine (Persisted solo_proposal) solo_validator = (c', res)"
    by fastforce
  from finalized_engine_is_silent [OF solo_runs f s] s show ?thesis by blast
qed

text \<open>
  C5: No decision is missed: as soon as the cache of any round holds a quorum of precommits
  for one block, the engine has finalized, unless one of the validators of the embedding node
  refuses the very certificate these precommits make (as the node does while
  it does not hold the bytes of the block).
\<close>

theorem cached_precommit_quorum_is_finalized:
  assumes "engine_runs (\<lambda>mv. mv \<in> M) me vs h cfg log c"
    and "quorum_votes c r Precommit = Some (VoteBlock b, svs)"
  shows "(\<exists>f. c_finalized c = Some f) \<or>
    (\<exists>mv \<in> M. \<not> is_ok (validate_certificate_app mv
       \<lparr>ct_chain_id = cfg_chain_id cfg, ct_height = h, ct_round = r, ct_block_id = b, ct_precommits = svs\<rparr>))"
proof -
  have "commits_decided M c"
    using assms(1)
  proof induction
    case (runs_new c)
    then show ?case by (auto simp: commits_decided_def consensus_new_ok quorum_votes_def)
  next
    case (runs_step log c mv ev c' res)
    then show ?case by (blast intro: decided.step_keeps)
  next
    case (runs_restart stored lost c mv c1 c' u)
    then have "c_votes c' = []" using restarted_fresh(2) by blast
    then show ?case by (simp add: commits_decided_def quorum_votes_def)
  qed
  with assms(2) engine_runs_context [OF assms(1)] show ?thesis
    by (auto simp: commits_decided_def cached_certificate_def)
qed

theorem cached_precommit_quorum_is_finalized_witness:
  "(\<exists>b svs. quorum_votes solo_engine 0 Precommit = Some (VoteBlock b, svs)) \<and>
   (\<exists>f. c_finalized solo_engine = Some f)"
proof -
  have "map_option fst (quorum_votes solo_engine 0 Precommit) = Some (VoteBlock demo_bid)" by code_simp
  then obtain svs where q: "quorum_votes solo_engine 0 Precommit = Some (VoteBlock demo_bid, svs)" by auto
  have "engine_runs (\<lambda>mv. mv \<in> {solo_validator}) solo_id (ValidatorSet [solo_id]) 1 demo_config solo_log solo_engine"
    using engine_run_runs [OF runs_new [OF solo_new], of "\<lambda>mv. mv \<in> {solo_validator}" solo_validator solo_events]
    by (simp add: solo_engine_def solo_log_def)
  from cached_precommit_quorum_is_finalized [OF this q] q show ?thesis
    by (auto simp: solo_validator_def result_simps)
qed

text \<open>
  C8: The caches stay bounded: whatever the network sends, proposals and votes are kept
  for at most \<open>max_cached_rounds + max_round_ahead\<close> rounds.
\<close>

theorem cached_rounds_bounded:
  assumes "engine_runs P me vs h cfg log c"
  shows "cached_round_count c \<le>
    unat (cfg_max_cached_rounds cfg) + unat (cfg_max_round_ahead cfg)"
proof -
  have "cache_bounded c \<and> c_config c = cfg \<and> cfg_max_cached_rounds cfg \<noteq> 0"
    using assms
  proof induction
    case (runs_new c)
    then show ?case by (auto simp: cache_bounded_def cached_rounds_def consensus_new_ok)
  next
    case (runs_step log c mv ev c' res)
    then show ?case
      using bounded.step_keeps [of c mv ev c' res] step_context [of c ev mv c' res]
      by (simp add: any_validator_def ctx_of_def)
  next
    case (runs_restart stored lost c mv c1 c' u)
    note fresh = restarted_fresh [OF runs_restart.hyps(4,5)]
    then show ?case by (simp add: cache_bounded_def cached_rounds_def)
  qed
  then have "0 < unat (cfg_max_cached_rounds cfg)" "cached_round_count c \<le>
      (unat (cfg_max_cached_rounds cfg) - 1) + unat (cfg_max_round_ahead cfg) + 1"
    using cache_bounded_count [of c] by (auto simp: unat_gt_0)
  then show ?thesis by linarith
qed

theorem cached_rounds_bounded_witness:
  "cached_round_count solo_engine \<le>
     unat (cfg_max_cached_rounds demo_config) + unat (cfg_max_round_ahead demo_config)"
  by (rule cached_rounds_bounded [OF solo_runs])

end
