(* ===== verification/Simulation.thy ===== *)
theory Simulation
  imports Engine
begin

text \<open>
  The deterministic network simulator of \<open>simulation.rs\<close>: virtual time, directed links,
  and a work queue through which the engines of all validators are driven. The panics of
  the code (an unknown node, a queue that does not drain) are errors here.
\<close>

section \<open>Signatures without cryptography\<close>

definition sim_validate_signature :: "cvalidator_id \<Rightarrow> bytes \<Rightarrow> app_error + unit" where
  "sim_validate_signature sgnr signature =
     (if signature = cvid_bytes sgnr then Inr () else Inl AppInvalidSignature)"

definition deterministic_validator :: message_validator where
  "deterministic_validator =
     \<lparr>validate_proposal =
        (\<lambda>p. sim_validate_signature (p_proposer (sp_proposal p)) (sp_signature p)),
      validate_vote = (\<lambda>v. sim_validate_signature (v_validator (sv_vote v)) (sv_signature v)),
      validate_certificate_app = (\<lambda>_. Inr ())\<rparr>"

fun sim_sign :: "signable_message \<Rightarrow> signed_message" where
  "sim_sign (SignableProposal p) =
     MessageProposal \<lparr>sp_proposal = p, sp_signature = cvid_bytes (p_proposer p)\<rparr>"
| "sim_sign (SignableVote v) =
     MessageVote \<lparr>sv_vote = v, sv_signature = cvid_bytes (v_validator v)\<rparr>"

definition sim_validator_id :: "u8 \<Rightarrow> cvalidator_id" where
  "sim_validator_id index = CValidatorId (replicate 32 index)"

text \<open>The \<open>expect\<close> of \<open>four_validators\<close> is the value \<open>None\<close>.\<close>

definition four_validators :: "validator_set option" where
  "four_validators =
     (case validator_set_new (map sim_validator_id [0, 1, 2, 3]) of
        Inl _ \<Rightarrow> None | Inr vs \<Rightarrow> Some vs)"

definition deterministic_block :: "u64 \<Rightarrow> u32 \<Rightarrow> block_id" where
  "deterministic_block height round =
     BlockId (u64_to_be_bytes height @ u32_to_be_bytes round @ replicate 20 0)"

section \<open>The network\<close>

record scheduled_timeout =
  st_at :: duration
  st_node :: cvalidator_id
  st_timeout :: timeout

datatype work = WorkEvent cvalidator_id event | WorkEffect cvalidator_id effect

record virtual_network =
  vn_nodes :: "(cvalidator_id, consensus) btree_map"
  vn_online :: "cvalidator_id list"
  vn_started :: "cvalidator_id list"
  vn_links :: "(cvalidator_id \<times> cvalidator_id) list"
  vn_timers :: "scheduled_timeout list"
  vn_now :: duration
  vn_finalizations :: "(cvalidator_id, finalization) btree_map"
  vn_broadcast_log :: "(cvalidator_id \<times> signed_message) list"
  vn_effect_log :: "(cvalidator_id \<times> effect) list"

datatype sim_error = SimConsensus consensus_error | UnknownNode | DidNotQuiesce

text \<open>The loops that connect all validators, and the groups of a partition.\<close>

definition all_links :: "cvalidator_id list \<Rightarrow> (cvalidator_id \<times> cvalidator_id) list" where
  "all_links validators =
     concat (map (\<lambda>a. map (Pair a) (filter (\<lambda>b. a \<noteq> b) validators)) validators)"

definition vn_new ::
  "validator_set \<Rightarrow> u64 \<Rightarrow> consensus_config \<Rightarrow> consensus_error + virtual_network" where
  "vn_new validators height config =
     and_then (collect_results (\<lambda>v. consensus_new v validators height config) (vs_validators validators))
       (\<lambda>engines.
         Inr \<lparr>vn_nodes = fold (\<lambda>(v, c). bt_insert v c) (zip (vs_validators validators) engines) [],
           vn_online = bset_of (vs_validators validators), vn_started = [],
           vn_links = bset_of (all_links (vs_validators validators)), vn_timers = [], vn_now = 0,
           vn_finalizations = [], vn_broadcast_log = [], vn_effect_log = []\<rparr>)"

section \<open>The work queue\<close>

definition broadcast_recipients :: "virtual_network \<Rightarrow> cvalidator_id \<Rightarrow> cvalidator_id list" where
  "broadcast_recipients vn node =
     filter (\<lambda>recipient. recipient \<noteq> node \<and> (node, recipient) \<in> set (vn_links vn)) (vn_online vn)"

definition process_effect ::
  "virtual_network \<Rightarrow> cvalidator_id \<Rightarrow> effect \<Rightarrow> virtual_network \<times> work list" where
  "process_effect vn node eff =
     (let vn = vn\<lparr>vn_effect_log := vn_effect_log vn @ [(node, eff)]\<rparr> in
      if node \<notin> set (vn_online vn) then (vn, [])
      else case eff of
        RequestProposal height round valid_block _ \<Rightarrow>
          (vn, [WorkEvent node (ProposalReady height round
             (case valid_block of Some b \<Rightarrow> b | None \<Rightarrow> deterministic_block height round))])
      | PersistBeforeBroadcast message _ \<Rightarrow>
          (vn, [WorkEvent node (Persisted (sim_sign message))])
      | Broadcast message \<Rightarrow>
          let vn = vn\<lparr>vn_broadcast_log := vn_broadcast_log vn @ [(node, message)]\<rparr>
          in (vn, map (\<lambda>recipient. WorkEvent recipient (Message message)) (broadcast_recipients vn node))
      | ScheduleTimeout t \<Rightarrow>
          (vn\<lparr>vn_timers := vn_timers vn @
             [\<lparr>st_at = duration_saturating_add (vn_now vn) (to_after t), st_node = node, st_timeout = t\<rparr>]\<rparr>, [])
      | Finalize f \<Rightarrow> (vn\<lparr>vn_finalizations := bt_insert node f (vn_finalizations vn)\<rparr>, [])
      | EvidenceEffect _ \<Rightarrow> (vn, []))"

definition process_event ::
  "virtual_network \<Rightarrow> cvalidator_id \<Rightarrow> event \<Rightarrow> virtual_network \<times> (sim_error + work list)" where
  "process_event vn node ev =
     (if node \<notin> set (vn_online vn) then (vn, Inr [])
      else case bt_get (vn_nodes vn) node of
        None \<Rightarrow> (vn, Inl UnknownNode)
      | Some c \<Rightarrow>
          (case engine_step c ev deterministic_validator of
             (c', res) \<Rightarrow>
               (vn\<lparr>vn_nodes := bt_insert node c' (vn_nodes vn)\<rparr>,
                case res of Inl e \<Rightarrow> Inl (SimConsensus e)
                | Inr effects \<Rightarrow> Inr (map (WorkEffect node) effects))))"

fun process_work :: "virtual_network \<Rightarrow> work \<Rightarrow> virtual_network \<times> (sim_error + work list)" where
  "process_work vn (WorkEvent node ev) = process_event vn node ev"
| "process_work vn (WorkEffect node eff) =
     (case process_effect vn node eff of (vn', new) \<Rightarrow> (vn', Inr new))"

text \<open>The \<open>while\<close> loop, with its guard against a queue that never drains.\<close>

function process_queue ::
  "int \<Rightarrow> virtual_network \<Rightarrow> work list \<Rightarrow> virtual_network \<times> (sim_error + unit)" where
  "process_queue processed vn [] = (vn, Inr ())"
| "process_queue processed vn (w # queue) =
     (if \<not> processed + 1 < 100000 then (vn, Inl DidNotQuiesce)
      else case process_work vn w of
        (vn', Inl e) \<Rightarrow> (vn', Inl e)
      | (vn', Inr new) \<Rightarrow> process_queue (processed + 1) vn' (queue @ new))"
  by pat_completeness auto
termination by (relation "measure (\<lambda>(processed, _, _). nat (100000 - processed))") auto

definition vn_process :: "virtual_network \<Rightarrow> work list \<Rightarrow> virtual_network \<times> (sim_error + unit)" where
  "vn_process vn ws = process_queue 0 vn ws"

section \<open>Operations\<close>

definition vn_set_online ::
  "virtual_network \<Rightarrow> cvalidator_id \<Rightarrow> bool \<Rightarrow> virtual_network \<times> (sim_error + unit)" where
  "vn_set_online vn validator online =
     (if online then
        let vn = vn\<lparr>vn_online := bset_insert validator (vn_online vn)\<rparr> in
        if validator \<in> set (vn_started vn) then (vn, Inr ())
        else vn_process (vn\<lparr>vn_started := bset_insert validator (vn_started vn)\<rparr>)
               [WorkEvent validator Start]
      else (vn\<lparr>vn_online := removeAll validator (vn_online vn)\<rparr>, Inr ()))"

definition vn_connect ::
  "virtual_network \<Rightarrow> cvalidator_id \<Rightarrow> cvalidator_id \<Rightarrow> virtual_network" where
  "vn_connect vn a b = vn\<lparr>vn_links := bset_insert (b, a) (bset_insert (a, b) (vn_links vn))\<rparr>"

definition vn_disconnect ::
  "virtual_network \<Rightarrow> cvalidator_id \<Rightarrow> cvalidator_id \<Rightarrow> virtual_network" where
  "vn_disconnect vn a b = vn\<lparr>vn_links := removeAll (b, a) (removeAll (a, b) (vn_links vn))\<rparr>"

definition vn_connect_all :: "virtual_network \<Rightarrow> virtual_network" where
  "vn_connect_all vn = vn\<lparr>vn_links := bset_of (all_links (bt_keys (vn_nodes vn)))\<rparr>"

definition vn_partition :: "virtual_network \<Rightarrow> cvalidator_id list list \<Rightarrow> virtual_network" where
  "vn_partition vn groups = vn\<lparr>vn_links := bset_of (concat (map all_links groups))\<rparr>"

text \<open>Every online validator is started before any effect of starting is processed.\<close>

fun vn_start_nodes ::
  "virtual_network \<Rightarrow> work list \<Rightarrow> cvalidator_id list \<Rightarrow> virtual_network \<times> (sim_error + work list)" where
  "vn_start_nodes vn effects [] = (vn, Inr effects)"
| "vn_start_nodes vn effects (node # nodes) =
     (if node \<in> set (vn_started vn) then vn_start_nodes vn effects nodes
      else let vn = vn\<lparr>vn_started := bset_insert node (vn_started vn)\<rparr> in
        case bt_get (vn_nodes vn) node of
          None \<Rightarrow> (vn, Inl UnknownNode)
        | Some c \<Rightarrow>
            (case engine_step c Start deterministic_validator of
               (c', Inl e) \<Rightarrow> (vn\<lparr>vn_nodes := bt_insert node c' (vn_nodes vn)\<rparr>, Inl (SimConsensus e))
             | (c', Inr emitted) \<Rightarrow>
                 vn_start_nodes (vn\<lparr>vn_nodes := bt_insert node c' (vn_nodes vn)\<rparr>)
                   (effects @ map (WorkEffect node) emitted) nodes))"

definition vn_start :: "virtual_network \<Rightarrow> virtual_network \<times> (sim_error + unit)" where
  "vn_start vn =
     (case vn_start_nodes vn [] (vn_online vn) of
        (vn', Inl e) \<Rightarrow> (vn', Inl e)
      | (vn', Inr effects) \<Rightarrow> vn_process vn' effects)"

definition vn_inject ::
  "virtual_network \<Rightarrow> cvalidator_id \<Rightarrow> signed_message \<Rightarrow> virtual_network \<times> (sim_error + unit)" where
  "vn_inject vn recipient message = vn_process vn [WorkEvent recipient (Message message)]"

definition vn_deliver_certificate ::
  "virtual_network \<Rightarrow> cvalidator_id \<Rightarrow> ccertificate \<Rightarrow> virtual_network \<times> (sim_error + unit)" where
  "vn_deliver_certificate vn recipient certificate =
     vn_process vn [WorkEvent recipient (Certificate certificate)]"

definition timer_due :: "virtual_network \<Rightarrow> duration \<Rightarrow> scheduled_timeout \<Rightarrow> bool" where
  "timer_due vn next t \<longleftrightarrow> st_at t \<le> next \<and> st_node t \<in> set (vn_online vn)"

definition next_timeout :: "virtual_network \<Rightarrow> duration option" where
  "next_timeout vn =
     (case map (\<lambda>t. max (st_at t) (vn_now vn)) (filter (\<lambda>t. st_node t \<in> set (vn_online vn)) (vn_timers vn)) of
        [] \<Rightarrow> None
      | t # ts \<Rightarrow> Some (fold min ts t))"

definition advance_to_next_timeout :: "virtual_network \<Rightarrow> virtual_network \<times> (sim_error + bool)" where
  "advance_to_next_timeout vn =
     (case next_timeout vn of
        None \<Rightarrow> (vn, Inr False)
      | Some next \<Rightarrow>
          let vn = vn\<lparr>vn_now := next\<rparr>;
              due = filter (timer_due vn next) (vn_timers vn);
              vn = vn\<lparr>vn_timers := filter (\<lambda>t. \<not> timer_due vn next t) (vn_timers vn)\<rparr>;
              due = sort_key st_node due
          in case vn_process vn (map (\<lambda>t. WorkEvent (st_node t) (TimeoutEvent (st_timeout t))) due) of
               (vn', Inl e) \<Rightarrow> (vn', Inl e)
             | (vn', Inr _) \<Rightarrow> (vn', Inr True))"

section \<open>Runs\<close>

text \<open>The public operations that change the network, as one step relation on it.\<close>

datatype sim_action =
    SetOnline cvalidator_id bool
  | Connect cvalidator_id cvalidator_id
  | Disconnect cvalidator_id cvalidator_id
  | ConnectAll
  | Partition "cvalidator_id list list"
  | StartAll
  | Inject cvalidator_id signed_message
  | DeliverCertificate cvalidator_id ccertificate
  | AdvanceToNextTimeout

fun sim_apply :: "virtual_network \<Rightarrow> sim_action \<Rightarrow> virtual_network \<times> (sim_error + unit)" where
  "sim_apply vn (SetOnline v b) = vn_set_online vn v b"
| "sim_apply vn (Connect a b) = (vn_connect vn a b, Inr ())"
| "sim_apply vn (Disconnect a b) = (vn_disconnect vn a b, Inr ())"
| "sim_apply vn ConnectAll = (vn_connect_all vn, Inr ())"
| "sim_apply vn (Partition groups) = (vn_partition vn groups, Inr ())"
| "sim_apply vn StartAll = vn_start vn"
| "sim_apply vn (Inject v m) = vn_inject vn v m"
| "sim_apply vn (DeliverCertificate v ct) = vn_deliver_certificate vn v ct"
| "sim_apply vn AdvanceToNextTimeout =
     (case advance_to_next_timeout vn of (vn', res) \<Rightarrow>
        (vn', case res of Inl e \<Rightarrow> Inl e | Inr _ \<Rightarrow> Inr ()))"

fun sim_run :: "virtual_network \<Rightarrow> sim_action list \<Rightarrow> virtual_network" where
  "sim_run vn [] = vn"
| "sim_run vn (a # as) = sim_run (fst (sim_apply vn a)) as"

end
