(* ===== verification/SimulationRefinement.thy ===== *)
theory SimulationRefinement
  imports Simulation Agreement
begin

text \<open>
  The simulator implements the network of \<open>Agreement\<close>: its work queue holds the decisions
  still to be stored, processing one work item is at most one action of the network, and
  a failed or dropped item loses the decision. Simulated validators outside the faulty set
  are correct ones of the network.
\<close>

section \<open>The votes inside effects\<close>

fun effect_votes :: "effect \<Rightarrow> signed_vote list" where
  "effect_votes (Broadcast m) = message_votes m"
| "effect_votes (PersistBeforeBroadcast (SignableProposal p) _) = p_valid_round_proof p"
| "effect_votes _ = []"

lemma voting_effect_votes: "voting_effect e \<Longrightarrow> effect_votes e = []"
  by (cases e rule: voting_effect.cases) auto

definition voteless :: "effect \<Rightarrow> bool" where
  "voteless e \<longleftrightarrow> effect_votes e = []"

abbreviation no_votes :: "consensus_error + effect list \<Rightarrow> bool" where
  "no_votes res \<equiv> \<forall>effs. res = Inr effs \<longrightarrow> list_all voteless effs"

lemma voting_no_votes: "list_all voting_effect effs \<Longrightarrow> list_all voteless effs"
  by (auto simp: list_all_iff voting_effect_votes voteless_def)

lemma evaluate_no_votes:
  "evaluate_round r mv (c, effs) = (c', res) \<Longrightarrow> list_all voteless effs \<Longrightarrow> no_votes res"
  using evaluate_round_frame [of r mv c effs c' res] voting_no_votes by (metis list_all_append)

lemma activate_no_votes:
  "activate_current_round mv (c, effs) = (c', res) \<Longrightarrow> list_all voteless effs \<Longrightarrow> no_votes res"
  using activate_frame [of mv c effs c' res] voting_no_votes by (metis list_all_append)

lemma enter_no_votes:
  assumes "enter_round c r mv = (c', res)" shows "no_votes res"
  using assms activate_no_votes
  by (auto simp: enter_round_def voteless_def Let_def split: if_splits)

lemma accept_no_votes:
  assumes "accept_validated_message c m mv = (c', res)" shows "no_votes res"
proof (cases m)
  case (MessageProposal p)
  with assms show ?thesis
    by (auto simp: accept_validated_message_def accept_proposal_def Let_def voteless_def
        split: if_splits option.splits dest!: activate_no_votes)
next
  case (MessageVote v)
  with assms show ?thesis
    by (auto simp: accept_validated_message_def accept_vote_def Let_def voteless_def
        split: if_splits option.splits dest!: evaluate_no_votes)
qed

lemma timeout_no_votes:
  assumes "handle_timeout c t mv = (c', res)" shows "no_votes res"
proof -
  have cast: "no_votes res"
    if "evaluate_round (c_round (fst (cast_vote k val (c, [])))) mv (cast_vote k val (c, [])) = (c', res)" for k val
  proof -
    obtain c1 effs1 where p: "cast_vote k val (c, []) = (c1, effs1)" by fastforce
    have "list_all voteless effs1"
      using cast_vote_frame [OF p] by (auto intro: voting_no_votes)
    with that p evaluate_no_votes [of "c_round c1" mv c1 effs1 c' res] show ?thesis by simp
  qed
  show ?thesis
    using assms enter_no_votes [of c _ mv c' res] cast [of Prevote VoteNil] cast [of Precommit VoteNil]
    by (auto simp: handle_timeout_def Let_def split: if_splits phase.splits option.splits)
qed

lemma valid_proof_auth:
  assumes "engine_inv auth X log c" "sv \<in> set (c_valid_proof c)" shows "auth sv"
  using engine_invD(7) [OF assms(1)] assms(2)
  by (auto simp: safety_ok_def engine_safety_state_def proof_ok_def signed_ok_def split: option.splits)

text \<open>Every valid vote that leaves a correct engine is authentic.\<close>

lemma step_effect_votes:
  assumes inv: "engine_inv auth X log c"
    and ev: "\<And>sv. sv \<in> set (event_votes ev) \<Longrightarrow> validate_vote mv sv = Inr () \<Longrightarrow> auth sv"
    and run: "engine_step c ev mv = (c', Inr effs)"
    and e: "e \<in> set effs" "sv \<in> set (effect_votes e)" "validate_vote mv sv = Inr ()"
  shows "auth sv"
proof -
  have none: False if "no_votes (Inr effs)" using that e by (auto simp: list_all_iff voteless_def)
  show ?thesis
  proof (cases ev)
    case Start
    with run none enter_no_votes [of _ "c_round c" mv c' "Inr effs"] show ?thesis
      by (auto simp: engine_step_def split: if_splits)
  next
    case (ProposalReady h r b)
    have "set (case c_valid_round x of None \<Rightarrow> [] | Some vr \<Rightarrow>
        if vr < r \<and> c_valid_block x = Some b then c_valid_proof x else []) \<subseteq> set (c_valid_proof x)" for x
      by (auto split: option.splits)
    with ProposalReady run e have "sv \<in> set (c_valid_proof c)"
      by (auto simp: engine_step_def proposal_ready_def request_persistence_def Let_def
          split: if_splits option.splits)
    with inv show ?thesis by (rule valid_proof_auth)
  next
    case (Message m)
    with run e have "accept_validated_message c m mv = (c', Inr effs)"
      by (auto simp: engine_step_def receive_message_def split: if_splits sum.splits)
    from accept_no_votes [OF this] none show ?thesis by blast
  next
    case (Persisted m)
    show ?thesis
    proof (cases "effs = []")
      case False
      then obtain c1 rest where "accept_validated_message c1 m mv = (c', Inr rest)" "effs = Broadcast m # rest"
        using run Persisted
        by (auto simp: engine_step_def engine_persisted_def Let_def st_then_def
            split: if_splits sum.splits prod.splits)
      with accept_no_votes [of c1 m mv c' "Inr rest"] e ev Persisted show ?thesis
        by (auto simp: list_all_iff voteless_def)
    qed (use e in simp)
  next
    case (TimeoutEvent t)
    with run none timeout_no_votes [of c t mv c' "Inr effs"] e show ?thesis
      by (auto simp: engine_step_def split: if_splits)
  next
    case (Certificate ct)
    with run e show ?thesis
      by (auto simp: engine_step_def finalize_def Let_def split: sum.splits option.splits if_splits)
  qed
qed

section \<open>The simulation relation\<close>

abbreviation sim_valid :: "signed_vote \<Rightarrow> bool" where
  "sim_valid sv \<equiv> validate_vote deterministic_validator sv = Inr ()"

fun work_decisions :: "cvalidator_id \<Rightarrow> work \<Rightarrow> decision_log" where
  "work_decisions p (WorkEffect q e) = (if q = p then effect_decision e else [])"
| "work_decisions p (WorkEvent _ _) = []"

definition queue_decisions :: "cvalidator_id \<Rightarrow> work list \<Rightarrow> decision_log" where
  "queue_decisions p queue = concat (map (work_decisions p) queue)"

lemma queue_decisions_simps [simp]:
  "queue_decisions p [] = []" "queue_decisions p (w # ws) = work_decisions p w @ queue_decisions p ws"
  "queue_decisions p (xs @ ys) = queue_decisions p xs @ queue_decisions p ys"
  by (simp_all add: queue_decisions_def)

lemma queue_decisions_effects [simp]:
  "queue_decisions p (map (WorkEffect q) effs) = (if q = p then effect_log effs else [])"
  by (induction effs) auto

lemma queue_decisions_events [simp]: "queue_decisions p (map (\<lambda>x. WorkEvent (f x) (g x)) xs) = []"
  by (induction xs) auto

fun work_ok :: "setting \<Rightarrow> network \<Rightarrow> work \<Rightarrow> bool" where
  "work_ok S net (WorkEvent q ev) \<longleftrightarrow>
     (\<forall>sv \<in> set (event_votes ev). sim_valid sv \<longrightarrow> authentic S net sv)"
| "work_ok S net (WorkEffect q e) \<longleftrightarrow>
     q \<in> set (vs_validators (set_validators S)) \<and>
     (\<forall>sv \<in> set (effect_votes e). sim_valid sv \<longrightarrow> authentic S net sv) \<and>
     (\<forall>v ss. e = PersistBeforeBroadcast (SignableVote v) ss \<longrightarrow> v_validator v = q) \<and>
     (\<forall>f. e = Finalize f \<longrightarrow> honest S q \<longrightarrow> f \<in> set (nd_decided (net q)))"

definition sim_rel :: "setting \<Rightarrow> virtual_network \<Rightarrow> work list \<Rightarrow> network \<Rightarrow> bool" where
  "sim_rel S vn queue net \<longleftrightarrow>
     reachable S net \<and>
     (\<forall>p. honest S p \<longrightarrow> bt_get (vn_nodes vn) p = Some (nd_engine (net p)) \<and>
        nd_outbox (net p) = queue_decisions p queue) \<and>
     (\<forall>p c. bt_get (vn_nodes vn) p = Some c \<longrightarrow>
        (\<exists>log. engine_inv (authentic S net) (node_ctx S p) log c)) \<and>
     (\<forall>w \<in> set queue. work_ok S net w) \<and>
     (\<forall>x \<in> set (vn_broadcast_log vn). \<forall>sv \<in> set (message_votes (snd x)).
        sim_valid sv \<longrightarrow> authentic S net sv) \<and>
     (\<forall>p f. honest S p \<longrightarrow> bt_get (vn_finalizations vn) p = Some f \<longrightarrow> f \<in> set (nd_decided (net p)))"

lemma sim_rel_engine:
  "sim_rel S vn queue net \<Longrightarrow> bt_get (vn_nodes vn) p = Some c \<Longrightarrow>
     \<exists>log. engine_inv (authentic S net) (node_ctx S p) log c"
  by (simp add: sim_rel_def)

lemma work_ok_mono:
  assumes "work_ok S net w" and "\<And>sv. authentic S net sv \<Longrightarrow> authentic S net' sv"
    and "\<And>p. set (nd_decided (net p)) \<subseteq> set (nd_decided (net' p))"
  shows "work_ok S net' w"
  using assms(1,2) by (cases w) (auto intro: subsetD [OF assms(3)])

text \<open>
  What a network step may change: one validator's node, with at least its stored and
  announced decisions.
\<close>

lemma sim_rel_update:
  assumes rel: "sim_rel S vn queue net"
    and run: "net_step S net a = Some net'"
    and net': "net' = net(p := n)"
    and dur: "log_votes (nd_durable (net p)) \<subseteq> log_votes (nd_durable n)"
    and dec: "set (nd_decided (net p)) \<subseteq> set (nd_decided n)"
    and nodes: "\<And>q. q \<noteq> p \<Longrightarrow> bt_get (vn_nodes vn') q = bt_get (vn_nodes vn) q"
    and here: "honest S p \<Longrightarrow> bt_get (vn_nodes vn') p = Some (nd_engine n) \<and> nd_outbox n = queue_decisions p queue'"
    and out: "\<And>q. q \<noteq> p \<Longrightarrow> queue_decisions q queue' = queue_decisions q queue"
    and inv: "\<And>c. bt_get (vn_nodes vn') p = Some c \<Longrightarrow>
       \<exists>log. engine_inv (authentic S net') (node_ctx S p) log c"
    and work: "\<And>w. w \<in> set queue' \<Longrightarrow> w \<in> set queue \<or> work_ok S net' w"
    and logs: "vn_broadcast_log vn' = vn_broadcast_log vn"
    and fins: "vn_finalizations vn' = vn_finalizations vn"
  shows "sim_rel S vn' queue' net'"
proof -
  have mono: "authentic S net sv \<Longrightarrow> authentic S net' sv" for sv
    unfolding net' by (rule authentic_mono) (use dur in auto)
  have decs: "set (nd_decided (net q)) \<subseteq> set (nd_decided (net' q))" for q
    using dec net' by auto
  have "reachable S net'" using rel run by (auto simp: sim_rel_def intro: reachable_step)
  moreover have "bt_get (vn_nodes vn') q = Some (nd_engine (net' q)) \<and> nd_outbox (net' q) = queue_decisions q queue'"
    if "honest S q" for q
    using rel nodes [of q] here out [of q] that unfolding net' sim_rel_def by (cases "q = p") auto
  moreover have "\<exists>log. engine_inv (authentic S net') (node_ctx S q) log c" if c: "bt_get (vn_nodes vn') q = Some c" for q c
  proof (cases "q = p")
    case True
    with c inv show ?thesis by simp
  next
    case False
    with c nodes obtain log where "engine_inv (authentic S net) (node_ctx S q) log c"
      using rel unfolding sim_rel_def by metis
    from engine_inv_mono [OF this, of "authentic S net'"] mono show ?thesis by blast
  qed
  moreover have "work_ok S net' w" if "w \<in> set queue'" for w
  proof -
    have "work_ok S net w" if "w \<in> set queue" using rel that by (simp add: sim_rel_def)
    with work [OF that] show ?thesis using work_ok_mono [OF _ mono decs] by blast
  qed
  moreover have "\<forall>x \<in> set (vn_broadcast_log vn'). \<forall>sv \<in> set (message_votes (snd x)).
      sim_valid sv \<longrightarrow> authentic S net' sv"
    using rel mono logs by (simp add: sim_rel_def)
  moreover have "\<forall>q f. honest S q \<longrightarrow> bt_get (vn_finalizations vn') q = Some f \<longrightarrow> f \<in> set (nd_decided (net' q))"
    using rel decs fins unfolding sim_rel_def by (metis subsetD)
  ultimately show ?thesis unfolding sim_rel_def by blast
qed

text \<open>Changes of the simulator alone.\<close>

lemma sim_rel_same:
  assumes rel: "sim_rel S vn queue net"
    and "vn_nodes vn' = vn_nodes vn" and out: "\<And>q. queue_decisions q queue' = queue_decisions q queue"
    and work: "\<And>w. w \<in> set queue' \<Longrightarrow> w \<in> set queue \<or> work_ok S net w"
    and "\<And>x sv. x \<in> set (vn_broadcast_log vn') \<Longrightarrow> x \<in> set (vn_broadcast_log vn) \<or>
       (\<forall>sv \<in> set (message_votes (snd x)). sim_valid sv \<longrightarrow> authentic S net sv)"
    and "\<And>p f. honest S p \<Longrightarrow> bt_get (vn_finalizations vn') p = Some f \<Longrightarrow>
       bt_get (vn_finalizations vn) p = Some f \<or> f \<in> set (nd_decided (net p))"
  shows "sim_rel S vn' queue' net"
  using assms unfolding sim_rel_def by (intro conjI) (simp, simp, simp, blast, blast, blast)

text \<open>Dropping the queue loses the decisions it holds.\<close>

lemma lose_decision:
  assumes rel: "sim_rel S vn (WorkEffect p (PersistBeforeBroadcast m ss) # queue) net" and hon: "honest S p"
  shows "\<exists>net'. sim_rel S vn queue net'"
proof -
  let ?n = "(net p)\<lparr>nd_outbox := queue_decisions p queue\<rparr>"
  have p: "nd_outbox (net p) = (m, ss) # queue_decisions p queue" "bt_get (vn_nodes vn) p = Some (nd_engine (net p))"
    using rel hon by (auto simp: sim_rel_def)
  have same: "authentic S (net(p := ?n)) = authentic S net"
    by (intro ext) (simp add: authentic_def)
  have "sim_rel S vn queue (net(p := ?n))"
  proof (rule sim_rel_update [OF rel _ refl, where a = "Lose p"])
    show "net_step S net (Lose p) = Some (net(p := ?n))" using p by simp
    show "\<exists>log. engine_inv (authentic S (net(p := ?n))) (node_ctx S p) log c" if "bt_get (vn_nodes vn) p = Some c" for c
      using rel that unfolding same by (simp add: sim_rel_def)
  qed (use p in auto)
  then show ?thesis by blast
qed

lemma drop_work:
  assumes rel: "sim_rel S vn (w # queue) net"
  shows "\<exists>net'. sim_rel S vn queue net'"
proof -
  consider p m ss where "w = WorkEffect p (PersistBeforeBroadcast m ss)" "honest S p"
    | "\<And>q. honest S q \<Longrightarrow> work_decisions q w = []"
    by (cases w; cases "case w of WorkEffect _ e \<Rightarrow> e"; force)
  then show ?thesis
  proof cases
    case 1
    with rel lose_decision show ?thesis by blast
  next
    case 2
    with rel have "sim_rel S vn queue net" by (simp add: sim_rel_def)
    then show ?thesis by blast
  qed
qed

lemma drop_queue: "sim_rel S vn queue net \<Longrightarrow> \<exists>net'. sim_rel S vn [] net'"
  by (induction queue arbitrary: net) (use drop_work in blast)+

section \<open>Processing work\<close>

lemma process_event_rel:
  assumes rel: "sim_rel S vn (WorkEvent p ev # queue) net" and tol: "tolerates S"
    and run: "process_event vn p ev = (vn', res)"
  shows "\<exists>net'. sim_rel S vn' (queue @ (case res of Inl _ \<Rightarrow> [] | Inr new \<Rightarrow> new)) net'"
proof (cases "p \<in> set (vn_online vn) \<and> bt_get (vn_nodes vn) p \<noteq> None")
  case False
  with run have "vn' = vn" "(case res of Inl _ \<Rightarrow> [] | Inr new \<Rightarrow> new) = []"
    by (auto simp: process_event_def split: if_splits option.splits)
  with drop_work [OF rel] show ?thesis by simp
next
  case True
  then obtain c where on: "p \<in> set (vn_online vn)" and c: "bt_get (vn_nodes vn) p = Some c" by auto
  obtain c' r where s: "engine_step c ev deterministic_validator = (c', r)" by fastforce
  let ?effs = "case r of Inl _ \<Rightarrow> [] | Inr effs \<Rightarrow> effs"
  have vn': "vn' = vn\<lparr>vn_nodes := bt_insert p c' (vn_nodes vn)\<rparr>"
    and new: "(case res of Inl _ \<Rightarrow> [] | Inr new \<Rightarrow> new) = map (WorkEffect p) ?effs"
    using run on c s by (auto simp: process_event_def split: sum.splits)
  obtain log where inv: "engine_inv (authentic S net) (node_ctx S p) log c"
    using sim_rel_engine [OF rel c] by blast
  have ev: "sim_valid sv \<Longrightarrow> authentic S net sv" if "sv \<in> set (event_votes ev)" for sv
    using rel that by (auto simp: sim_rel_def)
  have inv': "engine_inv (authentic S net) (node_ctx S p) (log @ result_log r) c'"
    by (rule engine_step_inv [OF inv ev s])
  have member: "p \<in> set (vs_validators (set_validators S))"
    using engine_invD(2) [OF inv] by (simp add: ctx_ok_def node_ctx_def)
  have log: "result_log r = effect_log ?effs" by (cases r) simp_all
  have own: "v_validator v = p" if "PersistBeforeBroadcast (SignableVote v) ss \<in> set ?effs" for v ss
  proof -
    have "v \<in> log_votes (log @ result_log r)"
      using that by (cases r) (force simp: log_votes_def effect_log_def)+
    then have "v = cvote (node_ctx S p) (v_round v) (v_kind v) (v_value v) p"
      using engine_invD(5) [OF inv'] by (auto simp: history_ok_def node_ctx_def)
    then show ?thesis by (metis cvote_fields(4))
  qed
  have votes: "authentic S net sv" if "e \<in> set ?effs" "sv \<in> set (effect_votes e)" "sim_valid sv" for e sv
    using that step_effect_votes [OF inv ev] s by (cases r) auto
  let ?queue = "queue @ map (WorkEffect p) ?effs"
  show ?thesis
  proof (cases "honest S p")
    case True
    let ?n = "(net p)\<lparr>nd_engine := c', nd_outbox := nd_outbox (net p) @ result_log r,
        nd_decided := nd_decided (net p) @ result_finals r\<rparr>"
    have same: "authentic S (net(p := ?n)) = authentic S net"
      by (intro ext) (simp add: authentic_def)
    have here: "bt_get (vn_nodes vn) p = Some (nd_engine (net p))" "nd_outbox (net p) = queue_decisions p queue"
      using rel True by (auto simp: sim_rel_def)
    have fin: "f \<in> set (result_finals r)" if "Finalize f \<in> set ?effs" for f
    proof -
      have "Finalize f \<in> set effs \<Longrightarrow> f \<in> set (finalizations effs)" for effs
        by (induction effs rule: finalizations.induct) auto
      with that show ?thesis by (cases r) (auto simp: result_finals_def)
    qed
    have "sim_rel S vn' ?queue (net(p := ?n))"
    proof (rule sim_rel_update [OF rel _ refl, where a = "Deliver p ev deterministic_validator"])
      show "net_step S net (Deliver p ev deterministic_validator) = Some (net(p := ?n))"
        using True c s ev here by (simp add: admissible_def Let_def)
      show "bt_get (vn_nodes vn') p = Some (nd_engine ?n) \<and> nd_outbox ?n = queue_decisions p ?queue"
        using here log by (simp add: vn')
      show "\<exists>log. engine_inv (authentic S (net(p := ?n))) (node_ctx S p) log c2"
        if "bt_get (vn_nodes vn') p = Some c2" for c2
        using that inv' unfolding same by (auto simp: vn')
      show "w \<in> set (WorkEvent p ev # queue) \<or> work_ok S (net(p := ?n)) w" if "w \<in> set ?queue" for w
      proof -
        have "work_ok S (net(p := ?n)) (WorkEffect p e)" if e: "e \<in> set ?effs" for e
          unfolding work_ok.simps same
        proof (intro conjI ballI allI impI)
          show "f \<in> set (nd_decided ((net(p := ?n)) p))" if "e = Finalize f" for f
            using fin [of f] e that by simp
          show "authentic S net sv" if "sv \<in> set (effect_votes e)" "sim_valid sv" for sv
            using votes [OF e that] .
          show "v_validator v = p" if "e = PersistBeforeBroadcast (SignableVote v) ss" for v ss
            using own [of v ss] e that by simp
        qed (rule member)
        with that show ?thesis by auto
      qed
    qed (auto simp: vn')
    then show ?thesis unfolding new by blast
  next
    case False
    have "sim_rel S vn' ?queue net"
      unfolding sim_rel_def
    proof (intro conjI allI impI ballI)
      show "\<exists>log. engine_inv (authentic S net) (node_ctx S q) log c2" if "bt_get (vn_nodes vn') q = Some c2" for q c2
        using that inv' rel by (cases "q = p") (auto simp: vn' sim_rel_def)
      show "work_ok S net w" if "w \<in> set ?queue" for w
        using that rel member votes own False by (auto simp: sim_rel_def)
      show "nd_outbox (net q) = queue_decisions q ?queue" if "honest S q" for q
        using that rel False by (auto simp: sim_rel_def)
    qed (use rel False in \<open>auto simp: sim_rel_def vn'\<close>)
    then show ?thesis unfolding new by blast
  qed
qed

lemma signed_work_ok:
  assumes "work_ok S net (WorkEffect p (PersistBeforeBroadcast m ss))"
    and "honest S p \<Longrightarrow> \<exists>ss. (m, ss) \<in> set (nd_durable (net p))"
  shows "work_ok S net (WorkEvent p (Persisted (sim_sign m)))"
proof (cases m)
  case (SignableProposal q)
  with assms show ?thesis by simp
next
  case (SignableVote v)
  have "honest S p \<or> p \<in> set (set_faulty S)" using assms(1) by (simp add: honest_def)
  with assms SignableVote show ?thesis by (force simp: authentic_def vote_stored_def)
qed

lemma process_effect_rel:
  assumes rel: "sim_rel S vn (WorkEffect p e # queue) net"
    and run: "process_effect vn p e = (vn', new)"
  shows "\<exists>net'. sim_rel S vn' (queue @ new) net'"
proof (cases "p \<in> set (vn_online vn)")
  case False
  with run have vn': "vn' = vn\<lparr>vn_effect_log := vn_effect_log vn @ [(p, e)]\<rparr>" and new: "new = []"
    by (auto simp: process_effect_def Let_def)
  obtain net' where "sim_rel S vn queue net'" using drop_work [OF rel] by blast
  then have "sim_rel S vn' (queue @ new) net'"
    by (rule sim_rel_same) (auto simp: vn' new)
  then show ?thesis by blast
next
  case True
  have ok: "work_ok S net (WorkEffect p e)" using rel by (simp add: sim_rel_def)
  show ?thesis
  proof (cases "\<exists>m ss. e = PersistBeforeBroadcast m ss")
    case False
    have "sim_rel S vn' (queue @ new) net"
    proof (rule sim_rel_same [OF rel])
      show "vn_nodes vn' = vn_nodes vn" "queue_decisions q (queue @ new) = queue_decisions q (WorkEffect p e # queue)" for q
        using run True False by (auto simp: process_effect_def Let_def split: effect.splits)
      show "w \<in> set (WorkEffect p e # queue) \<or> work_ok S net w" if "w \<in> set (queue @ new)" for w
        using that run True False ok by (auto simp: process_effect_def Let_def split: effect.splits)
      show "x \<in> set (vn_broadcast_log vn) \<or> (\<forall>sv \<in> set (message_votes (snd x)). sim_valid sv \<longrightarrow> authentic S net sv)"
        if "x \<in> set (vn_broadcast_log vn')" for x
        using that run True False ok by (auto simp: process_effect_def Let_def split: effect.splits)
      show "bt_get (vn_finalizations vn) q = Some f \<or> f \<in> set (nd_decided (net q))"
        if "honest S q" "bt_get (vn_finalizations vn') q = Some f" for q f
        using that run True False ok
        by (auto simp: process_effect_def Let_def split: effect.splits if_splits)
    qed
    then show ?thesis by blast
  next
    case P: True
    then obtain m ss where e: "e = PersistBeforeBroadcast m ss" by blast
    have new: "new = [WorkEvent p (Persisted (sim_sign m))]"
      and same: "vn_nodes vn' = vn_nodes vn" "vn_broadcast_log vn' = vn_broadcast_log vn"
        "vn_finalizations vn' = vn_finalizations vn"
      using run True by (auto simp: process_effect_def Let_def e)
    show ?thesis
    proof (cases "honest S p")
      case True
      let ?n = "(net p)\<lparr>nd_outbox := queue_decisions p queue, nd_durable := nd_durable (net p) @ [(m, ss)]\<rparr>"
      have p: "nd_outbox (net p) = (m, ss) # queue_decisions p queue"
        "bt_get (vn_nodes vn) p = Some (nd_engine (net p))"
        using rel True by (auto simp: sim_rel_def e)
      have mono: "authentic S net sv \<Longrightarrow> authentic S (net(p := ?n)) sv" for sv
        by (rule authentic_mono) auto
      have "work_ok S (net(p := ?n)) (WorkEffect p e)"
        by (rule work_ok_mono [OF ok mono]) auto
      then have signed: "work_ok S (net(p := ?n)) (WorkEvent p (Persisted (sim_sign m)))"
        unfolding e by (rule signed_work_ok) auto
      have "sim_rel S vn' (queue @ new) (net(p := ?n))"
      proof (rule sim_rel_update [OF rel _ refl, where a = "Persist p"])
        show "net_step S net (Persist p) = Some (net(p := ?n))" using p by simp
        show "\<exists>log. engine_inv (authentic S (net(p := ?n))) (node_ctx S p) log c"
          if c: "bt_get (vn_nodes vn') p = Some c" for c
        proof -
          obtain log where "engine_inv (authentic S net) (node_ctx S p) log c"
            using sim_rel_engine [OF rel, of p c] c same(1) by auto
          from engine_inv_mono [OF this, of "authentic S (net(p := ?n))"] mono show ?thesis by blast
        qed
      qed (use p same signed in \<open>auto simp: new e\<close>)
      then show ?thesis by blast
    next
      case False
      have "work_ok S net (WorkEvent p (Persisted (sim_sign m)))"
        using ok False unfolding e by (intro signed_work_ok) auto
      then have "sim_rel S vn' (queue @ new) net"
        using rel same False by (auto simp: sim_rel_def new e)
      then show ?thesis by blast
    qed
  qed
qed

lemma process_work_rel:
  assumes "sim_rel S vn (w # queue) net" "tolerates S" "process_work vn w = (vn', res)"
  shows "\<exists>net'. sim_rel S vn' (queue @ (case res of Inl _ \<Rightarrow> [] | Inr new \<Rightarrow> new)) net'"
proof (cases w)
  case (WorkEvent p ev)
  with assms process_event_rel [of S vn p ev queue net vn' res] show ?thesis by simp
next
  case (WorkEffect p e)
  obtain new where "process_effect vn p e = (vn', new)" "res = Inr new"
    using assms(3) WorkEffect by (auto split: prod.splits)
  with assms(1) WorkEffect process_effect_rel [of S vn p e queue net vn' new] show ?thesis by simp
qed

lemma process_queue_rel:
  "sim_rel S vn queue net \<Longrightarrow> tolerates S \<Longrightarrow> \<exists>net'. sim_rel S (fst (process_queue k vn queue)) [] net'"
proof (induction k vn queue arbitrary: net rule: process_queue.induct)
  case (1 k vn)
  then show ?case by auto
next
  case (2 k vn w queue)
  obtain vn' res where s: "process_work vn w = (vn', res)" by fastforce
  obtain net' where n: "sim_rel S vn' (queue @ (case res of Inl _ \<Rightarrow> [] | Inr new \<Rightarrow> new)) net'"
    using process_work_rel [OF "2.prems"(1,2) s] by blast
  show ?case
  proof (cases "k + 1 < 100000")
    case False
    with drop_queue [OF "2.prems"(1)] show ?thesis by simp
  next
    case True
    show ?thesis
    proof (cases res)
      case (Inl err)
      with n drop_queue [of S vn' queue net'] True s show ?thesis by simp
    next
      case (Inr new)
      have "sim_rel S vn' (queue @ new) net'" using n Inr by simp
      then have "\<exists>net'. sim_rel S (fst (process_queue (k + 1) vn' (queue @ new))) [] net'"
        using "2.IH" "2.prems"(2) True s Inr by simp
      then show ?thesis using True s Inr by simp
    qed
  qed
qed

section \<open>Operations\<close>

lemma vn_process_rel:
  assumes rel: "sim_rel S vn [] net" and tol: "tolerates S"
    and ok: "\<And>w. w \<in> set ws \<Longrightarrow> work_ok S net w" and none: "\<And>p. queue_decisions p ws = []"
  shows "\<exists>net'. sim_rel S (fst (vn_process vn ws)) [] net'"
proof -
  have "sim_rel S vn ws net" using rel ok none by (simp add: sim_rel_def)
  with tol show ?thesis unfolding vn_process_def by (intro process_queue_rel)
qed

lemma vn_start_nodes_rel:
  "sim_rel S vn effects net \<Longrightarrow> tolerates S \<Longrightarrow> set nodes \<subseteq> set (vn_online vn) \<Longrightarrow>
   vn_start_nodes vn effects nodes = (vn', res) \<Longrightarrow>
     \<exists>net'. sim_rel S vn' (case res of Inl _ \<Rightarrow> [] | Inr new \<Rightarrow> new) net'"
proof (induction vn effects nodes arbitrary: net rule: vn_start_nodes.induct)
  case (1 vn effects)
  then show ?case by auto
next
  case (2 vn effects p nodes)
  show ?case
  proof (cases "p \<in> set (vn_started vn)")
    case True
    with 2 show ?thesis by simp
  next
    case False
    let ?vn = "vn\<lparr>vn_started := bset_insert p (vn_started vn)\<rparr>"
    obtain vn1 r where s: "process_event ?vn p Start = (vn1, r)" by fastforce
    have "sim_rel S ?vn (WorkEvent p Start # effects) net"
      using "2.prems"(1) by (simp add: sim_rel_def)
    from process_event_rel [OF this "2.prems"(2) s] obtain net1 where
      rel: "sim_rel S vn1 (effects @ (case r of Inl _ \<Rightarrow> [] | Inr new \<Rightarrow> new)) net1" by blast
    have dropped: "\<exists>net'. sim_rel S vn1 [] net'" using drop_queue [OF rel] .
    have on: "p \<in> set (vn_online ?vn)" using "2.prems"(3) by simp
    show ?thesis
    proof (cases "bt_get (vn_nodes vn) p")
      case None
      with s on "2.prems"(4) False have "vn' = vn1" "\<exists>e. res = Inl e"
        by (auto simp: process_event_def Let_def)
      with dropped show ?thesis by auto
    next
      case (Some c)
      obtain c' x where e: "engine_step c Start deterministic_validator = (c', x)" by fastforce
      show ?thesis
      proof (cases x)
        case (Inl err)
        with e Some s on "2.prems"(4) False have "vn' = vn1" "\<exists>e. res = Inl e"
          by (auto simp: process_event_def Let_def)
        with dropped show ?thesis by auto
      next
        case (Inr emitted)
        have vn1: "vn1 = ?vn\<lparr>vn_nodes := bt_insert p c' (vn_nodes ?vn)\<rparr>" and r: "r = Inr (map (WorkEffect p) emitted)"
          using e Some s on Inr by (auto simp: process_event_def)
        have "vn_start_nodes vn1 (effects @ map (WorkEffect p) emitted) nodes = (vn', res)"
          using "2.prems"(4) False Some e Inr by (simp add: vn1 Let_def)
        moreover have "set nodes \<subseteq> set (vn_online vn1)" using "2.prems"(3) by (simp add: vn1)
        moreover have "sim_rel S vn1 (effects @ map (WorkEffect p) emitted) net1" using rel r by simp
        ultimately show ?thesis
          using "2.IH"(2) [OF False refl _ e [symmetric] Inr] Some "2.prems"(2) by (simp add: vn1)
      qed
    qed
  qed
qed

text \<open>
  What the environment may hand to the simulator: any message whose correctly signed
  votes are by faulty validators or were broadcast before.
\<close>

definition known_votes :: "cvalidator_id list \<Rightarrow> virtual_network \<Rightarrow> signed_vote list \<Rightarrow> bool" where
  "known_votes F vn svs \<longleftrightarrow>
     (\<forall>sv \<in> set svs. sim_valid sv \<longrightarrow> signer sv \<in> set F \<or>
        (\<exists>x \<in> set (vn_broadcast_log vn). sv \<in> set (message_votes (snd x))))"

fun sim_admissible :: "cvalidator_id list \<Rightarrow> virtual_network \<Rightarrow> sim_action \<Rightarrow> bool" where
  "sim_admissible F vn (Inject _ m) = known_votes F vn (message_votes m)"
| "sim_admissible F vn (DeliverCertificate _ ct) = known_votes F vn (ct_precommits ct)"
| "sim_admissible F vn _ = True"

lemma known_votes_ok:
  assumes "sim_rel S vn queue net" "known_votes (set_faulty S) vn svs"
  shows "\<forall>sv \<in> set svs. sim_valid sv \<longrightarrow> authentic S net sv"
  using assms unfolding sim_rel_def known_votes_def authentic_def by meson

lemma sim_apply_rel:
  assumes rel: "sim_rel S vn [] net" and tol: "tolerates S" and adm: "sim_admissible (set_faulty S) vn a"
  shows "\<exists>net'. sim_rel S (fst (sim_apply vn a)) [] net'"
proof -
  have same: "sim_rel S vn' [] net"
    if "vn_nodes vn' = vn_nodes vn" "vn_broadcast_log vn' = vn_broadcast_log vn"
      "vn_finalizations vn' = vn_finalizations vn" for vn'
    using rel that by (simp add: sim_rel_def)
  have events: "\<exists>net'. sim_rel S (fst (vn_process vn' (map (\<lambda>x. WorkEvent (g x) (h x)) xs))) [] net'"
    if "vn_nodes vn' = vn_nodes vn" "vn_broadcast_log vn' = vn_broadcast_log vn"
      "vn_finalizations vn' = vn_finalizations vn"
      "\<And>x. x \<in> set xs \<Longrightarrow> \<forall>sv \<in> set (event_votes (h x)). sim_valid sv \<longrightarrow> authentic S net sv"
    for vn' and g :: "'x \<Rightarrow> cvalidator_id" and h xs
    using that by (intro vn_process_rel [OF same tol]) auto
  show ?thesis
  proof (cases a)
    case (SetOnline v b)
    then show ?thesis
      using same [of "vn\<lparr>vn_online := bset_insert v (vn_online vn)\<rparr>"] same [of "vn\<lparr>vn_online := removeAll v (vn_online vn)\<rparr>"]
        events [of "vn\<lparr>vn_online := bset_insert v (vn_online vn), vn_started := bset_insert v (vn_started vn)\<rparr>" "[()]"
          "\<lambda>_. Start" "\<lambda>_. v"]
      by (auto simp: vn_set_online_def Let_def)
  next
    case StartAll
    obtain vn1 r where s: "vn_start_nodes vn [] (vn_online vn) = (vn1, r)" by fastforce
    from vn_start_nodes_rel [OF rel tol subset_refl s] obtain net1 where
      "sim_rel S vn1 (case r of Inl _ \<Rightarrow> [] | Inr new \<Rightarrow> new) net1" by blast
    with process_queue_rel [OF _ tol] StartAll s show ?thesis
      by (cases r) (auto simp: vn_start_def vn_process_def)
  next
    case (Inject v m)
    with adm known_votes_ok [OF rel] events [of vn "[()]" "\<lambda>_. Message m" "\<lambda>_. v"] show ?thesis
      by (simp add: vn_inject_def)
  next
    case (DeliverCertificate v ct)
    with adm known_votes_ok [OF rel] events [of vn "[()]" "\<lambda>_. Certificate ct" "\<lambda>_. v"] show ?thesis
      by (simp add: vn_deliver_certificate_def)
  next
    case AdvanceToNextTimeout
    show ?thesis
    proof (cases "next_timeout vn")
      case None
      with AdvanceToNextTimeout rel show ?thesis by (auto simp: advance_to_next_timeout_def)
    next
      case (Some n)
      let ?vn = "vn\<lparr>vn_now := n\<rparr>"
      have "\<exists>net'. sim_rel S (fst (vn_process (?vn\<lparr>vn_timers := filter (\<lambda>t. \<not> timer_due ?vn n t) (vn_timers ?vn)\<rparr>)
          (map (\<lambda>t. WorkEvent (st_node t) (TimeoutEvent (st_timeout t)))
            (sort_key st_node (filter (timer_due ?vn n) (vn_timers ?vn)))))) [] net'"
        by (rule events) simp_all
      with AdvanceToNextTimeout Some show ?thesis
        by (auto simp: advance_to_next_timeout_def Let_def split: prod.splits sum.splits)
    qed
  qed (use same in \<open>auto intro!: exI [of _ net] simp: vn_connect_def vn_disconnect_def vn_connect_all_def vn_partition_def\<close>)
qed

section \<open>Runs\<close>

abbreviation sim_setting :: "cvalidator_id list \<Rightarrow> validator_set \<Rightarrow> u64 \<Rightarrow> consensus_config \<Rightarrow> setting" where
  "sim_setting F vs h cfg \<equiv>
     \<lparr>set_validators = vs, set_config = cfg, set_height = h, set_faulty = F\<rparr>"

inductive sim_reachable ::
  "cvalidator_id list \<Rightarrow> validator_set \<Rightarrow> u64 \<Rightarrow> consensus_config \<Rightarrow> virtual_network \<Rightarrow> bool"
  for F vs h cfg where
  sim_reachable_new: "vn_new vs h cfg = Inr vn \<Longrightarrow> sim_reachable F vs h cfg vn"
| sim_reachable_step: "sim_reachable F vs h cfg vn \<Longrightarrow> sim_admissible F vn a \<Longrightarrow>
    sim_reachable F vs h cfg (fst (sim_apply vn a))"

lemma bt_get_fold_insert:
  "list_all2 (\<lambda>v c. f v = Inr c) vs cs \<Longrightarrow>
   bt_get (fold (\<lambda>(v, c). bt_insert v c) (zip vs cs) m) p =
     (if p \<in> set vs then (case f p of Inr c \<Rightarrow> Some c | Inl _ \<Rightarrow> None) else bt_get m p)"
  by (induction vs cs arbitrary: m rule: list_all2_induct) auto

lemma vn_new_rel:
  assumes new: "vn_new vs h cfg = Inr vn" and tol: "tolerates (sim_setting F vs h cfg)"
  shows "\<exists>net. sim_rel (sim_setting F vs h cfg) vn [] net"
proof -
  let ?S = "sim_setting F vs h cfg"
  obtain cs where cs: "list_all2 (\<lambda>v c. consensus_new v vs h cfg = Inr c) (vs_validators vs) cs"
    and nodes: "vn_nodes vn = fold (\<lambda>(v, c). bt_insert v c) (zip (vs_validators vs) cs) []"
    and logs: "vn_broadcast_log vn = []" "vn_finalizations vn = []"
    using new by (auto simp: vn_new_def and_then_def collect_results_ok split: sum.splits)
  have made: "bt_get (vn_nodes vn) p = Some c \<longleftrightarrow> p \<in> set (vs_validators vs) \<and> consensus_new p vs h cfg = Inr c" for p c
    unfolding nodes bt_get_fold_insert [OF cs] by (auto split: sum.splits)
  have all: "\<exists>c. consensus_new p vs h cfg = Inr c" if p: "p \<in> set (vs_validators vs)" for p
  proof -
    obtain i where "i < length (vs_validators vs)" "p = vs_validators vs ! i"
      using p by (auto simp: in_set_conv_nth)
    then show ?thesis using list_all2_nthD [OF cs] by blast
  qed
  define net where "net = (\<lambda>p. \<lparr>nd_engine = (case consensus_new p vs h cfg of Inr c \<Rightarrow> c),
    nd_outbox = [], nd_durable = [], nd_decided = []\<rparr>)"
  have engine: "consensus_new p vs h cfg = Inr (nd_engine (net p))" if "p \<in> set (vs_validators vs)" for p
    using all [OF that] by (auto simp: net_def)
  have init: "net_init ?S net"
    unfolding net_init_def using engine by (simp add: honest_def) (simp add: net_def)
  have "\<exists>log. engine_inv (authentic ?S net) (node_ctx ?S p) log c"
    if "bt_get (vn_nodes vn) p = Some c" for p c
    using that tol consensus_new_inv [of p vs h cfg c] unfolding made
    by (auto simp: node_ctx_def tolerates_def)
  moreover have "bt_get (vn_nodes vn) p = Some (nd_engine (net p))" if "honest ?S p" for p
    using init that unfolding made by (simp add: net_init_def honest_def)
  ultimately have "sim_rel ?S vn [] net"
    using init reachable_init [OF init] by (simp add: sim_rel_def net_init_def logs)
  then show ?thesis by blast
qed

lemma sim_reachable_rel:
  assumes "sim_reachable F vs h cfg vn" and tol: "tolerates (sim_setting F vs h cfg)"
  shows "\<exists>net. sim_rel (sim_setting F vs h cfg) vn [] net"
  using assms(1)
proof induction
  case (sim_reachable_new vn)
  then show ?case by (rule vn_new_rel [OF _ tol])
next
  case (sim_reachable_step vn a)
  then show ?case using sim_apply_rel [OF _ tol] by fastforce
qed

end
