(* ===== verification/SimulationProps.thy ===== *)
theory SimulationProps
  imports SimulationRefinement ConsensusDemo
begin

text \<open>
  The properties of the simulator: its runs are runs of the network of \<open>Agreement\<close>, so its
  finalizations agree, and a disconnected validator stands still while virtual time
  never goes back.
\<close>

text \<open>
  C9: The simulator implements the abstract network: for every run of the public
  operations, with messages and certificates injected whose correctly signed votes are by
  faulty validators or were broadcast before, the network of \<open>Agreement\<close> reaches a state
  in which every correct validator has exactly the simulated engine and has announced
  what the simulator recorded as its finalization.
\<close>

theorem simulator_refines_network:
  assumes "sim_reachable F vs h cfg vn" and "tolerates (sim_setting F vs h cfg)"
  shows "\<exists>net. reachable (sim_setting F vs h cfg) net \<and>
    (\<forall>p. honest (sim_setting F vs h cfg) p \<longrightarrow>
       bt_get (vn_nodes vn) p = Some (nd_engine (net p)) \<and>
       (\<forall>f. bt_get (vn_finalizations vn) p = Some f \<longrightarrow> f \<in> set (nd_decided (net p))))"
  using sim_reachable_rel [OF assms] unfolding sim_rel_def by blast

text \<open>Two validators, one height: both decide the block of the first proposer.\<close>

definition duo :: validator_set where
  "duo = ValidatorSet [sim_validator_id 0, sim_validator_id 1]"

definition duo_config :: consensus_config where
  "duo_config = config_for_chain (str ''testnet'')"

definition duo_new :: virtual_network where
  "duo_new = (case vn_new duo 1 duo_config of Inr vn \<Rightarrow> vn)"

definition duo_net :: virtual_network where
  "duo_net = sim_run duo_new [StartAll]"

lemma duo_new_ok: "vn_new duo 1 duo_config = Inr duo_new"
proof -
  have "is_ok (vn_new duo 1 duo_config)" by code_simp
  then show ?thesis by (auto simp: duo_new_def is_ok_iff)
qed

lemma duo_reachable: "sim_reachable [] duo 1 duo_config duo_net"
  using sim_reachable_step [OF sim_reachable_new [OF duo_new_ok], of "[]" StartAll]
  by (simp add: duo_net_def)

lemma duo_distinct: "sim_validator_id 0 \<noteq> sim_validator_id 1"
  by (simp add: sim_validator_id_def)

lemma duo_tolerates: "tolerates (sim_setting [] duo 1 duo_config)"
  using duo_distinct by (simp add: tolerates_def duo_def)

lemma duo_honest:
  "honest (sim_setting [] duo 1 duo_config) (sim_validator_id 0)"
  "honest (sim_setting [] duo 1 duo_config) (sim_validator_id 1)"
  by (simp_all add: honest_def duo_def)

lemma duo_outcome:
  "map (\<lambda>(p, f). (p, fin_block_id f)) (vn_finalizations duo_net) =
     [(sim_validator_id 0, deterministic_block 1 0), (sim_validator_id 1, deterministic_block 1 0)]"
  by code_simp

lemma duo_finalized:
  obtains f g where "bt_get (vn_finalizations duo_net) (sim_validator_id 0) = Some f"
    "bt_get (vn_finalizations duo_net) (sim_validator_id 1) = Some g"
    "fin_block_id f = deterministic_block 1 0"
proof -
  obtain x y where xy: "vn_finalizations duo_net = [x, y]"
    using duo_outcome by (auto simp: map_eq_Cons_conv)
  with duo_outcome have "fst x = sim_validator_id 0" "fst y = sim_validator_id 1"
    "fin_block_id (snd x) = deterministic_block 1 0"
    by (auto simp: case_prod_beta)
  then show ?thesis
    using that [of "snd x" "snd y"] duo_distinct xy by (cases x; cases y) (auto simp: bt_get_def)
qed

theorem simulator_refines_network_witness:
  "\<exists>net f. reachable (sim_setting [] duo 1 duo_config) net \<and>
     f \<in> set (nd_decided (net (sim_validator_id 0))) \<and> fin_block_id f = deterministic_block 1 0"
proof -
  obtain f g where f: "bt_get (vn_finalizations duo_net) (sim_validator_id 0) = Some f"
    "fin_block_id f = deterministic_block 1 0"
    by (rule duo_finalized)
  with simulator_refines_network [OF duo_reachable duo_tolerates] duo_honest(1) show ?thesis by blast
qed

text \<open>
  In every such run of the simulator, any two correct validators that finalize do so
  with the same block.
\<close>

theorem simulated_finalizations_agree:
  assumes "sim_reachable F vs h cfg vn" and "tolerates (sim_setting F vs h cfg)"
    and "p \<in> set (vs_validators vs)" "p \<notin> set F" "bt_get (vn_finalizations vn) p = Some f"
    and "q \<in> set (vs_validators vs)" "q \<notin> set F" "bt_get (vn_finalizations vn) q = Some g"
  shows "fin_block_id f = fin_block_id g"
proof -
  let ?S = "sim_setting F vs h cfg"
  obtain net where rel: "sim_rel ?S vn [] net" using sim_reachable_rel [OF assms(1,2)] by blast
  have hon: "honest ?S p" "honest ?S q" using assms by (simp_all add: honest_def)
  note inv = reachable_inv [of ?S net, OF _ assms(2)]
  have net: "net_inv ?S net" using inv rel by (simp add: sim_rel_def)
  have f: "finalization_ok (authentic ?S net) (node_ctx ?S p) f" and g: "finalization_ok (authentic ?S net) (node_ctx ?S q) g"
    using net rel hon assms(5,8) unfolding net_inv_def sim_rel_def by blast+
  have ctx: "ctx_ok (node_ctx ?S p)" "ctx_ok (node_ctx ?S q)"
    using net hon by (auto simp: net_inv_def dest: engine_invD(2))
  have "quorum_for (authentic ?S net) (node_ctx ?S p) (fin_round f) Precommit (fin_block_id f)"
    "quorum_for (authentic ?S net) (node_ctx ?S q) (fin_round g) Precommit (fin_block_id g)"
    using f g ctx by (auto simp: finalization_ok_def intro: proof_ok_quorum)
  then show ?thesis
    using commits_agree [OF net assms(2)] quorum_for_ctx by blast
qed

theorem simulated_finalizations_agree_witness:
  "\<exists>f g. bt_get (vn_finalizations duo_net) (sim_validator_id 0) = Some f \<and>
     bt_get (vn_finalizations duo_net) (sim_validator_id 1) = Some g \<and> fin_block_id f = fin_block_id g"
proof -
  obtain f g where fg: "bt_get (vn_finalizations duo_net) (sim_validator_id 0) = Some f"
    "bt_get (vn_finalizations duo_net) (sim_validator_id 1) = Some g"
    by (rule duo_finalized)
  have "fin_block_id f = fin_block_id g"
    by (rule simulated_finalizations_agree [OF duo_reachable duo_tolerates _ _ fg(1) _ _ fg(2)])
      (simp_all add: duo_def)
  with fg show ?thesis by blast
qed

section \<open>Frozen validators\<close>

text \<open>Processing work touches neither the set of online validators nor the clock.\<close>

lemma process_work_frame:
  assumes "process_work vn w = (vn', res)"
  shows "vn_online vn' = vn_online vn \<and> vn_now vn' = vn_now vn \<and>
    (p \<notin> set (vn_online vn) \<longrightarrow> bt_get (vn_nodes vn') p = bt_get (vn_nodes vn) p)"
proof (cases w)
  case (WorkEvent q ev)
  with assms show ?thesis
    by (auto simp: process_event_def split: if_splits option.splits prod.splits)
next
  case (WorkEffect q e)
  with assms show ?thesis
    by (auto simp: process_effect_def Let_def split: if_splits effect.splits)
qed

lemma process_queue_frame:
  "process_queue k vn queue = (vn', res) \<Longrightarrow>
     vn_online vn' = vn_online vn \<and> vn_now vn' = vn_now vn \<and>
     (p \<notin> set (vn_online vn) \<longrightarrow> bt_get (vn_nodes vn') p = bt_get (vn_nodes vn) p)"
proof (induction k vn queue arbitrary: vn' res rule: process_queue.induct)
  case (2 k vn w queue)
  obtain vn1 r where s: "process_work vn w = (vn1, r)" by fastforce
  note f = process_work_frame [OF s, of p]
  show ?case
  proof (cases "k + 1 < 100000 \<and> is_ok r")
    case True
    then obtain new where r: "r = Inr new" by (auto simp: is_ok_iff)
    have rest: "process_queue (k + 1) vn1 (queue @ new) = (vn', res)"
      using "2.prems" True s r by simp
    have "vn_online vn' = vn_online vn1 \<and> vn_now vn' = vn_now vn1 \<and>
        (p \<notin> set (vn_online vn1) \<longrightarrow> bt_get (vn_nodes vn') p = bt_get (vn_nodes vn1) p)"
      by (rule "2.IH") (use True s r rest in simp_all)
    with f show ?thesis by simp
  next
    case False
    with "2.prems" s f show ?thesis by (cases r) (auto simp: is_ok_iff split: if_splits)
  qed
qed simp

lemma vn_start_nodes_frame:
  "vn_start_nodes vn effects nodes = (vn', res) \<Longrightarrow> p \<notin> set nodes \<Longrightarrow>
     vn_online vn' = vn_online vn \<and> vn_now vn' = vn_now vn \<and> bt_get (vn_nodes vn') p = bt_get (vn_nodes vn) p"
proof (induction vn effects nodes arbitrary: vn' res rule: vn_start_nodes.induct)
  case (2 vn effects q nodes)
  show ?case
  proof (cases "q \<in> set (vn_started vn)")
    case True
    with 2 show ?thesis by simp
  next
    case False
    let ?vn = "vn\<lparr>vn_started := bset_insert q (vn_started vn)\<rparr>"
    show ?thesis
    proof (cases "bt_get (vn_nodes vn) q")
      case None
      with "2.prems" False show ?thesis by (auto simp: Let_def)
    next
      case (Some c)
      obtain c' x where e: "engine_step c Start deterministic_validator = (c', x)" by fastforce
      show ?thesis
      proof (cases x)
        case (Inl err)
        with "2.prems" False Some e show ?thesis by (auto simp: Let_def)
      next
        case (Inr emitted)
        let ?vn1 = "?vn\<lparr>vn_nodes := bt_insert q c' (vn_nodes ?vn)\<rparr>"
        have "vn_start_nodes ?vn1 (effects @ map (WorkEffect q) emitted) nodes = (vn', res)"
          using "2.prems"(1) False Some e Inr by (simp add: Let_def)
        then have "vn_online vn' = vn_online ?vn1 \<and> vn_now vn' = vn_now ?vn1 \<and>
            bt_get (vn_nodes vn') p = bt_get (vn_nodes ?vn1) p"
          using "2.IH"(2) [OF False refl _ e [symmetric] Inr] Some "2.prems"(2) by simp
        with "2.prems"(2) show ?thesis by simp
      qed
    qed
  qed
qed simp

lemma fold_min_ge:
  fixes t :: "'a::linorder"
  shows "(\<And>x. x \<in> set (t # ts) \<Longrightarrow> n \<le> x) \<Longrightarrow> n \<le> fold min ts t"
proof (induction ts arbitrary: t)
  case (Cons a ts)
  have "n \<le> fold min ts (min a t)" by (rule Cons.IH) (use Cons.prems in auto)
  then show ?case by simp
qed simp

text \<open>
  A validator that is offline stands still: whatever else happens in the network, its
  engine does not change until it is set online, and virtual time never goes back.
\<close>

theorem offline_validator_stands_still:
  assumes "p \<notin> set (vn_online vn)" and "a \<noteq> SetOnline p True"
  shows "bt_get (vn_nodes (fst (sim_apply vn a))) p = bt_get (vn_nodes vn) p \<and>
    p \<notin> set (vn_online (fst (sim_apply vn a))) \<and> vn_now vn \<le> vn_now (fst (sim_apply vn a))"
proof -
  let ?keeps = "\<lambda>vn1 vn2. bt_get (vn_nodes vn2) p = bt_get (vn_nodes vn1) p \<and>
    p \<notin> set (vn_online vn2) \<and> vn_now vn2 = vn_now vn1"
  have work: "?keeps vn1 (fst (vn_process vn1 ws))" if "p \<notin> set (vn_online vn1)" for vn1 ws
    using process_queue_frame [of 0 vn1 ws "fst (vn_process vn1 ws)" "snd (vn_process vn1 ws)" p] that
    by (simp add: vn_process_def)
  show ?thesis
  proof (cases a)
    case (SetOnline v b)
    with assms work [of "vn\<lparr>vn_online := bset_insert v (vn_online vn), vn_started := bset_insert v (vn_started vn)\<rparr>"]
    show ?thesis by (auto simp: vn_set_online_def Let_def)
  next
    case StartAll
    obtain vn1 r where s: "vn_start_nodes vn [] (vn_online vn) = (vn1, r)" by fastforce
    from vn_start_nodes_frame [OF s assms(1)] assms(1) work [of vn1] StartAll s show ?thesis
      by (cases r) (auto simp: vn_start_def)
  next
    case (Inject v m)
    with assms work show ?thesis by (simp add: vn_inject_def)
  next
    case (DeliverCertificate v ct)
    with assms work show ?thesis by (simp add: vn_deliver_certificate_def)
  next
    case AdvanceToNextTimeout
    show ?thesis
    proof (cases "next_timeout vn")
      case None
      with AdvanceToNextTimeout assms show ?thesis by (auto simp: advance_to_next_timeout_def)
    next
      case (Some n)
      have "vn_now vn \<le> n"
        using Some by (auto simp: next_timeout_def split: list.splits intro!: fold_min_ge)
      let ?vn = "vn\<lparr>vn_now := n\<rparr>"
      let ?out = "vn_process (?vn\<lparr>vn_timers := filter (\<lambda>t. \<not> timer_due ?vn n t) (vn_timers ?vn)\<rparr>)
        (map (\<lambda>t. WorkEvent (st_node t) (TimeoutEvent (st_timeout t)))
          (sort_key st_node (filter (timer_due ?vn n) (vn_timers ?vn))))"
      have "fst (sim_apply vn a) = fst ?out"
        using AdvanceToNextTimeout Some
        by (simp add: advance_to_next_timeout_def Let_def split: prod.splits sum.splits)
      moreover have "?keeps ?vn (fst ?out)" using work [of "?vn\<lparr>vn_timers := ts\<rparr>" for ts] assms(1) by simp
      ultimately show ?thesis using \<open>vn_now vn \<le> n\<close> by simp
    qed
  qed (use assms in \<open>auto simp: vn_connect_def vn_disconnect_def vn_connect_all_def vn_partition_def\<close>)
qed

theorem offline_validator_stands_still_witness:
  "bt_get (vn_nodes (fst (sim_apply (duo_new\<lparr>vn_online := [sim_validator_id 1]\<rparr>) StartAll))) (sim_validator_id 0) =
     bt_get (vn_nodes duo_new) (sim_validator_id 0)"
  using offline_validator_stands_still [of "sim_validator_id 0" "duo_new\<lparr>vn_online := [sim_validator_id 1]\<rparr>" StartAll]
    duo_distinct by simp

end
