(* ===== verification/Decimal.thy ===== *)
theory Decimal
  imports RustString
begin

text \<open>
  Unsigned decimal text: \<open>u64::to_string\<close> and \<open>str::parse::<u64>\<close> of Rust's standard
  library, with the round trip, and \<open>str::split(c).next()\<close>.
\<close>

fun nat_to_string :: "nat \<Rightarrow> rstring" where
  "nat_to_string n = (if n < 10 then [48 + n] else nat_to_string (n div 10) @ [48 + n mod 10])"

declare nat_to_string.simps [simp del]

definition u64_to_string :: "u64 \<Rightarrow> rstring" where
  "u64_to_string w = nat_to_string (unat w)"

definition u32_to_string :: "u32 \<Rightarrow> rstring" where
  "u32_to_string w = nat_to_string (unat w)"

text \<open>Evaluation divides machine words.\<close>

lemma unat_div_10: "unat ((w :: u64) div 10) = unat w div 10" and
  unat_mod_10: "unat ((w :: u64) mod 10) = unat w mod 10"
  by (simp_all add: unat_div unat_mod)

function u64_digits :: "u64 \<Rightarrow> rstring" where
  "u64_digits w = (if w < 10 then [48 + unat w] else u64_digits (w div 10) @ [48 + unat (w mod 10)])"
  by pat_completeness auto
termination
  by (relation "measure unat") (auto simp: unat_div_10 word_le_nat_alt not_less)

declare u64_digits.simps [simp del]

lemma u64_to_string_code [code]: "u64_to_string w = u64_digits w"
proof (induction w rule: u64_digits.induct)
  case (1 w)
  show ?case
  proof (cases "w < 10")
    case True
    then have "unat w < 10" by (simp add: word_less_nat_alt)
    with True show ?thesis by (simp add: u64_to_string_def u64_digits.simps [of w] nat_to_string.simps [of "unat w"])
  next
    case False
    then have "\<not> unat w < 10" by (simp add: word_less_nat_alt)
    with False 1 show ?thesis
      by (simp add: u64_to_string_def u64_digits.simps [of w] nat_to_string.simps [of "unat w"]
          unat_div_10 unat_mod_10)
  qed
qed

lemma u32_to_string_code [code]: "u32_to_string w = u64_digits (ucast w)"
proof -
  have "unat (ucast w :: u64) = unat w" using unat_lt2p [of w] by (simp add: unsigned_ucast_eq take_bit_nat_eq_self)
  with u64_to_string_code [of "ucast w"] show ?thesis by (simp add: u64_to_string_def u32_to_string_def)
qed

definition is_digit :: "rchar \<Rightarrow> bool" where
  "is_digit c \<longleftrightarrow> 48 \<le> c \<and> c \<le> 57"

definition digits_value :: "rstring \<Rightarrow> nat" where
  "digits_value s = foldl (\<lambda>n c. 10 * n + (c - 48)) 0 s"

text \<open>One leading plus sign is accepted; overflow, an empty text and any other character are errors.\<close>

definition parse_u64 :: "rstring \<Rightarrow> u64 option" where
  "parse_u64 s =
     (let digits = (case s of c # rest \<Rightarrow> if c = 43 then rest else s | [] \<Rightarrow> []) in
      if digits \<noteq> [] \<and> list_all is_digit digits \<and> int (digits_value digits) \<le> 18446744073709551615
      then Some (word_of_int (int (digits_value digits))) else None)"

definition split_first :: "rchar \<Rightarrow> rstring \<Rightarrow> rstring" where
  "split_first c s = takeWhile (\<lambda>x. x \<noteq> c) s"

lemma nat_to_string_digits: "nat_to_string n \<noteq> [] \<and> list_all is_digit (nat_to_string n)"
proof (induction n rule: nat_to_string.induct)
  case (1 n)
  have "n < 10 \<Longrightarrow> is_digit (48 + n)" "is_digit (48 + n mod 10)"
    by (simp_all add: is_digit_def)
  with 1 show ?case by (simp add: nat_to_string.simps [of n])
qed

lemma digits_value_snoc: "digits_value (s @ [c]) = 10 * digits_value s + (c - 48)"
  by (simp add: digits_value_def)

lemma digits_value_to_string [simp]: "digits_value (nat_to_string n) = n"
proof (induction n rule: nat_to_string.induct)
  case (1 n)
  then show ?case
    by (subst nat_to_string.simps) (simp add: digits_value_snoc, simp add: digits_value_def)
qed

lemma parse_u64_to_string: "parse_u64 (u64_to_string w) = Some w"
proof -
  obtain c rest where s: "nat_to_string (unat w) = c # rest" "is_digit c"
    using nat_to_string_digits [of "unat w"] by (cases "nat_to_string (unat w)") auto
  then have "(case nat_to_string (unat w) of c # rest \<Rightarrow> if c = 43 then rest else nat_to_string (unat w) | [] \<Rightarrow> [])
      = nat_to_string (unat w)"
    by (auto simp: is_digit_def)
  moreover have "unat w \<le> 18446744073709551615" using unat_u64_less [of w] by linarith
  ultimately show ?thesis
    using nat_to_string_digits [of "unat w"] by (simp add: parse_u64_def u64_to_string_def Let_def)
qed

lemma nat_to_string_inject: "nat_to_string a = nat_to_string b \<longleftrightarrow> a = b"
  by (metis digits_value_to_string)

text \<open>A number followed by a separator is the first field, whatever follows.\<close>

lemma split_first_number:
  assumes "\<not> is_digit c"
  shows "split_first c (nat_to_string n @ c # rest) = nat_to_string n"
proof -
  have "\<forall>x \<in> set (nat_to_string n). x \<noteq> c"
    using nat_to_string_digits [of n] assms by (auto simp: list_all_iff)
  then show ?thesis by (simp add: split_first_def takeWhile_append2)
qed

lemma number_prefix_inject:
  assumes "\<not> is_digit c" "nat_to_string a @ c # x = nat_to_string b @ c # y"
  shows "a = b \<and> x = y"
proof -
  have "nat_to_string a = nat_to_string b"
    using split_first_number [OF assms(1), of a x] split_first_number [OF assms(1), of b y] assms(2) by simp
  with assms(2) show ?thesis by (simp add: nat_to_string_inject)
qed

end
