(* ===== verification/Storage.thy ===== *)
theory Storage
  imports Decimal ConsensusTypes
begin

text \<open>
  The SQLite store of \<open>storage.rs\<close>: one keyed table per component of \<open>store\<close>, and each
  operation's SQL statements as updates and queries on them. A statement fails where the
  schema's constraints or the conversion of a \<open>u64\<close> beyond \<open>i64::MAX\<close> make it fail, and a
  transaction that is not committed leaves the tables alone. Failures of the disk and of
  the lock are not modelled.
\<close>

section \<open>Rows and tables\<close>

datatype sqlite_error = ToSqlConversionFailure | ConstraintViolation

datatype storage_error =
    StorageSqlite sqlite_error
  | ConflictingFinality u64
  | ConflictingSignature rstring
  | ConflictingSafetyState rstring
  | ConflictingSignedMessage rstring
  | ConflictingProposal u64 u32
  | MalformedSignerSlot rstring

record transaction_projection =
  tp_id :: rstring
  tp_index :: u32
  tp_kind :: rstring
  tp_sender :: rstring
  tp_recipient :: "rstring option"
  tp_amount_atoms :: u64
  tp_nonce :: u64

record account_projection =
  ap_address :: rstring
  ap_balance_atoms :: u64
  ap_nonce :: u64
  ap_display_name :: "rstring option"
  ap_transaction_count :: u64

record finalized_projection =
  fp_height :: u64
  fp_block_hash :: rstring
  fp_parent_hash :: rstring
  fp_state_root :: rstring
  fp_proposer :: rstring
  fp_round :: u32
  fp_timestamp_ms :: u64
  fp_block_bytes :: bytes
  fp_certificate_bytes :: bytes
  fp_transactions :: "transaction_projection list"
  fp_changed_accounts :: "account_projection list"
  fp_issued_supply_atoms :: u64
  fp_challenge_json :: rstring

record block_row =
  br_height :: u64
  br_block_hash :: rstring
  br_parent_hash :: rstring
  br_state_root :: rstring
  br_proposer :: rstring
  br_round :: u32
  br_timestamp_ms :: u64
  br_transaction_count :: u64
  br_block_bytes :: bytes
  br_certificate_bytes :: bytes

record transaction_row =
  tr_id :: rstring
  tr_block_height :: u64
  tr_index :: u32
  tr_kind :: rstring
  tr_sender :: rstring
  tr_recipient :: "rstring option"
  tr_amount_atoms :: u64
  tr_nonce :: u64

record persisted_decision =
  pd_slot :: rstring
  pd_sign_bytes :: bytes
  pd_signature :: bytes
  pd_safety_state :: bytes
  pd_signed_message :: bytes

record persisted_proposal =
  pp_height :: u64
  pp_round :: u32
  pp_block_id :: bytes
  pp_block_bytes :: bytes
  pp_signed_proposal :: bytes

record wal_row =
  wal_sequence :: u64
  wal_kind :: rstring
  wal_bytes :: bytes
  wal_checksum :: rstring

text \<open>
  The schema. Tables are kept in primary-key order, \<open>signer_state\<close> in insertion order
  (its rowid); \<open>accounts\<close> also holds the height of the last change.
\<close>

record store =
  db_blocks :: "(u64, block_row) btree_map"
  db_transactions :: "(rstring, transaction_row) btree_map"
  db_accounts :: "(rstring, account_projection \<times> u64) btree_map"
  db_metadata :: "(rstring, rstring) btree_map"
  db_wal :: "wal_row list"
  db_signer_state :: "persisted_decision list"
  db_consensus_safety :: "(u64 \<times> bytes) option"
  db_proposals :: "(u64 \<times> u32, persisted_proposal) btree_map"

definition store_empty :: store where
  "store_empty =
     \<lparr>db_blocks = [], db_transactions = [], db_accounts = [], db_metadata = [], db_wal = [],
      db_signer_state = [], db_consensus_safety = None, db_proposals = []\<rparr>"

text \<open>Binding a \<open>u64\<close> parameter: SQLite integers are \<open>i64\<close>.\<close>

definition sql_u64 :: "u64 \<Rightarrow> storage_error + unit" where
  "sql_u64 x = (if x < 0x8000000000000000 then Inr () else Inl (StorageSqlite ToSqlConversionFailure))"

definition sql_opt_u64 :: "u64 option \<Rightarrow> storage_error + unit" where
  "sql_opt_u64 x = (case x of None \<Rightarrow> Inr () | Some y \<Rightarrow> sql_u64 y)"

definition sql_constraint :: "bool \<Rightarrow> storage_error + unit" where
  "sql_constraint ok = (if ok then Inr () else Inl (StorageSqlite ConstraintViolation))"

text \<open>A transaction: committed on success, rolled back when dropped with an error.\<close>

definition transact :: "store \<Rightarrow> (storage_error + store) \<Rightarrow> store \<times> (storage_error + unit)" where
  "transact db r = (case r of Inl e \<Rightarrow> (db, Inl e) | Inr db' \<Rightarrow> (db', Inr ()))"

section \<open>Persisting a finalized block\<close>

definition block_row_of :: "finalized_projection \<Rightarrow> block_row" where
  "block_row_of b =
     \<lparr>br_height = fp_height b, br_block_hash = fp_block_hash b, br_parent_hash = fp_parent_hash b,
      br_state_root = fp_state_root b, br_proposer = fp_proposer b, br_round = fp_round b,
      br_timestamp_ms = fp_timestamp_ms b,
      br_transaction_count = of_nat (length (fp_transactions b)),
      br_block_bytes = fp_block_bytes b, br_certificate_bytes = fp_certificate_bytes b\<rparr>"

definition hash_is_free :: "store \<Rightarrow> u64 \<Rightarrow> rstring \<Rightarrow> bool" where
  "hash_is_free db height hash \<longleftrightarrow>
     list_all (\<lambda>(h, row). h = height \<or> br_block_hash row \<noteq> hash) (db_blocks db)"

definition insert_block :: "finalized_projection \<Rightarrow> store \<Rightarrow> storage_error + store" where
  "insert_block b db =
     and_then (sql_u64 (fp_timestamp_ms b)) (\<lambda>_.
     and_then (sql_u64 (of_nat (length (fp_transactions b)))) (\<lambda>_.
     and_then (sql_constraint (hash_is_free db (fp_height b) (fp_block_hash b))) (\<lambda>_.
       Inr (db\<lparr>db_blocks := bt_insert (fp_height b) (block_row_of b) (db_blocks db)\<rparr>))))"

definition transaction_row_of :: "u64 \<Rightarrow> transaction_projection \<Rightarrow> transaction_row" where
  "transaction_row_of height t =
     \<lparr>tr_id = tp_id t, tr_block_height = height, tr_index = tp_index t, tr_kind = tp_kind t,
      tr_sender = tp_sender t, tr_recipient = tp_recipient t,
      tr_amount_atoms = tp_amount_atoms t, tr_nonce = tp_nonce t\<rparr>"

text \<open>The uniqueness of (block height, index) and the reference to the block's row.\<close>

definition position_is_free :: "store \<Rightarrow> rstring \<Rightarrow> u64 \<Rightarrow> u32 \<Rightarrow> bool" where
  "position_is_free db tid height index \<longleftrightarrow>
     list_all (\<lambda>(i, row). i = tid \<or> \<not> (tr_block_height row = height \<and> tr_index row = index))
       (db_transactions db)"

definition upsert_transaction ::
  "u64 \<Rightarrow> transaction_projection \<Rightarrow> store \<Rightarrow> storage_error + store" where
  "upsert_transaction height t db =
     and_then (sql_u64 (tp_amount_atoms t)) (\<lambda>_.
     and_then (sql_u64 (tp_nonce t)) (\<lambda>_.
     and_then (sql_constraint (position_is_free db (tp_id t) height (tp_index t) \<and>
                 bt_get (db_blocks db) height \<noteq> None)) (\<lambda>_.
       Inr (db\<lparr>db_transactions :=
              bt_insert (tp_id t) (transaction_row_of height t) (db_transactions db)\<rparr>))))"

definition upsert_account :: "u64 \<Rightarrow> account_projection \<Rightarrow> store \<Rightarrow> storage_error + store" where
  "upsert_account height a db =
     and_then (sql_u64 (ap_balance_atoms a)) (\<lambda>_.
     and_then (sql_u64 (ap_nonce a)) (\<lambda>_.
     and_then (sql_u64 (ap_transaction_count a)) (\<lambda>_.
       Inr (db\<lparr>db_accounts := bt_insert (ap_address a) (a, height) (db_accounts db)\<rparr>))))"

definition upsert_metadata :: "rstring \<times> rstring \<Rightarrow> store \<Rightarrow> store" where
  "upsert_metadata kv db = db\<lparr>db_metadata := bt_insert (fst kv) (snd kv) (db_metadata db)\<rparr>"

definition finalized_metadata :: "finalized_projection \<Rightarrow> (rstring \<times> rstring) list" where
  "finalized_metadata b =
     [(str ''tip_height'', u64_to_string (fp_height b)), (str ''tip_hash'', fp_block_hash b),
      (str ''state_root'', fp_state_root b),
      (str ''issued_supply_atoms'', u64_to_string (fp_issued_supply_atoms b)),
      (str ''challenge'', fp_challenge_json b)]"

text \<open>A statement per element, stopping at the first that fails.\<close>

fun sql_for_each :: "('a \<Rightarrow> store \<Rightarrow> storage_error + store) \<Rightarrow> 'a list \<Rightarrow> store \<Rightarrow> storage_error + store" where
  "sql_for_each f [] db = Inr db"
| "sql_for_each f (x # xs) db = and_then (f x db) (sql_for_each f xs)"

definition clear_safety :: "u64 \<Rightarrow> store \<Rightarrow> store" where
  "clear_safety height db =
     db\<lparr>db_consensus_safety :=
       (case db_consensus_safety db of
          Some (h, ss) \<Rightarrow> if h = height then None else Some (h, ss)
        | None \<Rightarrow> None)\<rparr>"

definition persist_finalized_statements ::
  "finalized_projection \<Rightarrow> store \<Rightarrow> storage_error + store" where
  "persist_finalized_statements b db =
     and_then (sql_u64 (fp_height b)) (\<lambda>_.
     and_then
       (case bt_get (db_blocks db) (fp_height b) of
          Some row \<Rightarrow>
            if br_block_hash row = fp_block_hash b then Inr db
            else Inl (ConflictingFinality (fp_height b))
        | None \<Rightarrow> insert_block b db) (\<lambda>db.
     and_then (sql_for_each (upsert_transaction (fp_height b)) (fp_transactions b) db) (\<lambda>db.
     and_then (sql_for_each (upsert_account (fp_height b)) (fp_changed_accounts b) db) (\<lambda>db.
       Inr (clear_safety (fp_height b) (fold upsert_metadata (finalized_metadata b) db))))))"

definition persist_finalized ::
  "store \<Rightarrow> finalized_projection \<Rightarrow> store \<times> (storage_error + unit)" where
  "persist_finalized db b = transact db (persist_finalized_statements b db)"

definition refresh_block_projection ::
  "store \<Rightarrow> finalized_projection \<Rightarrow> store \<times> (storage_error + unit)" where
  "refresh_block_projection db b = transact db
     (and_then (sql_u64 (fp_height b)) (\<lambda>_.
      and_then (sql_u64 (fp_timestamp_ms b)) (\<lambda>_.
      and_then (sql_u64 (of_nat (length (fp_transactions b)))) (\<lambda>_.
        case bt_get (db_blocks db) (fp_height b) of
          None \<Rightarrow> Inl (ConflictingFinality (fp_height b))
        | Some row \<Rightarrow>
            if br_block_bytes row = fp_block_bytes b \<and> br_certificate_bytes row = fp_certificate_bytes b
            then and_then (sql_constraint (hash_is_free db (fp_height b) (fp_block_hash b))) (\<lambda>_.
              Inr (db\<lparr>db_blocks := bt_insert (fp_height b) (block_row_of b) (db_blocks db)\<rparr>))
            else Inl (ConflictingFinality (fp_height b))))))"

section \<open>Queries\<close>

definition u32_clamp :: "u32 \<Rightarrow> u32 \<Rightarrow> u32 \<Rightarrow> nat" where
  "u32_clamp limit lo hi = unat (if limit < lo then lo else if hi < limit then hi else limit)"

definition store_tip :: "store \<Rightarrow> block_row option" where
  "store_tip db = (case rev (bt_values (db_blocks db)) of [] \<Rightarrow> None | row # _ \<Rightarrow> Some row)"

definition block_by_height :: "store \<Rightarrow> u64 \<Rightarrow> storage_error + block_row option" where
  "block_by_height db height = and_then (sql_u64 height) (\<lambda>_. Inr (bt_get (db_blocks db) height))"

definition block_by_hash :: "store \<Rightarrow> rstring \<Rightarrow> block_row option" where
  "block_by_hash db hash = find (\<lambda>row. br_block_hash row = hash) (bt_values (db_blocks db))"

definition list_blocks :: "store \<Rightarrow> u64 option \<Rightarrow> u32 \<Rightarrow> storage_error + block_row list" where
  "list_blocks db before limit =
     and_then (sql_opt_u64 before) (\<lambda>_.
       Inr (take (u32_clamp limit 1 101)
         (filter (\<lambda>row. case before of None \<Rightarrow> True | Some h \<Rightarrow> br_height row < h)
           (rev (bt_values (db_blocks db))))))"

definition store_transaction :: "store \<Rightarrow> rstring \<Rightarrow> transaction_row option" where
  "store_transaction db tid = bt_get (db_transactions db) tid"

definition newest_first :: "transaction_row list \<Rightarrow> transaction_row list" where
  "newest_first rows = rev (sort_key (\<lambda>r. (tr_block_height r, tr_index r)) rows)"

definition list_transactions ::
  "store \<Rightarrow> (u64 \<times> u32) option \<Rightarrow> u32 \<Rightarrow> storage_error + transaction_row list" where
  "list_transactions db before limit =
     and_then (sql_opt_u64 (map_option fst before)) (\<lambda>_.
       Inr (take (u32_clamp limit 1 101)
         (newest_first (filter (\<lambda>r. case before of
              None \<Rightarrow> True
            | Some (h, i) \<Rightarrow> tr_block_height r < h \<or> tr_block_height r = h \<and> tr_index r < i)
           (bt_values (db_transactions db))))))"

definition involves :: "rstring \<Rightarrow> transaction_row \<Rightarrow> bool" where
  "involves address r \<longleftrightarrow> tr_sender r = address \<or> tr_recipient r = Some address"

definition address_transactions :: "store \<Rightarrow> rstring \<Rightarrow> u32 \<Rightarrow> transaction_row list" where
  "address_transactions db address limit =
     take (u32_clamp limit 1 100)
       (newest_first (filter (involves address) (bt_values (db_transactions db))))"

definition account_first_seen_height :: "store \<Rightarrow> rstring \<Rightarrow> u64 option" where
  "account_first_seen_height db address =
     (case map tr_block_height (filter (involves address) (bt_values (db_transactions db))) of
        [] \<Rightarrow> None
      | h # hs \<Rightarrow> Some (fold min hs h))"

definition store_account :: "store \<Rightarrow> rstring \<Rightarrow> account_projection option" where
  "store_account db address = map_option fst (bt_get (db_accounts db) address)"

definition leaderboard_page :: "store \<Rightarrow> u32 \<Rightarrow> u32 \<Rightarrow> account_projection list" where
  "leaderboard_page db limit offset =
     take (u32_clamp limit 1 101) (drop (unat offset)
       (sort_key (\<lambda>a. (- uint (ap_balance_atoms a), ap_address a))
         (filter (\<lambda>a. ap_balance_atoms a > 0) (map fst (bt_values (db_accounts db))))))"

definition leaderboard :: "store \<Rightarrow> u32 \<Rightarrow> account_projection list" where
  "leaderboard db limit = leaderboard_page db limit 0"

definition store_metadata :: "store \<Rightarrow> rstring \<Rightarrow> rstring option" where
  "store_metadata db key = bt_get (db_metadata db) key"

definition canonical_blocks :: "store \<Rightarrow> bytes list" where
  "canonical_blocks db = map br_block_bytes (bt_values (db_blocks db))"

definition canonical_block_rows :: "store \<Rightarrow> block_row list" where
  "canonical_block_rows db = bt_values (db_blocks db)"

definition finalized_range :: "store \<Rightarrow> u64 \<Rightarrow> u16 \<Rightarrow> storage_error + block_row list" where
  "finalized_range db from_height limit =
     and_then (sql_u64 from_height) (\<lambda>_.
       Inr (take (unat (min limit 128))
         (filter (\<lambda>row. from_height \<le> br_height row) (bt_values (db_blocks db)))))"

section \<open>Consensus records\<close>

definition append_consensus_event ::
  "(bytes \<Rightarrow> rstring) \<Rightarrow> store \<Rightarrow> rstring \<Rightarrow> bytes \<Rightarrow> store \<times> u64" where
  "append_consensus_event checksum db kind x =
     (let sequence = of_nat (length (db_wal db) + 1) in
      (db\<lparr>db_wal := db_wal db @
         [\<lparr>wal_sequence = sequence, wal_kind = kind, wal_bytes = x, wal_checksum = checksum x\<rparr>]\<rparr>,
       sequence))"

definition find_decision :: "store \<Rightarrow> rstring \<Rightarrow> persisted_decision option" where
  "find_decision db slot = find (\<lambda>d. pd_slot d = slot) (db_signer_state db)"

definition update_signed_message :: "store \<Rightarrow> rstring \<Rightarrow> bytes \<Rightarrow> store" where
  "update_signed_message db slot signed_message =
     db\<lparr>db_signer_state :=
       map (\<lambda>d. if pd_slot d = slot then d\<lparr>pd_signed_message := signed_message\<rparr> else d)
         (db_signer_state db)\<rparr>"

definition persist_consensus_decision ::
  "store \<Rightarrow> rstring \<Rightarrow> bytes \<Rightarrow> bytes \<Rightarrow> bytes \<Rightarrow> bytes \<Rightarrow> store \<times> (storage_error + bytes)" where
  "persist_consensus_decision db slot sign_bytes signature safety signed_message =
     (case parse_u64 (split_first 47 slot) of
        None \<Rightarrow> (db, Inl (MalformedSignerSlot slot))
      | Some safety_height \<Rightarrow>
        case find_decision db slot of
          Some existing \<Rightarrow>
            if pd_sign_bytes existing \<noteq> sign_bytes then (db, Inl (ConflictingSignature slot))
            else if pd_safety_state existing \<noteq> safety then (db, Inl (ConflictingSafetyState slot))
            else if pd_signed_message existing \<noteq> [] \<and> signed_message \<noteq> [] \<and>
                    pd_signed_message existing \<noteq> signed_message
            then (db, Inl (ConflictingSignedMessage slot))
            else (if pd_signed_message existing = [] \<and> signed_message \<noteq> []
                  then update_signed_message db slot signed_message else db,
                  Inr (pd_signature existing))
        | None \<Rightarrow>
            (case sql_u64 safety_height of
               Inl e \<Rightarrow> (db, Inl e)
             | Inr _ \<Rightarrow>
                 (db\<lparr>db_signer_state := db_signer_state db @
                       [\<lparr>pd_slot = slot, pd_sign_bytes = sign_bytes, pd_signature = signature,
                         pd_safety_state = safety, pd_signed_message = signed_message\<rparr>],
                     db_consensus_safety := Some (safety_height, safety)\<rparr>,
                  Inr signature)))"

definition persist_consensus_signature ::
  "store \<Rightarrow> rstring \<Rightarrow> bytes \<Rightarrow> bytes \<Rightarrow> bytes \<Rightarrow> store \<times> (storage_error + bytes)" where
  "persist_consensus_signature db slot sign_bytes signature safety =
     persist_consensus_decision db slot sign_bytes signature safety []"

definition persist_signed_message ::
  "store \<Rightarrow> rstring \<Rightarrow> bytes \<Rightarrow> bytes \<Rightarrow> store \<times> (storage_error + unit)" where
  "persist_signed_message db slot sign_bytes signature =
     (case persist_consensus_signature db slot sign_bytes signature [] of
        (db', Inl e) \<Rightarrow> (db', Inl e)
      | (db', Inr _) \<Rightarrow> (db', Inr ()))"

definition consensus_safety_state :: "store \<Rightarrow> (u64 \<times> bytes) option" where
  "consensus_safety_state db = db_consensus_safety db"

definition slot_prefix :: "u64 \<Rightarrow> rstring" where
  "slot_prefix height = u64_to_string height @ str ''/''"

definition consensus_decisions :: "store \<Rightarrow> u64 \<Rightarrow> persisted_decision list" where
  "consensus_decisions db height =
     filter (\<lambda>d. take (length (slot_prefix height)) (pd_slot d) = slot_prefix height \<and>
       length (pd_signed_message d) > 0) (db_signer_state db)"

definition persist_consensus_proposal ::
  "store \<Rightarrow> persisted_proposal \<Rightarrow> store \<times> (storage_error + unit)" where
  "persist_consensus_proposal db p = transact db
     (and_then (sql_u64 (pp_height p)) (\<lambda>_.
        case bt_get (db_proposals db) (pp_height p, pp_round p) of
          Some existing \<Rightarrow>
            if pp_block_id existing = pp_block_id p \<and> pp_block_bytes existing = pp_block_bytes p \<and>
               pp_signed_proposal existing = pp_signed_proposal p
            then Inr db
            else Inl (ConflictingProposal (pp_height p) (pp_round p))
        | None \<Rightarrow>
            Inr (db\<lparr>db_proposals := bt_insert (pp_height p, pp_round p) p (db_proposals db)\<rparr>)))"

definition consensus_proposals :: "store \<Rightarrow> u64 \<Rightarrow> storage_error + persisted_proposal list" where
  "consensus_proposals db height =
     and_then (sql_u64 height) (\<lambda>_.
       Inr (filter (\<lambda>p. pp_height p = height) (bt_values (db_proposals db))))"

definition clear_projections :: "store \<Rightarrow> store" where
  "clear_projections db = db\<lparr>db_transactions := [], db_accounts := [], db_metadata := []\<rparr>"

end
