(* ===== verification/StorageInv.thy ===== *)
theory StorageInv
  imports Storage
begin

text \<open>
  The store over any sequence of operations: what each operation changes, the records that
  are written once (locale \<open>permanent_record\<close>), and the well-formedness of the tables.
\<close>

section \<open>Runs\<close>

text \<open>The operations that write, with \<open>persist_consensus_decision\<close> for its two shorthands.\<close>

datatype store_op =
    PersistFinalized finalized_projection
  | RefreshBlock finalized_projection
  | AppendEvent rstring bytes
  | PersistDecision rstring bytes bytes bytes bytes
  | PersistProposal persisted_proposal
  | ClearProjections

fun store_apply :: "(bytes \<Rightarrow> rstring) \<Rightarrow> store \<Rightarrow> store_op \<Rightarrow> store" where
  "store_apply cks db (PersistFinalized b) = fst (persist_finalized db b)"
| "store_apply cks db (RefreshBlock b) = fst (refresh_block_projection db b)"
| "store_apply cks db (AppendEvent kind x) = fst (append_consensus_event cks db kind x)"
| "store_apply cks db (PersistDecision slot sb sig ss sm) = fst (persist_consensus_decision db slot sb sig ss sm)"
| "store_apply cks db (PersistProposal p) = fst (persist_consensus_proposal db p)"
| "store_apply cks db ClearProjections = clear_projections db"

inductive store_runs :: "(bytes \<Rightarrow> rstring) \<Rightarrow> store \<Rightarrow> store \<Rightarrow> bool" for cks where
  store_runs_refl: "store_runs cks db db"
| store_runs_step: "store_runs cks db db1 \<Longrightarrow> store_runs cks db (store_apply cks db1 op)"

section \<open>Statements\<close>

lemma sql_u64_ok [result_simps]: "sql_u64 x = Inr u \<longleftrightarrow> x < 0x8000000000000000"
  by (auto simp: sql_u64_def)

lemma sql_u64_error [result_simps]:
  "sql_u64 x = Inl e \<longleftrightarrow> \<not> x < 0x8000000000000000 \<and> e = StorageSqlite ToSqlConversionFailure"
  by (auto simp: sql_u64_def)

lemma sql_constraint_ok [result_simps]: "sql_constraint p = Inr u \<longleftrightarrow> p"
  by (auto simp: sql_constraint_def)

lemma sql_constraint_error [result_simps]:
  "sql_constraint p = Inl e \<longleftrightarrow> \<not> p \<and> e = StorageSqlite ConstraintViolation"
  by (auto simp: sql_constraint_def)

lemma transact_simps [simp]: "transact db (Inl e) = (db, Inl e)" "transact db (Inr db') = (db', Inr ())"
  by (simp_all add: transact_def)

lemma transact_fst: "fst (transact db r) = db' \<longleftrightarrow> (case r of Inl _ \<Rightarrow> db' = db | Inr x \<Rightarrow> db' = x)"
  by (cases r) auto

text \<open>An invariant of the statements of a loop is one of the loop.\<close>

lemma sql_for_each_invariant:
  assumes "\<And>x db db'. x \<in> set xs \<Longrightarrow> P db \<Longrightarrow> f x db = Inr db' \<Longrightarrow> P db'"
    and "P db" and "sql_for_each f xs db = Inr db'"
  shows "P db'"
  using assms by (induction xs arbitrary: db) (auto simp: result_simps)

text \<open>What the loops of \<open>persist_finalized\<close> leave alone.\<close>

lemma upsert_transactions_frame:
  assumes "sql_for_each (upsert_transaction h) xs db = Inr db'"
  shows "\<exists>ts. db' = db\<lparr>db_transactions := ts\<rparr>"
  by (rule sql_for_each_invariant [OF _ _ assms, where P = "\<lambda>x. \<exists>ts. x = db\<lparr>db_transactions := ts\<rparr>"])
    (auto simp: upsert_transaction_def result_simps intro: exI [of _ "db_transactions db"])

lemma upsert_accounts_frame:
  assumes "sql_for_each (upsert_account h) xs db = Inr db'"
  shows "\<exists>as. db' = db\<lparr>db_accounts := as\<rparr>"
  by (rule sql_for_each_invariant [OF _ _ assms, where P = "\<lambda>x. \<exists>as. x = db\<lparr>db_accounts := as\<rparr>"])
    (auto simp: upsert_account_def result_simps intro: exI [of _ "db_accounts db"])

lemma fold_metadata_frame: "\<exists>m. fold upsert_metadata kvs db = db\<lparr>db_metadata := m\<rparr>"
proof (induction kvs arbitrary: db)
  case Nil
  then show ?case by (auto intro: exI [of _ "db_metadata db"])
next
  case (Cons kv kvs)
  from Cons [of "upsert_metadata kv db"] show ?case by (auto simp: upsert_metadata_def)
qed

text \<open>The blocks and the signing tables after a finalized block was persisted.\<close>

lemma persist_finalized_ok:
  assumes "persist_finalized_statements b db = Inr db'"
  shows "db_blocks db' =
      (if bt_get (db_blocks db) (fp_height b) = None
       then bt_insert (fp_height b) (block_row_of b) (db_blocks db) else db_blocks db)"
    and "\<And>row. bt_get (db_blocks db) (fp_height b) = Some row \<Longrightarrow> br_block_hash row = fp_block_hash b"
    and "bt_get (db_blocks db) (fp_height b) = None \<Longrightarrow> hash_is_free db (fp_height b) (fp_block_hash b)"
    and "db_signer_state db' = db_signer_state db" "db_proposals db' = db_proposals db" "db_wal db' = db_wal db"
    and "db_consensus_safety db' = db_consensus_safety (clear_safety (fp_height b) db)"
    and "fp_height b < 0x8000000000000000"
proof -
  obtain db1 db2 db3 where
    1: "(case bt_get (db_blocks db) (fp_height b) of
          Some row \<Rightarrow> if br_block_hash row = fp_block_hash b then Inr db else Inl (ConflictingFinality (fp_height b))
        | None \<Rightarrow> insert_block b db) = Inr db1"
    and 2: "sql_for_each (upsert_transaction (fp_height b)) (fp_transactions b) db1 = Inr db2"
    and 3: "sql_for_each (upsert_account (fp_height b)) (fp_changed_accounts b) db2 = Inr db3"
    and 4: "db' = clear_safety (fp_height b) (fold upsert_metadata (finalized_metadata b) db3)"
    and h: "fp_height b < 0x8000000000000000"
    using assms unfolding persist_finalized_statements_def by (auto simp: result_simps)
  obtain ts as m where f: "db2 = db1\<lparr>db_transactions := ts\<rparr>" "db3 = db2\<lparr>db_accounts := as\<rparr>"
    "fold upsert_metadata (finalized_metadata b) db3 = db3\<lparr>db_metadata := m\<rparr>"
    using upsert_transactions_frame [OF 2] upsert_accounts_frame [OF 3] fold_metadata_frame by metis
  have new: "db' = db1\<lparr>db_transactions := ts, db_accounts := as, db_metadata := m,
      db_consensus_safety := db_consensus_safety (clear_safety (fp_height b) db1)\<rparr>"
    unfolding 4 f(3) by (simp add: f(1,2) clear_safety_def)
  have old: "db_signer_state db1 = db_signer_state db" "db_proposals db1 = db_proposals db" "db_wal db1 = db_wal db"
    "db_consensus_safety db1 = db_consensus_safety db"
    using 1 by (auto simp: insert_block_def result_simps split: option.splits if_splits)
  show "db_blocks db' =
      (if bt_get (db_blocks db) (fp_height b) = None
       then bt_insert (fp_height b) (block_row_of b) (db_blocks db) else db_blocks db)"
    using 1 unfolding new by (auto simp: insert_block_def result_simps split: option.splits if_splits)
  show "bt_get (db_blocks db) (fp_height b) = None \<Longrightarrow> hash_is_free db (fp_height b) (fp_block_hash b)"
    using 1 by (auto simp: insert_block_def result_simps)
  show "br_block_hash row = fp_block_hash b" if "bt_get (db_blocks db) (fp_height b) = Some row" for row
    using 1 that by (auto split: if_splits)
  show "db_signer_state db' = db_signer_state db" "db_proposals db' = db_proposals db" "db_wal db' = db_wal db"
    "db_consensus_safety db' = db_consensus_safety (clear_safety (fp_height b) db)" "fp_height b < 0x8000000000000000"
    using old h unfolding new by (simp_all add: clear_safety_def)
qed

lemma refresh_ok:
  assumes "refresh_block_projection db b = (db', res)"
  shows "db' = db \<or> (\<exists>row. bt_get (db_blocks db) (fp_height b) = Some row \<and>
     br_block_bytes row = fp_block_bytes b \<and> br_certificate_bytes row = fp_certificate_bytes b \<and>
     hash_is_free db (fp_height b) (fp_block_hash b) \<and>
     db' = db\<lparr>db_blocks := bt_insert (fp_height b) (block_row_of b) (db_blocks db)\<rparr>)"
  using assms unfolding refresh_block_projection_def sql_u64_def sql_constraint_def transact_def
  by (auto split: option.splits if_splits)

lemma persist_decision_cases:
  assumes "persist_consensus_decision db slot sb sig ss sm = (db', res)"
  obtains (fail) e where "db' = db" "res = Inl e"
  | (again) d where "find_decision db slot = Some d" "pd_sign_bytes d = sb" "pd_safety_state d = ss"
      "res = Inr (pd_signature d)" "db' = db \<or> db' = update_signed_message db slot sm \<and> pd_signed_message d = []"
  | (new) h where "find_decision db slot = None" "parse_u64 (split_first 47 slot) = Some h"
      "h < 0x8000000000000000" "res = Inr sig"
      "db' = db\<lparr>db_signer_state := db_signer_state db @
         [\<lparr>pd_slot = slot, pd_sign_bytes = sb, pd_signature = sig, pd_safety_state = ss, pd_signed_message = sm\<rparr>],
         db_consensus_safety := Some (h, ss)\<rparr>"
  using assms unfolding persist_consensus_decision_def sql_u64_def
  by (auto split: option.splits if_splits)

lemma persist_proposal_ok:
  assumes "persist_consensus_proposal db p = (db', res)"
  shows "db' = db \<or> bt_get (db_proposals db) (pp_height p, pp_round p) = None \<and>
     db' = db\<lparr>db_proposals := bt_insert (pp_height p, pp_round p) p (db_proposals db)\<rparr>"
  using assms unfolding persist_consensus_proposal_def sql_u64_def transact_def
  by (auto split: option.splits if_splits)

section \<open>Permanence\<close>

text \<open>
  The contract of everything that is written once: it is kept by every operation,
  hence by every run. Finalized bytes and signing decisions are two instances.
\<close>

locale permanent_record =
  fixes R :: "store \<Rightarrow> 'k \<Rightarrow> 'v option"
  assumes written_once: "R db k = Some v \<Longrightarrow> R (store_apply cks db op) k = Some v"
begin

lemma permanent:
  assumes "store_runs cks db db'" "R db k = Some v"
  shows "R db' k = Some v"
  using assms by induction (auto intro: written_once)

lemma never_differs:
  assumes "store_runs cks db db1" "store_runs cks db1 db2" "R db1 k = Some v" "R db2 k = Some w"
  shows "v = w"
  using permanent [OF assms(2,3)] assms(4) by simp

end

definition finalized_bytes :: "store \<Rightarrow> u64 \<Rightarrow> (bytes \<times> bytes) option" where
  "finalized_bytes db h =
     map_option (\<lambda>row. (br_block_bytes row, br_certificate_bytes row)) (bt_get (db_blocks db) h)"

definition signed_decision :: "store \<Rightarrow> rstring \<Rightarrow> (bytes \<times> bytes \<times> bytes) option" where
  "signed_decision db slot =
     map_option (\<lambda>d. (pd_sign_bytes d, pd_signature d, pd_safety_state d)) (find_decision db slot)"

definition stored_proposal :: "store \<Rightarrow> u64 \<times> u32 \<Rightarrow> persisted_proposal option" where
  "stored_proposal db hr = bt_get (db_proposals db) hr"

interpretation finality: permanent_record finalized_bytes
proof
  fix cks db op h v assume v: "finalized_bytes db h = Some v"
  show "finalized_bytes (store_apply cks db op) h = Some v"
  proof (cases op)
    case (PersistFinalized b)
    with v show ?thesis
      by (cases "persist_finalized_statements b db")
        (auto simp: persist_finalized_def finalized_bytes_def persist_finalized_ok(1))
  next
    case (RefreshBlock b)
    obtain db' res where r: "refresh_block_projection db b = (db', res)" by fastforce
    from refresh_ok [OF r] v RefreshBlock r show ?thesis
      by (auto simp: finalized_bytes_def block_row_of_def)
  next
    case (PersistDecision slot sb sig ss sm)
    obtain db' res where r: "persist_consensus_decision db slot sb sig ss sm = (db', res)" by fastforce
    from r have "db_blocks db' = db_blocks db"
      by (rule persist_decision_cases) (auto simp: update_signed_message_def)
    with v PersistDecision r show ?thesis by (simp add: finalized_bytes_def)
  next
    case (PersistProposal p)
    obtain db' res where r: "persist_consensus_proposal db p = (db', res)" by fastforce
    from persist_proposal_ok [OF r] v PersistProposal r show ?thesis by (auto simp: finalized_bytes_def)
  qed (use v in \<open>auto simp: finalized_bytes_def append_consensus_event_def clear_projections_def Let_def\<close>)
qed

lemma find_decision_append:
  "db_signer_state db' = db_signer_state db @ xs \<Longrightarrow> find_decision db slot = Some d \<Longrightarrow>
     find_decision db' slot = Some d"
proof -
  have "find P ds = Some d \<Longrightarrow> find P (ds @ xs) = Some d" for P :: "persisted_decision \<Rightarrow> bool" and ds d
    by (induction ds) auto
  then show "db_signer_state db' = db_signer_state db @ xs \<Longrightarrow> find_decision db slot = Some d \<Longrightarrow>
      find_decision db' slot = Some d"
    by (simp add: find_decision_def)
qed

lemma find_decision_new:
  assumes "find_decision db slot = None" "db_signer_state db' = db_signer_state db @ [d]" "pd_slot d = slot"
  shows "find_decision db' slot = Some d"
proof -
  have "find P ds = None \<Longrightarrow> P d \<Longrightarrow> find P (ds @ [d]) = Some d" for P :: "persisted_decision \<Rightarrow> bool" and ds
    by (induction ds) (auto split: if_splits)
  with assms show ?thesis by (simp add: find_decision_def)
qed

lemma find_decision_update:
  "find_decision (update_signed_message db slot sm) s =
     map_option (\<lambda>d. if s = slot then d\<lparr>pd_signed_message := sm\<rparr> else d) (find_decision db s)"
proof -
  have "find (\<lambda>d. pd_slot d = s)
      (map (\<lambda>d. if pd_slot d = slot then d\<lparr>pd_signed_message := sm\<rparr> else d) ds) =
      map_option (\<lambda>d. if s = slot then d\<lparr>pd_signed_message := sm\<rparr> else d) (find (\<lambda>d. pd_slot d = s) ds)" for ds
    by (induction ds) auto
  then show ?thesis by (simp add: find_decision_def update_signed_message_def)
qed

lemma signed_decision_frame:
  "db_signer_state db' = db_signer_state db \<Longrightarrow> signed_decision db' slot = signed_decision db slot"
  by (simp add: signed_decision_def find_decision_def)

interpretation signing: permanent_record signed_decision
proof
  fix cks db op slot v assume v: "signed_decision db slot = Some v"
  show "signed_decision (store_apply cks db op) slot = Some v"
  proof (cases op)
    case (PersistFinalized b)
    with v show ?thesis
      by (cases "persist_finalized_statements b db")
        (auto simp: persist_finalized_def signed_decision_frame [OF persist_finalized_ok(4)])
  next
    case (RefreshBlock b)
    obtain db' res where r: "refresh_block_projection db b = (db', res)" by fastforce
    from refresh_ok [OF r] v RefreshBlock r show ?thesis by (auto simp: signed_decision_def find_decision_def)
  next
    case (PersistDecision s sb sig ss sm)
    obtain db' res where r: "persist_consensus_decision db s sb sig ss sm = (db', res)" by fastforce
    from r have "signed_decision db' slot = Some v"
    proof (cases rule: persist_decision_cases)
      case (new h)
      with v find_decision_append [of db' db _ slot] show ?thesis by (auto simp: signed_decision_def)
    qed (use v in \<open>auto simp: signed_decision_def find_decision_update\<close>)
    with PersistDecision r show ?thesis by simp
  next
    case (PersistProposal p)
    obtain db' res where r: "persist_consensus_proposal db p = (db', res)" by fastforce
    from persist_proposal_ok [OF r] v PersistProposal r show ?thesis
      by (auto simp: signed_decision_def find_decision_def)
  qed (use v in \<open>auto simp: signed_decision_def find_decision_def append_consensus_event_def clear_projections_def Let_def\<close>)
qed

interpretation proposing: permanent_record stored_proposal
proof
  fix cks db op hr v assume v: "stored_proposal db hr = Some v"
  show "stored_proposal (store_apply cks db op) hr = Some v"
  proof (cases op)
    case (PersistFinalized b)
    with v show ?thesis
      by (cases "persist_finalized_statements b db")
        (auto simp: persist_finalized_def stored_proposal_def persist_finalized_ok(5))
  next
    case (RefreshBlock b)
    obtain db' res where r: "refresh_block_projection db b = (db', res)" by fastforce
    from refresh_ok [OF r] v RefreshBlock r show ?thesis by (auto simp: stored_proposal_def)
  next
    case (PersistDecision s sb sig ss sm)
    obtain db' res where r: "persist_consensus_decision db s sb sig ss sm = (db', res)" by fastforce
    from r have "db_proposals db' = db_proposals db"
      by (rule persist_decision_cases) (auto simp: update_signed_message_def)
    with v PersistDecision r show ?thesis by (simp add: stored_proposal_def)
  next
    case (PersistProposal p)
    obtain db' res where r: "persist_consensus_proposal db p = (db', res)" by fastforce
    from persist_proposal_ok [OF r] v PersistProposal r show ?thesis by (auto simp: stored_proposal_def)
  qed (use v in \<open>auto simp: stored_proposal_def append_consensus_event_def clear_projections_def Let_def\<close>)
qed

section \<open>Well-formed tables\<close>

definition blocks_wf :: "(u64, block_row) btree_map \<Rightarrow> bool" where
  "blocks_wf bs \<longleftrightarrow>
     bt_wf bs \<and>
     (\<forall>h r. bt_get bs h = Some r \<longrightarrow> br_height r = h \<and> h < 0x8000000000000000) \<and>
     (\<forall>h h' r r'. bt_get bs h = Some r \<longrightarrow> bt_get bs h' = Some r' \<longrightarrow>
        br_block_hash r = br_block_hash r' \<longrightarrow> h = h')"

definition transactions_wf ::
  "(u64, block_row) btree_map \<Rightarrow> (rstring, transaction_row) btree_map \<Rightarrow> bool" where
  "transactions_wf bs ts \<longleftrightarrow>
     bt_wf ts \<and>
     (\<forall>i r. bt_get ts i = Some r \<longrightarrow> tr_id r = i \<and> bt_get bs (tr_block_height r) \<noteq> None) \<and>
     (\<forall>i j r s. bt_get ts i = Some r \<longrightarrow> bt_get ts j = Some s \<longrightarrow>
        tr_block_height r = tr_block_height s \<longrightarrow> tr_index r = tr_index s \<longrightarrow> i = j)"

definition store_wf :: "store \<Rightarrow> bool" where
  "store_wf db \<longleftrightarrow>
     blocks_wf (db_blocks db) \<and> transactions_wf (db_blocks db) (db_transactions db) \<and>
     bt_wf (db_accounts db) \<and> (\<forall>k a h. bt_get (db_accounts db) k = Some (a, h) \<longrightarrow> ap_address a = k) \<and>
     bt_wf (db_metadata db) \<and> distinct (map pd_slot (db_signer_state db)) \<and>
     map wal_sequence (db_wal db) = map (\<lambda>i. of_nat (i + 1)) [0..<length (db_wal db)] \<and>
     bt_wf (db_proposals db) \<and>
     (\<forall>k p. bt_get (db_proposals db) k = Some p \<longrightarrow> (pp_height p, pp_round p) = k)"

lemma blocks_wf_insert:
  assumes wf: "blocks_wf (db_blocks db)" and h: "fp_height b < 0x8000000000000000"
    and free: "hash_is_free db (fp_height b) (fp_block_hash b)"
  shows "blocks_wf (bt_insert (fp_height b) (block_row_of b) (db_blocks db))"
proof -
  have other: "br_block_hash r \<noteq> fp_block_hash b"
    if "bt_get (db_blocks db) k = Some r" "k \<noteq> fp_height b" for k r
    using free bt_get_in_set [OF that(1)] that(2) by (auto simp: hash_is_free_def list_all_iff)
  show ?thesis
    unfolding blocks_wf_def
  proof (intro conjI allI impI)
    show "bt_wf (bt_insert (fp_height b) (block_row_of b) (db_blocks db))"
      using wf by (simp add: blocks_wf_def)
    fix k k' r r'
    assume k: "bt_get (bt_insert (fp_height b) (block_row_of b) (db_blocks db)) k = Some r"
    then show "br_height r = k" "k < 0x8000000000000000"
      using wf h by (auto simp: blocks_wf_def block_row_of_def split: if_splits)
    assume k': "bt_get (bt_insert (fp_height b) (block_row_of b) (db_blocks db)) k' = Some r'"
      and eq: "br_block_hash r = br_block_hash r'"
    show "k = k'"
      using k k' eq other [of k r] other [of k' r'] wf
      by (auto simp: blocks_wf_def block_row_of_def split: if_splits)
  qed
qed

lemma transactions_wf_more_blocks:
  "transactions_wf bs ts \<Longrightarrow> transactions_wf (bt_insert h r bs) ts"
  by (auto simp: transactions_wf_def)

lemma upsert_transaction_wf:
  assumes "store_wf db" "upsert_transaction h t db = Inr db'"
  shows "store_wf db'"
proof -
  let ?row = "transaction_row_of h t"
  have new: "db' = db\<lparr>db_transactions := bt_insert (tp_id t) ?row (db_transactions db)\<rparr>"
    and free: "position_is_free db (tp_id t) h (tp_index t)" and block: "bt_get (db_blocks db) h \<noteq> None"
    using assms(2) by (auto simp: upsert_transaction_def result_simps)
  have wf: "transactions_wf (db_blocks db) (db_transactions db)" using assms(1) by (simp add: store_wf_def)
  have other: "\<not> (tr_block_height r = h \<and> tr_index r = tp_index t)"
    if "bt_get (db_transactions db) i = Some r" "i \<noteq> tp_id t" for i r
    using free bt_get_in_set [OF that(1)] that(2) by (auto simp: position_is_free_def list_all_iff)
  have "transactions_wf (db_blocks db) (bt_insert (tp_id t) ?row (db_transactions db))"
    unfolding transactions_wf_def
  proof (intro conjI allI impI)
    show "bt_wf (bt_insert (tp_id t) ?row (db_transactions db))"
      using wf by (simp add: transactions_wf_def)
    fix i j r s
    assume i: "bt_get (bt_insert (tp_id t) ?row (db_transactions db)) i = Some r"
    then show "tr_id r = i" "bt_get (db_blocks db) (tr_block_height r) \<noteq> None"
      using wf block by (auto simp: transactions_wf_def transaction_row_of_def split: if_splits)
    assume j: "bt_get (bt_insert (tp_id t) ?row (db_transactions db)) j = Some s"
      and eq: "tr_block_height r = tr_block_height s" "tr_index r = tr_index s"
    have t: "tr_block_height ?row = h" "tr_index ?row = tp_index t"
      by (simp_all add: transaction_row_of_def)
    show "i = j"
    proof (cases "i = tp_id t \<or> j = tp_id t")
      case True
      with i j eq t other [of i r] other [of j s] show ?thesis by (auto split: if_splits)
    next
      case False
      with i j eq wf show ?thesis unfolding transactions_wf_def by (auto split: if_splits)
    qed
  qed
  with assms(1) show ?thesis by (simp add: store_wf_def new)
qed

lemma upsert_account_wf: "store_wf db \<Longrightarrow> upsert_account h a db = Inr db' \<Longrightarrow> store_wf db'"
  by (auto simp: upsert_account_def result_simps store_wf_def split: if_splits)

lemma upsert_metadata_wf: "store_wf db \<Longrightarrow> store_wf (fold upsert_metadata kvs db)"
proof (induction kvs arbitrary: db)
  case (Cons kv kvs)
  have "store_wf (upsert_metadata kv db)"
    using Cons.prems unfolding store_wf_def upsert_metadata_def by simp
  then show ?case using Cons.IH by simp
qed simp

lemma persist_finalized_wf:
  assumes wf: "store_wf db" and run: "persist_finalized_statements b db = Inr db'"
  shows "store_wf db'"
proof -
  obtain db1 db2 db3 where
    1: "(case bt_get (db_blocks db) (fp_height b) of
          Some row \<Rightarrow> if br_block_hash row = fp_block_hash b then Inr db else Inl (ConflictingFinality (fp_height b))
        | None \<Rightarrow> insert_block b db) = Inr db1"
    and 2: "sql_for_each (upsert_transaction (fp_height b)) (fp_transactions b) db1 = Inr db2"
    and 3: "sql_for_each (upsert_account (fp_height b)) (fp_changed_accounts b) db2 = Inr db3"
    and 4: "db' = clear_safety (fp_height b) (fold upsert_metadata (finalized_metadata b) db3)"
    and h: "fp_height b < 0x8000000000000000"
    using run unfolding persist_finalized_statements_def by (auto simp: result_simps)
  have "store_wf db1"
  proof (cases "bt_get (db_blocks db) (fp_height b)")
    case None
    then have "hash_is_free db (fp_height b) (fp_block_hash b)"
      "db1 = db\<lparr>db_blocks := bt_insert (fp_height b) (block_row_of b) (db_blocks db)\<rparr>"
      using 1 by (auto simp: insert_block_def result_simps)
    with wf h show ?thesis
      by (simp add: store_wf_def blocks_wf_insert transactions_wf_more_blocks)
  qed (use 1 wf in \<open>auto split: if_splits\<close>)
  then have "store_wf db2" using sql_for_each_invariant [OF _ _ 2, of store_wf] upsert_transaction_wf by blast
  then have "store_wf db3" using sql_for_each_invariant [OF _ _ 3, of store_wf] upsert_account_wf by blast
  then have "store_wf (fold upsert_metadata (finalized_metadata b) db3)" by (rule upsert_metadata_wf)
  then show ?thesis unfolding 4 by (simp add: clear_safety_def store_wf_def)
qed

lemma find_decision_None: "find_decision db slot = None \<Longrightarrow> slot \<notin> pd_slot ` set (db_signer_state db)"
  by (auto simp: find_decision_def find_None_iff)

lemma store_apply_wf:
  assumes wf: "store_wf db"
  shows "store_wf (store_apply cks db op)"
proof (cases op)
  case (PersistFinalized b)
  with wf persist_finalized_wf [of db b] show ?thesis
    by (cases "persist_finalized_statements b db") (auto simp: persist_finalized_def)
next
  case (RefreshBlock b)
  obtain db' res where r: "refresh_block_projection db b = (db', res)" by fastforce
  have "fp_height b < 0x8000000000000000" if "bt_get (db_blocks db) (fp_height b) = Some row" for row
    using wf that by (simp add: store_wf_def blocks_wf_def)
  with refresh_ok [OF r] wf RefreshBlock r show ?thesis
    by (auto simp: store_wf_def blocks_wf_insert transactions_wf_more_blocks)
next
  case (AppendEvent kind x)
  with wf show ?thesis by (simp add: append_consensus_event_def store_wf_def Let_def)
next
  case (PersistDecision slot sb sig ss sm)
  obtain db' res where r: "persist_consensus_decision db slot sb sig ss sm = (db', res)" by fastforce
  have "map pd_slot (map (\<lambda>d. if pd_slot d = slot then d\<lparr>pd_signed_message := sm\<rparr> else d) ds) = map pd_slot ds"
    for ds :: "persisted_decision list"
    by (induction ds) auto
  then have "store_wf (update_signed_message db slot sm)"
    using wf by (simp add: store_wf_def update_signed_message_def del: map_map)
  with r have "store_wf db'"
    by (cases rule: persist_decision_cases) (use wf in \<open>auto simp: store_wf_def dest: find_decision_None\<close>)
  with PersistDecision r show ?thesis by simp
next
  case (PersistProposal p)
  obtain db' res where r: "persist_consensus_proposal db p = (db', res)" by fastforce
  from persist_proposal_ok [OF r] wf PersistProposal r show ?thesis
    by (auto simp: store_wf_def split: if_splits)
next
  case ClearProjections
  with wf show ?thesis by (simp add: clear_projections_def store_wf_def transactions_wf_def bt_wf_def)
qed

lemma store_empty_wf: "store_wf store_empty"
  by (simp add: store_empty_def store_wf_def blocks_wf_def transactions_wf_def)

lemma store_runs_wf: "store_runs cks db db' \<Longrightarrow> store_wf db \<Longrightarrow> store_wf db'"
  by (induction rule: store_runs.induct) (auto intro: store_apply_wf)

end
