(* ===== verification/StorageProps.thy ===== *)
theory StorageProps
  imports StorageInv
begin

text \<open>
  The properties of the store over any sequence of operations: its tables stay well formed,
  finalized bytes and signing decisions are permanent, a failed operation changes nothing,
  and pages of blocks join up.
\<close>

section \<open>Properties\<close>

text \<open>
  C30: Every store reachable from the empty one is well formed: rows sit under their keys,
  heights fit SQLite's integers, no two blocks share a hash, every transaction row refers to
  a stored block and has its position to itself, and signer slots are unique.
\<close>

theorem reachable_store_is_well_formed:
  assumes "store_runs cks store_empty db"
  shows "store_wf db"
  using assms store_empty_wf by (rule store_runs_wf)

definition demo_projection :: "finalized_projection" where
  "demo_projection =
     \<lparr>fp_height = 1, fp_block_hash = str ''aa'', fp_parent_hash = str ''00'', fp_state_root = str ''11'',
      fp_proposer = str ''v1'', fp_round = 0, fp_timestamp_ms = 5, fp_block_bytes = [1, 2],
      fp_certificate_bytes = [3],
      fp_transactions =
        [\<lparr>tp_id = str ''t'', tp_index = 0, tp_kind = str ''transfer'', tp_sender = str ''a'',
          tp_recipient = Some (str ''b''), tp_amount_atoms = 7, tp_nonce = 0\<rparr>],
      fp_changed_accounts =
        [\<lparr>ap_address = str ''a'', ap_balance_atoms = 3, ap_nonce = 1, ap_display_name = None,
          ap_transaction_count = 1\<rparr>],
      fp_issued_supply_atoms = 10, fp_challenge_json = str ''c''\<rparr>"

definition demo_store :: store where
  "demo_store =
     store_apply (\<lambda>_. [])
       (store_apply (\<lambda>_. []) store_empty (PersistDecision (str ''1/0/prevote'') [1] [2] [3] [4]))
       (PersistFinalized demo_projection)"

lemma demo_store_runs: "store_runs (\<lambda>_. []) store_empty demo_store"
  unfolding demo_store_def by (rule store_runs_step [OF store_runs_step [OF store_runs_refl]])

lemma demo_store_block: "bt_get (db_blocks demo_store) 1 = Some (block_row_of demo_projection)"
  by code_simp

theorem reachable_store_is_well_formed_witness:
  "store_wf demo_store \<and> store_tip demo_store = Some (block_row_of demo_projection)"
proof
  show "store_wf demo_store" by (rule reachable_store_is_well_formed [OF demo_store_runs])
qed code_simp

text \<open>
  C17: Finality is permanent: once a block's bytes and certificate are stored at a height,
  they are what every later read of that height returns, whatever operations, re-indexing
  included, run in between.
\<close>

theorem finalized_bytes_are_permanent:
  assumes "store_runs cks store_empty db" and "store_runs cks db db'"
    and "block_by_height db h = Inr (Some row)"
  shows "\<exists>row'. block_by_height db' h = Inr (Some row') \<and>
     br_block_bytes row' = br_block_bytes row \<and> br_certificate_bytes row' = br_certificate_bytes row"
proof -
  have row: "bt_get (db_blocks db) h = Some row" "h < 0x8000000000000000"
    using assms(3) by (auto simp: block_by_height_def result_simps)
  then have "finalized_bytes db h = Some (br_block_bytes row, br_certificate_bytes row)"
    by (simp add: finalized_bytes_def)
  from finality.permanent [OF assms(2) this] show ?thesis
    using row(2) by (auto simp: finalized_bytes_def block_by_height_def sql_u64_def)
qed

theorem finalized_bytes_are_permanent_witness:
  "\<exists>row. block_by_height (store_apply (\<lambda>_. []) demo_store
        (PersistFinalized (demo_projection\<lparr>fp_block_bytes := [9]\<rparr>))) 1 = Inr (Some row) \<and>
     br_block_bytes row = [1, 2]"
proof -
  have "block_by_height demo_store 1 = Inr (Some (block_row_of demo_projection))"
    using demo_store_block by (simp add: block_by_height_def sql_u64_def)
  from finalized_bytes_are_permanent [OF demo_store_runs store_runs_step [OF store_runs_refl] this,
      of "PersistFinalized (demo_projection\<lparr>fp_block_bytes := [9]\<rparr>)"]
  show ?thesis by (auto simp: block_row_of_def demo_projection_def)
qed

text \<open>
  C16: No double signing: once a signer slot holds a decision, every later request for that
  slot, after any operations, is refused unless it is for the same signing bytes and the
  same safety state, and then it returns the signature stored first.
\<close>

theorem signer_slot_signs_once:
  assumes "persist_consensus_decision db slot sb sig ss sm = (db1, Inr stored)"
    and "store_runs cks db1 db2"
    and "persist_consensus_decision db2 slot sb' sig' ss' sm' = (db3, Inr stored')"
  shows "sb' = sb \<and> ss' = ss \<and> stored' = stored"
proof -
  have first: "signed_decision db1 slot = Some (sb, stored, ss)"
    using assms(1)
  proof (cases rule: persist_decision_cases)
    case (again d)
    then show ?thesis by (auto simp: signed_decision_def find_decision_update)
  next
    case (new h)
    then show ?thesis using find_decision_new [OF new(1), of db1] by (simp add: signed_decision_def)
  qed simp
  note later = signing.permanent [OF assms(2) first]
  from assms(3) show ?thesis
    by (cases rule: persist_decision_cases) (use later in \<open>auto simp: signed_decision_def\<close>)
qed

theorem signer_slot_signs_once_witness:
  "\<forall>db sig. persist_consensus_decision demo_store (str ''1/0/prevote'') [7] [8] [3] [4] \<noteq> (db, Inr sig)"
proof (intro allI notI)
  fix db sig assume r: "persist_consensus_decision demo_store (str ''1/0/prevote'') [7] [8] [3] [4] = (db, Inr sig)"
  obtain db1 where 1: "persist_consensus_decision store_empty (str ''1/0/prevote'') [1] [2] [3] [4] = (db1, Inr [2])"
    "store_apply (\<lambda>_. []) store_empty (PersistDecision (str ''1/0/prevote'') [1] [2] [3] [4]) = db1"
  proof
    have "snd (persist_consensus_decision store_empty (str ''1/0/prevote'') [1] [2] [3] [4]) = Inr [2]" by code_simp
    then show "persist_consensus_decision store_empty (str ''1/0/prevote'') [1] [2] [3] [4] =
        (fst (persist_consensus_decision store_empty (str ''1/0/prevote'') [1] [2] [3] [4]), Inr [2])"
      by (metis prod.collapse)
  qed simp
  have "store_runs (\<lambda>_. []) db1 demo_store"
    unfolding demo_store_def 1(2) by (rule store_runs_step [OF store_runs_refl])
  from signer_slot_signs_once [OF 1(1) this r] show False by simp
qed

text \<open>
  C20: Persisting a finalized block is atomic. A failure changes nothing; a different block
  at the height is refused as conflicting finality; success leaves the block readable at
  its height with its hash, every other height and every signing decision as before, and
  no safety state of that height.
\<close>

theorem persist_finalized_is_atomic:
  assumes "persist_finalized db b = (db', res)"
  shows "(\<forall>e. res = Inl e \<longrightarrow> db' = db) \<and>
    (\<forall>row. fp_height b < 0x8000000000000000 \<longrightarrow> bt_get (db_blocks db) (fp_height b) = Some row \<longrightarrow>
       br_block_hash row \<noteq> fp_block_hash b \<longrightarrow> res = Inl (ConflictingFinality (fp_height b))) \<and>
    (res = Inr () \<longrightarrow>
       (\<exists>row. block_by_height db' (fp_height b) = Inr (Some row) \<and> br_block_hash row = fp_block_hash b) \<and>
       (\<forall>h. h \<noteq> fp_height b \<longrightarrow> block_by_height db' h = block_by_height db h) \<and>
       db_signer_state db' = db_signer_state db \<and>
       (\<forall>ss. consensus_safety_state db' \<noteq> Some (fp_height b, ss)))"
proof (cases "persist_finalized_statements b db")
  case (Inl e)
  then have "db' = db" "res = Inl e" using assms by (auto simp: persist_finalized_def)
  with Inl show ?thesis
    by (auto simp: persist_finalized_statements_def sql_u64_def result_simps)
next
  case (Inr db1)
  then have new: "db' = db1" "res = Inr ()" using assms by (auto simp: persist_finalized_def)
  note ok = persist_finalized_ok [OF Inr]
  have "block_by_height db' h = block_by_height db h" if "h \<noteq> fp_height b" for h
    using that unfolding new by (simp add: block_by_height_def ok(1))
  moreover have "\<exists>row. block_by_height db' (fp_height b) = Inr (Some row) \<and> br_block_hash row = fp_block_hash b"
    using ok(2,8) unfolding new
    by (cases "bt_get (db_blocks db) (fp_height b)")
      (auto simp: block_by_height_def ok(1) sql_u64_def block_row_of_def)
  moreover have "consensus_safety_state db' \<noteq> Some (fp_height b, ss)" for ss
    unfolding new consensus_safety_state_def ok(7) by (auto simp: clear_safety_def split: option.splits)
  ultimately show ?thesis using new ok(2,4) by auto
qed

theorem persist_finalized_is_atomic_witness:
  "snd (persist_finalized demo_store (demo_projection\<lparr>fp_block_hash := str ''bb''\<rparr>)) = Inl (ConflictingFinality 1) \<and>
   consensus_safety_state demo_store \<noteq> Some (1, [3])"
proof
  show "snd (persist_finalized demo_store (demo_projection\<lparr>fp_block_hash := str ''bb''\<rparr>)) = Inl (ConflictingFinality 1)"
    using persist_finalized_is_atomic [of demo_store "demo_projection\<lparr>fp_block_hash := str ''bb''\<rparr>"] demo_store_block
    by (cases "persist_finalized demo_store (demo_projection\<lparr>fp_block_hash := str ''bb''\<rparr>)")
      (auto simp: demo_projection_def block_row_of_def str_def)
qed code_simp

text \<open>
  Pages of blocks join up: on a well-formed store, asking again with the height of a
  page's last block returns exactly the blocks that follow it, newest first, so that no
  block is skipped or repeated.
\<close>

theorem block_pages_join:
  assumes "store_wf db" and "list_blocks db before limit = Inr page" and "page \<noteq> []"
  shows "list_blocks db (Some (br_height (last page))) limit' =
    Inr (take (u32_clamp limit' 1 101) (drop (length page)
      (filter (\<lambda>row. case before of None \<Rightarrow> True | Some h \<Rightarrow> br_height row < h)
        (rev (canonical_block_rows db)))))"
proof -
  let ?older = "\<lambda>row. case before of None \<Rightarrow> True | Some h \<Rightarrow> br_height row < h"
  let ?all = "rev (bt_values (db_blocks db))"
  have bs: "blocks_wf (db_blocks db)" using assms(1) by (simp add: store_wf_def)
  have key: "br_height (snd kv) = fst kv" "fst kv < 0x8000000000000000" if "kv \<in> set (db_blocks db)" for kv
    using bs that bt_get_iff [of "db_blocks db" "fst kv" "snd kv"] by (auto simp: blocks_wf_def)
  have "map br_height (bt_values (db_blocks db)) = map fst (db_blocks db)"
    using key by (auto simp: bt_values_def)
  then have "sorted_wrt (<) (map br_height (bt_values (db_blocks db)))"
    using bs by (simp add: blocks_wf_def bt_wf_def)
  then have sorted: "sorted_wrt (\<lambda>r s. br_height s < br_height r) ?all"
    by (simp add: sorted_wrt_map sorted_wrt_rev)
  let ?rows = "filter ?older ?all"
  have srows: "sorted_wrt (\<lambda>r s. br_height s < br_height r) ?rows"
    using sorted by (rule sorted_wrt_filter)
  have page: "page = take (u32_clamp limit 1 101) ?rows"
    using assms(2) by (auto simp: list_blocks_def result_simps)
  let ?n = "length page"
  have split: "?rows = page @ drop ?n ?rows"
    unfolding page by (cases "u32_clamp limit 1 101 \<le> length ?rows") simp_all
  have last: "last page \<in> set ?rows" using assms(3) page by (metis in_set_takeD last_in_set)
  have below: "br_height s < br_height (last page)" if "s \<in> set (drop ?n ?rows)" for s
  proof -
    have "sorted_wrt (\<lambda>r s. br_height s < br_height r) (page @ drop ?n ?rows)" using srows split by simp
    with that assms(3) show ?thesis by (auto simp: sorted_wrt_append)
  qed
  have above: "br_height (last page) \<le> br_height s" if "s \<in> set page" for s
  proof -
    have "sorted_wrt (\<lambda>r s. br_height s < br_height r) (page @ drop ?n ?rows)" using srows split by simp
    then have "sorted_wrt (\<lambda>r s. br_height s < br_height r) (butlast page @ [last page])"
      using assms(3) by (simp add: sorted_wrt_append)
    moreover have "s \<in> set (butlast page) \<or> s = last page"
    proof -
      have "page = butlast page @ [last page]" using assms(3) by simp
      then have "set page = set (butlast page) \<union> {last page}" by (metis set_append list.set(1) list.set(2))
      with that show ?thesis by blast
    qed
    ultimately show ?thesis by (auto simp: sorted_wrt_append)
  qed
  have "filter (\<lambda>row. br_height row < br_height (last page)) ?all =
      filter (\<lambda>row. br_height row < br_height (last page)) ?rows"
  proof -
    have "?older row" if "br_height row < br_height (last page)" for row
      using last that by (auto split: option.splits)
    then show ?thesis by (auto intro!: filter_cong)
  qed
  also have "\<dots> = filter (\<lambda>row. br_height row < br_height (last page)) (page @ drop ?n ?rows)"
    using split by simp
  also have "\<dots> = drop ?n ?rows"
  proof -
    have "filter (\<lambda>row. br_height row < br_height (last page)) page = []"
      using above by (auto simp: filter_empty_conv not_less)
    moreover have "filter (\<lambda>row. br_height row < br_height (last page)) (drop ?n ?rows) = drop ?n ?rows"
      using below by (auto simp: filter_id_conv)
    ultimately show ?thesis by simp
  qed
  finally have "filter (\<lambda>row. br_height row < br_height (last page)) ?all = drop ?n ?rows" .
  moreover have "br_height (last page) < 0x8000000000000000"
    using last key by (auto simp: bt_values_def)
  ultimately show ?thesis
    by (simp add: list_blocks_def sql_opt_u64_def sql_u64_def canonical_block_rows_def)
qed

theorem block_pages_join_witness:
  "list_blocks demo_store (Some 1) 5 = Inr []"
proof -
  have one: "list_blocks demo_store None 1 = Inr [block_row_of demo_projection]" by code_simp
  have wf: "store_wf demo_store" using demo_store_runs store_empty_wf by (rule store_runs_wf)
  have "canonical_block_rows demo_store = [block_row_of demo_projection]" by code_simp
  with block_pages_join [OF wf one, of 5] show ?thesis
    by (simp add: block_row_of_def demo_projection_def)
qed

end
