(* ===== verification/Node.thy ===== *)
theory Node
  imports Engine Storage EngineStart
begin

text \<open>
  The parts of \<open>kcoin-node/src/runtime.rs\<close> between the engine and the store: the checks the
  node hands to the engine, signing a decision and storing it before it may be broadcast,
  and rebuilding an interrupted engine from the store. Error values keep the kind of the
  failure and its fixed message, not the interpolated numbers.
\<close>

section \<open>Third-party encodings\<close>

record node_env = consensus_env +
  blake3_hash_hex :: "bytes \<Rightarrow> rstring"
  json_safety :: "safety_state \<Rightarrow> bytes option"
    \<comment> \<open>\<open>serde_json::to_vec\<close> and \<open>from_slice\<close>\<close>
  json_safety_parse :: "bytes \<Rightarrow> safety_state option"
  borsh_message :: "signed_message \<Rightarrow> bytes option"
  borsh_message_parse :: "bytes \<Rightarrow> signed_message option"
  borsh_proposal :: "signed_proposal \<Rightarrow> bytes option"
  borsh_proposal_parse :: "bytes \<Rightarrow> signed_proposal option"
  validation_error_text :: "validation_error \<Rightarrow> rstring"
  certificate_error_text :: "protocol_certificate_error \<Rightarrow> rstring"
  json_challenge :: "rstring \<Rightarrow> rstring \<Rightarrow> rstring \<Rightarrow> rstring \<Rightarrow> rstring"
    \<comment> \<open>\<open>json!\<close> of challenge id, expression, issuing height and reward\<close>
  json_challenge_parse :: "rstring \<Rightarrow> (rstring option \<times> rstring option) option"
    \<comment> \<open>the string fields \<open>challenge_id\<close> and \<open>issued_at_height\<close> of a JSON value\<close>

datatype node_error =
    NodeStorage storage_error
  | NodeConsensus consensus_error
  | NodeValidation validation_error
  | NodeSigning signing_bytes_error
  | NodeCertificate protocol_certificate_error
  | NodeApp app_error
  | NodeValidatorSet validator_set_error
  | NodeSerialization
  | NodeBail string

section \<open>Identities\<close>

datatype node_role = Validator | Observer | Standalone

record node_config =
  nc_chain_id :: rstring
  nc_role :: node_role
  nc_validator_index :: "u16 option"
  nc_heartbeat_ms :: u64
  nc_demo :: bool

definition deterministic_dev_validator_keys :: "'z crypto_env_scheme \<Rightarrow> bytes list" where
  "deterministic_dev_validator_keys env =
     map (\<lambda>index. blake3_derive_key env ''kcoin.dev/v1/local-validator-key'' [index]) [1, 2, 3, 4]"

definition dev_validator_ids :: "'z crypto_env_scheme \<Rightarrow> validator_id list" where
  "dev_validator_ids env =
     map (validator_from_signing_key env) (deterministic_dev_validator_keys env)"

definition local_consensus_id :: "'z crypto_env_scheme \<Rightarrow> bytes \<Rightarrow> cvalidator_id" where
  "local_consensus_id env key = cvid_of_protocol (validator_from_signing_key env key)"

fun signer_slot :: "signable_message \<Rightarrow> rstring" where
  "signer_slot (SignableProposal p) =
     u64_to_string (p_height p) @ str ''/'' @ u32_to_string (p_round p) @ str ''/proposal''"
| "signer_slot (SignableVote v) =
     u64_to_string (v_height v) @ str ''/'' @ u32_to_string (v_round v) @ str ''/'' @
       (case v_kind v of Prevote \<Rightarrow> str ''prevote'' | Precommit \<Rightarrow> str ''precommit'')"

fun signed_message_of :: "signable_message \<Rightarrow> bytes \<Rightarrow> signed_message" where
  "signed_message_of (SignableProposal p) signature =
     MessageProposal \<lparr>sp_proposal = p, sp_signature = signature\<rparr>"
| "signed_message_of (SignableVote v) signature =
     MessageVote \<lparr>sv_vote = v, sv_signature = signature\<rparr>"

definition expected_protocol_proposer :: "validator_id list \<Rightarrow> u64 \<Rightarrow> u32 \<Rightarrow> validator_id option" where
  "expected_protocol_proposer validators height round =
     (if validators = [] \<or> height = 0 then None
      else let count = (of_nat (length validators) :: u64);
               height_offset = saturating_sub height 1 mod count;
               round_offset = (ucast round :: u64) mod count;
               index = unat ((height_offset + round_offset) mod count)
      in if index < length validators then Some (validators ! index) else None)"

section \<open>What the node checks for the engine\<close>

definition node_validate_proposal ::
  "'z node_env_scheme \<Rightarrow> ledger_state \<Rightarrow> (block_id, block) btree_map \<Rightarrow> validator_id list \<Rightarrow>
   signed_proposal \<Rightarrow> app_error + unit" where
  "node_validate_proposal env ledger blocks validators p =
     and_then (verify_ed25519_proposal env p) (\<lambda>_.
     and_then (ok_or (bt_get blocks (p_block_id (sp_proposal p))) AppInvalidProposal) (\<lambda>b.
       let header = bk_header b in
       if block_id_of_hash (consensus_hash env b) \<noteq> p_block_id (sp_proposal p) \<or>
          bh_height header \<noteq> p_height (sp_proposal p) \<or>
          bh_round header > p_round (sp_proposal p) \<or>
          expected_protocol_proposer validators (bh_height header) (bh_round header) \<noteq>
            Some (bh_proposer header)
       then Inl AppInvalidProposal
       else case apply_block env ledger b of
         (_, Inl e) \<Rightarrow> Inl (AppOther (validation_error_text env e))
       | (_, Inr _) \<Rightarrow> Inr ()))"

definition node_validate_certificate ::
  "'z node_env_scheme \<Rightarrow> (block_id, block) btree_map \<Rightarrow> validator_id list \<Rightarrow>
   ccertificate \<Rightarrow> app_error + unit" where
  "node_validate_certificate env blocks validators certificate =
     and_then (ok_or (bt_get blocks (ct_block_id certificate)) AppInvalidCertificate) (\<lambda>b.
     and_then (map_err (\<lambda>e. AppOther (certificate_error_text env e)) (ccertificate_to_protocol certificate))
       (\<lambda>protocol.
         map_err (\<lambda>e. AppOther (validation_error_text env e))
           (certificate_verify_for_block env protocol b validators)))"

definition node_message_validator ::
  "'z node_env_scheme \<Rightarrow> ledger_state \<Rightarrow> (block_id, block) btree_map \<Rightarrow> validator_id list \<Rightarrow>
   message_validator" where
  "node_message_validator env ledger blocks validators =
     \<lparr>validate_proposal = node_validate_proposal env ledger blocks validators,
      validate_vote = verify_ed25519_vote env,
      validate_certificate_app = node_validate_certificate env blocks validators\<rparr>"

section \<open>Signing and storing a decision\<close>

definition local_signer :: "signable_message \<Rightarrow> cvalidator_id" where
  "local_signer message =
     (case message of SignableProposal p \<Rightarrow> p_proposer p | SignableVote v \<Rightarrow> v_validator v)"

text \<open>A storage operation inside a node operation: the store is kept also on failure.\<close>

definition lift_store ::
  "store \<times> (storage_error + 'a) \<Rightarrow> store \<times> (node_error + 'a)" where
  "lift_store p = (fst p, map_err NodeStorage (snd p))"

text \<open>A local proposal is stored with its block bytes first.\<close>

definition persist_local_proposal ::
  "'z node_env_scheme \<Rightarrow> (block_id, block) btree_map \<Rightarrow> store \<Rightarrow> signed_message \<Rightarrow>
   store \<times> (node_error + unit)" where
  "persist_local_proposal env blocks db message =
     (case message of
        MessageVote _ \<Rightarrow> (db, Inr ())
      | MessageProposal sgnd \<Rightarrow>
          (case bt_get blocks (p_block_id (sp_proposal sgnd)) of
             None \<Rightarrow> (db, Inl (NodeBail ''local proposal block bytes are unavailable''))
           | Some b \<Rightarrow>
             (case borsh_proposal env sgnd of
                None \<Rightarrow> (db, Inl NodeSerialization)
              | Some x \<Rightarrow>
                  lift_store (persist_consensus_proposal db
                    \<lparr>pp_height = p_height (sp_proposal sgnd), pp_round = p_round (sp_proposal sgnd),
                     pp_block_id = blk_bytes (p_block_id (sp_proposal sgnd)),
                     pp_block_bytes = block_canonical_bytes env b, pp_signed_proposal = x\<rparr>))))"

definition sign_and_persist ::
  "'z node_env_scheme \<Rightarrow> bytes option \<Rightarrow> (block_id, block) btree_map \<Rightarrow> store \<Rightarrow>
   signable_message \<Rightarrow> safety_state \<Rightarrow> store \<times> (node_error + signed_message)" where
  "sign_and_persist env key blocks db message ss =
     (case key of
        None \<Rightarrow> (db, Inl (NodeBail ''validator signing key is missing''))
      | Some signing_key \<Rightarrow>
        if local_signer message \<noteq> local_consensus_id env signing_key
        then (db, Inl (NodeBail ''consensus requested a signature for another validator''))
        else case signable_signing_bytes env message of
          Inl e \<Rightarrow> (db, Inl (NodeSigning e))
        | Inr sign_bytes \<Rightarrow>
          let generated = ed25519_sign env signing_key sign_bytes in
          case json_safety env ss of
            None \<Rightarrow> (db, Inl NodeSerialization)
          | Some safety_bytes \<Rightarrow>
            let slot = signer_slot message;
                provisional = signed_message_of message generated in
            case borsh_message env provisional of
              None \<Rightarrow> (db, Inl NodeSerialization)
            | Some encoded \<Rightarrow>
              st_then (persist_local_proposal env blocks db provisional) (\<lambda>db _.
              st_then (lift_store (persist_consensus_decision db slot sign_bytes generated safety_bytes encoded))
                (\<lambda>db signature.
                  let sgnd = signed_message_of message signature in
                  case borsh_message env sgnd of
                    None \<Rightarrow> (db, Inl NodeSerialization)
                  | Some x \<Rightarrow>
                      (fst (append_consensus_event (blake3_hash_hex env) db (str ''signed'') x), Inr sgnd))))"

section \<open>Recovery\<close>

datatype consensus_wire = WireProposal signed_proposal block | WireVote signed_vote

record consensus_recovery =
  cr_consensus :: "consensus option"
  cr_proposal_blocks :: "(block_id, block) btree_map"
  cr_replay_messages :: "signed_message list"
  cr_rebroadcast_wires :: "consensus_wire list"

definition no_recovery :: "consensus option \<Rightarrow> consensus_recovery" where
  "no_recovery c =
     \<lparr>cr_consensus = c, cr_proposal_blocks = [], cr_replay_messages = [], cr_rebroadcast_wires = []\<rparr>"

definition validate_recovered_safety_state :: "safety_state \<Rightarrow> node_error + unit" where
  "validate_recovered_safety_state ss =
     (if (ss_locked_round ss \<noteq> None) \<noteq> (ss_locked_block ss \<noteq> None) \<or>
         (case ss_locked_round ss of None \<Rightarrow> False | Some locked_round \<Rightarrow> locked_round > ss_round ss)
      then Inl (NodeBail ''persisted consensus safety state has an invalid lock'')
      else Inr ())"

definition verify_signed_message :: "'z consensus_env_scheme \<Rightarrow> signed_message \<Rightarrow> app_error + unit" where
  "verify_signed_message env message =
     (case message of
        MessageProposal p \<Rightarrow> verify_ed25519_proposal env p
      | MessageVote v \<Rightarrow> verify_ed25519_vote env v)"

definition validate_persisted_decision ::
  "'z node_env_scheme \<Rightarrow> persisted_decision \<Rightarrow> u64 \<Rightarrow> node_error + signed_message" where
  "validate_persisted_decision env persisted height =
     and_then (ok_or (borsh_message_parse env (pd_signed_message persisted)) NodeSerialization) (\<lambda>sgnd.
     and_then (map_err NodeApp (verify_signed_message env sgnd)) (\<lambda>_.
     and_then
       (if message_signature sgnd \<noteq> pd_signature persisted
        then Inl (NodeBail ''persisted consensus signing record is internally inconsistent'')
        else and_then (map_err NodeSigning (message_signing_bytes env sgnd)) (\<lambda>sign_bytes.
          if sign_bytes \<noteq> pd_sign_bytes persisted \<or>
             signer_slot (message_signable sgnd) \<noteq> pd_slot persisted
          then Inl (NodeBail ''persisted consensus signing record is internally inconsistent'')
          else Inr ())) (\<lambda>_.
     and_then (ok_or (json_safety_parse env (pd_safety_state persisted)) NodeSerialization) (\<lambda>ss.
       if ss_height ss \<noteq> height
       then Inl (NodeBail ''persisted decision belongs to a stale or future height'')
       else and_then (validate_recovered_safety_state ss) (\<lambda>_. Inr sgnd)))))"

text \<open>The loop over the stored proposals, with the three collections it fills.\<close>

type_synonym recovered_proposals =
  "(block_id, block) btree_map \<times> (block_id \<times> u32, block) btree_map \<times> signed_message list"

definition recover_proposal ::
  "'z node_env_scheme \<Rightarrow> rstring \<Rightarrow> validator_id list \<Rightarrow> validator_set \<Rightarrow> u64 \<Rightarrow>
   persisted_proposal \<Rightarrow> recovered_proposals \<Rightarrow> node_error + recovered_proposals" where
  "recover_proposal env chain validator_ids validators height persisted = (\<lambda>(blocks, variants, messages).
     if length (pp_block_id persisted) \<noteq> 32
     then Inl (NodeBail ''persisted proposal block id must be 32 bytes'')
     else let b_id = BlockId (pp_block_id persisted) in
     and_then (map_err NodeValidation (block_decode env (pp_block_bytes persisted))) (\<lambda>b.
     and_then (ok_or (borsh_proposal_parse env (pp_signed_proposal persisted)) NodeSerialization) (\<lambda>sgnd.
     and_then (map_err NodeApp (verify_ed25519_proposal env sgnd)) (\<lambda>_.
       let p = sp_proposal sgnd; header = bk_header b in
       if pp_height persisted \<noteq> height \<or> pp_round persisted \<noteq> p_round p \<or> p_height p \<noteq> height \<or>
          p_chain_id p \<noteq> chain \<or> p_block_id p \<noteq> b_id \<or>
          block_id_of_hash (consensus_hash env b) \<noteq> b_id \<or>
          vs_proposer validators height (p_round p) \<noteq> p_proposer p \<or>
          bh_round header > p_round p \<or>
          expected_protocol_proposer validator_ids (bh_height header) (bh_round header) \<noteq>
            Some (bh_proposer header)
       then Inl (NodeBail ''persisted proposal context is inconsistent'')
       else if (case bt_get blocks b_id of None \<Rightarrow> False | Some existing \<Rightarrow> existing \<noteq> b)
       then Inl (NodeBail ''persisted proposal bytes conflict for one canonical block id'')
       else Inr (bt_insert b_id b blocks, bt_insert (b_id, p_round p) b variants,
                 messages @ [MessageProposal sgnd])))))"

fun recover_proposals ::
  "'z node_env_scheme \<Rightarrow> rstring \<Rightarrow> validator_id list \<Rightarrow> validator_set \<Rightarrow> u64 \<Rightarrow>
   persisted_proposal list \<Rightarrow> recovered_proposals \<Rightarrow> node_error + recovered_proposals" where
  "recover_proposals env chain validator_ids validators height [] acc = Inr acc"
| "recover_proposals env chain validator_ids validators height (p # ps) acc =
     and_then (recover_proposal env chain validator_ids validators height p acc)
       (recover_proposals env chain validator_ids validators height ps)"

definition revalidate_proposal :: "message_validator \<Rightarrow> signed_message \<Rightarrow> node_error + unit" where
  "revalidate_proposal mv message =
     (case message of
        MessageProposal p \<Rightarrow> map_err NodeApp (validate_proposal mv p)
      | MessageVote _ \<Rightarrow> Inr ())"

text \<open>The loop that restores the engine's memory of its signer slots.\<close>

fun restore_decisions ::
  "'z node_env_scheme \<Rightarrow> u64 \<Rightarrow> consensus \<Rightarrow> persisted_decision list \<Rightarrow>
   node_error + consensus \<times> signed_message list" where
  "restore_decisions env height c [] = Inr (c, [])"
| "restore_decisions env height c (d # ds) =
     and_then (validate_persisted_decision env d height) (\<lambda>sgnd.
       case restore_local_decision c (message_signable sgnd) of
         (_, Inl e) \<Rightarrow> Inl (NodeConsensus e)
       | (c', Inr _) \<Rightarrow>
           and_then (restore_decisions env height c' ds) (\<lambda>(c'', messages).
             Inr (c'', sgnd # messages)))"

definition add_missing :: "signed_message list \<Rightarrow> signed_message list \<Rightarrow> signed_message list" where
  "add_missing messages local =
     fold (\<lambda>message ms. if message \<in> set ms then ms else ms @ [message]) local messages"

definition rebroadcast_wire ::
  "(block_id \<times> u32, block) btree_map \<Rightarrow> signed_message \<Rightarrow> node_error + consensus_wire" where
  "rebroadcast_wire variants message =
     (case message of
        MessageProposal sgnd \<Rightarrow>
          and_then (ok_or (bt_get variants (p_block_id (sp_proposal sgnd), p_round (sp_proposal sgnd)))
              (NodeBail ''durable local proposal is missing its exact block variant''))
            (\<lambda>b. Inr (WireProposal sgnd b))
      | MessageVote v \<Rightarrow> Inr (WireVote v))"

definition block_is_missing :: "(block_id, block) btree_map \<Rightarrow> block_id option \<Rightarrow> bool" where
  "block_is_missing blocks b = (case b of None \<Rightarrow> False | Some b_id \<Rightarrow> bt_get blocks b_id = None)"

text \<open>The part after the safety state has been decoded.\<close>

definition recover_from_safety_state ::
  "'z node_env_scheme \<Rightarrow> node_config \<Rightarrow> store \<Rightarrow> ledger_state \<Rightarrow> validator_id list \<Rightarrow>
   validator_set \<Rightarrow> cvalidator_id \<Rightarrow> u64 \<Rightarrow> bytes \<Rightarrow> safety_state \<Rightarrow> node_error + consensus_recovery" where
  "recover_from_safety_state env config db ledger validator_ids validators local_id height safety_bytes ss =
     and_then (map_err NodeStorage (consensus_proposals db height)) (\<lambda>persisted.
     and_then (recover_proposals env (nc_chain_id config) validator_ids validators height persisted ([], [], []))
       (\<lambda>(blocks, variants, proposal_messages).
     if block_is_missing blocks (ss_locked_block ss)
     then Inl (NodeBail ''restored lock is missing its persisted proposal block'')
     else if block_is_missing blocks (ss_valid_block ss)
     then Inl (NodeBail ''restored valid value is missing its persisted proposal block'')
     else let application_validator = node_message_validator env ledger blocks validator_ids in
     and_then (check_all (revalidate_proposal application_validator) proposal_messages) (\<lambda>_.
     and_then (map_err NodeConsensus (consensus_new_with_safety_state local_id validators height
                 (config_for_chain (nc_chain_id config)) ss application_validator)) (\<lambda>c.
     let decisions = consensus_decisions db height in
     if decisions = []
     then Inl (NodeBail ''active consensus safety state has no durable signing decision'')
     else if pd_safety_state (last decisions) \<noteq> safety_bytes
     then Inl (NodeBail ''active consensus safety state does not match the latest decision'')
     else and_then (restore_decisions env height c decisions) (\<lambda>(c, local_messages).
     and_then (collect_results (rebroadcast_wire variants) local_messages) (\<lambda>wires.
       Inr \<lparr>cr_consensus = Some c, cr_proposal_blocks = blocks,
            cr_replay_messages = add_missing proposal_messages local_messages,
            cr_rebroadcast_wires = wires\<rparr>))))))"

definition initialize_consensus_recovery ::
  "'z node_env_scheme \<Rightarrow> node_config \<Rightarrow> store \<Rightarrow> ledger_state \<Rightarrow> validator_id list \<Rightarrow>
   cvalidator_id list \<Rightarrow> bytes option \<Rightarrow> node_error + consensus_recovery" where
  "initialize_consensus_recovery env config db ledger validator_ids consensus_ids key =
     (case key of
        None \<Rightarrow> Inr (no_recovery None)
      | Some signing_key \<Rightarrow>
        let local_id = local_consensus_id env signing_key; height = ls_height ledger + 1 in
        and_then (map_err NodeValidatorSet (validator_set_new consensus_ids)) (\<lambda>validators.
        let consensus_config = config_for_chain (nc_chain_id config) in
        case consensus_safety_state db of
          None \<Rightarrow>
            and_then (map_err NodeConsensus (consensus_new local_id validators height consensus_config))
              (\<lambda>c. Inr (no_recovery (Some c)))
        | Some (stored_safety_height, safety_bytes) \<Rightarrow>
          if stored_safety_height \<noteq> height
          then Inl (NodeBail ''active consensus safety row belongs to another height'')
          else and_then (ok_or (json_safety_parse env safety_bytes) NodeSerialization) (\<lambda>ss.
          if ss_height ss \<noteq> height
          then Inl (NodeBail ''active consensus safety state belongs to another height'')
          else and_then (validate_recovered_safety_state ss) (\<lambda>_.
            recover_from_safety_state env config db ledger validator_ids validators local_id height
              safety_bytes ss))))"

text \<open>The result of an operation on a copy, whose state is kept on success only.\<close>

lemma run_copy_ok [result_simps]:
  "(case p of (_, Inl e) \<Rightarrow> Inl (f e) | (s, Inr x) \<Rightarrow> k s x) = Inr y \<longleftrightarrow>
     (\<exists>s x. p = (s, Inr x) \<and> k s x = Inr y)"
  by (cases p; cases "snd p") auto

end
