(* ===== verification/NodeReplay.thy ===== *)
theory NodeReplay
  imports Node
begin

text \<open>
  The parts of \<open>kcoin-node/src/runtime.rs\<close> between the ledger and the store: the explorer
  projection of a finalized block, the replay of the stored history on start and for
  \<open>verify\<close>, and \<open>reindex\<close>.
\<close>

section \<open>Projection of a finalized block\<close>

fun node_operation_symbol :: "challenge_operation \<Rightarrow> rstring" where
  "node_operation_symbol Add = [43]"
| "node_operation_symbol Subtract = [8722]"
| "node_operation_symbol Multiply = [215]"

text \<open>\<open>to_string\<close> on an address panics when the encoder fails; that is an error here.\<close>

definition address_text :: "'z crypto_env_scheme \<Rightarrow> address \<Rightarrow> node_error + rstring" where
  "address_text env a = ok_or (address_display env a) (NodeBail ''panic: address has no text form'')"

definition project_transaction ::
  "'z node_env_scheme \<Rightarrow> nat \<times> transaction_receipt \<Rightarrow> node_error + transaction_projection" where
  "project_transaction env = (\<lambda>(index, receipt).
     and_then (address_text env (transaction_receipt.tr_sender receipt)) (\<lambda>sender.
     and_then
       (case tr_outcome receipt of
          TransferOutcome recipient amount \<Rightarrow>
            and_then (address_text env recipient) (\<lambda>r. Inr (str ''transfer'', Some r, amount))
        | RewardClaimed _ reward \<Rightarrow> Inr (str ''claim_reward'', Some sender, reward)
        | DisplayNameUpdated _ \<Rightarrow> Inr (str ''set_display_name'', None, 0))
       (\<lambda>(kind, recipient, amount).
         Inr \<lparr>tp_id = hash32_display env (tr_transaction_id receipt), tp_index = of_nat index,
              tp_kind = kind, tp_sender = sender, tp_recipient = recipient,
              tp_amount_atoms = amount, tp_nonce = transaction_receipt.tr_nonce receipt\<rparr>)))"

definition bump :: "rstring \<Rightarrow> (rstring, u64) btree_map \<Rightarrow> (rstring, u64) btree_map" where
  "bump key m = bt_insert key ((case bt_get m key of None \<Rightarrow> 0 | Some n \<Rightarrow> n) + 1) m"

definition count_activity ::
  "transaction_projection \<Rightarrow> (rstring, u64) btree_map \<Rightarrow> (rstring, u64) btree_map" where
  "count_activity t m =
     (let m = bump (tp_sender t) m in
      case tp_recipient t of
        Some recipient \<Rightarrow> if recipient \<noteq> tp_sender t then bump recipient m else m
      | None \<Rightarrow> m)"

definition project_account ::
  "'z node_env_scheme \<Rightarrow> store \<Rightarrow> (rstring, u64) btree_map \<Rightarrow> address \<times> account_state \<Rightarrow>
   node_error + account_projection" where
  "project_account env db activity = (\<lambda>(a, account).
     and_then (address_text env a) (\<lambda>text_form.
       let existing_count = (case store_account db text_form of
             None \<Rightarrow> 0 | Some projection \<Rightarrow> ap_transaction_count projection)
       in Inr \<lparr>ap_address = text_form, ap_balance_atoms = as_balance_atoms account,
               ap_nonce = as_next_nonce account, ap_display_name = as_display_name account,
               ap_transaction_count = existing_count +
                 (case bt_get activity text_form of None \<Rightarrow> 0 | Some n \<Rightarrow> n)\<rparr>))"

text \<open>The height of the block whose claim opened a challenge, from canonical bytes.\<close>

definition claims_before :: "u64 \<Rightarrow> signed_transaction \<Rightarrow> bool" where
  "claims_before challenge t =
     (case ut_action (st_unsigned t) of
        ClaimReward claimed _ \<Rightarrow> checked_add claimed 1 = Some challenge
      | _ \<Rightarrow> False)"

fun issued_height_in ::
  "'z node_env_scheme \<Rightarrow> u64 \<Rightarrow> block_row list \<Rightarrow> node_error + u64 option" where
  "issued_height_in env challenge [] = Inr None"
| "issued_height_in env challenge (row # rows) =
     and_then (map_err NodeValidation (block_decode env (br_block_bytes row))) (\<lambda>b.
       if list_ex (claims_before challenge) (rev (bk_transactions b))
       then Inr (Some (bh_height (bk_header b)))
       else issued_height_in env challenge rows)"

definition canonical_challenge_issued_height ::
  "'z node_env_scheme \<Rightarrow> store \<Rightarrow> u64 \<Rightarrow> node_error + u64 option" where
  "canonical_challenge_issued_height env db challenge =
     (if challenge = 0 then Inr (Some 0)
      else issued_height_in env challenge (rev (canonical_block_rows db)))"

definition is_reward :: "transaction_receipt \<Rightarrow> bool" where
  "is_reward receipt = (case tr_outcome receipt of RewardClaimed _ _ \<Rightarrow> True | _ \<Rightarrow> False)"

definition challenge_issued_at ::
  "'z node_env_scheme \<Rightarrow> store \<Rightarrow> ledger_state \<Rightarrow> transaction_receipt list \<Rightarrow> challenge \<Rightarrow>
   node_error + rstring" where
  "challenge_issued_at env db candidate receipts challenge =
     (let challenge_id = u64_to_string (ch_id challenge);
          previous = (case store_metadata db (str ''challenge'') of
              None \<Rightarrow> None | Some value \<Rightarrow> json_challenge_parse env value);
          previous_issued_height = (case previous of
              None \<Rightarrow> None
            | Some (id_field, issued_field) \<Rightarrow>
                if id_field = Some challenge_id then issued_field else None)
      in if list_ex is_reward receipts then Inr (u64_to_string (ls_height candidate))
         else case previous_issued_height of
           Some height \<Rightarrow> Inr height
         | None \<Rightarrow>
             and_then (canonical_challenge_issued_height env db (ch_id challenge)) (\<lambda>h.
               Inr (u64_to_string (case h of None \<Rightarrow> ls_height candidate | Some x \<Rightarrow> x))))"

definition build_projection ::
  "'z node_env_scheme \<Rightarrow> store \<Rightarrow> ledger_state \<Rightarrow> block \<Rightarrow> commit_certificate \<Rightarrow>
   transaction_receipt list \<Rightarrow> node_error + finalized_projection" where
  "build_projection env db candidate b certificate receipts =
     and_then (collect_results (project_transaction env) (enumerate 0 receipts)) (\<lambda>transactions.
     let activity = fold count_activity transactions [] in
     and_then (collect_results (project_account env db activity) (ls_accounts candidate)) (\<lambda>changed_accounts.
     let challenge = current_challenge env candidate in
     and_then (challenge_issued_at env db candidate receipts challenge) (\<lambda>issued_at.
     let expression = nat_to_string (unat (ch_left challenge)) @ str '' '' @
           node_operation_symbol (ch_operation challenge) @ str '' '' @
           nat_to_string (unat (ch_right challenge));
         reward = (case reward_for_supply (ls_total_supply_atoms candidate) of None \<Rightarrow> 0 | Some r \<Rightarrow> r);
         header = bk_header b
     in Inr \<lparr>fp_height = bh_height header, fp_block_hash = hash32_display env (block_hash env b),
             fp_parent_hash = hash32_display env (bh_parent_hash header),
             fp_state_root = hash32_display env (bh_state_root header),
             fp_proposer = hex_encode env (vid_as_bytes (bh_proposer header)),
             fp_round = bh_round header, fp_timestamp_ms = bh_timestamp_ms header,
             fp_block_bytes = block_canonical_bytes env b,
             fp_certificate_bytes = certificate_canonical_bytes env certificate,
             fp_transactions = transactions, fp_changed_accounts = changed_accounts,
             fp_issued_supply_atoms = ls_total_supply_atoms candidate,
             fp_challenge_json = json_challenge env (u64_to_string (ch_id challenge)) expression
               issued_at (u64_to_string reward)\<rparr>)))"

section \<open>Replaying the stored history\<close>

definition row_agrees ::
  "'z node_env_scheme \<Rightarrow> block_row \<Rightarrow> block \<Rightarrow> commit_certificate \<Rightarrow> bool" where
  "row_agrees env row b certificate \<longleftrightarrow>
     (let header = bk_header b in
      br_height row = bh_height header \<and>
      br_block_hash row = hash32_display env (block_hash env b) \<and>
      br_parent_hash row = hash32_display env (bh_parent_hash header) \<and>
      br_state_root row = hash32_display env (bh_state_root header) \<and>
      br_proposer row = hex_encode env (vid_as_bytes (bh_proposer header)) \<and>
      br_round row = bh_round header \<and> br_timestamp_ms row = bh_timestamp_ms header \<and>
      br_transaction_count row = of_nat (length (bk_transactions b)) \<and>
      br_block_bytes row = block_canonical_bytes env b \<and>
      br_certificate_bytes row = certificate_canonical_bytes env certificate)"

definition decode_row ::
  "'z node_env_scheme \<Rightarrow> block_row \<Rightarrow> node_error + block \<times> commit_certificate" where
  "decode_row env row =
     and_then (map_err NodeValidation (block_decode env (br_block_bytes row))) (\<lambda>b.
     and_then (map_err NodeValidation (certificate_decode env (br_certificate_bytes row))) (\<lambda>certificate.
       Inr (b, certificate)))"

fun replay_rows_from ::
  "'z node_env_scheme \<Rightarrow> bool \<Rightarrow> ledger_state \<Rightarrow> block_row list \<Rightarrow> node_error + ledger_state" where
  "replay_rows_from env verify_derived_columns ledger [] = Inr ledger"
| "replay_rows_from env verify_derived_columns ledger (row # rows) =
     and_then (decode_row env row) (\<lambda>(b, certificate).
       case apply_finalized_block env ledger b certificate (dev_validator_ids env) of
         (_, Inl e) \<Rightarrow> Inl (NodeValidation e)
       | (ledger', Inr _) \<Rightarrow>
           if verify_derived_columns \<and> \<not> row_agrees env row b certificate
           then Inl (NodeBail ''stored block projection disagrees with canonical bytes'')
           else replay_rows_from env verify_derived_columns ledger' rows)"

definition replay_canonical_rows ::
  "'z node_env_scheme \<Rightarrow> block_row list \<Rightarrow> chain_id \<Rightarrow> bool \<Rightarrow> node_error + ledger_state" where
  "replay_canonical_rows env rows chain verify_derived_columns =
     replay_rows_from env verify_derived_columns (ledger_new chain) rows"

text \<open>The replay at the start of a node decodes the whole history first.\<close>

definition replay_on_start ::
  "'z node_env_scheme \<Rightarrow> store \<Rightarrow> chain_id \<Rightarrow> node_error + ledger_state" where
  "replay_on_start env db chain =
     and_then (collect_results (decode_row env) (canonical_block_rows db)) (\<lambda>history.
       map_err NodeValidation (replay_finalized_blocks env chain history (dev_validator_ids env)))"

record replay_report =
  rr_height :: u64
  rr_block_hash :: rstring
  rr_state_root :: rstring
  rr_circulating_supply_atoms :: u64
  rr_account_count :: nat
  rr_transaction_count :: nat

definition replay_report_of :: "'z node_env_scheme \<Rightarrow> ledger_state \<Rightarrow> replay_report" where
  "replay_report_of env ledger =
     \<lparr>rr_height = ls_height ledger, rr_block_hash = hash32_display env (ls_tip_hash ledger),
      rr_state_root = hash32_display env (state_root env ledger),
      rr_circulating_supply_atoms = ls_total_supply_atoms ledger,
      rr_account_count = length (ls_accounts ledger),
      rr_transaction_count = applied_transaction_count ledger\<rparr>"

definition verify_store ::
  "'z node_env_scheme \<Rightarrow> store \<Rightarrow> chain_id \<Rightarrow> node_error + replay_report" where
  "verify_store env db chain =
     and_then (replay_canonical_rows env (canonical_block_rows db) chain True) (\<lambda>ledger.
       Inr (replay_report_of env ledger))"

fun reindex_rows ::
  "'z node_env_scheme \<Rightarrow> store \<Rightarrow> ledger_state \<Rightarrow> block_row list \<Rightarrow>
   store \<times> (node_error + ledger_state)" where
  "reindex_rows env db ledger [] = (db, Inr ledger)"
| "reindex_rows env db ledger (row # rows) =
     (case decode_row env row of
        Inl e \<Rightarrow> (db, Inl e)
      | Inr (b, certificate) \<Rightarrow>
        case apply_finalized_block env ledger b certificate (dev_validator_ids env) of
          (_, Inl e) \<Rightarrow> (db, Inl (NodeValidation e))
        | (ledger', Inr receipts) \<Rightarrow>
          case build_projection env db ledger' b certificate receipts of
            Inl e \<Rightarrow> (db, Inl e)
          | Inr projection \<Rightarrow>
              st_then (lift_store (refresh_block_projection db projection)) (\<lambda>db _.
              st_then (lift_store (persist_finalized db projection)) (\<lambda>db _.
                reindex_rows env db ledger' rows)))"

definition reindex_store ::
  "'z node_env_scheme \<Rightarrow> store \<Rightarrow> chain_id \<Rightarrow> store \<times> (node_error + replay_report)" where
  "reindex_store env db chain =
     (let rows = canonical_block_rows db in
      case replay_canonical_rows env rows chain False of
        Inl e \<Rightarrow> (db, Inl e)
      | Inr _ \<Rightarrow>
          st_then (reindex_rows env (clear_projections db) (ledger_new chain) rows) (\<lambda>db ledger.
            (db, verify_store env db (ls_chain_id ledger))))"

end
