(* ===== verification/NodeActor.thy ===== *)
theory NodeActor
  imports NodeReplay
begin

text \<open>
  The node actor of \<open>kcoin-node/src/runtime.rs\<close>: its mempool, its ledger, and the loop that
  feeds the consensus engine and carries out the effects it returns. The actor handles one
  command at a time, so its asynchronous calls are sequential here; what it sends is
  appended to \<open>na_outputs\<close>. \<open>na_clock_ms\<close> and \<open>na_instant\<close> are what the system clock and the
  monotonic clock say during the command. Log lines are left out, and so are the floating
  point \<open>sync_progress\<close> of the telemetry and the \<open>last_block_duration_ms\<close> that nothing reads.
\<close>

section \<open>The actor\<close>

type_synonym peer = bytes

datatype sync_request = SyncStatus | SyncBlocks u64 u16

datatype sync_response =
    RespondStatus u64 rstring rstring bool "bytes option"
  | RespondBlocks "bytes list"
  | RespondError rstring rstring

record validator_status =
  sm_chain_id :: rstring
  sm_validator :: cvalidator_id
  sm_index :: u16
  sm_height :: u64
  sm_round :: u32
  sm_phase :: rstring
  sm_block_hash :: bytes
  sm_state_root :: bytes
  sm_syncing :: bool
  sm_sync_target :: "u64 option"
  sm_timestamp_ms :: u64

record signed_validator_status =
  ss_status :: validator_status
  ss_status_signature :: bytes

datatype node_output =
    SendConsensus consensus_wire
  | SendFinalized block commit_certificate
  | SendTransaction signed_transaction
  | SendEvent string rstring
  | SetTimer timeout
  | WakeTick
  | SendSyncRequest u64 peer sync_request
  | SendSyncResponse u64 sync_response
  | SendStatus signed_validator_status
  | SubmitResult "validation_error + hash32"

text \<open>What the node knows of each validator, and the view of it that the API serves.\<close>

record validator_telemetry =
  vt_height :: u64
  vt_round :: u32
  vt_phase :: rstring
  vt_block_hash :: hash32
  vt_state_root :: hash32
  vt_last_seen_ms :: u64

record validator_view =
  vv_id :: rstring
  vv_name :: rstring
  vv_index :: u16
  vv_online :: bool
  vv_phase :: rstring
  vv_height :: rstring
  vv_round :: u32
  vv_block_hash :: rstring
  vv_state_root :: rstring
  vv_last_seen_ms :: u64

record runtime_snapshot =
  rs_chain_id :: rstring
  rs_protocol_version :: u16
  rs_height :: rstring
  rs_finalized_hash :: rstring
  rs_state_root :: rstring
  rs_circulating_supply_atoms :: rstring
  rs_max_supply_atoms :: rstring
  rs_mempool_size :: nat
  rs_peer_count :: nat
  rs_block_time_ms :: u64
  rs_validators :: "validator_view list"
  rs_syncing :: bool
  rs_halted :: bool

record node_actor =
  na_config :: node_config
  na_chain_id :: chain_id
  na_ledger :: ledger_state
  na_mempool :: "signed_transaction list"
  na_mempool_ids :: "hash32 list"
  na_store :: store
  na_networked :: bool
  na_validator_ids :: "validator_id list"
  na_consensus_ids :: "cvalidator_id list"
  na_standalone_keys :: "bytes list"
  na_local_validator_key :: "bytes option"
  na_consensus :: "consensus option"
  na_consensus_started :: bool
  na_proposal_blocks :: "(block_id, block) btree_map"
  na_recovery_messages :: "signed_message list"
  na_recovery_broadcasts :: "consensus_wire list"
  na_peers :: "peer list"
  na_sync_target :: "u64 option"
  na_sync_peer :: "peer option"
  na_sync_request_id :: "u64 option"
  na_sync_request_deadline :: "duration option"
  na_next_request_id :: u64
  na_halted :: bool
  na_telemetry :: "(cvalidator_id, validator_telemetry) btree_map"
  na_snapshot :: "runtime_snapshot option"
    \<comment> \<open>the last one published\<close>
  na_clock_ms :: u64
  na_instant :: duration
  na_last_block_at :: duration
  na_last_status_at :: duration
  na_outputs :: "node_output list"

record actor_env = node_env +
  evidence_text :: "evidence \<Rightarrow> bytes"
    \<comment> \<open>the \<open>Debug\<close> form\<close>
  borsh_wire :: "consensus_wire \<Rightarrow> bytes option"
  borsh_record :: "block \<times> commit_certificate \<Rightarrow> bytes option"
  borsh_status :: "validator_status \<Rightarrow> bytes option"
  borsh_signed_status :: "signed_validator_status \<Rightarrow> bytes option"
  borsh_record_parse :: "bytes \<Rightarrow> (block \<times> commit_certificate) option"

definition emit :: "node_output list \<Rightarrow> node_actor \<Rightarrow> node_actor" where
  "emit outputs a = a\<lparr>na_outputs := na_outputs a @ outputs\<rparr>"

definition emit_if_networked :: "node_output list \<Rightarrow> node_actor \<Rightarrow> node_actor" where
  "emit_if_networked outputs a = (if na_networked a then emit outputs a else a)"

section \<open>Telemetry and snapshots\<close>

definition note_validator_activity ::
  "'z ledger_env_scheme \<Rightarrow> cvalidator_id \<Rightarrow> u64 \<Rightarrow> rstring \<Rightarrow> node_actor \<Rightarrow> node_actor" where
  "note_validator_activity env validator height phase a =
     a\<lparr>na_telemetry := bt_insert validator
        \<lparr>vt_height = height,
         vt_round = (case na_consensus a of None \<Rightarrow> 0 | Some c \<Rightarrow> c_round c),
         vt_phase = phase, vt_block_hash = ls_tip_hash (na_ledger a),
         vt_state_root = state_root env (na_ledger a), vt_last_seen_ms = na_clock_ms a\<rparr>
        (na_telemetry a)\<rparr>"

definition validator_view_of ::
  "'z ledger_env_scheme \<Rightarrow> node_actor \<Rightarrow> nat \<times> validator_id \<Rightarrow> validator_view" where
  "validator_view_of env a = (\<lambda>(index, validator).
     let local = (nc_validator_index (na_config a) = Some (of_nat index));
         status = bt_get (na_telemetry a) (cvid_of_protocol validator);
         online = (nc_role (na_config a) = Standalone \<or> local \<or>
           (case status of None \<Rightarrow> False
            | Some st \<Rightarrow> saturating_sub (na_clock_ms a) (vt_last_seen_ms st) \<le> 3500))
     in \<lparr>vv_id = hex_encode env (vid_as_bytes validator),
         vv_name = str ''Validator '' @ nat_to_string (index + 1), vv_index = of_nat index,
         vv_online = online,
         vv_phase =
           (if na_halted a \<and> local then str ''halted''
            else if na_sync_target a \<noteq> None \<and> local then str ''syncing''
            else if \<not> online then str ''offline''
            else case status of None \<Rightarrow> str ''finalized'' | Some st \<Rightarrow> vt_phase st),
         vv_height = u64_to_string
           (case status of None \<Rightarrow> ls_height (na_ledger a) | Some st \<Rightarrow> vt_height st),
         vv_round = (case status of None \<Rightarrow> 0 | Some st \<Rightarrow> vt_round st),
         vv_block_hash = hash32_display env
           (case status of None \<Rightarrow> ls_tip_hash (na_ledger a) | Some st \<Rightarrow> vt_block_hash st),
         vv_state_root = hash32_display env
           (case status of None \<Rightarrow> state_root env (na_ledger a) | Some st \<Rightarrow> vt_state_root st),
         vv_last_seen_ms =
           (case status of None \<Rightarrow> if local then na_clock_ms a else 0 | Some st \<Rightarrow> vt_last_seen_ms st)\<rparr>)"

definition snapshot_for :: "'z ledger_env_scheme \<Rightarrow> node_actor \<Rightarrow> runtime_snapshot" where
  "snapshot_for env a =
     (let ledger = na_ledger a in
      \<lparr>rs_chain_id = nc_chain_id (na_config a), rs_protocol_version = PROTOCOL_VERSION,
       rs_height = u64_to_string (ls_height ledger),
       rs_finalized_hash = hash32_display env (ls_tip_hash ledger),
       rs_state_root = hash32_display env (state_root env ledger),
       rs_circulating_supply_atoms = u64_to_string (ls_total_supply_atoms ledger),
       rs_max_supply_atoms = u64_to_string MAX_SUPPLY_ATOMS,
       rs_mempool_size = length (na_mempool a), rs_peer_count = length (na_peers a),
       rs_block_time_ms = nc_heartbeat_ms (na_config a),
       rs_validators = map (validator_view_of env a) (enumerate 0 (na_validator_ids a)),
       rs_syncing = (na_sync_target a \<noteq> None), rs_halted = na_halted a\<rparr>)"

definition publish_snapshot :: "'z ledger_env_scheme \<Rightarrow> node_actor \<Rightarrow> node_actor" where
  "publish_snapshot env a =
     emit [SendEvent ''validator_status'' (u64_to_string (ls_height (na_ledger a)))]
       (a\<lparr>na_snapshot := Some (snapshot_for env a)\<rparr>)"

section \<open>Mempool\<close>

fun apply_pending ::
  "'z tx_env_scheme \<Rightarrow> ledger_state \<Rightarrow> signed_transaction list \<Rightarrow> u64 \<Rightarrow>
   validation_error + ledger_state" where
  "apply_pending env s [] h = Inr s"
| "apply_pending env s (t # ts) h =
     (case apply_transaction env s t h of
        (_, Inl e) \<Rightarrow> Inl e
      | (s', Inr _) \<Rightarrow> apply_pending env s' ts h)"

definition accept_transaction ::
  "'z actor_env_scheme \<Rightarrow> node_actor \<Rightarrow> signed_transaction \<Rightarrow> bool \<Rightarrow>
   node_actor \<times> (validation_error + hash32)" where
  "accept_transaction env a t gossip =
     (if na_halted a \<or> na_sync_target a \<noteq> None then (a, Inl Malformed)
      else let tid = tx_id env t in
        if tid \<in> set (na_mempool_ids a) \<or> contains_transaction (na_ledger a) tid
        then (a, Inl DuplicateTransaction)
        else case checked_add (ls_height (na_ledger a)) 1 of
          None \<Rightarrow> (a, Inl ArithmeticOverflow)
        | Some execution_height \<Rightarrow>
          case apply_pending env (na_ledger a) (na_mempool a) execution_height of
            Inl e \<Rightarrow> (a, Inl e)
          | Inr candidate \<Rightarrow>
            case validate_transaction env candidate t execution_height of
              Inl e \<Rightarrow> (a, Inl e)
            | Inr _ \<Rightarrow>
              let a = a\<lparr>na_mempool_ids := List.insert tid (na_mempool_ids a),
                         na_mempool := na_mempool a @ [t]\<rparr>;
                  a = publish_snapshot env a;
                  a = emit [SendEvent ''transaction'' (hash32_display env tid)] a;
                  a = (if gossip then emit_if_networked [SendTransaction t] a else a)
              in (emit [WakeTick] a, Inr tid))"

text \<open>Dropping what no longer applies; also the selection of transactions for a proposal.\<close>

fun keep_applicable ::
  "'z tx_env_scheme \<Rightarrow> ledger_state \<Rightarrow> signed_transaction list \<Rightarrow> u64 \<Rightarrow> signed_transaction list" where
  "keep_applicable env s [] h = []"
| "keep_applicable env s (t # ts) h =
     (case apply_transaction env s t h of
        (s', Inl _) \<Rightarrow> keep_applicable env s' ts h
      | (s', Inr _) \<Rightarrow> t # keep_applicable env s' ts h)"

definition revalidate_mempool :: "'z actor_env_scheme \<Rightarrow> node_actor \<Rightarrow> node_actor" where
  "revalidate_mempool env a =
     (let execution_height = saturating_add (ls_height (na_ledger a)) 1;
          kept = keep_applicable env (na_ledger a) (na_mempool a) execution_height
      in a\<lparr>na_mempool := kept, na_mempool_ids := remdups (map (tx_id env) kept)\<rparr>)"

section \<open>Committing a finalized block\<close>

definition commit_finalized ::
  "'z actor_env_scheme \<Rightarrow> node_actor \<Rightarrow> block \<Rightarrow> commit_certificate \<Rightarrow> bool \<Rightarrow>
   node_actor \<times> (node_error + unit)" where
  "commit_finalized env a b certificate gossip =
     (case apply_finalized_block env (na_ledger a) b certificate (na_validator_ids a) of
        (_, Inl e) \<Rightarrow> (a, Inl (NodeValidation e))
      | (candidate, Inr receipts) \<Rightarrow>
        case build_projection env (na_store a) candidate b certificate receipts of
          Inl e \<Rightarrow> (a, Inl e)
        | Inr projection \<Rightarrow>
          case persist_finalized (na_store a) projection of
            (db, Inl e) \<Rightarrow> (a\<lparr>na_store := db\<rparr>, Inl (NodeStorage e))
          | (db, Inr _) \<Rightarrow>
            let a = revalidate_mempool env (a\<lparr>na_store := db, na_ledger := candidate\<rparr>);
                a = a\<lparr>na_last_block_at := na_instant a\<rparr>;
                a = fold (\<lambda>signature. note_validator_activity env
                      (cvid_of_protocol (cs_validator signature)) (bh_height (bk_header b)) (str ''finalized''))
                    (cc_signatures certificate) a;
                a = publish_snapshot env a;
                a = emit (SendEvent ''finalized_block'' (hash32_display env (block_hash env b)) #
                      map (\<lambda>t. SendEvent ''transaction'' (hash32_display env (tx_id env t)))
                        (bk_transactions b)) a
            in if gossip \<and> na_networked a
               then (case borsh_record env (b, certificate) of
                   None \<Rightarrow> (a, Inl NodeSerialization)
                 | Some _ \<Rightarrow> (emit [SendFinalized b certificate] a, Inr ()))
               else (a, Inr ()))"

definition reset_consensus :: "'z actor_env_scheme \<Rightarrow> node_actor \<Rightarrow> node_actor \<times> (node_error + unit)" where
  "reset_consensus env a =
     (let a = a\<lparr>na_proposal_blocks := [], na_recovery_messages := [], na_recovery_broadcasts := [],
                 na_consensus_started := False\<rparr>
      in case na_local_validator_key a of
        None \<Rightarrow> (a, Inr ())
      | Some key \<Rightarrow>
        case validator_set_new (na_consensus_ids a) of
          Inl e \<Rightarrow> (a, Inl (NodeValidatorSet e))
        | Inr validators \<Rightarrow>
          case consensus_new (local_consensus_id env key) validators (ls_height (na_ledger a) + 1)
                 (config_for_chain (nc_chain_id (na_config a))) of
            Inl e \<Rightarrow> (a, Inl (NodeConsensus e))
          | Inr c \<Rightarrow> (a\<lparr>na_consensus := Some c\<rparr>, Inr ()))"

text \<open>Standalone mode; \<open>standalone_keys[..3]\<close> panics with fewer keys.\<close>

definition produce_standalone ::
  "'z actor_env_scheme \<Rightarrow> node_actor \<Rightarrow> node_actor \<times> (node_error + unit)" where
  "produce_standalone env a =
     (let transactions = take 1000 (na_mempool a) in
      if na_validator_ids a = [] then (a, Inl (NodeBail ''panic: remainder by zero''))
      else let proposer_index = unat (ls_height (na_ledger a)) mod length (na_validator_ids a) in
        case build_block env (na_ledger a) (na_validator_ids a ! proposer_index) 0 (na_clock_ms a) transactions of
          Inl e \<Rightarrow> (a, Inl (NodeValidation e))
        | Inr b \<Rightarrow>
          let header = bk_header b;
              vote = commit_vote_new (na_chain_id a) (bh_height header) (bh_round header) (consensus_hash env b)
          in if length (na_standalone_keys a) < 3 then (a, Inl (NodeBail ''panic: slice out of range''))
             else let certificate = certificate_new vote
                        (map (commit_signature_sign env vote) (take 3 (na_standalone_keys a)))
             in case certificate_verify_for_block env certificate b (na_validator_ids a) of
               Inl e \<Rightarrow> (a, Inl (NodeValidation e))
             | Inr _ \<Rightarrow> commit_finalized env a b certificate True)"

section \<open>Driving the engine\<close>

definition build_consensus_proposal ::
  "'z actor_env_scheme \<Rightarrow> node_actor \<Rightarrow> u32 \<Rightarrow> block_id option \<Rightarrow> node_error + block" where
  "build_consensus_proposal env a round valid_block =
     (case (case valid_block of None \<Rightarrow> None | Some b_id \<Rightarrow> bt_get (na_proposal_blocks a) b_id) of
        Some b \<Rightarrow> Inr b
      | None \<Rightarrow>
        and_then (ok_or (na_local_validator_key a) (NodeBail ''validator signing key is missing'')) (\<lambda>key.
          let execution_height = ls_height (na_ledger a) + 1;
              transactions = keep_applicable env (na_ledger a) (take 1000 (na_mempool a)) execution_height
          in map_err NodeValidation
            (build_block env (na_ledger a) (validator_from_signing_key env key) round (na_clock_ms a) transactions)))"

definition publish_consensus_wire ::
  "'z actor_env_scheme \<Rightarrow> node_actor \<Rightarrow> consensus_wire \<Rightarrow> node_actor \<times> (node_error + unit)" where
  "publish_consensus_wire env a wire =
     (if \<not> na_networked a then (a, Inr ())
      else case borsh_wire env wire of
        None \<Rightarrow> (a, Inl NodeSerialization)
      | Some _ \<Rightarrow> (emit [SendConsensus wire] a, Inr ()))"

definition broadcast_consensus ::
  "'z actor_env_scheme \<Rightarrow> node_actor \<Rightarrow> signed_message \<Rightarrow> node_actor \<times> (node_error + unit)" where
  "broadcast_consensus env a message =
     (case message of
        MessageProposal sgnd \<Rightarrow>
          (case bt_get (na_proposal_blocks a) (p_block_id (sp_proposal sgnd)) of
             None \<Rightarrow> (a, Inl (NodeBail ''proposal bytes are unavailable for broadcast''))
           | Some b \<Rightarrow> publish_consensus_wire env a (WireProposal sgnd b))
      | MessageVote v \<Rightarrow> publish_consensus_wire env a (WireVote v))"

definition actor_validator :: "'z actor_env_scheme \<Rightarrow> node_actor \<Rightarrow> message_validator" where
  "actor_validator env a =
     node_message_validator env (na_ledger a) (na_proposal_blocks a) (na_validator_ids a)"

definition finalize_decided ::
  "'z actor_env_scheme \<Rightarrow> node_actor \<Rightarrow> finalization \<Rightarrow> node_actor \<times> (node_error + unit)" where
  "finalize_decided env a f =
     (case bt_get (na_proposal_blocks a) (fin_block_id f) of
        None \<Rightarrow> (a, Inl (NodeBail ''finalized proposal bytes are unavailable''))
      | Some b \<Rightarrow>
        case ccertificate_to_protocol (fin_certificate f) of
          Inl e \<Rightarrow> (a, Inl (NodeCertificate e))
        | Inr certificate \<Rightarrow>
          case certificate_verify_for_block env certificate b (na_validator_ids a) of
            Inl e \<Rightarrow> (a, Inl (NodeValidation e))
          | Inr _ \<Rightarrow> st_then (commit_finalized env a b certificate True) (\<lambda>a _. reset_consensus env a))"

text \<open>One effect of the engine; the result is the events it queues.\<close>

definition carry_out_effect ::
  "'z actor_env_scheme \<Rightarrow> node_actor \<Rightarrow> effect \<Rightarrow> node_actor \<times> (node_error + event list)" where
  "carry_out_effect env a eff =
     (case eff of
        RequestProposal height round valid_block _ \<Rightarrow>
          let locked_block = (case na_consensus a of
                None \<Rightarrow> None | Some c \<Rightarrow> map_option snd (engine_locked c));
              wanted = (case valid_block of None \<Rightarrow> locked_block | Some b_id \<Rightarrow> Some b_id)
          in (case build_consensus_proposal env a round wanted of
                Inl e \<Rightarrow> (a, Inl e)
              | Inr b \<Rightarrow>
                  let b_id = block_id_of_hash (consensus_hash env b)
                  in (a\<lparr>na_proposal_blocks := bt_insert b_id b (na_proposal_blocks a)\<rparr>,
                      Inr [ProposalReady height round b_id]))
      | PersistBeforeBroadcast message ss \<Rightarrow>
          (case sign_and_persist env (na_local_validator_key a) (na_proposal_blocks a) (na_store a) message ss of
             (db, Inl e) \<Rightarrow> (a\<lparr>na_store := db\<rparr>, Inl e)
           | (db, Inr sgnd) \<Rightarrow> (a\<lparr>na_store := db\<rparr>, Inr [Persisted sgnd]))
      | Broadcast message \<Rightarrow> st_then (broadcast_consensus env a message) (\<lambda>a _. (a, Inr []))
      | ScheduleTimeout t \<Rightarrow> (emit [SetTimer t] a, Inr [])
      | Finalize f \<Rightarrow> st_then (finalize_decided env a f) (\<lambda>a _. (a, Inr []))
      | EvidenceEffect ev \<Rightarrow>
          (a\<lparr>na_store := fst (append_consensus_event (blake3_hash_hex env) (na_store a)
               (str ''evidence'') (evidence_text env ev))\<rparr>, Inr []))"

fun carry_out_effects ::
  "'z actor_env_scheme \<Rightarrow> node_actor \<Rightarrow> effect list \<Rightarrow> node_actor \<times> (node_error + event list)" where
  "carry_out_effects env a [] = (a, Inr [])"
| "carry_out_effects env a (e # es) =
     st_then (carry_out_effect env a e) (\<lambda>a queued.
       st_then (carry_out_effects env a es) (\<lambda>a more_queued. (a, Inr (queued @ more_queued))))"

text \<open>
  The loop over the queue of events. It is not bounded in the code: \<open>None\<close> would be a loop
  that never ends.
\<close>

definition process_next ::
  "'z actor_env_scheme \<Rightarrow> node_actor \<Rightarrow> event \<Rightarrow> node_actor \<times> (node_error + event list)" where
  "process_next env a ev =
     (case na_consensus a of
        None \<Rightarrow> (a, Inl (NodeBail ''validator consensus driver is missing''))
      | Some c \<Rightarrow>
        case engine_step c ev (actor_validator env a) of
          (c', Inl e) \<Rightarrow> (a\<lparr>na_consensus := Some c'\<rparr>, Inl (NodeConsensus e))
        | (c', Inr effects) \<Rightarrow> carry_out_effects env (a\<lparr>na_consensus := Some c'\<rparr>) effects)"

partial_function (option) process_events ::
  "'z actor_env_scheme \<Rightarrow> node_actor \<Rightarrow> event list \<Rightarrow> (node_actor \<times> (node_error + unit)) option" where
  "process_events env a pending =
     (case pending of
        [] \<Rightarrow> Some (a, Inr ())
      | ev # queue \<Rightarrow>
          (case process_next env a ev of
             (a', Inl e) \<Rightarrow> Some (a', Inl e)
           | (a', Inr queued) \<Rightarrow> process_events env a' (queue @ queued)))"

declare process_events.simps [code]

text \<open>Sequencing with \<open>?\<close> of operations that may also not return.\<close>

definition then_run ::
  "(node_actor \<times> (node_error + unit)) option \<Rightarrow>
   (node_actor \<Rightarrow> (node_actor \<times> (node_error + unit)) option) \<Rightarrow>
   (node_actor \<times> (node_error + unit)) option" where
  "then_run r k =
     (case r of
        None \<Rightarrow> None
      | Some (a, Inl e) \<Rightarrow> Some (a, Inl e)
      | Some (a, Inr _) \<Rightarrow> k a)"

definition consensus_is_idle :: "node_actor \<Rightarrow> bool" where
  "consensus_is_idle a \<longleftrightarrow>
     nc_role (na_config a) \<noteq> Validator \<or> na_sync_target a \<noteq> None \<or> na_halted a"

definition process_consensus_event ::
  "'z actor_env_scheme \<Rightarrow> node_actor \<Rightarrow> event \<Rightarrow> (node_actor \<times> (node_error + unit)) option" where
  "process_consensus_event env a ev =
     (if consensus_is_idle a then Some (a, Inr ()) else then_run (process_events env a [ev]) (\<lambda>a. Some (publish_snapshot env a, Inr ())))"

definition ensure_consensus_started ::
  "'z actor_env_scheme \<Rightarrow> node_actor \<Rightarrow> (node_actor \<times> (node_error + unit)) option" where
  "ensure_consensus_started env a =
     (if consensus_is_idle a \<or> na_consensus_started a then Some (a, Inr ())
      else process_consensus_event env (a\<lparr>na_consensus_started := True\<rparr>) Start)"

text \<open>
  The first half of \<open>handle_consensus_message\<close>: an admissible message becomes the event for
  the engine, a proposal only after its block and itself were stored.
\<close>

definition admit_proposal ::
  "'z actor_env_scheme \<Rightarrow> node_actor \<Rightarrow> signed_proposal \<Rightarrow> block \<Rightarrow>
   node_actor \<times> (node_error + signed_message option)" where
  "admit_proposal env a sgnd b =
     (let p = sp_proposal sgnd; b_id = p_block_id p; expected = ls_height (na_ledger a) + 1 in
      if block_id_of_hash (consensus_hash env b) \<noteq> b_id
      then (a, Inl (NodeBail ''proposal block bytes do not match its signed block id''))
      else if p_height p \<noteq> expected then (a, Inr None)
      else if (case bt_get (na_proposal_blocks a) b_id of None \<Rightarrow> False | Some existing \<Rightarrow> existing \<noteq> b)
      then (a, Inl (NodeBail ''proposal bytes conflict for one canonical block id''))
      else let candidate_blocks = bt_insert b_id b (na_proposal_blocks a);
               message = MessageProposal sgnd;
               mv = node_message_validator env (na_ledger a) candidate_blocks (na_validator_ids a)
      in case na_consensus a of
        None \<Rightarrow> (a, Inl (NodeBail ''validator consensus driver is missing''))
      | Some c \<Rightarrow>
        case preflight_message c message mv of
          Inl e \<Rightarrow> (a, Inl (NodeConsensus e))
        | Inr cacheable \<Rightarrow>
          if \<not> cacheable then (a, Inr None)
          else case borsh_proposal env sgnd of
            None \<Rightarrow> (a, Inl NodeSerialization)
          | Some x \<Rightarrow>
            case persist_consensus_proposal (na_store a)
                   \<lparr>pp_height = p_height p, pp_round = p_round p, pp_block_id = blk_bytes b_id,
                    pp_block_bytes = block_canonical_bytes env b, pp_signed_proposal = x\<rparr> of
              (db, Inl e) \<Rightarrow> (a\<lparr>na_store := db\<rparr>, Inl (NodeStorage e))
            | (db, Inr _) \<Rightarrow>
                (a\<lparr>na_store := db, na_proposal_blocks := candidate_blocks\<rparr>, Inr (Some message)))"

fun wire_activity :: "consensus_wire \<Rightarrow> cvalidator_id \<times> u64 \<times> rstring" where
  "wire_activity (WireProposal sgnd _) =
     (p_proposer (sp_proposal sgnd), p_height (sp_proposal sgnd), str ''proposal'')"
| "wire_activity (WireVote sgnd) =
     (v_validator (sv_vote sgnd), v_height (sv_vote sgnd),
      case v_kind (sv_vote sgnd) of Prevote \<Rightarrow> str ''prevote'' | Precommit \<Rightarrow> str ''precommit'')"

definition handle_consensus_message ::
  "'z actor_env_scheme \<Rightarrow> node_actor \<Rightarrow> consensus_wire \<Rightarrow>
   (node_actor \<times> (node_error + unit)) option" where
  "handle_consensus_message env a wire =
     (if consensus_is_idle a then Some (a, Inr ())
      else case
        (case wire of
           WireProposal sgnd b \<Rightarrow> admit_proposal env a sgnd b
         | WireVote sgnd \<Rightarrow>
             (a, Inr (if v_height (sv_vote sgnd) \<noteq> ls_height (na_ledger a) + 1 then None
                      else Some (MessageVote sgnd)))) of
        (a, Inl e) \<Rightarrow> Some (a, Inl e)
      | (a, Inr None) \<Rightarrow> Some (a, Inr ())
      | (a, Inr (Some message)) \<Rightarrow>
          then_run (ensure_consensus_started env a) (\<lambda>a.
          then_run (process_consensus_event env a (Message message)) (\<lambda>a.
            case wire_activity wire of (validator, height, phase) \<Rightarrow>
              Some (note_validator_activity env validator height phase a, Inr ()))))"

fun publish_wires ::
  "'z actor_env_scheme \<Rightarrow> node_actor \<Rightarrow> consensus_wire list \<Rightarrow> node_actor \<times> (node_error + unit)" where
  "publish_wires env a [] = (a, Inr ())"
| "publish_wires env a (wire # wires) =
     st_then (publish_consensus_wire env a wire) (\<lambda>a _. publish_wires env a wires)"

definition resume_interrupted_consensus ::
  "'z actor_env_scheme \<Rightarrow> node_actor \<Rightarrow> (node_actor \<times> (node_error + unit)) option" where
  "resume_interrupted_consensus env a =
     (let wires = na_recovery_broadcasts a;
          a = a\<lparr>na_recovery_messages := [], na_recovery_broadcasts := []\<rparr>
      in then_run (Some (publish_wires env a wires)) (\<lambda>a.
           process_consensus_event env (a\<lparr>na_consensus_started := True\<rparr>) Start))"

end
