(* ===== verification/NodeFrame.thy ===== *)
theory NodeFrame
  imports NodeActor
begin

text \<open>
  What the reporting operations of the node leave alone: sending, telemetry and snapshots
  change none of the fields that the protocol depends on.
\<close>

section \<open>Reports\<close>

lemma emit_frame [simp]:
  "na_config (emit out a) = na_config a"
  "na_chain_id (emit out a) = na_chain_id a"
  "na_ledger (emit out a) = na_ledger a"
  "na_mempool (emit out a) = na_mempool a"
  "na_mempool_ids (emit out a) = na_mempool_ids a"
  "na_store (emit out a) = na_store a"
  "na_networked (emit out a) = na_networked a"
  "na_validator_ids (emit out a) = na_validator_ids a"
  "na_consensus_ids (emit out a) = na_consensus_ids a"
  "na_standalone_keys (emit out a) = na_standalone_keys a"
  "na_local_validator_key (emit out a) = na_local_validator_key a"
  "na_consensus (emit out a) = na_consensus a"
  "na_consensus_started (emit out a) = na_consensus_started a"
  "na_proposal_blocks (emit out a) = na_proposal_blocks a"
  "na_recovery_messages (emit out a) = na_recovery_messages a"
  "na_recovery_broadcasts (emit out a) = na_recovery_broadcasts a"
  "na_peers (emit out a) = na_peers a"
  "na_sync_target (emit out a) = na_sync_target a"
  "na_sync_peer (emit out a) = na_sync_peer a"
  "na_sync_request_id (emit out a) = na_sync_request_id a"
  "na_sync_request_deadline (emit out a) = na_sync_request_deadline a"
  "na_next_request_id (emit out a) = na_next_request_id a"
  "na_halted (emit out a) = na_halted a"
  "na_clock_ms (emit out a) = na_clock_ms a"
  "na_instant (emit out a) = na_instant a"
  by (simp_all add: emit_def)

lemma note_frame [simp]:
  "na_config (note_validator_activity env v h ph a) = na_config a"
  "na_chain_id (note_validator_activity env v h ph a) = na_chain_id a"
  "na_ledger (note_validator_activity env v h ph a) = na_ledger a"
  "na_mempool (note_validator_activity env v h ph a) = na_mempool a"
  "na_mempool_ids (note_validator_activity env v h ph a) = na_mempool_ids a"
  "na_store (note_validator_activity env v h ph a) = na_store a"
  "na_networked (note_validator_activity env v h ph a) = na_networked a"
  "na_validator_ids (note_validator_activity env v h ph a) = na_validator_ids a"
  "na_consensus_ids (note_validator_activity env v h ph a) = na_consensus_ids a"
  "na_standalone_keys (note_validator_activity env v h ph a) = na_standalone_keys a"
  "na_local_validator_key (note_validator_activity env v h ph a) = na_local_validator_key a"
  "na_consensus (note_validator_activity env v h ph a) = na_consensus a"
  "na_consensus_started (note_validator_activity env v h ph a) = na_consensus_started a"
  "na_proposal_blocks (note_validator_activity env v h ph a) = na_proposal_blocks a"
  "na_recovery_messages (note_validator_activity env v h ph a) = na_recovery_messages a"
  "na_recovery_broadcasts (note_validator_activity env v h ph a) = na_recovery_broadcasts a"
  "na_peers (note_validator_activity env v h ph a) = na_peers a"
  "na_sync_target (note_validator_activity env v h ph a) = na_sync_target a"
  "na_sync_peer (note_validator_activity env v h ph a) = na_sync_peer a"
  "na_sync_request_id (note_validator_activity env v h ph a) = na_sync_request_id a"
  "na_sync_request_deadline (note_validator_activity env v h ph a) = na_sync_request_deadline a"
  "na_next_request_id (note_validator_activity env v h ph a) = na_next_request_id a"
  "na_halted (note_validator_activity env v h ph a) = na_halted a"
  "na_clock_ms (note_validator_activity env v h ph a) = na_clock_ms a"
  "na_instant (note_validator_activity env v h ph a) = na_instant a"
  by (simp_all add: note_validator_activity_def)

lemma note_all_telemetry:
  "\<exists>t. fold (\<lambda>s. note_validator_activity env (f s) h ph) xs a = a\<lparr>na_telemetry := t\<rparr>"
proof (induction xs arbitrary: a)
  case Nil
  show ?case by (rule exI [of _ "na_telemetry a"]) simp
next
  case (Cons x xs)
  from Cons [of "note_validator_activity env (f x) h ph a"] show ?case
    by (auto simp: note_validator_activity_def)
qed

lemma note_all_frame [simp]:
  "na_config (fold (\<lambda>s. note_validator_activity env (f s) h ph) xs a) = na_config a"
  "na_chain_id (fold (\<lambda>s. note_validator_activity env (f s) h ph) xs a) = na_chain_id a"
  "na_ledger (fold (\<lambda>s. note_validator_activity env (f s) h ph) xs a) = na_ledger a"
  "na_mempool (fold (\<lambda>s. note_validator_activity env (f s) h ph) xs a) = na_mempool a"
  "na_mempool_ids (fold (\<lambda>s. note_validator_activity env (f s) h ph) xs a) = na_mempool_ids a"
  "na_store (fold (\<lambda>s. note_validator_activity env (f s) h ph) xs a) = na_store a"
  "na_networked (fold (\<lambda>s. note_validator_activity env (f s) h ph) xs a) = na_networked a"
  "na_validator_ids (fold (\<lambda>s. note_validator_activity env (f s) h ph) xs a) = na_validator_ids a"
  "na_consensus_ids (fold (\<lambda>s. note_validator_activity env (f s) h ph) xs a) = na_consensus_ids a"
  "na_standalone_keys (fold (\<lambda>s. note_validator_activity env (f s) h ph) xs a) = na_standalone_keys a"
  "na_local_validator_key (fold (\<lambda>s. note_validator_activity env (f s) h ph) xs a) = na_local_validator_key a"
  "na_consensus (fold (\<lambda>s. note_validator_activity env (f s) h ph) xs a) = na_consensus a"
  "na_consensus_started (fold (\<lambda>s. note_validator_activity env (f s) h ph) xs a) = na_consensus_started a"
  "na_proposal_blocks (fold (\<lambda>s. note_validator_activity env (f s) h ph) xs a) = na_proposal_blocks a"
  "na_recovery_messages (fold (\<lambda>s. note_validator_activity env (f s) h ph) xs a) = na_recovery_messages a"
  "na_recovery_broadcasts (fold (\<lambda>s. note_validator_activity env (f s) h ph) xs a) = na_recovery_broadcasts a"
  "na_peers (fold (\<lambda>s. note_validator_activity env (f s) h ph) xs a) = na_peers a"
  "na_sync_target (fold (\<lambda>s. note_validator_activity env (f s) h ph) xs a) = na_sync_target a"
  "na_sync_peer (fold (\<lambda>s. note_validator_activity env (f s) h ph) xs a) = na_sync_peer a"
  "na_sync_request_id (fold (\<lambda>s. note_validator_activity env (f s) h ph) xs a) = na_sync_request_id a"
  "na_sync_request_deadline (fold (\<lambda>s. note_validator_activity env (f s) h ph) xs a) = na_sync_request_deadline a"
  "na_next_request_id (fold (\<lambda>s. note_validator_activity env (f s) h ph) xs a) = na_next_request_id a"
  "na_halted (fold (\<lambda>s. note_validator_activity env (f s) h ph) xs a) = na_halted a"
  "na_clock_ms (fold (\<lambda>s. note_validator_activity env (f s) h ph) xs a) = na_clock_ms a"
  "na_instant (fold (\<lambda>s. note_validator_activity env (f s) h ph) xs a) = na_instant a"
  by (use note_all_telemetry [of env f h ph xs a] in auto)

lemma publish_frame [simp]:
  "na_config (publish_snapshot env a) = na_config a"
  "na_chain_id (publish_snapshot env a) = na_chain_id a"
  "na_ledger (publish_snapshot env a) = na_ledger a"
  "na_mempool (publish_snapshot env a) = na_mempool a"
  "na_mempool_ids (publish_snapshot env a) = na_mempool_ids a"
  "na_store (publish_snapshot env a) = na_store a"
  "na_networked (publish_snapshot env a) = na_networked a"
  "na_validator_ids (publish_snapshot env a) = na_validator_ids a"
  "na_consensus_ids (publish_snapshot env a) = na_consensus_ids a"
  "na_standalone_keys (publish_snapshot env a) = na_standalone_keys a"
  "na_local_validator_key (publish_snapshot env a) = na_local_validator_key a"
  "na_consensus (publish_snapshot env a) = na_consensus a"
  "na_consensus_started (publish_snapshot env a) = na_consensus_started a"
  "na_proposal_blocks (publish_snapshot env a) = na_proposal_blocks a"
  "na_recovery_messages (publish_snapshot env a) = na_recovery_messages a"
  "na_recovery_broadcasts (publish_snapshot env a) = na_recovery_broadcasts a"
  "na_peers (publish_snapshot env a) = na_peers a"
  "na_sync_target (publish_snapshot env a) = na_sync_target a"
  "na_sync_peer (publish_snapshot env a) = na_sync_peer a"
  "na_sync_request_id (publish_snapshot env a) = na_sync_request_id a"
  "na_sync_request_deadline (publish_snapshot env a) = na_sync_request_deadline a"
  "na_next_request_id (publish_snapshot env a) = na_next_request_id a"
  "na_halted (publish_snapshot env a) = na_halted a"
  "na_clock_ms (publish_snapshot env a) = na_clock_ms a"
  "na_instant (publish_snapshot env a) = na_instant a"
  by (simp_all add: publish_snapshot_def)

lemma emit_if_networked_cases: "emit_if_networked out a = a \<or> emit_if_networked out a = emit out a"
  by (simp add: emit_if_networked_def)

lemma emit_if_networked_frame [simp]:
  "na_config (emit_if_networked out a) = na_config a"
  "na_chain_id (emit_if_networked out a) = na_chain_id a"
  "na_ledger (emit_if_networked out a) = na_ledger a"
  "na_mempool (emit_if_networked out a) = na_mempool a"
  "na_mempool_ids (emit_if_networked out a) = na_mempool_ids a"
  "na_store (emit_if_networked out a) = na_store a"
  "na_networked (emit_if_networked out a) = na_networked a"
  "na_validator_ids (emit_if_networked out a) = na_validator_ids a"
  "na_consensus_ids (emit_if_networked out a) = na_consensus_ids a"
  "na_standalone_keys (emit_if_networked out a) = na_standalone_keys a"
  "na_local_validator_key (emit_if_networked out a) = na_local_validator_key a"
  "na_consensus (emit_if_networked out a) = na_consensus a"
  "na_consensus_started (emit_if_networked out a) = na_consensus_started a"
  "na_proposal_blocks (emit_if_networked out a) = na_proposal_blocks a"
  "na_recovery_messages (emit_if_networked out a) = na_recovery_messages a"
  "na_recovery_broadcasts (emit_if_networked out a) = na_recovery_broadcasts a"
  "na_peers (emit_if_networked out a) = na_peers a"
  "na_sync_target (emit_if_networked out a) = na_sync_target a"
  "na_sync_peer (emit_if_networked out a) = na_sync_peer a"
  "na_sync_request_id (emit_if_networked out a) = na_sync_request_id a"
  "na_sync_request_deadline (emit_if_networked out a) = na_sync_request_deadline a"
  "na_next_request_id (emit_if_networked out a) = na_next_request_id a"
  "na_halted (emit_if_networked out a) = na_halted a"
  "na_clock_ms (emit_if_networked out a) = na_clock_ms a"
  "na_instant (emit_if_networked out a) = na_instant a"
  by (simp_all add: emit_if_networked_def)

lemma revalidate_frame [simp]:
  "na_config (revalidate_mempool env a) = na_config a"
  "na_chain_id (revalidate_mempool env a) = na_chain_id a"
  "na_ledger (revalidate_mempool env a) = na_ledger a"
  "na_store (revalidate_mempool env a) = na_store a"
  "na_networked (revalidate_mempool env a) = na_networked a"
  "na_validator_ids (revalidate_mempool env a) = na_validator_ids a"
  "na_consensus_ids (revalidate_mempool env a) = na_consensus_ids a"
  "na_standalone_keys (revalidate_mempool env a) = na_standalone_keys a"
  "na_local_validator_key (revalidate_mempool env a) = na_local_validator_key a"
  "na_consensus (revalidate_mempool env a) = na_consensus a"
  "na_consensus_started (revalidate_mempool env a) = na_consensus_started a"
  "na_proposal_blocks (revalidate_mempool env a) = na_proposal_blocks a"
  "na_recovery_messages (revalidate_mempool env a) = na_recovery_messages a"
  "na_recovery_broadcasts (revalidate_mempool env a) = na_recovery_broadcasts a"
  "na_peers (revalidate_mempool env a) = na_peers a"
  "na_sync_target (revalidate_mempool env a) = na_sync_target a"
  "na_sync_peer (revalidate_mempool env a) = na_sync_peer a"
  "na_sync_request_id (revalidate_mempool env a) = na_sync_request_id a"
  "na_sync_request_deadline (revalidate_mempool env a) = na_sync_request_deadline a"
  "na_next_request_id (revalidate_mempool env a) = na_next_request_id a"
  "na_halted (revalidate_mempool env a) = na_halted a"
  "na_clock_ms (revalidate_mempool env a) = na_clock_ms a"
  "na_instant (revalidate_mempool env a) = na_instant a"
  by (simp_all add: revalidate_mempool_def Let_def)

end
