(* ===== verification/NodeTermination.thy ===== *)
theory NodeTermination
  imports NodeFrame
begin

text \<open>
  The loop of \<open>process_consensus_event\<close> over the events that the node queues for itself.
  What bounds it is the work an engine can still ask for: a block for each requested
  proposal, and a signature for each vote it has not cast in its round. No event that the
  node queues adds to that work, and each one queued takes a unit of it away.
\<close>

section \<open>The work left in an engine\<close>

fun asks_node :: "effect \<Rightarrow> bool" where
  "asks_node (RequestProposal _ _ _ _) = True"
| "asks_node (PersistBeforeBroadcast _ _) = True"
| "asks_node _ = False"

definition asked :: "effect list \<Rightarrow> nat" where
  "asked effs = length (filter asks_node effs)"

definition uncast_votes :: "consensus \<Rightarrow> nat" where
  "uncast_votes c =
     length (filter (\<lambda>k. bt_get (c_local_decisions c) (VoteKey (c_round c) k) = None) [Prevote, Precommit])"

definition engine_work :: "consensus \<Rightarrow> nat" where
  "engine_work c = length (c_requested_proposals c) + uncast_votes c"

lemma asked_simps [simp]:
  "asked [] = 0" "asked (e # es) = (if asks_node e then 1 else 0) + asked es"
  "asked (xs @ ys) = asked xs + asked ys"
  by (simp_all add: asked_def)

lemma cast_vote_work:
  "cast_vote k val (c, effs) = (c', effs') \<Longrightarrow> engine_work c' + asked effs' = engine_work c + asked effs"
  by (cases k) (auto simp: cast_vote_def Let_def engine_work_def uncast_votes_def split: if_splits)

lemma evaluate_prevotes_work:
  assumes "evaluate_prevotes r (c, effs) = (c', effs')"
  shows "engine_work c' + asked effs' = engine_work c + asked effs"
proof -
  have keep: "engine_work (update_valid c q b pf) = engine_work c"
    "engine_work (update_valid c q b pf\<lparr>c_locked_round := lr, c_locked_block := lb\<rparr>) = engine_work c"
    "engine_work (c\<lparr>c_locked_round := lr, c_locked_block := lb\<rparr>) = engine_work c" for q b pf lr lb
    by (simp_all add: update_valid_def engine_work_def uncast_votes_def)
  show ?thesis
    using assms by (auto simp: evaluate_prevotes_def Let_def keep split: option.splits vote_value.splits if_splits
        dest!: cast_vote_work)
qed

lemma finalize_work:
  "finalize c ct = (c', Inr effs) \<Longrightarrow> engine_work c' = engine_work c \<and> asked effs = 0"
  by (auto simp: finalize_def Let_def engine_work_def uncast_votes_def split: option.splits if_splits)

lemma evaluate_round_work:
  assumes "evaluate_round r mv (c, effs) = (c', Inr effs')"
  shows "engine_work c' + asked effs' = engine_work c + asked effs"
proof -
  obtain c1 effs1 where e: "evaluate_prevotes r (c, effs) = (c1, effs1)" by fastforce
  have "evaluate_precommits r mv (c1, effs1) = (c', Inr effs')"
    using assms e by (simp add: evaluate_round_def)
  then have "c' = c1 \<and> effs' = effs1 \<or>
      (\<exists>ct added. finalize c1 ct = (c', Inr added) \<and> effs' = effs1 @ added)"
    unfolding evaluate_precommits_def Let_def
    by (auto simp: result_simps split: option.splits vote_value.splits sum.splits prod.splits)
  with evaluate_prevotes_work [OF e] show ?thesis by (auto dest: finalize_work)
qed

lemma activate_work:
  assumes "activate_current_round mv (c, effs) = (c', Inr effs')"
  shows "engine_work c' + asked effs' = engine_work c + asked effs"
proof -
  let ?p = "if c_phase c = PhasePropose then
      (case bt_get (c_proposals c) (c_round c) of None \<Rightarrow> (c, effs)
       | Some s \<Rightarrow> cast_vote Prevote (prevote_for c (sp_proposal s)) (c, effs)) else (c, effs)"
  obtain c1 effs1 where p: "?p = (c1, effs1)" by fastforce
  then have "engine_work c1 + asked effs1 = engine_work c + asked effs"
    by (auto split: if_splits option.splits dest!: cast_vote_work)
  moreover have "evaluate_round (c_round c1) mv (c1, effs1) = (c', Inr effs')"
    using assms p by (simp add: activate_current_round_def)
  ultimately show ?thesis by (auto dest!: evaluate_round_work)
qed

lemma accept_message_work:
  assumes "accept_validated_message c m mv = (c', Inr effs)"
  shows "engine_work c' + asked effs = engine_work c"
proof -
  have keep: "engine_work (c\<lparr>c_proposals := x\<rparr>) = engine_work c" "engine_work (c\<lparr>c_votes := y\<rparr>) = engine_work c" for x y
    by (simp_all add: engine_work_def uncast_votes_def)
  show ?thesis
    using assms
    by (cases m) (auto simp: accept_validated_message_def accept_proposal_def accept_vote_def Let_def keep
        split: if_splits option.splits dest!: activate_work evaluate_round_work)
qed

lemma request_persistence_work:
  assumes "request_persistence c (SignableProposal p) = (c', Inr effs)"
  shows "engine_work c' = engine_work c \<and> asked effs \<le> 1"
  using assms
  by (auto simp: request_persistence_def Let_def engine_work_def uncast_votes_def split: option.splits if_splits)

section \<open>Events the node queues for itself\<close>

fun queued_event :: "event \<Rightarrow> bool" where
  "queued_event (ProposalReady _ _ _) = True"
| "queued_event (Persisted _) = True"
| "queued_event _ = False"

lemma proposal_ready_work:
  assumes "proposal_ready c h r b = (c', Inr effs)"
  shows "engine_work c' + asked effs \<le> engine_work c"
proof -
  let ?c = "c\<lparr>c_requested_proposals := removeAll r (c_requested_proposals c)\<rparr>"
  obtain p where run: "r \<in> set (c_requested_proposals c)"
    "request_persistence ?c (SignableProposal p) = (c', Inr effs)"
    using assms by (auto simp: proposal_ready_def Let_def split: if_splits)
  then have "length (removeAll r (c_requested_proposals c)) < length (c_requested_proposals c)"
    by (simp add: length_removeAll_less)
  then have "engine_work ?c < engine_work c"
    by (simp add: engine_work_def uncast_votes_def)
  with request_persistence_work [OF run(2)] show ?thesis by linarith
qed

lemma persisted_work:
  assumes "engine_persisted c m mv = (c', Inr effs)"
  shows "engine_work c' + asked effs = engine_work c"
proof -
  have keep: "engine_work (c\<lparr>c_pending_persistence := x\<rparr>) = engine_work c" for x
    by (simp add: engine_work_def uncast_votes_def)
  show ?thesis
    using assms by (auto simp: engine_persisted_def Let_def keep result_simps split: if_splits sum.splits
        dest!: accept_message_work)
qed

lemma queued_event_work:
  assumes "engine_step c ev mv = (c', Inr effs)" and "queued_event ev"
  shows "engine_work c' + asked effs \<le> engine_work c"
  using assms
  by (cases ev) (auto simp: engine_step_def split: if_splits dest: proposal_ready_work persisted_work)

lemma unstarted_refuses: "queued_event ev \<Longrightarrow> \<not> c_started c \<Longrightarrow> engine_step c ev mv = (c, Inl NotStarted)"
  by (cases ev) (auto simp: engine_step_def)

section \<open>Carrying out effects\<close>

text \<open>The engine is left alone, or replaced by a fresh one after a finalization.\<close>

definition same_or_fresh :: "node_actor \<Rightarrow> node_actor \<Rightarrow> bool" where
  "same_or_fresh a a' \<longleftrightarrow>
     na_consensus a' = na_consensus a \<or> (\<exists>c. na_consensus a' = Some c \<and> \<not> c_started c)"

lemma commit_finalized_consensus:
  "commit_finalized env a b certificate g = (a', r) \<Longrightarrow> na_consensus a' = na_consensus a"
  by (auto simp: commit_finalized_def Let_def
      split: prod.splits sum.splits if_splits option.splits)

lemma reset_consensus_fresh: "reset_consensus env a = (a', r) \<Longrightarrow> same_or_fresh a a'"
  by (auto simp: reset_consensus_def Let_def same_or_fresh_def consensus_new_ok
      split: prod.splits sum.splits option.splits)

lemma same_or_fresh_trans: "same_or_fresh a b \<Longrightarrow> same_or_fresh b c \<Longrightarrow> same_or_fresh a c"
  by (auto simp: same_or_fresh_def)

lemma same_or_fresh_same: "na_consensus a' = na_consensus a \<Longrightarrow> same_or_fresh a a'"
  by (simp add: same_or_fresh_def)

lemma finalize_decided_fresh: "finalize_decided env a f = (a', r) \<Longrightarrow> same_or_fresh a a'"
  by (auto simp: finalize_decided_def st_then_def same_or_fresh_same
      split: prod.splits sum.splits option.splits
      dest!: commit_finalized_consensus reset_consensus_fresh intro: same_or_fresh_trans same_or_fresh_same)

lemma publish_consensus_wire_consensus:
  "publish_consensus_wire env a w = (a', r) \<Longrightarrow> na_consensus a' = na_consensus a"
  by (auto simp: publish_consensus_wire_def split: if_splits option.splits)

lemma broadcast_consensus_consensus:
  "broadcast_consensus env a m = (a', r) \<Longrightarrow> na_consensus a' = na_consensus a"
  by (auto simp: broadcast_consensus_def split: signed_message.splits option.splits
      dest: publish_consensus_wire_consensus)

lemma carry_out_effect_queues:
  assumes "carry_out_effect env a e = (a', Inr queued)"
  shows "same_or_fresh a a' \<and> list_all queued_event queued \<and> length queued = asked [e]"
proof (cases e)
  case (Finalize f)
  then show ?thesis using assms
    by (auto simp: carry_out_effect_def result_simps dest: finalize_decided_fresh)
qed (use assms in \<open>auto simp: carry_out_effect_def Let_def result_simps
      split: sum.splits prod.splits intro!: same_or_fresh_same dest: broadcast_consensus_consensus\<close>)

lemma carry_out_effects_queue:
  "carry_out_effects env a es = (a', Inr queued) \<Longrightarrow>
     same_or_fresh a a' \<and> list_all queued_event queued \<and> length queued = asked es"
proof (induction es arbitrary: a queued)
  case Nil
  then show ?case by (simp add: same_or_fresh_same)
next
  case (Cons e es)
  then obtain a1 q1 q2 where "carry_out_effect env a e = (a1, Inr q1)"
    "carry_out_effects env a1 es = (a', Inr q2)" "queued = q1 @ q2"
    by (auto simp: result_simps)
  with Cons.IH [of a1 q2] carry_out_effect_queues [of env a e a1 q1] show ?case
    by (cases "asks_node e") (auto intro: same_or_fresh_trans)
qed

section \<open>The loop returns\<close>

text \<open>With an engine that was just reset, the first event left in the queue ends the loop.\<close>

definition actor_work :: "node_actor \<Rightarrow> nat" where
  "actor_work a = (case na_consensus a of None \<Rightarrow> 0 | Some c \<Rightarrow> if c_started c then engine_work c else 0)"

lemma started_stays: "engine_step c ev mv = (c', Inr effs) \<Longrightarrow> queued_event ev \<Longrightarrow> c_started c"
  using unstarted_refuses [of ev c mv] by auto

lemma process_next_work:
  assumes run: "process_next env a ev = (a', Inr queued)" and ev: "queued_event ev"
  shows "list_all queued_event queued \<and>
    (actor_work a' + length queued \<le> actor_work a \<or> actor_work a' = 0 \<and>
     (\<exists>c. na_consensus a' = Some c \<and> \<not> c_started c))"
proof -
  obtain c c' effs where c: "na_consensus a = Some c"
    "engine_step c ev (actor_validator env a) = (c', Inr effs)"
    "carry_out_effects env (a\<lparr>na_consensus := Some c'\<rparr>) effs = (a', Inr queued)"
    using run by (auto simp: process_next_def split: option.splits sum.splits prod.splits)
  have q: "same_or_fresh (a\<lparr>na_consensus := Some c'\<rparr>) a'" "list_all queued_event queued" "length queued = asked effs"
    using carry_out_effects_queue [OF c(3)] by auto
  have "engine_work c' + asked effs \<le> engine_work c" "c_started c"
    using queued_event_work [OF c(2) ev] started_stays [OF c(2) ev] by auto
  with q c(1) show ?thesis
    by (cases "c_started c'") (auto simp: same_or_fresh_def actor_work_def)
qed

lemma process_events_returns:
  "list_all queued_event queue \<Longrightarrow> process_events env a queue \<noteq> None"
proof (induction "actor_work a + length queue" arbitrary: a queue rule: less_induct)
  case less
  show ?case
  proof (cases queue)
    case Nil
    then show ?thesis by (simp add: process_events.simps)
  next
    case (Cons ev rest)
    obtain a' r where run: "process_next env a ev = (a', r)" by fastforce
    show ?thesis
    proof (cases r)
      case (Inl e)
      with Cons run show ?thesis by (simp add: process_events.simps)
    next
      case (Inr queued)
      have ev: "queued_event ev" "list_all queued_event rest" using less.prems Cons by auto
      have unfold: "process_events env a queue = process_events env a' (rest @ queued)"
        using Cons run Inr by (simp add: process_events.simps)
      from process_next_work [OF run [unfolded Inr] ev(1)]
      have q: "list_all queued_event (rest @ queued)" and
        alt: "actor_work a' + length queued \<le> actor_work a \<or>
          (\<exists>c. na_consensus a' = Some c \<and> \<not> c_started c)"
        using ev by auto
      from alt show ?thesis
      proof
        assume "actor_work a' + length queued \<le> actor_work a"
        then have "process_events env a' (rest @ queued) \<noteq> None"
          by (intro less.hyps q) (simp add: Cons)
        then show ?thesis by (simp add: unfold)
      next
        assume "\<exists>c. na_consensus a' = Some c \<and> \<not> c_started c"
        with q show ?thesis
          by (cases "rest @ queued")
            (auto simp: unfold process_events.simps [of _ a'] process_next_def unstarted_refuses)
      qed
    qed
  qed
qed

text \<open>The first event comes from outside; whatever it makes the engine ask for is bounded.\<close>

lemma process_events_from_one: "process_events env a [ev] \<noteq> None"
proof -
  obtain a' r where run: "process_next env a ev = (a', r)" by fastforce
  show ?thesis
  proof (cases r)
    case (Inl e)
    with run show ?thesis by (simp add: process_events.simps)
  next
    case (Inr queued)
    with run have "list_all queued_event queued"
      by (auto simp: process_next_def split: option.splits sum.splits prod.splits dest!: carry_out_effects_queue)
    with run Inr show ?thesis by (simp add: process_events.simps [of _ _ "[ev]"] process_events_returns)
  qed
qed

lemma then_run_returns:
  "p \<noteq> None \<Longrightarrow> (\<And>a. k a \<noteq> None) \<Longrightarrow> then_run p k \<noteq> None"
  by (auto simp: then_run_def split: sum.splits)

lemma process_consensus_event_returns: "process_consensus_event env a ev \<noteq> None"
  by (simp add: process_consensus_event_def process_events_from_one then_run_returns del: not_None_eq)

lemma ensure_consensus_started_returns: "ensure_consensus_started env a \<noteq> None"
  by (simp add: ensure_consensus_started_def process_consensus_event_returns del: not_None_eq)

lemma handle_consensus_message_returns: "handle_consensus_message env a wire \<noteq> None"
  by (simp add: handle_consensus_message_def then_run_returns ensure_consensus_started_returns
      process_consensus_event_returns split: prod.splits sum.splits option.splits del: not_None_eq)

lemma resume_interrupted_consensus_returns: "resume_interrupted_consensus env a \<noteq> None"
  by (simp add: resume_interrupted_consensus_def Let_def then_run_returns process_consensus_event_returns
      del: not_None_eq)

end
