(* ===== verification/NodeRecovery.thy ===== *)
theory NodeRecovery
  imports NodeActor StorageInv Agreement
begin

text \<open>
  The signing records of the store as the durable log of \<open>Agreement\<close>: \<open>stored_log\<close> decodes
  the records of a height in the order they were written, \<open>sign_and_persist\<close> appends to it,
  and \<open>initialize_consensus_recovery\<close> is the restart of the engine from it.
\<close>

section \<open>The log that the store holds\<close>

definition decode_decision ::
  "'z node_env_scheme \<Rightarrow> persisted_decision \<Rightarrow> (signable_message \<times> safety_state) option" where
  "decode_decision env d =
     (case (borsh_message_parse env (pd_signed_message d), json_safety_parse env (pd_safety_state d)) of
        (Some m, Some ss) \<Rightarrow> Some (message_signable m, ss)
      | _ \<Rightarrow> None)"

definition stored_log :: "'z node_env_scheme \<Rightarrow> store \<Rightarrow> u64 \<Rightarrow> decision_log" where
  "stored_log env db h = List.map_filter (decode_decision env) (consensus_decisions db h)"

fun signable_height :: "signable_message \<Rightarrow> u64" where
  "signable_height (SignableProposal p) = p_height p"
| "signable_height (SignableVote v) = v_height v"

lemma decode_decision_Some:
  "decode_decision env d = Some x \<longleftrightarrow>
     (\<exists>m ss. borsh_message_parse env (pd_signed_message d) = Some m \<and>
        json_safety_parse env (pd_safety_state d) = Some ss \<and> x = (message_signable m, ss))"
  by (auto simp: decode_decision_def split: option.splits)

text \<open>What recovery accepts decodes.\<close>

lemma validated_decision_decodes:
  assumes "validate_persisted_decision env d h = Inr sgnd"
  shows "\<exists>ss. decode_decision env d = Some (message_signable sgnd, ss) \<and>
     json_safety_parse env (pd_safety_state d) = Some ss \<and> ss_height ss = h"
  using assms by (auto simp: validate_persisted_decision_def decode_decision_Some result_simps split: if_splits)

section \<open>Recovery\<close>

lemma restore_decisions_ok:
  "restore_decisions env h c ds = Inr (c', messages) \<Longrightarrow>
     restore_all c (map fst (List.map_filter (decode_decision env) ds)) = (c', Inr ()) \<and>
     length (List.map_filter (decode_decision env) ds) = length ds"
proof (induction ds arbitrary: c messages)
  case Nil
  then show ?case by (simp add: map_filter_simps)
next
  case (Cons d ds)
  then obtain sgnd c1 rest where d: "validate_persisted_decision env d h = Inr sgnd"
    "restore_local_decision c (message_signable sgnd) = (c1, Inr ())"
    "restore_decisions env h c1 ds = Inr (c', rest)"
    by (auto simp: result_simps)
  from Cons.IH [OF d(3)] validated_decision_decodes [OF d(1)] d(2) show ?case
    by (auto simp: map_filter_simps)
qed

lemma last_map_filter: "f (last xs) = Some y \<Longrightarrow> xs \<noteq> [] \<Longrightarrow> last (List.map_filter f xs) = y \<and> List.map_filter f xs \<noteq> []"
  by (induction xs rule: rev_induct) (auto simp: List.map_filter_def)

text \<open>The network of \<open>Agreement\<close> that a node belongs to at the height it works on.\<close>

definition node_setting :: "node_config \<Rightarrow> validator_set \<Rightarrow> ledger_state \<Rightarrow> cvalidator_id list \<Rightarrow> setting" where
  "node_setting config validators ledger faulty =
     \<lparr>set_validators = validators, set_config = config_for_chain (nc_chain_id config),
      set_height = ls_height ledger + 1, set_faulty = faulty\<rparr>"

lemma restore_decisions_last:
  assumes run: "restore_decisions env h c ds = Inr (c', messages)" and ds: "ds \<noteq> []"
    and ss: "json_safety_parse env (pd_safety_state (last ds)) = Some ss"
  shows "List.map_filter (decode_decision env) ds \<noteq> []"
    and "snd (last (List.map_filter (decode_decision env) ds)) = ss"
proof -
  have "\<forall>d \<in> set ds. \<exists>sgnd. validate_persisted_decision env d h = Inr sgnd"
    using run by (induction ds arbitrary: c messages) (auto simp: result_simps)
  with ds obtain sgnd where "validate_persisted_decision env (last ds) h = Inr sgnd" by fastforce
  with ss have "decode_decision env (last ds) = Some (message_signable sgnd, ss)"
    using validated_decision_decodes by fastforce
  from last_map_filter [where f = "decode_decision env" and xs = ds, OF this ds]
  show "List.map_filter (decode_decision env) ds \<noteq> []" "snd (last (List.map_filter (decode_decision env) ds)) = ss"
    by simp_all
qed

lemma recover_from_safety_state_ok:
  assumes "recover_from_safety_state env config db ledger vids vs me h safety_bytes ss = Inr r"
  obtains c0 c ds messages where
    "consensus_new_with_safety_state me vs h (config_for_chain (nc_chain_id config)) ss
       (node_message_validator env ledger (cr_proposal_blocks r) vids) = Inr c0"
    "ds = consensus_decisions db h" "ds \<noteq> []" "pd_safety_state (last ds) = safety_bytes"
    "restore_decisions env h c0 ds = Inr (c, messages)" "cr_consensus r = Some c"
  using assms that
  by (auto simp: recover_from_safety_state_def Let_def result_simps split: prod.splits if_splits)

lemma recovery_restarts:
  assumes run: "initialize_consensus_recovery env config db ledger vids cids (Some key) = Inr r"
  shows "\<exists>vs c. validator_set_new cids = Inr vs \<and> cr_consensus r = Some c \<and>
     restart_engine (node_setting config vs ledger faulty) (local_consensus_id env key)
       (if consensus_safety_state db = None then [] else stored_log env db (ls_height ledger + 1))
       (node_message_validator env ledger (cr_proposal_blocks r) vids) = Some c"
proof -
  let ?h = "ls_height ledger + 1"
  obtain vs where vs: "validator_set_new cids = Inr vs"
    using run by (auto simp: initialize_consensus_recovery_def Let_def result_simps)
  show ?thesis
  proof (cases "consensus_safety_state db")
    case None
    with run vs show ?thesis
      by (auto simp: initialize_consensus_recovery_def Let_def result_simps no_recovery_def
          restart_engine_def node_setting_def)
  next
    case (Some row)
    with run vs obtain safety_bytes ss where ss: "json_safety_parse env safety_bytes = Some ss"
      "recover_from_safety_state env config db ledger vids vs (local_consensus_id env key) ?h safety_bytes ss = Inr r"
      by (auto simp: initialize_consensus_recovery_def Let_def result_simps split: prod.splits if_splits)
    from ss(2) obtain c0 c ds messages where d:
      "consensus_new_with_safety_state (local_consensus_id env key) vs ?h
         (config_for_chain (nc_chain_id config)) ss
         (node_message_validator env ledger (cr_proposal_blocks r) vids) = Inr c0"
      "ds = consensus_decisions db ?h" "ds \<noteq> []" "pd_safety_state (last ds) = safety_bytes"
      "restore_decisions env ?h c0 ds = Inr (c, messages)" "cr_consensus r = Some c"
      by (rule recover_from_safety_state_ok)
    from restore_decisions_last [OF d(5,3)] ss(1) d(4) restore_decisions_ok [OF d(5)] d(1,2,6) vs Some
    show ?thesis by (simp add: restart_engine_def node_setting_def stored_log_def)
  qed
qed

section \<open>Slots\<close>

lemma signer_slot_form:
  "\<exists>rest. signer_slot m = nat_to_string (unat (signable_height m)) @ 47 # rest"
  by (cases m) (auto simp: u64_to_string_def str_def)

lemma slot_height: "parse_u64 (split_first 47 (signer_slot m)) = Some (signable_height m)"
proof -
  obtain rest where "signer_slot m = nat_to_string (unat (signable_height m)) @ 47 # rest"
    using signer_slot_form by blast
  then have "split_first 47 (signer_slot m) = u64_to_string (signable_height m)"
    using split_first_number [of 47 "unat (signable_height m)" rest] by (simp add: u64_to_string_def is_digit_def)
  then show ?thesis by (simp add: parse_u64_to_string)
qed

lemma slot_prefix_height:
  "take (length (slot_prefix h)) (signer_slot m) = slot_prefix h \<longleftrightarrow> signable_height m = h"
proof -
  obtain rest where m: "signer_slot m = nat_to_string (unat (signable_height m)) @ 47 # rest"
    using signer_slot_form by blast
  have p: "slot_prefix h = nat_to_string (unat h) @ [47]" by (simp add: slot_prefix_def u64_to_string_def str_def)
  show ?thesis
  proof
    assume "take (length (slot_prefix h)) (signer_slot m) = slot_prefix h"
    then obtain y where "signer_slot m = slot_prefix h @ y" by (metis append_take_drop_id)
    with m p have "nat_to_string (unat (signable_height m)) @ 47 # rest = nat_to_string (unat h) @ 47 # y" by simp
    then have "unat (signable_height m) = unat h"
      using number_prefix_inject [of 47 "unat (signable_height m)" rest "unat h" y] by (simp add: is_digit_def)
    then show "signable_height m = h" by (simp add: unsigned_word_eqI word_unat_eq_iff)
  qed (simp add: m p)
qed

section \<open>Signing\<close>

text \<open>Every record is one that recovery accepts.\<close>

definition signing_records_ok :: "'z node_env_scheme \<Rightarrow> store \<Rightarrow> bool" where
  "signing_records_ok env db \<longleftrightarrow>
     (\<forall>d \<in> set (db_signer_state db). pd_signed_message d \<noteq> [] \<and>
        (\<exists>m. validate_persisted_decision env d (signable_height (message_signable m)) = Inr m))"

text \<open>What the codecs promise for one message and one safety state.\<close>

definition record_restores :: "'z node_env_scheme \<Rightarrow> signed_message \<Rightarrow> safety_state \<Rightarrow> bool" where
  "record_restores env m ss \<longleftrightarrow>
     (case borsh_message env m of None \<Rightarrow> False | Some x \<Rightarrow> x \<noteq> [] \<and> borsh_message_parse env x = Some m) \<and>
     (case json_safety env ss of None \<Rightarrow> False | Some y \<Rightarrow> json_safety_parse env y = Some ss)"

lemma record_restoresE:
  assumes "record_restores env m ss"
  obtains x y where "borsh_message env m = Some x" "x \<noteq> []" "borsh_message_parse env x = Some m"
    "json_safety env ss = Some y" "json_safety_parse env y = Some ss"
  using assms by (auto simp: record_restores_def split: option.splits)

lemma message_signable_of [simp]: "message_signable (signed_message_of m s) = m"
  by (cases m) simp_all

lemma message_signature_of [simp]: "message_signature (signed_message_of m s) = s"
  by (cases m) simp_all

lemma signed_message_of_eq: "signed_message_of m s = signed_message_of m t \<longleftrightarrow> s = t"
  by (metis message_signature_of)

lemma own_signature_verifies:
  assumes "ed25519_correct env" "length (ed25519_sign env key x) = 64"
    and "local_signer m = local_consensus_id env key" "signable_signing_bytes env m = Inr x"
  shows "verify_signed_message env (signed_message_of m (ed25519_sign env key x)) = Inr ()"
proof -
  have "cvid_bytes (local_consensus_id env key) = ed25519_public env key"
    by (simp add: local_consensus_id_def cvid_of_protocol_def validator_from_signing_key_def)
  with assms show ?thesis
    by (cases m) (simp_all add: verify_signed_message_def verify_ed25519_proposal_def verify_ed25519_vote_def
        verify_ed25519_def ed25519_correct_def local_signer_def)
qed

lemma persist_local_proposal_frame:
  assumes "persist_local_proposal env blocks db m = (db', r)"
  shows "db_signer_state db' = db_signer_state db \<and> db_consensus_safety db' = db_consensus_safety db"
proof -
  have "db_signer_state (fst (persist_consensus_proposal db p)) = db_signer_state db"
    "db_consensus_safety (fst (persist_consensus_proposal db p)) = db_consensus_safety db" for p
    by (cases "persist_consensus_proposal db p"; use persist_proposal_ok [of db p] in fastforce)+
  with assms show ?thesis
    by (auto simp: persist_local_proposal_def lift_store_def split: signed_message.splits option.splits prod.splits)
qed

lemma append_event_frame:
  "db_signer_state (fst (append_consensus_event f db k x)) = db_signer_state db"
  "db_consensus_safety (fst (append_consensus_event f db k x)) = db_consensus_safety db"
  by (simp_all add: append_consensus_event_def Let_def)

text \<open>What a call got to: refused before the signing record, or with it.\<close>

lemma sign_and_persist_cases:
  assumes "sign_and_persist env key blocks db m ss = (db', r)"
  obtains (refused) e where "r = Inl e" "db_signer_state db' = db_signer_state db"
      "db_consensus_safety db' = db_consensus_safety db"
  | (recorded) k x y enc db1 db2 s where
      "key = Some k" "local_signer m = local_consensus_id env k" "signable_signing_bytes env m = Inr x"
      "json_safety env ss = Some y" "borsh_message env (signed_message_of m (ed25519_sign env k x)) = Some enc"
      "db_signer_state db1 = db_signer_state db" "db_consensus_safety db1 = db_consensus_safety db"
      "persist_consensus_decision db1 (signer_slot m) x (ed25519_sign env k x) y enc = (db2, Inr s)"
      "db_signer_state db' = db_signer_state db2" "db_consensus_safety db' = db_consensus_safety db2"
      "r = (case borsh_message env (signed_message_of m s) of
              None \<Rightarrow> Inl NodeSerialization | Some _ \<Rightarrow> Inr (signed_message_of m s))"
proof -
  show thesis
  proof (cases "\<exists>k x y enc. key = Some k \<and> local_signer m = local_consensus_id env k \<and>
      signable_signing_bytes env m = Inr x \<and> json_safety env ss = Some y \<and>
      borsh_message env (signed_message_of m (ed25519_sign env k x)) = Some enc")
    case False
    with assms have "db' = db \<and> (\<exists>e. r = Inl e)"
      by (auto simp: sign_and_persist_def Let_def split: option.splits sum.splits if_splits)
    then show thesis using refused by blast
  next
    case True
    then obtain k x y enc where c: "key = Some k" "local_signer m = local_consensus_id env k"
      "signable_signing_bytes env m = Inr x" "json_safety env ss = Some y"
      "borsh_message env (signed_message_of m (ed25519_sign env k x)) = Some enc"
      by blast
    let ?sig = "ed25519_sign env k x"
    obtain db1 q where p: "persist_local_proposal env blocks db (signed_message_of m ?sig) = (db1, q)"
      by fastforce
    obtain db2 t where d: "persist_consensus_decision db1 (signer_slot m) x ?sig y enc = (db2, t)"
      by fastforce
    note f = persist_local_proposal_frame [OF p]
    from assms c p d have out: "(db', r) =
       (case q of Inl e \<Rightarrow> (db1, Inl e) | Inr _ \<Rightarrow>
         (case t of Inl e \<Rightarrow> (db2, Inl (NodeStorage e)) | Inr s \<Rightarrow>
           (case borsh_message env (signed_message_of m s) of
              None \<Rightarrow> (db2, Inl NodeSerialization)
            | Some z \<Rightarrow> (fst (append_consensus_event (blake3_hash_hex env) db2 (str ''signed'') z),
                         Inr (signed_message_of m s)))))"
      by (auto simp: sign_and_persist_def Let_def lift_store_def split: sum.splits)
    show thesis
    proof (cases "\<exists>s u. q = Inr u \<and> t = Inr s")
      case True
      then obtain s u where "q = Inr u" "t = Inr s" by blast
      with out f c d show thesis
        by (intro recorded [of k x y enc db1 db2 s])
          (auto simp: append_event_frame split: option.splits)
    next
      case False
      have "db2 = db1" if "t = Inl e" for e
        using d that by (auto elim: persist_decision_cases)
      with False out f have "(\<exists>e. r = Inl e) \<and> db_signer_state db' = db_signer_state db \<and>
          db_consensus_safety db' = db_consensus_safety db"
        by (auto split: sum.splits)
      then show thesis using refused by blast
    qed
  qed
qed

section \<open>The log after signing\<close>

lemma persist_decision_again:
  assumes "persist_consensus_decision db slot sb sig ss sm = (db', Inr s)"
    and "find_decision db slot = Some d" "pd_signed_message d \<noteq> []" "sm \<noteq> []"
  shows "db' = db \<and> s = pd_signature d \<and> pd_sign_bytes d = sb \<and> pd_safety_state d = ss \<and> pd_signed_message d = sm"
  using assms by (auto simp: persist_consensus_decision_def split: option.splits if_splits)

lemma find_decision_in: "find_decision db slot = Some d \<Longrightarrow> d \<in> set (db_signer_state db) \<and> pd_slot d = slot"
  by (auto simp: find_decision_def find_Some_iff)

lemma stored_log_state: "db_signer_state db' = db_signer_state db \<Longrightarrow> stored_log env db' h = stored_log env db h"
  by (simp add: stored_log_def consensus_decisions_def)

lemma in_stored_log:
  assumes "d \<in> set (db_signer_state db)" "pd_slot d = signer_slot m" "pd_signed_message d \<noteq> []"
    and "decode_decision env d = Some (m, ss)"
  shows "(m, ss) \<in> set (stored_log env db (signable_height m))"
proof -
  have "d \<in> set (consensus_decisions db (signable_height m))"
    using assms(1-3) slot_prefix_height [of "signable_height m" m] by (simp add: consensus_decisions_def)
  with assms(4) show ?thesis by (force simp: stored_log_def List.map_filter_def)
qed

lemma stored_log_snoc:
  assumes "db_signer_state db' = db_signer_state db @ [d]" "pd_slot d = signer_slot m" "pd_signed_message d \<noteq> []"
    and "decode_decision env d = Some (m, ss)"
  shows "stored_log env db' h = stored_log env db h @ (if h = signable_height m then [(m, ss)] else [])"
  using assms slot_prefix_height [of h m]
  by (auto simp: stored_log_def consensus_decisions_def List.map_filter_def)

lemma find_decision_state: "db_signer_state db' = db_signer_state db \<Longrightarrow> find_decision db' slot = find_decision db slot"
  by (simp add: find_decision_def)

text \<open>What \<open>sign_and_persist\<close> promises for one message, from the codecs and the engine.\<close>

definition may_be_signed :: "'z node_env_scheme \<Rightarrow> bytes \<Rightarrow> signable_message \<Rightarrow> safety_state \<Rightarrow> bool" where
  "may_be_signed env key m ss \<longleftrightarrow>
     ss_height ss = signable_height m \<and> validate_recovered_safety_state ss = Inr () \<and>
     (case signable_signing_bytes env m of
        Inl _ \<Rightarrow> True
      | Inr x \<Rightarrow> length (ed25519_sign env key x) = 64 \<and>
          record_restores env (signed_message_of m (ed25519_sign env key x)) ss)"

lemma new_record_ok:
  assumes "ed25519_correct env" "may_be_signed env key m ss"
    and "local_signer m = local_consensus_id env key" "signable_signing_bytes env m = Inr x"
    and "json_safety env ss = Some y" "borsh_message env (signed_message_of m (ed25519_sign env key x)) = Some enc"
    and d: "d = \<lparr>pd_slot = signer_slot m, pd_sign_bytes = x, pd_signature = ed25519_sign env key x,
      pd_safety_state = y, pd_signed_message = enc\<rparr>"
  shows "validate_persisted_decision env d (signable_height m) = Inr (signed_message_of m (ed25519_sign env key x))"
    and "decode_decision env d = Some (m, ss)" and "enc \<noteq> []"
proof -
  have b: "length (ed25519_sign env key x) = 64" "ss_height ss = signable_height m"
    "validate_recovered_safety_state ss = Inr ()" and
    r: "record_restores env (signed_message_of m (ed25519_sign env key x)) ss"
    using assms(2,4) by (simp_all add: may_be_signed_def)
  from r have p: "borsh_message_parse env enc = Some (signed_message_of m (ed25519_sign env key x))" "enc \<noteq> []"
    "json_safety_parse env y = Some ss"
    using assms(5,6) by (auto elim!: record_restoresE)
  note v = own_signature_verifies [OF assms(1) b(1) assms(3,4)]
  show "validate_persisted_decision env d (signable_height m) = Inr (signed_message_of m (ed25519_sign env key x))"
    using v p b assms(4) by (simp add: validate_persisted_decision_def d message_signing_bytes_def)
  show "decode_decision env d = Some (m, ss)" using p by (simp add: decode_decision_def d)
  show "enc \<noteq> []" by (rule p)
qed

lemma sign_and_persist_log:
  assumes run: "sign_and_persist env (Some key) blocks db m ss = (db', Inr sgnd)"
    and crypto: "ed25519_correct env" and sig: "may_be_signed env key m ss" and recs: "signing_records_ok env db"
  shows "signing_records_ok env db'"
    and "message_signable sgnd = m" and "verify_signed_message env sgnd = Inr ()"
    and "(m, ss) \<in> set (stored_log env db' (signable_height m))"
    and "stored_log env db' h = stored_log env db h @
       (if h = signable_height m \<and> find_decision db (signer_slot m) = None then [(m, ss)] else [])"
    and "find_decision db (signer_slot m) = None \<Longrightarrow>
       \<exists>y. consensus_safety_state db' = Some (signable_height m, y) \<and> json_safety_parse env y = Some ss"
proof -
  obtain x y enc db1 db2 s where c:
    "local_signer m = local_consensus_id env key" "signable_signing_bytes env m = Inr x"
    "json_safety env ss = Some y" "borsh_message env (signed_message_of m (ed25519_sign env key x)) = Some enc"
    "db_signer_state db1 = db_signer_state db"
    "persist_consensus_decision db1 (signer_slot m) x (ed25519_sign env key x) y enc = (db2, Inr s)"
    "db_signer_state db' = db_signer_state db2" "db_consensus_safety db' = db_consensus_safety db2"
    and out: "sgnd = signed_message_of m s"
    using run by (cases rule: sign_and_persist_cases) (auto split: option.splits)
  define d where "d = \<lparr>pd_slot = signer_slot m, pd_sign_bytes = x, pd_signature = ed25519_sign env key x,
      pd_safety_state = y, pd_signed_message = enc\<rparr>"
  note new = new_record_ok [OF crypto sig c(1-4) d_def]
  have y: "json_safety_parse env y = Some ss" using new(2) by (auto simp: decode_decision_Some d_def)
  have all: "s = ed25519_sign env key x \<and> (\<forall>h. stored_log env db' h = stored_log env db h @
       (if h = signable_height m \<and> find_decision db (signer_slot m) = None then [(m, ss)] else [])) \<and>
     (m, ss) \<in> set (stored_log env db' (signable_height m)) \<and> signing_records_ok env db' \<and>
     (find_decision db (signer_slot m) = None \<longrightarrow> db_consensus_safety db' = Some (signable_height m, y))"
  proof (cases "find_decision db (signer_slot m)")
    case None
    with c(5) have none: "find_decision db1 (signer_slot m) = None"
      by (simp add: find_decision_state [of db1 db])
    with c(6) have n: "s = ed25519_sign env key x" "db_signer_state db2 = db_signer_state db1 @ [d]"
      "db_consensus_safety db2 = Some (signable_height m, y)"
      using slot_height [of m] by (auto elim!: persist_decision_cases simp: d_def)
    with c have st: "db_signer_state db' = db_signer_state db @ [d]" by simp
    have grown: "stored_log env db' h = stored_log env db h @ (if h = signable_height m then [(m, ss)] else [])" for h
      by (rule stored_log_snoc [OF st _ _ new(2)]) (use new(3) in \<open>simp_all add: d_def\<close>)
    have "pd_signed_message d \<noteq> [] \<and>
        (\<exists>m. validate_persisted_decision env d (signable_height (message_signable m)) = Inr m)"
      using new(1,3) message_signable_of [of m "ed25519_sign env key x"] by (metis d_def persisted_decision.select_convs(5))
    then have "signing_records_ok env db'"
      using recs st unfolding signing_records_ok_def by simp
    with grown show ?thesis using None n c(8) by simp
  next
    case (Some d0)
    then have d0: "find_decision db1 (signer_slot m) = Some d0" "d0 \<in> set (db_signer_state db)"
      "pd_slot d0 = signer_slot m"
      using c(5) find_decision_in by (auto simp: find_decision_state [of db1 db])
    then obtain m0 where m0: "pd_signed_message d0 \<noteq> []"
      "validate_persisted_decision env d0 (signable_height (message_signable m0)) = Inr m0"
      using recs by (auto simp: signing_records_ok_def)
    note again = persist_decision_again [OF c(6) d0(1) m0(1) new(3)]
    have "borsh_message_parse env (pd_signed_message d0) = Some m0" "message_signature m0 = pd_signature d0"
      using m0(2) by (auto simp: validate_persisted_decision_def result_simps split: if_splits)
    moreover have "borsh_message_parse env enc = Some (signed_message_of m (ed25519_sign env key x))"
      using sig c(2-4) by (auto simp: may_be_signed_def elim!: record_restoresE)
    ultimately have same: "m0 = signed_message_of m (ed25519_sign env key x)" "s = ed25519_sign env key x"
      using again by auto
    have "decode_decision env d0 = Some (m, ss)"
      using again y same(1) \<open>borsh_message_parse env (pd_signed_message d0) = Some m0\<close>
      by (simp add: decode_decision_def)
    from in_stored_log [OF d0(2,3) m0(1) this] show ?thesis
      using Some same recs again c(5,7) by (simp add: stored_log_state [of db' db] signing_records_ok_def)
  qed
  have "length (ed25519_sign env key x) = 64" using sig c(2) by (simp add: may_be_signed_def)
  from own_signature_verifies [OF crypto this c(1,2)] all out
  show "verify_signed_message env sgnd = Inr ()" "message_signable sgnd = m" by simp_all
  show "signing_records_ok env db'" "(m, ss) \<in> set (stored_log env db' (signable_height m))"
    "stored_log env db' h = stored_log env db h @
       (if h = signable_height m \<and> find_decision db (signer_slot m) = None then [(m, ss)] else [])"
    using all by blast+
  show "\<exists>y. consensus_safety_state db' = Some (signable_height m, y) \<and> json_safety_parse env y = Some ss"
    if "find_decision db (signer_slot m) = None"
    using all that y by (simp add: consensus_safety_state_def)
qed

lemma sign_and_persist_refused:
  assumes run: "sign_and_persist env key blocks db m ss = (db', Inl e)" and recs: "signing_records_ok env db"
    and sig: "\<And>k. key = Some k \<Longrightarrow> may_be_signed env k m ss" and crypto: "ed25519_correct env"
  shows "db_signer_state db' = db_signer_state db"
  using run
proof (cases rule: sign_and_persist_cases)
  case (recorded k x y enc db1 db2 s)
  note new = new_record_ok [OF crypto sig [OF recorded(1)] recorded(2-5) refl]
  have "s = ed25519_sign env k x \<or> db_signer_state db2 = db_signer_state db1"
  proof (cases "find_decision db1 (signer_slot m)")
    case None
    with recorded(8) show ?thesis by (auto elim!: persist_decision_cases)
  next
    case (Some d0)
    then have "pd_signed_message d0 \<noteq> []"
      using recs recorded(6) find_decision_in [OF Some] by (auto simp: signing_records_ok_def)
    with persist_decision_again [OF recorded(8) Some _ new(3)] show ?thesis by simp
  qed
  with recorded show ?thesis by auto
qed simp

end
