(* ===== verification/NodeHistory.thy ===== *)
theory NodeHistory
  imports NodeFrame StorageInv LedgerProps
begin

text \<open>
  The stored history against the ledger in memory: a node's ledger is the replay of the
  rows of its \<open>blocks\<close> table, with every derived column in agreement, and committing a
  block keeps it so.
\<close>

section \<open>Replaying rows\<close>

definition history_holds :: "'z node_env_scheme \<Rightarrow> store \<Rightarrow> chain_id \<Rightarrow> ledger_state \<Rightarrow> bool" where
  "history_holds env db chain ledger \<longleftrightarrow>
     blocks_wf (db_blocks db) \<and>
     replay_canonical_rows env (canonical_block_rows db) chain True = Inr ledger"

lemma replay_rows_append:
  "replay_rows_from env v s (rows @ rows') =
     and_then (replay_rows_from env v s rows) (\<lambda>s'. replay_rows_from env v s' rows')"
  by (induction rows arbitrary: s) (auto simp: and_then_def split: sum.splits prod.splits)

lemma replay_row_step:
  "replay_rows_from env v s [row] = Inr s' \<longleftrightarrow>
     (\<exists>b certificate rs. decode_row env row = Inr (b, certificate) \<and>
        apply_finalized_block env s b certificate (dev_validator_ids env) = (s', Inr rs) \<and>
        (v \<longrightarrow> row_agrees env row b certificate))"
  by (auto simp: result_simps)

lemma row_height_step:
  assumes "replay_rows_from env True s [row] = Inr s'"
  shows "br_height row = ls_height s' \<and> unat (ls_height s') = unat (ls_height s) + 1"
  using assms unfolding replay_row_step
  by (auto simp: row_agrees_def Let_def apply_finalized_block_ok apply_block_ok unat_add_less)

text \<open>The rows have the heights after the ledger's, without a gap.\<close>

lemma replay_rows_heights:
  "replay_rows_from env True s rows = Inr s' \<Longrightarrow>
     unat (ls_height s') = unat (ls_height s) + length rows \<and>
     (\<forall>row \<in> set rows. br_height row \<le> ls_height s')"
proof (induction rows arbitrary: s' rule: rev_induct)
  case (snoc row rows)
  then obtain s1 where s1: "replay_rows_from env True s rows = Inr s1"
    "replay_rows_from env True s1 [row] = Inr s'"
    by (auto simp: replay_rows_append result_simps)
  from row_height_step [OF s1(2)] snoc.IH [OF s1(1)] show ?case
    by (auto simp: word_le_nat_alt)
qed simp

text \<open>The loop of \<open>start_node\<close> decodes first and checks no column, with the same ledger.\<close>

lemma replay_without_columns:
  "replay_rows_from env True s rows = Inr s' \<Longrightarrow> replay_rows_from env False s rows = Inr s'"
  by (induction rows arbitrary: s) (auto simp: result_simps split: if_splits)

lemma replay_rows_decoded:
  "replay_rows_from env False s rows = Inr s' \<longleftrightarrow>
     (\<exists>history. collect_results (decode_row env) rows = Inr history \<and>
        replay_finalized_from env s history (dev_validator_ids env) = Inr s')"
  by (induction rows arbitrary: s) (auto simp: result_simps)

lemma history_starts:
  assumes "history_holds env db chain ledger"
  shows "replay_on_start env db chain = Inr ledger"
proof -
  obtain history where "collect_results (decode_row env) (canonical_block_rows db) = Inr history"
    "replay_finalized_from env (ledger_new chain) history (dev_validator_ids env) = Inr ledger"
    using assms unfolding history_holds_def replay_canonical_rows_def
    by (auto dest!: replay_without_columns simp: replay_rows_decoded)
  then show ?thesis by (simp add: replay_on_start_def replay_finalized_blocks_def)
qed

section \<open>The row of a committed block\<close>

lemma bt_insert_beyond: "\<forall>x \<in> fst ` set m. x < k \<Longrightarrow> bt_insert k v m = m @ [(k, v)]"
  by (induction m) auto

lemma build_projection_row:
  assumes build: "build_projection env db candidate b certificate receipts = Inr projection"
    and receipts: "length receipts = length (bk_transactions b)"
  shows "row_agrees env (block_row_of projection) b certificate"
    and "fp_height projection = bh_height (bk_header b)"
proof -
  have "length (fp_transactions projection) = length receipts"
    using build by (auto simp: build_projection_def Let_def result_simps collect_results_ok dest: list_all2_lengthD)
  with build receipts show "row_agrees env (block_row_of projection) b certificate"
    "fp_height projection = bh_height (bk_header b)"
    by (auto simp: build_projection_def Let_def result_simps row_agrees_def block_row_of_def)
qed

lemma apply_transactions_receipts:
  "apply_transactions env s ts h = (s', Inr rs) \<Longrightarrow> length rs = length ts"
  by (induction ts arbitrary: s rs) (auto simp: result_simps)

text \<open>What Borsh promises for one block and its certificate: decoding returns what was encoded.\<close>

definition codec_restores :: "'z node_env_scheme \<Rightarrow> block \<Rightarrow> commit_certificate \<Rightarrow> bool" where
  "codec_restores env b certificate \<longleftrightarrow>
     unborsh_block env (borsh_block env b) = Some b \<and>
     unborsh_certificate env (borsh_certificate env certificate) = Some certificate"

lemma decode_committed_row:
  assumes "codec_restores env b certificate" and "row_agrees env row b certificate"
    and "apply_finalized_block env s b certificate vs = (s', Inr rs)"
  shows "decode_row env row = Inr (b, certificate)"
proof -
  have commit: "validate_commitments env b = Inr ()"
    using assms(3) by (simp add: apply_finalized_block_ok apply_block_ok)
  then have "length (borsh_block env b) \<le> MAX_BLOCK_BYTES" by (simp add: validate_commitments_ok)
  with assms(1) commit have "block_decode env (borsh_block env b) = Inr b"
    by (simp only: block_decode_def codec_restores_def ok_or_simps and_then_simps not_less [symmetric] if_False)
  moreover have "certificate_decode env (borsh_certificate env certificate) = Inr certificate"
    using assms(1,3)
    by (simp add: certificate_decode_def codec_restores_def apply_finalized_block_ok
        certificate_verify_for_block_ok certificate_verify_ok)
  ultimately show ?thesis
    using assms(2)
    by (simp add: decode_row_def row_agrees_def Let_def block_canonical_bytes_def certificate_canonical_bytes_def)
qed

text \<open>A row above all the others is appended to the rows.\<close>

lemma rows_extend:
  assumes wf: "blocks_wf (db_blocks db)" and low: "\<forall>row \<in> set (canonical_block_rows db). br_height row < fp_height projection"
    and store: "persist_finalized db projection = (db2, Inr ())"
  shows "canonical_block_rows db2 = canonical_block_rows db @ [block_row_of projection]"
    and "blocks_wf (db_blocks db2)"
proof -
  let ?h = "fp_height projection"
  have "persist_finalized_statements projection db = Inr db2"
    using store by (auto simp: persist_finalized_def transact_def split: sum.splits)
  note P = persist_finalized_ok [OF this]
  have less: "\<forall>x \<in> fst ` set (db_blocks db). x < ?h"
  proof (intro ballI)
    fix x assume "x \<in> fst ` set (db_blocks db)"
    then obtain r where r: "bt_get (db_blocks db) x = Some r" by (auto simp: bt_get_dom)
    then have "br_height r = x" using wf by (simp add: blocks_wf_def)
    moreover have "r \<in> set (canonical_block_rows db)"
      using bt_get_in_set [OF r] by (force simp: canonical_block_rows_def bt_values_def)
    ultimately show "x < ?h" using low by auto
  qed
  then have new: "bt_get (db_blocks db) ?h = None" by (auto simp: bt_get_None)
  with P(1) bt_insert_beyond [OF less] show "canonical_block_rows db2 = canonical_block_rows db @ [block_row_of projection]"
    by (simp add: canonical_block_rows_def bt_values_def)
  show "blocks_wf (db_blocks db2)"
    using blocks_wf_insert [OF wf P(8) P(3) [OF new]] P(1) new by simp
qed

lemma history_extends:
  assumes hist: "history_holds env db chain ledger"
    and app: "apply_finalized_block env ledger b certificate (dev_validator_ids env) = (ledger', Inr receipts)"
    and codec: "codec_restores env b certificate"
    and build: "build_projection env db' ledger' b certificate receipts = Inr projection"
    and store: "persist_finalized db projection = (db2, Inr ())"
  shows "history_holds env db2 chain ledger'"
proof -
  let ?rows = "canonical_block_rows db"
  have wf: "blocks_wf (db_blocks db)" and rep: "replay_rows_from env True (ledger_new chain) ?rows = Inr ledger"
    using hist by (auto simp: history_holds_def replay_canonical_rows_def)
  have "length receipts = length (bk_transactions b)"
    using app by (auto simp: apply_finalized_block_ok apply_block_ok dest: apply_transactions_receipts)
  note row = build_projection_row [OF build this]
  have step: "replay_rows_from env True ledger [block_row_of projection] = Inr ledger'"
    using decode_committed_row [OF codec row(1) app] app row(1) by (auto simp: replay_row_step)
  have "ls_height ledger < fp_height projection"
    using row_height_step [OF step] by (simp add: block_row_of_def word_less_nat_alt)
  with replay_rows_heights [OF rep] have "\<forall>row \<in> set ?rows. br_height row < fp_height projection"
    by (auto intro: le_less_trans)
  note E = rows_extend [OF wf this store]
  with rep step show ?thesis
    by (simp add: history_holds_def replay_canonical_rows_def replay_rows_append del: replay_rows_from.simps)
qed

section \<open>Stored records\<close>

text \<open>
  The same without decoding: the rows store, column by column, some finalized blocks with
  their certificates, and the ledger is the replay of these.
\<close>

definition stored_records ::
  "'z node_env_scheme \<Rightarrow> store \<Rightarrow> (block \<times> commit_certificate) list \<Rightarrow> bool" where
  "stored_records env db records \<longleftrightarrow>
     blocks_wf (db_blocks db) \<and>
     list_all2 (\<lambda>row (b, certificate). row_agrees env row b certificate) (canonical_block_rows db) records"

definition backed ::
  "'z node_env_scheme \<Rightarrow> node_actor \<Rightarrow> (block \<times> commit_certificate) list \<Rightarrow> bool" where
  "backed env a records \<longleftrightarrow>
     stored_records env (na_store a) records \<and>
     replay_finalized_blocks env (na_chain_id a) records (na_validator_ids a) = Inr (na_ledger a)"

lemma replay_finalized_append:
  "replay_finalized_from env s (xs @ ys) vs =
     and_then (replay_finalized_from env s xs vs) (\<lambda>s'. replay_finalized_from env s' ys vs)"
  by (induction env s xs vs rule: replay_finalized_from.induct) (auto split: prod.splits sum.splits)

lemma replay_finalized_step:
  "replay_finalized_from env s [(b, certificate)] vs = Inr s' \<longleftrightarrow>
     (\<exists>rs. apply_finalized_block env s b certificate vs = (s', Inr rs))"
  by (auto split: prod.splits sum.splits)

lemma apply_finalized_height:
  "apply_finalized_block env s b certificate vs = (s', Inr rs) \<Longrightarrow>
     bh_height (bk_header b) = ls_height s' \<and> unat (ls_height s') = unat (ls_height s) + 1"
  by (auto simp: apply_finalized_block_ok apply_block_ok unat_add_less)

lemma replay_finalized_heights:
  "replay_finalized_from env s records vs = Inr s' \<Longrightarrow>
     unat (ls_height s') = unat (ls_height s) + length records \<and>
     map (\<lambda>(b, _). unat (bh_height (bk_header b))) records =
       map (\<lambda>i. unat (ls_height s) + i + 1) [0..<length records]"
proof (induction records arbitrary: s' rule: rev_induct)
  case (snoc x records)
  obtain b certificate where r: "x = (b, certificate)" by fastforce
  with snoc.prems obtain s1 where s1: "replay_finalized_from env s records vs = Inr s1"
    "replay_finalized_from env s1 [(b, certificate)] vs = Inr s'"
    by (auto simp: replay_finalized_append result_simps)
  from s1(2) obtain rs where "apply_finalized_block env s1 b certificate vs = (s', Inr rs)"
    by (auto simp only: replay_finalized_step)
  from apply_finalized_height [OF this] snoc.IH [OF s1(1)] r show ?case by simp
qed simp

lemma stored_row_heights:
  assumes "stored_records env db records" and "replay_finalized_blocks env chain records vs = Inr ledger"
  shows "\<forall>row \<in> set (canonical_block_rows db). br_height row \<le> ls_height ledger"
proof
  fix row assume "row \<in> set (canonical_block_rows db)"
  with assms(1) obtain b certificate where r: "(b, certificate) \<in> set records" "row_agrees env row b certificate"
    by (force simp: stored_records_def list_all2_conv_all_nth in_set_conv_nth)
  from replay_finalized_heights [OF assms(2) [unfolded replay_finalized_blocks_def]]
  have h: "unat (ls_height ledger) = length records"
    "map (\<lambda>(b, _). unat (bh_height (bk_header b))) records = map (\<lambda>i. i + 1) [0..<length records]"
    by (auto simp: ledger_new_def)
  have "unat (bh_height (bk_header b)) \<in> set (map (\<lambda>(b, _). unat (bh_height (bk_header b))) records)"
    using r(1) by force
  then have "unat (bh_height (bk_header b)) \<le> length records" unfolding h(2) by auto
  with r(2) h(1) show "br_height row \<le> ls_height ledger"
    by (simp add: row_agrees_def Let_def word_le_nat_alt)
qed

lemma records_extend:
  assumes rec: "stored_records env db records" "replay_finalized_blocks env chain records vs = Inr ledger"
    and app: "apply_finalized_block env ledger b certificate vs = (ledger', Inr receipts)"
    and build: "build_projection env db' ledger' b certificate receipts = Inr projection"
    and store: "persist_finalized db projection = (db2, Inr ())"
  shows "stored_records env db2 (records @ [(b, certificate)])"
    and "replay_finalized_blocks env chain (records @ [(b, certificate)]) vs = Inr ledger'"
    and "canonical_block_rows db2 = canonical_block_rows db @ [block_row_of projection]"
proof -
  have "length receipts = length (bk_transactions b)"
    using app by (auto simp: apply_finalized_block_ok apply_block_ok dest: apply_transactions_receipts)
  note row = build_projection_row [OF build this]
  have "ls_height ledger < fp_height projection"
    using apply_finalized_height [OF app] row(2) by (simp add: word_less_nat_alt)
  with stored_row_heights [OF rec]
  have "\<forall>r \<in> set (canonical_block_rows db). br_height r < fp_height projection"
    by (auto intro: le_less_trans)
  note E = rows_extend [OF _ this store]
  show "canonical_block_rows db2 = canonical_block_rows db @ [block_row_of projection]"
    using rec(1) E(1) by (simp add: stored_records_def)
  then show "stored_records env db2 (records @ [(b, certificate)])"
    using rec(1) E(2) row(1) by (simp add: stored_records_def list_all2_appendI)
  show "replay_finalized_blocks env chain (records @ [(b, certificate)]) vs = Inr ledger'"
    using rec(2) app by (simp add: replay_finalized_blocks_def replay_finalized_append)
qed

text \<open>A verified store holds such records; with a faithful codec, such records verify.\<close>

lemma verified_rows_records:
  "replay_rows_from env True s rows = Inr s' \<Longrightarrow>
     \<exists>records. list_all2 (\<lambda>row (b, certificate). row_agrees env row b certificate) rows records \<and>
       replay_finalized_from env s records (dev_validator_ids env) = Inr s'"
proof (induction rows arbitrary: s)
  case (Cons row rows)
  then obtain b certificate s1 rs where step: "row_agrees env row b certificate"
    "apply_finalized_block env s b certificate (dev_validator_ids env) = (s1, Inr rs)"
    "replay_rows_from env True s1 rows = Inr s'"
    by (auto simp: result_simps split: if_splits)
  from Cons.IH [OF step(3)] obtain records where
    "list_all2 (\<lambda>row (b, certificate). row_agrees env row b certificate) rows records"
    "replay_finalized_from env s1 records (dev_validator_ids env) = Inr s'"
    by blast
  with step show ?case by (intro exI [of _ "(b, certificate) # records"]) simp
qed simp

lemma history_records:
  "history_holds env db chain ledger \<Longrightarrow>
     \<exists>records. stored_records env db records \<and>
       replay_finalized_blocks env chain records (dev_validator_ids env) = Inr ledger"
  by (auto simp: history_holds_def stored_records_def replay_canonical_rows_def replay_finalized_blocks_def
      dest!: verified_rows_records)

section \<open>Committing\<close>

text \<open>A commit that changes the ledger has stored the block; any other leaves both alone.\<close>

lemma commit_finalized_cases:
  assumes "commit_finalized env a b certificate g = (a', r)"
  obtains (refused) e where "na_store a' = na_store a" "na_ledger a' = na_ledger a" "r = Inl e"
    "na_mempool a' = na_mempool a" "na_mempool_ids a' = na_mempool_ids a"
  | (committed) ledger' receipts projection db where
      "apply_finalized_block env (na_ledger a) b certificate (na_validator_ids a) = (ledger', Inr receipts)"
      "build_projection env (na_store a) ledger' b certificate receipts = Inr projection"
      "persist_finalized (na_store a) projection = (db, Inr ())"
      "na_store a' = db" "na_ledger a' = ledger'"
      "na_mempool a' = keep_applicable env ledger' (na_mempool a) (saturating_add (ls_height ledger') 1)"
      "na_mempool_ids a' = remdups (map (tx_id env) (na_mempool a'))"
proof -
  have "persist_finalized db p = (db', Inl e) \<Longrightarrow> db' = db" for db db' p e
    by (auto simp: persist_finalized_def transact_def split: sum.splits)
  with assms show thesis
    by (auto simp: commit_finalized_def Let_def revalidate_mempool_def emit_def
        split: prod.splits sum.splits if_splits option.splits intro: refused committed)
qed

lemma commit_keeps_history:
  assumes "history_holds env (na_store a) chain (na_ledger a)"
    and "na_validator_ids a = dev_validator_ids env" and "codec_restores env b certificate"
    and "commit_finalized env a b certificate g = (a', r)"
  shows "history_holds env (na_store a') chain (na_ledger a')"
  using assms(4)
proof (cases rule: commit_finalized_cases)
  case (committed ledger' receipts projection db)
  with history_extends [OF assms(1) _ assms(3)] assms(2) show ?thesis by simp
qed (use assms(1) in simp)

end
