(* ===== verification/NodeMempool.thy ===== *)
theory NodeMempool
  imports NodeHistory
begin

text \<open>
  The mempool: its transactions always apply one after the other on the node's ledger, so
  a proposal takes a prefix of it, and a node accepts the block that it proposes.
\<close>

section \<open>Applicable lists\<close>

lemma apply_pending_ok [result_simps]:
  "apply_pending env s ts h = Inr s' \<longleftrightarrow> (\<exists>rs. apply_transactions env s ts h = (s', Inr rs))"
  by (induction ts arbitrary: s) (auto simp: result_simps split: prod.splits sum.splits)

definition applicable :: "'z tx_env_scheme \<Rightarrow> ledger_state \<Rightarrow> signed_transaction list \<Rightarrow> u64 \<Rightarrow> bool" where
  "applicable env s ts h \<longleftrightarrow> is_ok (apply_pending env s ts h)"

lemma applicable_simps [simp]:
  "applicable env s [] h"
  "applicable env s (t # ts) h \<longleftrightarrow>
     (\<exists>s' r. apply_transaction env s t h = (s', Inr r) \<and> applicable env s' ts h)"
  by (auto simp: applicable_def split: prod.splits sum.splits)

lemma applicable_snoc:
  "applicable env s (ts @ [t]) h \<longleftrightarrow>
     (\<exists>s'. apply_pending env s ts h = Inr s' \<and> applicable env s' [t] h)"
  by (induction ts arbitrary: s) (auto split: prod.splits sum.splits)

lemma keep_applicable_applies: "applicable env s (keep_applicable env s ts h) h"
  by (induction ts arbitrary: s) (auto split: prod.splits sum.splits dest: apply_transaction_error)

lemma keep_applicable_all: "applicable env s ts h \<Longrightarrow> keep_applicable env s ts h = ts"
  by (induction ts arbitrary: s) auto

lemma applicable_take: "applicable env s ts h \<Longrightarrow> applicable env s (take n ts) h"
  by (induction ts arbitrary: s n) (auto simp: take_Cons split: nat.splits)

lemma apply_pending_wf: "apply_pending env s ts h = Inr s' \<Longrightarrow> ledger_wf s \<Longrightarrow> ledger_wf s'"
  by (auto simp: result_simps dest: apply_transactions_wf)

section \<open>The invariant\<close>

definition mempool_ok :: "'z actor_env_scheme \<Rightarrow> node_actor \<Rightarrow> bool" where
  "mempool_ok env a \<longleftrightarrow>
     ledger_wf (na_ledger a) \<and>
     applicable env (na_ledger a) (na_mempool a) (saturating_add (ls_height (na_ledger a)) 1) \<and>
     set (na_mempool_ids a) = tx_id env ` set (na_mempool a)"

lemma saturating_of_checked: "checked_add a b = Some c \<Longrightarrow> saturating_add a b = c"
  by (auto simp: checked_add_def saturating_add_def split: if_splits)

lemma accept_transaction_cases:
  assumes "accept_transaction env a t g = (a', r)"
  obtains (rejected) e where "r = Inl e" "a' = a"
  | (accepted) candidate h v where "r = Inr (tx_id env t)"
      "\<not> na_halted a" "na_sync_target a = None"
      "tx_id env t \<notin> set (na_mempool_ids a)" "\<not> contains_transaction (na_ledger a) (tx_id env t)"
      "checked_add (ls_height (na_ledger a)) 1 = Some h"
      "apply_pending env (na_ledger a) (na_mempool a) h = Inr candidate"
      "validate_transaction env candidate t h = Inr v"
      "na_ledger a' = na_ledger a" "na_mempool a' = na_mempool a @ [t]"
      "na_mempool_ids a' = List.insert (tx_id env t) (na_mempool_ids a)"
proof (cases "na_halted a \<or> na_sync_target a \<noteq> None \<or> tx_id env t \<in> set (na_mempool_ids a) \<or>
    contains_transaction (na_ledger a) (tx_id env t)")
  case True
  with assms have "a' = a \<and> (\<exists>e. r = Inl e)"
    by (auto simp: accept_transaction_def Let_def split: if_splits)
  then show thesis using rejected by blast
next
  case admitted: False
  show thesis
  proof (cases "\<exists>h candidate v. checked_add (ls_height (na_ledger a)) 1 = Some h \<and>
      apply_pending env (na_ledger a) (na_mempool a) h = Inr candidate \<and> validate_transaction env candidate t h = Inr v")
    case True
    then obtain h candidate v where c: "checked_add (ls_height (na_ledger a)) 1 = Some h"
      "apply_pending env (na_ledger a) (na_mempool a) h = Inr candidate" "validate_transaction env candidate t h = Inr v"
      by blast
    have "r = Inr (tx_id env t) \<and> na_ledger a' = na_ledger a \<and> na_mempool a' = na_mempool a @ [t] \<and>
        na_mempool_ids a' = List.insert (tx_id env t) (na_mempool_ids a)"
      using assms admitted c by (auto simp: accept_transaction_def Let_def)
    with admitted c show thesis by (intro accepted) auto
  next
    case False
    with assms admitted have "a' = a \<and> (\<exists>e. r = Inl e)"
      by (auto simp: accept_transaction_def Let_def split: option.splits sum.splits)
    then show thesis using rejected by blast
  qed
qed

lemma accept_transaction_keeps:
  assumes ok: "mempool_ok env a" and run: "accept_transaction env a t g = (a', r)"
  shows "mempool_ok env a'"
  using run
proof (cases rule: accept_transaction_cases)
  case (accepted candidate h v)
  have h: "saturating_add (ls_height (na_ledger a)) 1 = h"
    using accepted(6) by (rule saturating_of_checked)
  have "ledger_wf candidate"
    using accepted(7) ok by (auto simp: mempool_ok_def intro: apply_pending_wf)
  then have "applicable env candidate [t] h"
    using apply_transaction_succeeds [OF _ accepted(8)] by auto
  with accepted h ok show ?thesis by (auto simp: mempool_ok_def applicable_snoc)
qed (use ok in simp)

lemma commit_finalized_keeps:
  assumes ok: "mempool_ok env a" and run: "commit_finalized env a b certificate g = (a', r)"
  shows "mempool_ok env a'"
  using run
proof (cases rule: commit_finalized_cases)
  case (committed ledger' receipts projection db)
  then have "ledger_wf ledger'"
    using ok by (auto simp: mempool_ok_def apply_finalized_block_ok intro: apply_block_wf)
  with committed show ?thesis by (auto simp: mempool_ok_def keep_applicable_applies)
qed (use ok in \<open>simp add: mempool_ok_def\<close>)

section \<open>Proposals\<close>

lemma fresh_proposal:
  assumes "mempool_ok env a" and "build_consensus_proposal env a round None = Inr b"
  shows "\<exists>key. na_local_validator_key a = Some key \<and>
     build_block env (na_ledger a) (validator_from_signing_key env key) round (na_clock_ms a) (take 1000 (na_mempool a)) = Inr b"
proof -
  let ?h = "ls_height (na_ledger a) + 1"
  obtain key where key: "na_local_validator_key a = Some key"
    "build_block env (na_ledger a) (validator_from_signing_key env key) round (na_clock_ms a)
       (keep_applicable env (na_ledger a) (take 1000 (na_mempool a)) ?h) = Inr b"
    using assms(2) by (auto simp: build_consensus_proposal_def Let_def result_simps)
  then have "checked_add (ls_height (na_ledger a)) 1 \<noteq> None"
    by (auto simp: build_block_def split: option.splits)
  then have "saturating_add (ls_height (na_ledger a)) 1 = ?h"
    by (auto simp: checked_add_def saturating_add_def split: if_splits)
  then have "applicable env (na_ledger a) (take 1000 (na_mempool a)) ?h"
    using assms(1) by (simp add: mempool_ok_def applicable_take)
  with key show ?thesis by (simp add: keep_applicable_all)
qed

end
