(* ===== verification/NodeDemo.thy ===== *)
theory NodeDemo
  imports NodeRecovery NodeMempool Demo
begin

text \<open>
  A concrete node for the witnesses: the first of the four development validators, at
  height zero with an empty mempool, so that it proposes a heartbeat block. Its third-party
  codecs are tables of the values that occur.
\<close>

section \<open>The values that occur\<close>

definition demo_dev_key :: "u8 \<Rightarrow> bytes" where
  "demo_dev_key n = demo_hash ''kcoin.dev/v1/local-validator-key'' [n]"

definition demo_dev_id :: "u8 \<Rightarrow> cvalidator_id" where
  "demo_dev_id n = CValidatorId (demo_dev_key n)"

definition demo_node_block :: block where
  "demo_node_block =
     (case build_block demo_env (ledger_new demo_chain) (ValidatorId (demo_dev_key 1)) 0 5
        [] of Inr b \<Rightarrow> b | Inl _ \<Rightarrow> demo_block)"

definition demo_node_bid :: block_id where
  "demo_node_bid = block_id_of_hash (consensus_hash demo_env demo_node_block)"

definition demo_dev_proposal :: signed_proposal where
  "demo_dev_proposal =
     \<lparr>sp_proposal =
        \<lparr>p_chain_id = str ''testnet'', p_height = 1, p_round = 0, p_proposer = demo_dev_id 1,
         p_block_id = demo_node_bid, p_valid_round = None, p_valid_round_proof = []\<rparr>,
      sp_signature = demo_dev_key 1 @ demo_dev_key 1\<rparr>"

definition demo_dev_vote :: "u8 \<Rightarrow> vote_kind \<Rightarrow> signed_vote" where
  "demo_dev_vote n k =
     \<lparr>sv_vote =
        \<lparr>v_chain_id = str ''testnet'', v_height = 1, v_round = 0, v_kind = k,
         v_validator = demo_dev_id n, v_value = VoteBlock demo_node_bid\<rparr>,
      sv_signature = demo_dev_key n @ demo_dev_key n\<rparr>"

definition demo_dev_messages :: "signed_message list" where
  "demo_dev_messages =
     [MessageProposal demo_dev_proposal, MessageVote (demo_dev_vote 1 Prevote),
      MessageVote (demo_dev_vote 1 Precommit)]"

definition demo_dev_states :: "safety_state list" where
  "demo_dev_states =
     [\<lparr>ss_height = 1, ss_round = 0, ss_locked_round = None, ss_locked_block = None,
       ss_valid_round = None, ss_valid_block = None, ss_valid_round_proof = []\<rparr>,
      \<lparr>ss_height = 1, ss_round = 0, ss_locked_round = Some 0, ss_locked_block = Some demo_node_bid,
       ss_valid_round = Some 0, ss_valid_block = Some demo_node_bid,
       ss_valid_round_proof = map (\<lambda>n. demo_dev_vote n Prevote) [1, 2, 3]\<rparr>]"

definition demo_dev_certificate :: commit_certificate where
  "demo_dev_certificate =
     (let vote = commit_vote_new demo_chain 1 0 (block_hash demo_env demo_node_block)
      in certificate_new vote (map (\<lambda>n. commit_signature_sign demo_env vote (demo_dev_key n)) [1, 2, 3]))"

section \<open>Codecs\<close>

text \<open>The position in a table is the encoding.\<close>

definition table_encode :: "'a list \<Rightarrow> 'a \<Rightarrow> bytes option" where
  "table_encode xs x = map_option (\<lambda>p. [fst p]) (find (\<lambda>p. snd p = x) (zip [1, 2, 3] xs))"

definition table_decode :: "'a list \<Rightarrow> bytes \<Rightarrow> 'a option" where
  "table_decode xs e = map_option snd (find (\<lambda>p. [fst p] = e) (zip [1, 2, 3] xs))"

text \<open>Constants, so that evaluation looks at a table only where it is used.\<close>

definition demo_encode_message :: "signed_message \<Rightarrow> bytes option" where
  "demo_encode_message m = table_encode demo_dev_messages m"

definition demo_decode_message :: "bytes \<Rightarrow> signed_message option" where
  "demo_decode_message x = table_decode demo_dev_messages x"

definition demo_encode_state :: "safety_state \<Rightarrow> bytes option" where
  "demo_encode_state ss = table_encode demo_dev_states ss"

definition demo_decode_state :: "bytes \<Rightarrow> safety_state option" where
  "demo_decode_state x = table_decode demo_dev_states x"

definition demo_decode_block :: "bytes \<Rightarrow> block option" where
  "demo_decode_block x = Some demo_node_block"

definition demo_decode_certificate :: "bytes \<Rightarrow> commit_certificate option" where
  "demo_decode_certificate x = Some demo_dev_certificate"

definition demo_decode_proposal :: "bytes \<Rightarrow> signed_proposal option" where
  "demo_decode_proposal x = Some demo_dev_proposal"

definition demo_consensus_codec :: consensus_env where
  "demo_consensus_codec = ledger_env.extend
     (demo_env\<lparr>unborsh_block := demo_decode_block, unborsh_certificate := demo_decode_certificate\<rparr>)
     (consensus_env.fields (\<lambda>m. Some []))"

definition demo_node_env :: actor_env where
  "demo_node_env = node_env.extend (consensus_env.extend demo_consensus_codec
     (node_env.fields (\<lambda>_. []) demo_encode_state demo_decode_state
        demo_encode_message demo_decode_message
        (\<lambda>_. Some [1]) demo_decode_proposal (\<lambda>_. []) (\<lambda>_. [])
        (\<lambda>a b c d. a) (\<lambda>_. None)))
     (actor_env.fields (\<lambda>_. []) (\<lambda>_. Some []) (\<lambda>_. Some []) (\<lambda>_. Some []) (\<lambda>_. Some [])
        (\<lambda>_. Some (demo_node_block, demo_dev_certificate)))"

section \<open>The node\<close>

definition demo_node_config :: node_config where
  "demo_node_config =
     \<lparr>nc_chain_id = str ''testnet'', nc_role = Validator, nc_validator_index = Some 0,
      nc_heartbeat_ms = 1000, nc_demo = True\<rparr>"

definition demo_dev_ids :: "cvalidator_id list" where
  "demo_dev_ids = map demo_dev_id [1, 2, 3, 4]"

definition demo_actor :: node_actor where
  "demo_actor =
     \<lparr>na_config = demo_node_config, na_chain_id = demo_chain, na_ledger = ledger_new demo_chain,
      na_mempool = [], na_mempool_ids = [],
      na_store = store_empty, na_networked = True, na_validator_ids = dev_validator_ids demo_node_env,
      na_consensus_ids = demo_dev_ids, na_standalone_keys = [],
      na_local_validator_key = Some (demo_dev_key 1),
      na_consensus = (case consensus_new (demo_dev_id 1) (ValidatorSet demo_dev_ids) 1
         (config_for_chain (str ''testnet'')) of Inr c \<Rightarrow> Some c | Inl _ \<Rightarrow> None),
      na_consensus_started = False, na_proposal_blocks = [], na_recovery_messages = [],
      na_recovery_broadcasts = [], na_peers = [], na_sync_target = None, na_sync_peer = None,
      na_sync_request_id = None, na_sync_request_deadline = None, na_next_request_id = 0,
      na_halted = False, na_telemetry = [], na_snapshot = None, na_clock_ms = 5, na_instant = 0,
      na_last_block_at = 0, na_last_status_at = 0, na_outputs = []\<rparr>"

text \<open>The messages of two other validators, after the node's own start.\<close>

definition demo_wires :: "consensus_wire list" where
  "demo_wires =
     [WireVote (demo_dev_vote 2 Prevote), WireVote (demo_dev_vote 3 Prevote),
      WireVote (demo_dev_vote 2 Precommit), WireVote (demo_dev_vote 3 Precommit)]"

fun handle_wires :: "node_actor \<Rightarrow> consensus_wire list \<Rightarrow> node_actor option" where
  "handle_wires a [] = Some a"
| "handle_wires a (w # ws) =
     (case handle_consensus_message demo_node_env a w of
        Some (a', Inr _) \<Rightarrow> handle_wires a' ws
      | _ \<Rightarrow> None)"

definition demo_started :: node_actor where
  "demo_started = (case ensure_consensus_started demo_node_env demo_actor of Some (a, _) \<Rightarrow> a | None \<Rightarrow> demo_actor)"

section \<open>Its first block\<close>

lemma demo_history: "history_holds demo_node_env store_empty demo_chain (ledger_new demo_chain)"
  by (simp add: history_holds_def blocks_wf_def store_empty_def canonical_block_rows_def bt_values_def
      replay_canonical_rows_def)

lemma demo_codec: "codec_restores demo_node_env demo_node_block demo_dev_certificate"
  by (simp add: codec_restores_def demo_node_env_def demo_consensus_codec_def node_env.extend_def
      consensus_env.extend_def ledger_env.extend_def demo_decode_block_def demo_decode_certificate_def)

lemma demo_commit:
  "case commit_finalized demo_node_env demo_actor demo_node_block demo_dev_certificate True of
     (a, r) \<Rightarrow> r = Inr () \<and> ls_height (na_ledger a) = 1"
  by code_simp

definition demo_committed :: node_actor where
  "demo_committed = fst (commit_finalized demo_node_env demo_actor demo_node_block demo_dev_certificate True)"

lemma demo_actor_fields:
  "na_validator_ids demo_actor = dev_validator_ids demo_node_env" "na_chain_id demo_actor = demo_chain"
  "na_ledger demo_actor = ledger_new demo_chain" "na_store demo_actor = store_empty"
  "\<not> na_halted demo_actor" "na_sync_target demo_actor = None" "na_mempool demo_actor = []"
  by (simp_all add: demo_actor_def)

text \<open>The commit, in its parts, and the state after it.\<close>

lemma demo_commit_parts:
  obtains ledger receipts projection db where
    "apply_finalized_block demo_node_env (ledger_new demo_chain) demo_node_block demo_dev_certificate
       (dev_validator_ids demo_node_env) = (ledger, Inr receipts)"
    "build_projection demo_node_env store_empty ledger demo_node_block demo_dev_certificate receipts = Inr projection"
    "persist_finalized store_empty projection = (db, Inr ())"
    "na_store demo_committed = db" "na_ledger demo_committed = ledger" "ls_height ledger = 1"
proof -
  obtain a r where c: "commit_finalized demo_node_env demo_actor demo_node_block demo_dev_certificate True = (a, r)"
    by fastforce
  with demo_commit have h: "ls_height (na_ledger a) = 1" "demo_committed = a" by (simp_all add: demo_committed_def)
  from c show thesis
  proof (cases rule: commit_finalized_cases)
    case (refused e)
    with h show thesis by (simp add: demo_actor_fields ledger_new_def)
  next
    case (committed ledger receipts projection db)
    with h show thesis by (intro that [of ledger receipts projection db]) (simp_all add: demo_actor_fields)
  qed
qed

end
