(* ===== verification/NodeProps.thy ===== *)
theory NodeProps
  imports NodeTermination NodeDemo
begin

text \<open>
  The properties of the node: its event loop returns, its store replays to its ledger, what
  it signs is in its durable log, a restart continues from that log, its mempool stays
  applicable and its own proposals are valid.
\<close>

section \<open>Termination\<close>

text \<open>
  The consensus loop of the node returns: whatever event, message or recovered state it
  is started with, and whatever the engine, the store and the codecs answer, it works off
  the events it queues for itself in finitely many rounds.
\<close>

theorem consensus_loop_returns:
  "process_consensus_event env a ev \<noteq> None \<and> ensure_consensus_started env a \<noteq> None \<and>
   handle_consensus_message env a wire \<noteq> None \<and> resume_interrupted_consensus env a \<noteq> None"
  using process_consensus_event_returns ensure_consensus_started_returns handle_consensus_message_returns
    resume_interrupted_consensus_returns by blast

section \<open>The stored history\<close>

text \<open>
  If the rows of the store replay to the node's ledger, they still do after any call of
  \<open>commit_finalized\<close>, successful or not: verification of the store succeeds and reports the
  ledger in memory, and a node started on the store has that ledger. Borsh is assumed to
  decode the block and certificate it encoded.
\<close>

theorem commit_keeps_stored_history:
  assumes "history_holds env (na_store a) chain (na_ledger a)"
    and "na_validator_ids a = dev_validator_ids env" and "codec_restores env b certificate"
    and "commit_finalized env a b certificate gossip = (a', r)"
  shows "history_holds env (na_store a') chain (na_ledger a') \<and>
     verify_store env (na_store a') chain = Inr (replay_report_of env (na_ledger a')) \<and>
     replay_on_start env (na_store a') chain = Inr (na_ledger a')"
  using commit_keeps_history [OF assms] history_starts [OF commit_keeps_history [OF assms]]
  by (simp add: verify_store_def history_holds_def)

theorem commit_keeps_stored_history_witness:
  "\<exists>a :: node_actor. ls_height (na_ledger a) = 1 \<and> replay_on_start demo_node_env (na_store a) demo_chain = Inr (na_ledger a)"
proof -
  obtain a r where c: "commit_finalized demo_node_env demo_actor demo_node_block demo_dev_certificate True = (a, r)"
    by fastforce
  have "na_validator_ids demo_actor = dev_validator_ids demo_node_env"
    "history_holds demo_node_env (na_store demo_actor) demo_chain (na_ledger demo_actor)"
    using demo_history by (simp_all add: demo_actor_def)
  from commit_keeps_stored_history [OF this(2,1) demo_codec c] demo_commit c show ?thesis by (auto intro!: exI [of _ a])
qed

section \<open>Signing and recovery\<close>

text \<open>
  C10: The signing records of the store are a durable log of decisions. A successful
  \<open>sign_and_persist\<close> leaves the decision it returns in the log of its height, at the end
  unless its slot already held it, changes the log of no other height, and returns a
  signature that verifies; a failed one leaves the records alone. Every record stays one
  that recovery accepts.
\<close>

theorem signing_extends_durable_log:
  assumes "signing_records_ok env db" and "ed25519_correct env" and "may_be_signed env key m ss"
    and "sign_and_persist env (Some key) blocks db m ss = (db', r)"
  shows "case r of
      Inl _ \<Rightarrow> db_signer_state db' = db_signer_state db
    | Inr sgnd \<Rightarrow> signing_records_ok env db' \<and>
        message_signable sgnd = m \<and> verify_signed_message env sgnd = Inr () \<and>
        (m, ss) \<in> set (stored_log env db' (signable_height m)) \<and>
        (\<forall>h. stored_log env db' h = stored_log env db h @
           (if h = signable_height m \<and> find_decision db (signer_slot m) = None then [(m, ss)] else []))"
proof (cases r)
  case (Inl e)
  with assms sign_and_persist_refused [of env "Some key" blocks db m ss db' e] show ?thesis by auto
next
  case (Inr sgnd)
  note L = sign_and_persist_log [OF assms(4) [unfolded Inr] assms(2,3,1)]
  have "\<forall>h. stored_log env db' h = stored_log env db h @
      (if h = signable_height m \<and> find_decision db (signer_slot m) = None then [(m, ss)] else [])"
    using L(5) by blast
  with L(1-4) Inr show ?thesis by simp
qed

lemma demo_may_sign:
  "may_be_signed demo_node_env (demo_dev_key 1) (message_signable (demo_dev_messages ! 0)) (demo_dev_states ! 0)"
  by code_simp

lemma demo_sign:
  "case sign_and_persist demo_node_env (Some (demo_dev_key 1)) [(demo_node_bid, demo_node_block)] store_empty
     (message_signable (demo_dev_messages ! 0)) (demo_dev_states ! 0) of (db, r) \<Rightarrow> is_ok r"
  by code_simp

lemma demo_node_ed25519: "ed25519_correct demo_node_env"
  using demo_ed25519_correct
  by (simp add: ed25519_correct_def demo_node_env_def demo_consensus_codec_def node_env.extend_def
      consensus_env.extend_def ledger_env.extend_def)

theorem signing_extends_durable_log_witness:
  "\<exists>db m ss. stored_log demo_node_env db 1 = [(m, ss)] \<and> signing_records_ok demo_node_env db"
proof -
  let ?m = "message_signable (demo_dev_messages ! 0)"
  obtain db r where s: "sign_and_persist demo_node_env (Some (demo_dev_key 1)) [(demo_node_bid, demo_node_block)]
     store_empty ?m (demo_dev_states ! 0) = (db, r)"
    by fastforce
  with demo_sign obtain sgnd where r: "r = Inr sgnd" by (auto simp: is_ok_iff)
  have empty: "signing_records_ok demo_node_env store_empty" "find_decision store_empty slot = None"
    "stored_log demo_node_env store_empty h = []" for slot h
    by (simp_all add: signing_records_ok_def store_empty_def find_decision_def stored_log_def
        consensus_decisions_def map_filter_simps)
  have "signable_height ?m = 1" by code_simp
  with signing_extends_durable_log [OF empty(1) demo_node_ed25519 demo_may_sign s] r
  have "signing_records_ok demo_node_env db \<and> stored_log demo_node_env db 1 = [(?m, demo_dev_states ! 0)]"
    by (simp add: empty)
  then show ?thesis by blast
qed

text \<open>
  C11: Recovery is the restart of the network model: when it succeeds, the engine it hands to
  the node is exactly the engine that restarts from the decisions in the store's log, in
  their order, checked with the node's own validation against the recovered blocks.
\<close>

theorem recovery_restarts_from_log:
  assumes "initialize_consensus_recovery env config db ledger validator_ids consensus_ids (Some key) = Inr r"
  shows "\<exists>validators c. validator_set_new consensus_ids = Inr validators \<and> cr_consensus r = Some c \<and>
     restart_engine (node_setting config validators ledger faulty) (local_consensus_id env key)
       (if consensus_safety_state db = None then [] else stored_log env db (ls_height ledger + 1))
       (node_message_validator env ledger (cr_proposal_blocks r) validator_ids) = Some c"
  using assms by (rule recovery_restarts)

definition demo_signed_store :: store where
  "demo_signed_store = fst (sign_and_persist demo_node_env (Some (demo_dev_key 1)) [(demo_node_bid, demo_node_block)]
     store_empty (message_signable (demo_dev_messages ! 0)) (demo_dev_states ! 0))"

definition demo_recovered :: "node_error + consensus_recovery" where
  "demo_recovered = initialize_consensus_recovery demo_node_env demo_node_config demo_signed_store
     (ledger_new demo_chain) (dev_validator_ids demo_node_env) demo_dev_ids (Some (demo_dev_key 1))"

lemma demo_recovers:
  "case demo_recovered of Inl _ \<Rightarrow> False
   | Inr r \<Rightarrow> length (cr_replay_messages r) = 1 \<and> consensus_safety_state demo_signed_store \<noteq> None"
  by code_simp

theorem recovery_restarts_from_log_witness:
  "\<exists>r c mv. demo_recovered = Inr r \<and> cr_consensus r = Some c \<and>
     restart_engine (node_setting demo_node_config (ValidatorSet demo_dev_ids) (ledger_new demo_chain) [])
       (demo_dev_id 1) (stored_log demo_node_env demo_signed_store 1) mv = Some c"
proof -
  obtain r where r: "demo_recovered = Inr r" "consensus_safety_state demo_signed_store \<noteq> None"
    using demo_recovers by (auto split: sum.splits)
  have "validator_set_new demo_dev_ids = Inr (ValidatorSet demo_dev_ids)" by code_simp
  moreover have "local_consensus_id demo_node_env (demo_dev_key 1) = demo_dev_id 1" by code_simp
  moreover have "ls_height (ledger_new demo_chain) + 1 = 1" by (simp add: ledger_new_def)
  ultimately show ?thesis
    using recovery_restarts_from_log [OF r(1) [unfolded demo_recovered_def], of "[]"] r by auto
qed

section \<open>Mempool and proposals\<close>

text \<open>
  C26: The mempool always applies to the node's ledger, one transaction after the other.
  Submission keeps this and either rejects the transaction and changes nothing, or appends
  exactly it; committing a block keeps it by dropping what no longer applies.
\<close>

theorem mempool_stays_applicable:
  assumes "mempool_ok env a"
  shows "(case accept_transaction env a t gossip of
      (a', Inl _) \<Rightarrow> a' = a
    | (a', Inr tid) \<Rightarrow> tid = tx_id env t \<and> mempool_ok env a' \<and> na_ledger a' = na_ledger a \<and>
        na_mempool a' = na_mempool a @ [t] \<and> tid \<notin> set (na_mempool_ids a)) \<and>
    mempool_ok env (fst (commit_finalized env a b certificate gossip'))"
proof -
  obtain a' r where r: "accept_transaction env a t gossip = (a', r)" by fastforce
  have "mempool_ok env (fst (commit_finalized env a b certificate gossip'))"
    using commit_finalized_keeps [OF assms, of b certificate gossip'] by (metis prod.collapse)
  with r accept_transaction_keeps [OF assms r] show ?thesis
    by (auto split: sum.splits elim: accept_transaction_cases)
qed

lemma demo_accepts:
  "is_ok (snd (accept_transaction demo_node_env demo_actor demo_claim False))"
  by code_simp

lemma demo_mempool: "mempool_ok demo_node_env demo_actor"
  by (simp add: mempool_ok_def demo_actor_def ledger_wf_new)

theorem mempool_stays_applicable_witness:
  "mempool_ok demo_node_env (fst (accept_transaction demo_node_env demo_actor demo_claim False)) \<and>
   na_mempool (fst (accept_transaction demo_node_env demo_actor demo_claim False)) = [demo_claim]"
proof -
  obtain a tid where a: "accept_transaction demo_node_env demo_actor demo_claim False = (a, Inr tid)"
    using demo_accepts by (cases "accept_transaction demo_node_env demo_actor demo_claim False") (auto simp: is_ok_iff)
  with mempool_stays_applicable [OF demo_mempool, of demo_claim False] show ?thesis by (simp add: demo_actor_def)
qed

text \<open>
  C31: A node accepts what it proposes: a fresh proposal takes the first 1000 transactions of
  the mempool, all of them, and passes the check that the node supplies to the engine, given
  that it is this validator's turn, the signature verifies and the block fits its size limit.
\<close>

theorem own_proposal_is_valid:
  assumes "mempool_ok env a" and "build_consensus_proposal env a round None = Inr b"
    and "na_local_validator_key a = Some key"
    and "length (block_canonical_bytes env b) \<le> MAX_BLOCK_BYTES"
    and "chain_id_validate (ls_chain_id (na_ledger a)) = Inr ()"
    and "expected_protocol_proposer (na_validator_ids a) (ls_height (na_ledger a) + 1) round =
      Some (validator_from_signing_key env key)"
    and "p_block_id (sp_proposal p) = block_id_of_hash (consensus_hash env b)"
    and "p_height (sp_proposal p) = ls_height (na_ledger a) + 1" and "p_round (sp_proposal p) = round"
    and "verify_ed25519_proposal env p = Inr ()"
  shows "bk_transactions b = take 1000 (na_mempool a) \<and>
     node_validate_proposal env (na_ledger a) (bt_insert (p_block_id (sp_proposal p)) b (na_proposal_blocks a))
       (na_validator_ids a) p = Inr ()"
proof -
  have build: "build_block env (na_ledger a) (validator_from_signing_key env key) round (na_clock_ms a)
      (take 1000 (na_mempool a)) = Inr b"
    using fresh_proposal [OF assms(1,2)] assms(3) by simp
  have "ledger_wf (na_ledger a)" using assms(1) by (simp add: mempool_ok_def)
  from build_block_applies [OF this assms(5) build assms(4)] obtain s rs where
    ap: "apply_block env (na_ledger a) b = (s, Inr rs)" "bk_transactions b = take 1000 (na_mempool a)"
      "bh_proposer (bk_header b) = validator_from_signing_key env key" "bh_round (bk_header b) = round"
    by blast
  then have "bh_height (bk_header b) = ls_height (na_ledger a) + 1" by (simp add: apply_block_ok)
  with ap assms(6-10) show ?thesis by (simp add: node_validate_proposal_def Let_def)
qed

lemma demo_proposes: "build_consensus_proposal demo_node_env demo_actor 0 None = Inr demo_node_block"
  by code_simp

theorem own_proposal_is_valid_witness:
  "bk_transactions demo_node_block = [] \<and>
   node_validate_proposal demo_node_env (ledger_new demo_chain) [(demo_node_bid, demo_node_block)]
     (dev_validator_ids demo_node_env) demo_dev_proposal = Inr ()"
proof -
  have c: "int (length (block_canonical_bytes demo_node_env demo_node_block)) \<le> 2097152 \<and>
      chain_id_validate (ls_chain_id (na_ledger demo_actor)) = Inr () \<and>
      expected_protocol_proposer (na_validator_ids demo_actor) (ls_height (na_ledger demo_actor) + 1) 0 =
        Some (validator_from_signing_key demo_node_env (demo_dev_key 1)) \<and>
      p_block_id (sp_proposal demo_dev_proposal) = block_id_of_hash (consensus_hash demo_node_env demo_node_block) \<and>
      p_height (sp_proposal demo_dev_proposal) = ls_height (na_ledger demo_actor) + 1 \<and>
      p_round (sp_proposal demo_dev_proposal) = 0 \<and>
      verify_ed25519_proposal demo_node_env demo_dev_proposal = Inr () \<and>
      p_block_id (sp_proposal demo_dev_proposal) = demo_node_bid"
    by code_simp
  then have "length (block_canonical_bytes demo_node_env demo_node_block) \<le> MAX_BLOCK_BYTES"
    by (simp add: MAX_BLOCK_BYTES_def)
  moreover have "block_id_of_hash (consensus_hash demo_node_env demo_node_block) = demo_node_bid"
    using c by (elim conjE) (rule trans [OF sym])
  ultimately show ?thesis
    using own_proposal_is_valid [OF demo_mempool demo_proposes, of "demo_dev_key 1" demo_dev_proposal] c
    by (simp add: demo_actor_def)
qed

end
