(* ===== verification/NodeSync.thy ===== *)
theory NodeSync
  imports NodeFrame
begin

text \<open>
  The rest of the node actor of \<open>kcoin-node/src/runtime.rs\<close>: importing finalized blocks,
  synchronization with peers, the signed status messages, the tick, the command loop and
  the start of a node. A request to the network task gets the next request id; that the task
  has stopped is not modelled, and sleeping advances the two clocks.
\<close>

section \<open>Time\<close>

definition SYNC_REQUEST_WATCHDOG_TIMEOUT :: duration where
  "SYNC_REQUEST_WATCHDOG_TIMEOUT = from_millis 12000"

definition VALIDATOR_SYNC_ANNOUNCEMENT_WINDOW :: duration where
  "VALIDATOR_SYNC_ANNOUNCEMENT_WINDOW = from_millis 500"

definition MAX_SYNC_RESPONSE_BYTES :: nat where
  "MAX_SYNC_RESPONSE_BYTES = 8 * 1024 * 1024"

definition sleep :: "duration \<Rightarrow> node_actor \<Rightarrow> node_actor" where
  "sleep d a = a\<lparr>na_instant := na_instant a + d,
     na_clock_ms := na_clock_ms a + word_of_int (d div 1000000)\<rparr>"

section \<open>Status messages\<close>

definition validator_status_signing_bytes ::
  "'z actor_env_scheme \<Rightarrow> validator_status \<Rightarrow> node_error + bytes" where
  "validator_status_signing_bytes env status =
     and_then (ok_or (borsh_status env status) NodeSerialization) (\<lambda>canonical.
       Inr (map of_char ''KCOIN_STATUS_V1'' @ [0] @ canonical))"

definition phase_name :: "phase \<Rightarrow> rstring" where
  "phase_name ph =
     (case ph of PhasePropose \<Rightarrow> str ''proposal'' | PhasePrevote \<Rightarrow> str ''prevote''
      | PhasePrecommit \<Rightarrow> str ''precommit'' | PhaseFinalized \<Rightarrow> str ''finalized'')"

definition abs_diff :: "u64 \<Rightarrow> u64 \<Rightarrow> u64" where
  "abs_diff x y = (if x < y then y - x else x - y)"

definition check_status ::
  "'z actor_env_scheme \<Rightarrow> node_actor \<Rightarrow> signed_validator_status \<Rightarrow> node_error + unit" where
  "check_status env a sgnd =
     (let status = ss_status sgnd in
      if sm_chain_id status \<noteq> nc_chain_id (na_config a)
      then Inl (NodeBail ''validator status belongs to another chain'')
      else if abs_diff (na_clock_ms a) (sm_timestamp_ms status) > 10000
      then Inl (NodeBail ''validator status timestamp is stale or too far in the future'')
      else if \<not> unat (sm_index status) < length (na_consensus_ids a)
      then Inl (NodeBail ''status uses an unknown validator index'')
      else if na_consensus_ids a ! unat (sm_index status) \<noteq> sm_validator status \<or>
              sm_validator status \<notin> set (na_consensus_ids a)
      then Inl (NodeBail ''status validator identity does not match the fixed set'')
      else if length (ss_status_signature sgnd) \<noteq> 64
      then Inl (NodeBail ''status signature must be 64 bytes'')
      else if \<not> ed25519_key_ok env (cvid_bytes (sm_validator status))
      then Inl (NodeBail ''status validator key is malformed'')
      else and_then (validator_status_signing_bytes env status) (\<lambda>x.
        if ed25519_verify_strict env (cvid_bytes (sm_validator status)) x (ss_status_signature sgnd)
        then Inr () else Inl (NodeBail ''status signature is invalid'')))"

definition accept_validator_status ::
  "'z actor_env_scheme \<Rightarrow> node_actor \<Rightarrow> signed_validator_status \<Rightarrow>
   node_actor \<times> (node_error + unit)" where
  "accept_validator_status env a sgnd =
     (case check_status env a sgnd of
        Inl e \<Rightarrow> (a, Inl e)
      | Inr _ \<Rightarrow>
        let status = ss_status sgnd in
        (publish_snapshot env (a\<lparr>na_telemetry := bt_insert (sm_validator status)
           \<lparr>vt_height = sm_height status, vt_round = sm_round status, vt_phase = sm_phase status,
            vt_block_hash = Hash32 (sm_block_hash status), vt_state_root = Hash32 (sm_state_root status),
            vt_last_seen_ms = na_clock_ms a\<rparr> (na_telemetry a)\<rparr>), Inr ()))"

definition own_status :: "'z actor_env_scheme \<Rightarrow> node_actor \<Rightarrow> bytes \<Rightarrow> validator_status" where
  "own_status env a key =
     (let (round, ph) = (case na_consensus a of
            None \<Rightarrow> (0, str ''idle'') | Some c \<Rightarrow> (c_round c, phase_name (c_phase c)))
      in \<lparr>sm_chain_id = nc_chain_id (na_config a), sm_validator = local_consensus_id env key,
          sm_index = (case nc_validator_index (na_config a) of None \<Rightarrow> 0 | Some i \<Rightarrow> i),
          sm_height = ls_height (na_ledger a), sm_round = round,
          sm_phase =
            (if na_sync_target a \<noteq> None then str ''syncing''
             else if na_halted a then str ''halted''
             else if na_consensus_started a then ph
             else str ''finalized''),
          sm_block_hash = hash_as_bytes (ls_tip_hash (na_ledger a)),
          sm_state_root = hash_as_bytes (state_root env (na_ledger a)),
          sm_syncing = (na_sync_target a \<noteq> None), sm_sync_target = na_sync_target a,
          sm_timestamp_ms = na_clock_ms a\<rparr>)"

definition publish_validator_status ::
  "'z actor_env_scheme \<Rightarrow> node_actor \<Rightarrow> node_actor \<times> (node_error + unit)" where
  "publish_validator_status env a =
     (case na_local_validator_key a of
        None \<Rightarrow> (a, Inr ())
      | Some key \<Rightarrow>
        let status = own_status env a key in
        case validator_status_signing_bytes env status of
          Inl e \<Rightarrow> (a, Inl e)
        | Inr x \<Rightarrow>
          let sgnd = \<lparr>ss_status = status, ss_status_signature = ed25519_sign env key x\<rparr> in
          st_then (accept_validator_status env a sgnd) (\<lambda>a _.
            if \<not> na_networked a then (a, Inr ())
            else case borsh_signed_status env sgnd of
              None \<Rightarrow> (a, Inl NodeSerialization)
            | Some _ \<Rightarrow> (emit [SendStatus sgnd] a, Inr ())))"

section \<open>Requests\<close>

definition enter_halted_state :: "node_actor \<Rightarrow> node_actor" where
  "enter_halted_state a =
     a\<lparr>na_halted := True, na_consensus_started := False, na_sync_target := None,
       na_sync_peer := None, na_sync_request_id := None, na_sync_request_deadline := None\<rparr>"

definition network_request :: "node_actor \<Rightarrow> peer \<Rightarrow> sync_request \<Rightarrow> node_actor \<times> u64" where
  "network_request a p request =
     (let request_id = na_next_request_id a in
      (emit [SendSyncRequest request_id p request] (a\<lparr>na_next_request_id := request_id + 1\<rparr>), request_id))"

definition request_sync_blocks :: "node_actor \<Rightarrow> peer \<Rightarrow> node_actor \<times> (node_error + unit)" where
  "request_sync_blocks a p =
     (if \<not> na_networked a then (a, Inl (NodeBail ''network is unavailable''))
      else case checked_add (ls_height (na_ledger a)) 1 of
        None \<Rightarrow> (a, Inl (NodeBail ''local height cannot advance''))
      | Some from_height \<Rightarrow>
        let (a, request_id) = network_request a p (SyncBlocks from_height 128) in
        (a\<lparr>na_sync_peer := Some p, na_sync_request_id := Some request_id,
           na_sync_request_deadline := Some (na_instant a + SYNC_REQUEST_WATCHDOG_TIMEOUT)\<rparr>, Inr ()))"

definition ensure_active_sync_request :: "node_actor \<Rightarrow> peer \<Rightarrow> node_actor \<times> (node_error + unit)" where
  "ensure_active_sync_request a preferred_peer =
     (if na_sync_request_id a \<noteq> None then (a, Inr ()) else request_sync_blocks a preferred_peer)"

definition begin_sync ::
  "'z actor_env_scheme \<Rightarrow> node_actor \<Rightarrow> peer \<Rightarrow> u64 \<Rightarrow> node_actor \<times> (node_error + unit)" where
  "begin_sync env a p target =
     (if na_halted a then (a, Inl (NodeBail ''halted node refuses to enter synchronization''))
      else if target \<le> ls_height (na_ledger a) then (a, Inr ())
      else let a = a\<lparr>na_sync_target := Some (case na_sync_target a of None \<Rightarrow> target | Some known \<Rightarrow> max known target),
                     na_consensus_started := False\<rparr>
      in st_then (publish_validator_status env (publish_snapshot env a)) (\<lambda>a _.
        let a = (if nc_role (na_config a) = Validator then sleep VALIDATOR_SYNC_ANNOUNCEMENT_WINDOW a else a)
        in if na_networked a then ensure_active_sync_request a p else (a, Inr ())))"

definition finish_sync_if_current :: "'z actor_env_scheme \<Rightarrow> node_actor \<Rightarrow> node_actor" where
  "finish_sync_if_current env a =
     publish_snapshot env
       (if (case na_sync_target a of None \<Rightarrow> False | Some target \<Rightarrow> ls_height (na_ledger a) \<ge> target)
        then a\<lparr>na_sync_target := None, na_sync_peer := None, na_sync_request_id := None,
               na_sync_request_deadline := None\<rparr>
        else a)"

section \<open>Importing a finalized block\<close>

definition halt_on_conflict :: "'z actor_env_scheme \<Rightarrow> node_actor \<Rightarrow> node_actor" where
  "halt_on_conflict env a =
     (let a = enter_halted_state a;
          a = (case na_local_validator_key a of
                 None \<Rightarrow> a
               | Some key \<Rightarrow> note_validator_activity env (local_consensus_id env key)
                   (ls_height (na_ledger a)) (str ''halted'') a)
      in publish_snapshot env a)"

definition import_finalized ::
  "'z actor_env_scheme \<Rightarrow> node_actor \<Rightarrow> block \<Rightarrow> commit_certificate \<Rightarrow> peer option \<Rightarrow>
   node_actor \<times> (node_error + unit)" where
  "import_finalized env a b certificate source =
     (let height = bh_height (bk_header b) in
      if na_halted a then (a, Inl (NodeBail ''halted node refuses finalized-state mutation''))
      else if bh_chain_id (bk_header b) \<noteq> na_chain_id a \<or> cc_chain_id certificate \<noteq> na_chain_id a
      then (a, Inl (NodeBail ''finalized block proof belongs to another chain''))
      else case validate_commitments env b of
        Inl e \<Rightarrow> (a, Inl (NodeValidation e))
      | Inr _ \<Rightarrow>
        case certificate_verify_for_block env certificate b (na_validator_ids a) of
          Inl e \<Rightarrow> (a, Inl (NodeValidation e))
        | Inr _ \<Rightarrow>
          if height \<le> ls_height (na_ledger a) then
            (case block_by_height (na_store a) height of
               Inl e \<Rightarrow> (a, Inl (NodeStorage e))
             | Inr None \<Rightarrow> (a, Inl (NodeBail ''local finalized height is missing from storage''))
             | Inr (Some existing) \<Rightarrow>
               case block_decode env (br_block_bytes existing) of
                 Inl e \<Rightarrow> (a, Inl (NodeValidation e))
               | Inr canonical_existing \<Rightarrow>
                 if block_hash env b \<noteq> block_hash env canonical_existing
                 then (halt_on_conflict env a, Inl (NodeBail ''conflicting certified block''))
                 else (a, Inr ()))
          else if height \<noteq> ls_height (na_ledger a) + 1 then
            (case source of
               Some p \<Rightarrow> begin_sync env a p height
             | None \<Rightarrow> (a, Inl (NodeBail ''block gap requires range synchronization'')))
          else
            st_then (commit_finalized env a b certificate False) (\<lambda>a _.
            st_then (reset_consensus env a) (\<lambda>a _. (finish_sync_if_current env a, Inr ()))))"

section \<open>Serving a peer\<close>

definition decode_finalized_row ::
  "'z actor_env_scheme \<Rightarrow> block_row \<Rightarrow> node_error + bytes" where
  "decode_finalized_row env row =
     and_then (decode_row env row) (\<lambda>record. ok_or (borsh_record env record) NodeSerialization)"

text \<open>The records of a range, as long as they fit the budget of one response.\<close>

fun collect_records ::
  "'z actor_env_scheme \<Rightarrow> nat \<Rightarrow> block_row list \<Rightarrow> node_error + bytes list" where
  "collect_records env payload_bytes [] = Inr []"
| "collect_records env payload_bytes (row # rows) =
     and_then (decode_finalized_row env row) (\<lambda>encoded.
       let response_budget = MAX_SYNC_RESPONSE_BYTES - 64 * 1024 in
       if payload_bytes + length encoded > response_budget then Inr []
       else and_then (collect_records env (payload_bytes + length encoded) rows) (\<lambda>records.
         Inr (encoded # records)))"

definition sync_response_for ::
  "'z actor_env_scheme \<Rightarrow> node_actor \<Rightarrow> sync_request \<Rightarrow> node_error + sync_response" where
  "sync_response_for env a request =
     (case request of
        SyncStatus \<Rightarrow>
          and_then
            (if ls_height (na_ledger a) = 0 then Inr None
             else and_then (map_err NodeStorage (block_by_height (na_store a) (ls_height (na_ledger a)))) (\<lambda>found.
               and_then (ok_or found (NodeBail ''finalized tip is missing from storage'')) (\<lambda>row.
               and_then (decode_finalized_row env row) (\<lambda>x. Inr (Some x))))) (\<lambda>finalized_tip.
            Inr (RespondStatus (ls_height (na_ledger a)) (hash32_display env (ls_tip_hash (na_ledger a)))
              (hash32_display env (state_root env (na_ledger a))) (na_sync_target a \<noteq> None) finalized_tip))
      | SyncBlocks from_height limit \<Rightarrow>
          and_then (map_err NodeStorage (finalized_range (na_store a) from_height limit)) (\<lambda>rows.
          and_then (collect_records env 0 rows) (\<lambda>records. Inr (RespondBlocks records))))"

definition respond_to_sync ::
  "'z actor_env_scheme \<Rightarrow> node_actor \<Rightarrow> u64 \<Rightarrow> sync_request \<Rightarrow> node_actor \<times> (node_error + unit)" where
  "respond_to_sync env a response_token request =
     (if \<not> na_networked a then (a, Inl (NodeBail ''network is unavailable''))
      else case sync_response_for env a request of
        Inl e \<Rightarrow> (a, Inl e)
      | Inr response \<Rightarrow> (emit [SendSyncResponse response_token response] a, Inr ()))"

section \<open>Handling a response\<close>

record sync_intent =
  si_request_id :: u64
  si_peer :: peer
  si_request :: sync_request

definition validate_sync_response_intent ::
  "peer \<Rightarrow> sync_intent \<Rightarrow> sync_response \<Rightarrow> u64 option \<Rightarrow> peer option \<Rightarrow> bool \<Rightarrow> u64 \<Rightarrow> node_error + unit" where
  "validate_sync_response_intent responding_peer intent response active_request_id sync_peer syncing local_height =
     (if responding_peer \<noteq> si_peer intent
      then Inl (NodeBail ''sync response peer did not match requested peer'')
      else case si_request intent of
        SyncStatus \<Rightarrow>
          (case response of
             RespondBlocks _ \<Rightarrow> Inl (NodeBail ''status request received a blocks response'')
           | _ \<Rightarrow> Inr ())
      | SyncBlocks from_height limit \<Rightarrow>
          if \<not> syncing then Inl (NodeBail ''blocks response arrived while the node was not syncing'')
          else if active_request_id \<noteq> Some (si_request_id intent)
          then Inl (NodeBail ''blocks response did not match the active outbound request'')
          else if sync_peer \<noteq> Some responding_peer
          then Inl (NodeBail ''blocks response came from a peer that is no longer selected'')
          else case checked_add local_height 1 of
            None \<Rightarrow> Inl (NodeBail ''local height cannot advance'')
          | Some expected_height \<Rightarrow>
            if from_height \<noteq> expected_height
            then Inl (NodeBail ''blocks response intent started at another height'')
            else if limit = 0 then Inl (NodeBail ''blocks response intent had a zero-sized range'')
            else case response of
              RespondBlocks records \<Rightarrow>
                if length records \<le> unat limit then Inr ()
                else Inl (NodeBail ''blocks response contained too many records'')
            | RespondError _ _ \<Rightarrow> Inr ()
            | RespondStatus _ _ _ _ _ \<Rightarrow> Inl (NodeBail ''blocks request received a status response''))"

fun check_heights :: "u64 \<Rightarrow> (nat \<times> (block \<times> commit_certificate)) list \<Rightarrow> node_error + unit" where
  "check_heights first_expected [] = Inr ()"
| "check_heights first_expected ((offset, record) # records) =
     (case checked_add first_expected (of_nat offset) of
        None \<Rightarrow> Inl (NodeBail ''sync range height overflow'')
      | Some expected \<Rightarrow>
        if bh_height (bk_header (fst record)) \<noteq> expected
        then Inl (NodeBail ''sync range expected another height'')
        else check_heights first_expected records)"

definition validate_sync_batch_sequence ::
  "(block \<times> commit_certificate) list \<Rightarrow> u64 \<Rightarrow> node_error + unit" where
  "validate_sync_batch_sequence records local_height =
     (case checked_add local_height 1 of
        None \<Rightarrow> Inl (NodeBail ''local height cannot advance'')
      | Some first_expected \<Rightarrow> check_heights first_expected (enumerate 0 records))"

fun import_all ::
  "'z actor_env_scheme \<Rightarrow> node_actor \<Rightarrow> (block \<times> commit_certificate) list \<Rightarrow>
   node_actor \<times> (node_error + unit)" where
  "import_all env a [] = (a, Inr ())"
| "import_all env a ((b, certificate) # records) =
     st_then (import_finalized env a b certificate None) (\<lambda>a _. import_all env a records)"

definition check_status_proof ::
  "'z actor_env_scheme \<Rightarrow> node_actor \<Rightarrow> u64 \<Rightarrow> rstring \<Rightarrow> rstring \<Rightarrow> bytes option \<Rightarrow> node_error + unit" where
  "check_status_proof env a height tip_hash root finalized_tip =
     and_then (ok_or finalized_tip (NodeBail ''higher peer status omitted its finality proof'')) (\<lambda>x.
     and_then (ok_or (borsh_record_parse env x) NodeSerialization) (\<lambda>(b, certificate).
       if bh_chain_id (bk_header b) \<noteq> na_chain_id a \<or> cc_chain_id certificate \<noteq> na_chain_id a
       then Inl (NodeBail ''status finality proof belongs to another chain'')
       else and_then (map_err NodeValidation (validate_commitments env b)) (\<lambda>_.
       and_then (map_err NodeValidation (certificate_verify_for_block env certificate b (na_validator_ids a))) (\<lambda>_.
         if bh_height (bk_header b) \<noteq> height \<or> hash32_display env (block_hash env b) \<noteq> tip_hash \<or>
            hash32_display env (bh_state_root (bk_header b)) \<noteq> root
         then Inl (NodeBail ''status fields do not match its certified finalized tip'')
         else Inr ()))))"

text \<open>A response with blocks, once its intent was validated, and what follows its import.\<close>

definition continue_sync ::
  "'z actor_env_scheme \<Rightarrow> node_actor \<Rightarrow> peer \<Rightarrow> u64 \<Rightarrow> node_actor \<times> (node_error + unit)" where
  "continue_sync env a p height_before =
     (if ls_height (na_ledger a) \<le> height_before
      then (a, Inl (NodeBail ''sync range made no finalized-height progress''))
      else st_then (publish_validator_status env a) (\<lambda>a _.
        case na_sync_target a of
          None \<Rightarrow> (a, Inr ())
        | Some target \<Rightarrow>
          if ls_height (na_ledger a) < target
          then if na_networked a then request_sync_blocks a p else (a, Inr ())
          else (finish_sync_if_current env a, Inr ())))"

definition import_range ::
  "'z actor_env_scheme \<Rightarrow> node_actor \<Rightarrow> peer \<Rightarrow> u64 \<Rightarrow> bytes list \<Rightarrow> node_actor \<times> (node_error + unit)" where
  "import_range env a p from_height records =
     (if records = [] then
        if (case na_sync_target a of None \<Rightarrow> False | Some target \<Rightarrow> target > ls_height (na_ledger a))
        then (a, Inl (NodeBail ''sync peer returned an empty range before the target height''))
        else let a = (if na_networked a then fst (network_request a p SyncStatus) else a)
          in (a\<lparr>na_sync_request_id := None, na_sync_request_deadline := None\<rparr>, Inr ())
      else case collect_results (\<lambda>x. ok_or (borsh_record_parse env x) NodeSerialization) records of
        Inl e \<Rightarrow> (a, Inl e)
      | Inr decoded \<Rightarrow>
        let height_before = ls_height (na_ledger a) in
        case validate_sync_batch_sequence decoded (saturating_sub from_height 1) of
          Inl e \<Rightarrow> (a, Inl e)
        | Inr _ \<Rightarrow>
          st_then (import_all env a decoded) (\<lambda>a _. continue_sync env a p height_before))"

definition handle_sync_response ::
  "'z actor_env_scheme \<Rightarrow> node_actor \<Rightarrow> peer \<Rightarrow> sync_intent \<Rightarrow> sync_response \<Rightarrow>
   node_actor \<times> (node_error + unit)" where
  "handle_sync_response env a p intent response =
     (case validate_sync_response_intent p intent response (na_sync_request_id a) (na_sync_peer a)
             (na_sync_target a \<noteq> None) (ls_height (na_ledger a)) of
        Inl e \<Rightarrow> (a, Inl e)
      | Inr _ \<Rightarrow>
        case (si_request intent, response) of
          (SyncStatus, RespondStatus height tip_hash root _ finalized_tip) \<Rightarrow>
            if height > ls_height (na_ledger a)
            then (case check_status_proof env a height tip_hash root finalized_tip of
                Inl e \<Rightarrow> (a, Inl e)
              | Inr _ \<Rightarrow> begin_sync env a p height)
            else (a, Inr ())
        | (SyncBlocks from_height _, RespondBlocks records) \<Rightarrow> import_range env a p from_height records
        | (_, RespondError _ _) \<Rightarrow> (a, Inl (NodeBail ''peer sync error''))
        | _ \<Rightarrow> (a, Inl (NodeBail ''panic: response kind was validated against its request intent'')))"

section \<open>Retrying\<close>

definition choose_sync_retry_peer :: "peer list \<Rightarrow> peer \<Rightarrow> peer option" where
  "choose_sync_retry_peer peers failed_peer =
     (case sort (filter (\<lambda>p. p \<noteq> failed_peer) peers) of
        p # _ \<Rightarrow> Some p
      | [] \<Rightarrow> if failed_peer \<in> set peers then Some failed_peer else None)"

definition retry_sync_after_failure ::
  "'z actor_env_scheme \<Rightarrow> node_actor \<Rightarrow> peer \<Rightarrow> u64 option \<Rightarrow> node_actor \<times> (node_error + unit)" where
  "retry_sync_after_failure env a failed_peer failed_request_id =
     (if na_sync_target a = None \<or> na_sync_peer a \<noteq> Some failed_peer then (a, Inr ())
      else if failed_request_id \<noteq> None \<and> failed_request_id \<noteq> na_sync_request_id a then (a, Inr ())
      else let next_peer = choose_sync_retry_peer (na_peers a) failed_peer;
               a = publish_snapshot env (a\<lparr>na_sync_peer := next_peer, na_sync_request_id := None,
                     na_sync_request_deadline := None\<rparr>)
        in case next_peer of
          None \<Rightarrow> (a, Inr ())
        | Some p \<Rightarrow>
            request_sync_blocks (if p = failed_peer then sleep (from_millis 250) a else a) p)"

definition retry_timed_out_sync_request ::
  "'z actor_env_scheme \<Rightarrow> node_actor \<Rightarrow> duration \<Rightarrow> node_actor \<times> (node_error + unit)" where
  "retry_timed_out_sync_request env a now =
     (if na_halted a then (a, Inr ())
      else case (na_sync_request_id a, na_sync_peer a, na_sync_request_deadline a) of
        (Some request_id, Some p, Some deadline) \<Rightarrow>
          if now < deadline then (a, Inr ()) else retry_sync_after_failure env a p (Some request_id)
      | _ \<Rightarrow> (a, Inr ()))"

end
