(* ===== verification/NodeRun.thy ===== *)
theory NodeRun
  imports NodeSync "HOL-Library.Sublist"
begin

text \<open>
  The tick, the command loop and the start of a node (\<open>kcoin-node/src/runtime.rs\<close>), and
  the bridge that turns what the network reports into commands. A handler that fails only
  logs its error; \<open>None\<close> is a handler that does not return.
\<close>

section \<open>The tick\<close>

definition elapsed :: "node_actor \<Rightarrow> duration \<Rightarrow> duration" where
  "elapsed a since = max 0 (na_instant a - since)"

definition publish_due_status ::
  "'z actor_env_scheme \<Rightarrow> node_actor \<Rightarrow> node_actor \<times> (node_error + unit)" where
  "publish_due_status env a =
     (if elapsed a (na_last_status_at a) \<ge> from_millis 1000
      then publish_validator_status env (a\<lparr>na_last_status_at := na_instant a\<rparr>)
      else (a, Inr ()))"

definition produce ::
  "'z actor_env_scheme \<Rightarrow> node_actor \<Rightarrow> (node_actor \<times> (node_error + unit)) option" where
  "produce env a =
     (let heartbeat_due = elapsed a (na_last_block_at a) \<ge> from_millis (uint (nc_heartbeat_ms (na_config a)))
      in if na_mempool a = [] \<and> \<not> heartbeat_due then Some (a, Inr ())
         else case nc_role (na_config a) of
           Standalone \<Rightarrow> Some (produce_standalone env a)
         | Validator \<Rightarrow>
             if na_sync_target a = None then ensure_consensus_started env a else Some (a, Inr ())
         | Observer \<Rightarrow> Some (a, Inr ()))"

definition tick ::
  "'z actor_env_scheme \<Rightarrow> node_actor \<Rightarrow> (node_actor \<times> (node_error + unit)) option" where
  "tick env a =
     then_run (Some (retry_timed_out_sync_request env a (na_instant a))) (\<lambda>a.
     then_run (Some (publish_due_status env a)) (\<lambda>a.
       if na_halted a then Some (a, Inr ()) else produce env a))"

section \<open>Commands\<close>

datatype command =
    Submit signed_transaction bool
  | Tick
  | ConsensusMessage "peer option" consensus_wire
  | ConsensusTimeout timeout
  | ImportFinalized block commit_certificate "peer option"
  | PeerConnected peer
  | PeerDisconnected peer
  | SyncRequested u64 sync_request
  | SyncResponded peer sync_intent sync_response
  | SyncFailed peer sync_intent rstring
  | ValidatorStatus signed_validator_status
  | Shutdown

definition peer_connected :: "'z actor_env_scheme \<Rightarrow> node_actor \<Rightarrow> peer \<Rightarrow> node_actor" where
  "peer_connected env a p =
     (let a = a\<lparr>na_peers := List.insert p (na_peers a)\<rparr>;
          a = (if na_sync_target a \<noteq> None then fst (ensure_active_sync_request a p)
               else if na_networked a then fst (network_request a p SyncStatus)
               else a)
      in publish_snapshot env a)"

definition peer_disconnected :: "'z actor_env_scheme \<Rightarrow> node_actor \<Rightarrow> peer \<Rightarrow> node_actor" where
  "peer_disconnected env a p =
     (let a = a\<lparr>na_peers := removeAll p (na_peers a)\<rparr>;
          a = (if na_sync_peer a = Some p then fst (retry_sync_after_failure env a p None) else a)
      in publish_snapshot env a)"

definition sync_responded ::
  "'z actor_env_scheme \<Rightarrow> node_actor \<Rightarrow> peer \<Rightarrow> sync_intent \<Rightarrow> sync_response \<Rightarrow> node_actor" where
  "sync_responded env a p intent response =
     (case handle_sync_response env a p intent response of
        (a, Inr _) \<Rightarrow> a
      | (a, Inl _) \<Rightarrow> fst (retry_sync_after_failure env a (si_peer intent) (Some (si_request_id intent))))"

definition handle_command :: "'z actor_env_scheme \<Rightarrow> node_actor \<Rightarrow> command \<Rightarrow> node_actor option" where
  "handle_command env a command =
     (case command of
        Submit transaction gossip \<Rightarrow>
          (case accept_transaction env a transaction gossip of
             (a, result) \<Rightarrow> Some (emit [SubmitResult result] a))
      | Tick \<Rightarrow> map_option fst (tick env a)
      | ConsensusMessage _ wire \<Rightarrow> map_option fst (handle_consensus_message env a wire)
      | ConsensusTimeout t \<Rightarrow>
          if \<not> na_consensus_started a then Some a
          else map_option fst (process_consensus_event env a (TimeoutEvent t))
      | ImportFinalized b certificate source \<Rightarrow> Some (fst (import_finalized env a b certificate source))
      | PeerConnected p \<Rightarrow> Some (peer_connected env a p)
      | PeerDisconnected p \<Rightarrow> Some (peer_disconnected env a p)
      | SyncRequested response_token request \<Rightarrow> Some (fst (respond_to_sync env a response_token request))
      | SyncResponded p intent response \<Rightarrow> Some (sync_responded env a p intent response)
      | SyncFailed _ intent _ \<Rightarrow>
          (case si_request intent of
             SyncBlocks _ _ \<Rightarrow>
               Some (fst (retry_sync_after_failure env a (si_peer intent) (Some (si_request_id intent))))
           | SyncStatus \<Rightarrow> Some a)
      | ValidatorStatus sgnd \<Rightarrow> Some (fst (accept_validator_status env a sgnd))
      | Shutdown \<Rightarrow> Some a)"

text \<open>
  Time passes between two commands: a command comes with what the two clocks say when it is
  taken from the channel.
\<close>

definition at_time :: "u64 \<times> duration \<Rightarrow> node_actor \<Rightarrow> node_actor" where
  "at_time now a = a\<lparr>na_clock_ms := fst now, na_instant := snd now\<rparr>"

fun run_commands ::
  "'z actor_env_scheme \<Rightarrow> node_actor \<Rightarrow> ((u64 \<times> duration) \<times> command) list \<Rightarrow> node_actor option" where
  "run_commands env a [] = Some a"
| "run_commands env a ((now, command) # commands) =
     (if command = Shutdown then Some a
      else Option.bind (handle_command env (at_time now a) command) (\<lambda>a. run_commands env a commands))"

definition run_prologue :: "'z actor_env_scheme \<Rightarrow> node_actor \<Rightarrow> node_actor option" where
  "run_prologue env a =
     (if na_recovery_messages a = [] then Some a
      else case resume_interrupted_consensus env a of
        None \<Rightarrow> None
      | Some (a, Inl _) \<Rightarrow> Some (publish_snapshot env (enter_halted_state a))
      | Some (a, Inr _) \<Rightarrow> Some a)"

definition run ::
  "'z actor_env_scheme \<Rightarrow> node_actor \<Rightarrow> ((u64 \<times> duration) \<times> command) list \<Rightarrow> node_actor option" where
  "run env a commands = Option.bind (run_prologue env a) (\<lambda>a. run_commands env a commands)"

section \<open>Starting a node\<close>

definition local_signing_key ::
  "'z actor_env_scheme \<Rightarrow> node_config \<Rightarrow> node_error + bytes option" where
  "local_signing_key env config =
     (if nc_role config = Validator
      then and_then (ok_or (nc_validator_index config) (NodeBail ''validator index is required'')) (\<lambda>index.
        if unat index < length (deterministic_dev_validator_keys env)
        then Inr (Some (deterministic_dev_validator_keys env ! unat index))
        else Inl (NodeBail ''validator index is outside the fixed validator set''))
      else Inr None)"

text \<open>\<open>network\<close> is the connected peers and the next request id of the network handle.\<close>

definition initial_actor ::
  "'z actor_env_scheme \<Rightarrow> node_config \<Rightarrow> store \<Rightarrow> (peer list \<times> u64) option \<Rightarrow> u64 \<Rightarrow> duration \<Rightarrow>
   chain_id \<Rightarrow> ledger_state \<Rightarrow> bytes option \<Rightarrow> consensus_recovery \<Rightarrow> node_actor" where
  "initial_actor env config db network clock_ms instant chain ledger key recovery =
     (let a =
       \<lparr>na_config = config, na_chain_id = chain, na_ledger = ledger, na_mempool = [],
        na_mempool_ids = [], na_store = db, na_networked = (network \<noteq> None),
        na_validator_ids = dev_validator_ids env,
        na_consensus_ids = map cvid_of_protocol (dev_validator_ids env),
        na_standalone_keys =
          (if nc_role config = Standalone then deterministic_dev_validator_keys env else []),
        na_local_validator_key = key, na_consensus = cr_consensus recovery,
        na_consensus_started = False, na_proposal_blocks = cr_proposal_blocks recovery,
        na_recovery_messages = cr_replay_messages recovery,
        na_recovery_broadcasts = cr_rebroadcast_wires recovery,
        na_peers = (case network of None \<Rightarrow> [] | Some (peers, _) \<Rightarrow> peers),
        na_sync_target = None, na_sync_peer = None, na_sync_request_id = None,
        na_sync_request_deadline = None,
        na_next_request_id = (case network of None \<Rightarrow> 1 | Some (_, next_id) \<Rightarrow> next_id),
        na_halted = False, na_telemetry = [], na_snapshot = None, na_clock_ms = clock_ms,
        na_instant = instant, na_last_block_at = instant,
        na_last_status_at =
          (if instant \<ge> from_millis 1000 then instant - from_millis 1000 else instant),
        na_outputs = []\<rparr>
      in a\<lparr>na_snapshot := Some (snapshot_for env a)\<rparr>)"

definition start_node ::
  "'z actor_env_scheme \<Rightarrow> node_config \<Rightarrow> store \<Rightarrow> (peer list \<times> u64) option \<Rightarrow> u64 \<Rightarrow> duration \<Rightarrow>
   node_error + node_actor" where
  "start_node env config db network clock_ms instant =
     and_then (map_err NodeValidation (chain_id_new (nc_chain_id config))) (\<lambda>chain.
       if (nc_role config = Validator \<or> nc_role config = Observer) \<and> \<not> nc_demo config \<and>
          \<not> sublist (str ''local'') (nc_chain_id config)
       then Inl (NodeBail ''the fixed deterministic validator set is restricted to --demo or a local chain id'')
       else and_then (replay_on_start env db chain) (\<lambda>ledger.
       and_then (local_signing_key env config) (\<lambda>key.
       and_then (initialize_consensus_recovery env config db ledger (dev_validator_ids env)
                   (map cvid_of_protocol (dev_validator_ids env)) key) (\<lambda>recovery.
         Inr (initial_actor env config db network clock_ms instant chain ledger key recovery)))))"

section \<open>From the network\<close>

datatype gossip_kind = GossipTransaction | GossipConsensus | GossipFinalized | GossipStatus

record gossip_envelope =
  ge_version :: u16
  ge_chain_id :: rstring
  ge_kind :: gossip_kind
  ge_payload :: bytes

datatype network_event =
    Gossip "peer option" gossip_envelope
  | NetSyncRequest peer u64 sync_request
  | NetSyncResponse peer sync_intent sync_response
  | NetSyncFailure peer sync_intent rstring
  | NetPeerConnected peer
  | NetPeerDisconnected peer

record bridge_env = actor_env +
  borsh_wire_parse :: "bytes \<Rightarrow> consensus_wire option"
  borsh_signed_status_parse :: "bytes \<Rightarrow> signed_validator_status option"

definition gossip_command ::
  "'z bridge_env_scheme \<Rightarrow> peer option \<Rightarrow> gossip_envelope \<Rightarrow> command option" where
  "gossip_command env source envelope =
     (let payload = ge_payload envelope in
      case ge_kind envelope of
        GossipTransaction \<Rightarrow>
          (case tx_decode env payload of Inl _ \<Rightarrow> None | Inr t \<Rightarrow> Some (Submit t False))
      | GossipFinalized \<Rightarrow>
          map_option (\<lambda>(b, certificate). ImportFinalized b certificate source) (borsh_record_parse env payload)
      | GossipConsensus \<Rightarrow> map_option (ConsensusMessage source) (borsh_wire_parse env payload)
      | GossipStatus \<Rightarrow> map_option ValidatorStatus (borsh_signed_status_parse env payload))"

definition bridge_command ::
  "'z bridge_env_scheme \<Rightarrow> rstring \<Rightarrow> network_event \<Rightarrow> command option" where
  "bridge_command env chain ev =
     (case ev of
        Gossip source envelope \<Rightarrow>
          if ge_chain_id envelope = chain then gossip_command env source envelope else None
      | NetPeerConnected p \<Rightarrow> Some (PeerConnected p)
      | NetPeerDisconnected p \<Rightarrow> Some (PeerDisconnected p)
      | NetSyncRequest _ response_token request \<Rightarrow> Some (SyncRequested response_token request)
      | NetSyncResponse p intent response \<Rightarrow> Some (SyncResponded p intent response)
      | NetSyncFailure p intent e \<Rightarrow> Some (SyncFailed p intent e))"

text \<open>
  What the bridge makes of the events of the network, in order. A bridge that lags behind the
  broadcast channel skips the events it missed; \<open>events\<close> are those it receives.
\<close>

definition spawn_network_bridge ::
  "'z bridge_env_scheme \<Rightarrow> rstring \<Rightarrow> network_event list \<Rightarrow> command list" where
  "spawn_network_bridge env chain events = List.map_filter (bridge_command env chain) events"

end
