(* ===== verification/NodePath.thy ===== *)
theory NodePath
  imports NodeRun NodeMempool
begin

text \<open>
  How the state of a node evolves: every handler is a sequence of submissions, of commits
  of finalized blocks, of imports that halt the node, and of steps that leave the chain, the
  mempool, the block table, the metadata and the halt alone. An invariant of these four is
  an invariant of every run, up to the halt of a recovery that fails at its start.
\<close>

section \<open>Paths\<close>

definition same_chain :: "node_actor \<Rightarrow> node_actor \<Rightarrow> bool" where
  "same_chain a a' \<longleftrightarrow>
     na_ledger a' = na_ledger a \<and> na_chain_id a' = na_chain_id a \<and> na_validator_ids a' = na_validator_ids a \<and>
     na_mempool a' = na_mempool a \<and> na_mempool_ids a' = na_mempool_ids a \<and>
     db_blocks (na_store a') = db_blocks (na_store a) \<and>
     db_metadata (na_store a') = db_metadata (na_store a) \<and>
     na_halted a' = na_halted a \<and> (na_halted a \<longrightarrow> na_sync_target a = None \<longrightarrow> na_sync_target a' = None)"

inductive path :: "'z actor_env_scheme \<Rightarrow> node_actor \<Rightarrow> node_actor \<Rightarrow> bool" for env where
  stay: "same_chain a a' \<Longrightarrow> path env a a'"
| submission: "accept_transaction env a t gossip = (a', r) \<Longrightarrow> path env a a'"
| commit: "commit_finalized env a b certificate gossip = (a', r) \<Longrightarrow> path env a a'"
| conflict: "import_finalized env a b certificate source = (a', r) \<Longrightarrow> \<not> na_halted a \<Longrightarrow> na_halted a' \<Longrightarrow>
    path env a a'"
| further: "path env a b \<Longrightarrow> path env b c \<Longrightarrow> path env a c"

named_theorems path_intros

declare path.commit [path_intros] path.submission [path_intros]

lemma same_chain_refl [simp]: "same_chain a a"
  by (simp add: same_chain_def)

lemma path_refl [simp]: "path env a a"
  by (rule path.stay) simp

text \<open>Updates of the other fields.\<close>

lemma path_after:
  "same_chain a a0 \<Longrightarrow> path env a0 a' \<Longrightarrow> path env a a'"
  by (blast intro: path.intros)

lemma path_before:
  "path env a a0 \<Longrightarrow> same_chain a0 a' \<Longrightarrow> path env a a'"
  by (blast intro: path.intros)

lemma path_st_then:
  assumes "st_then p k = (a', r)" and "\<And>b s. p = (b, s) \<Longrightarrow> path env a b"
    and "\<And>b x c s. p = (b, Inr x) \<Longrightarrow> k b x = (c, s) \<Longrightarrow> path env b c"
  shows "path env a a'"
  using assms by (cases p; cases "snd p") (auto intro: path.further)

section \<open>The handlers\<close>

lemma persist_blocks [simp]:
  "db_blocks (fst (append_consensus_event f db k x)) = db_blocks db"
  "db_blocks (fst (persist_consensus_proposal db p)) = db_blocks db"
  "db_blocks (fst (persist_consensus_decision db slot x y z w)) = db_blocks db"
  "db_metadata (fst (append_consensus_event f db k x)) = db_metadata db"
  "db_metadata (fst (persist_consensus_proposal db p)) = db_metadata db"
  "db_metadata (fst (persist_consensus_decision db slot x y z w)) = db_metadata db"
  by (auto simp: append_consensus_event_def Let_def persist_consensus_proposal_def transact_def
      persist_consensus_decision_def update_signed_message_def and_then_def
      split: option.splits if_splits sum.splits)

lemma persist_proposal_blocks:
  "persist_consensus_proposal db p = (db', r) \<Longrightarrow>
     db_blocks db' = db_blocks db \<and> db_metadata db' = db_metadata db"
  using persist_blocks(2,5) [of db p] by simp

lemma sign_and_persist_blocks:
  "sign_and_persist env key blocks db m ss = (db', r) \<Longrightarrow>
     db_blocks db' = db_blocks db \<and> db_metadata db' = db_metadata db"
  by (auto simp: sign_and_persist_def Let_def st_then_def lift_store_def persist_local_proposal_def
      split: option.splits if_splits sum.splits prod.splits signed_message.splits)

lemma reset_consensus_same: "reset_consensus env a = (a', r) \<Longrightarrow> same_chain a a'"
  by (auto simp: reset_consensus_def Let_def same_chain_def split: option.splits sum.splits)

lemma publish_wire_same: "publish_consensus_wire env a w = (a', r) \<Longrightarrow> same_chain a a'"
  by (auto simp: publish_consensus_wire_def same_chain_def split: if_splits option.splits)

lemma publish_wires_same: "publish_wires env a ws = (a', r) \<Longrightarrow> same_chain a a'"
proof (induction ws arbitrary: a)
  case (Cons w ws)
  from Cons.prems show ?case
    by (auto simp: st_then_def same_chain_def split: prod.splits sum.splits
        dest!: publish_wire_same [unfolded same_chain_def] Cons.IH [unfolded same_chain_def])
qed simp

lemma broadcast_same: "broadcast_consensus env a m = (a', r) \<Longrightarrow> same_chain a a'"
  by (auto simp: broadcast_consensus_def split: signed_message.splits option.splits dest: publish_wire_same)

lemma finalize_decided_path: "finalize_decided env a f = (a', r) \<Longrightarrow> path env a a'"
  by (auto simp: finalize_decided_def split: option.splits sum.splits
      elim!: path_st_then intro: path.commit path.stay dest: reset_consensus_same)

lemma carry_out_effect_path:
  assumes "carry_out_effect env a e = (a', r)"
  shows "path env a a'"
proof (cases e)
  case (Broadcast m)
  with assms have "st_then (broadcast_consensus env a m) (\<lambda>a _. (a, Inr [])) = (a', r)"
    by (simp add: carry_out_effect_def)
  then show ?thesis by (rule path_st_then) (auto intro: path.stay dest: broadcast_same)
next
  case (Finalize f)
  with assms have "st_then (finalize_decided env a f) (\<lambda>a _. (a, Inr [])) = (a', r)"
    by (simp add: carry_out_effect_def)
  then show ?thesis by (rule path_st_then) (auto dest: finalize_decided_path)
qed (use assms in \<open>auto simp: carry_out_effect_def Let_def same_chain_def
      split: option.splits sum.splits prod.splits intro!: path.stay dest: sign_and_persist_blocks\<close>)

lemma carry_out_effects_path: "carry_out_effects env a es = (a', r) \<Longrightarrow> path env a a'"
proof (induction es arbitrary: a a' r)
  case (Cons e es)
  from Cons.prems show ?case
    by (auto elim!: path_st_then intro: carry_out_effect_path Cons.IH)
qed simp

lemma process_next_path: "process_next env a ev = (a', r) \<Longrightarrow> path env a a'"
proof -
  assume run: "process_next env a ev = (a', r)"
  have "same_chain a (a\<lparr>na_consensus := c\<rparr>)" for c by (simp add: same_chain_def)
  with run show ?thesis
    by (auto simp: process_next_def split: option.splits sum.splits prod.splits
        intro: path.stay path_after dest: carry_out_effects_path)
qed

lemma process_events_path:
  assumes "process_events env a pending = Some result"
  shows "path env a (fst result)"
  using assms
proof (induction env a pending result rule: process_events.raw_induct [rotated, consumes 1, case_names events])
  case (events process_events env a pending result)
  from events(2) show ?case
    by (auto split: list.splits prod.splits sum.splits dest!: process_next_path events(1) intro: path.further)
qed

lemma path_then_run:
  assumes "then_run p k = Some (a', r)" and "\<And>b s. p = Some (b, s) \<Longrightarrow> path env a b"
    and "\<And>b c s. k b = Some (c, s) \<Longrightarrow> path env b c"
  shows "path env a a'"
proof -
  obtain b s where p: "p = Some (b, s)" using assms(1) by (auto simp: then_run_def split: option.splits)
  with assms show ?thesis by (cases s) (auto simp: then_run_def intro: path.further)
qed

lemma process_consensus_event_path:
  assumes "process_consensus_event env a ev = Some (a', r)"
  shows "path env a a'"
proof (cases "consensus_is_idle a")
  case False
  with assms have "then_run (process_events env a [ev]) (\<lambda>a. Some (publish_snapshot env a, Inr ())) = Some (a', r)"
    by (simp add: process_consensus_event_def)
  then show ?thesis
  proof (rule path_then_run)
    show "path env a b" if "process_events env a [ev] = Some (b, s)" for b s
      using process_events_path [OF that] by simp
  qed (auto simp: same_chain_def intro: path.stay)
qed (use assms in \<open>simp add: process_consensus_event_def\<close>)

lemma started_same [simp]: "same_chain a (a\<lparr>na_consensus_started := s\<rparr>)"
  by (simp add: same_chain_def)

lemma ensure_consensus_started_path:
  "ensure_consensus_started env a = Some (a', r) \<Longrightarrow> path env a a'"
  by (auto simp: ensure_consensus_started_def split: if_splits dest: process_consensus_event_path
      intro: path_after [OF started_same])

lemma admit_proposal_same: "admit_proposal env a sgnd b = (a', r) \<Longrightarrow> same_chain a a'"
  by (auto simp: admit_proposal_def Let_def same_chain_def
      split: if_splits option.splits sum.splits prod.splits dest: persist_proposal_blocks)

lemma handle_consensus_message_path:
  assumes "handle_consensus_message env a wire = Some (a', r)"
  shows "path env a a'"
proof (cases "consensus_is_idle a")
  case False
  obtain b s where b: "(case wire of WireProposal sgnd bk \<Rightarrow> admit_proposal env a sgnd bk
      | WireVote sgnd \<Rightarrow> (a, Inr (if v_height (sv_vote sgnd) \<noteq> ls_height (na_ledger a) + 1 then None
          else Some (MessageVote sgnd)))) = (b, s)"
    by fastforce
  then have same: "same_chain a b"
    by (auto split: consensus_wire.splits dest: admit_proposal_same)
  show ?thesis
  proof (cases "\<exists>m. s = Inr (Some m)")
    case True
    then obtain m where s: "s = Inr (Some m)" by blast
    obtain v h ph where act: "wire_activity wire = (v, h, ph)" by (cases "wire_activity wire") auto
    have "then_run (ensure_consensus_started env b) (\<lambda>a. then_run (process_consensus_event env a (Message m))
        (\<lambda>a. Some (note_validator_activity env v h ph a, Inr ()))) = Some (a', r)"
      using assms False unfolding handle_consensus_message_def b by (simp add: s act)
    then have "path env b a'"
      by (rule path_then_run)
        (auto elim!: path_then_run intro: ensure_consensus_started_path process_consensus_event_path path.stay
          simp: same_chain_def)
    with same show ?thesis by (rule path_after)
  next
    case unhandled: False
    have "b = a'"
      using assms False unhandled unfolding handle_consensus_message_def b
      by (auto split: sum.splits option.splits)
    with same show ?thesis by (simp add: path.stay)
  qed
qed (use assms in \<open>simp add: handle_consensus_message_def\<close>)

lemma resume_path:
  assumes "resume_interrupted_consensus env a = Some (a', r)"
  shows "path env a a'"
proof -
  let ?a = "a\<lparr>na_recovery_messages := [], na_recovery_broadcasts := []\<rparr>"
  have "then_run (Some (publish_wires env ?a (na_recovery_broadcasts a))) (\<lambda>a.
      process_consensus_event env (a\<lparr>na_consensus_started := True\<rparr>) Start) = Some (a', r)"
    using assms by (simp add: resume_interrupted_consensus_def Let_def)
  then have "path env ?a a'"
    by (rule path_then_run)
      (auto intro: path.stay path_after [OF started_same] dest: publish_wires_same process_consensus_event_path)
  then show ?thesis by (rule path_after [rotated]) (simp add: same_chain_def)
qed

section \<open>Status and synchronization\<close>

lemma accept_status_same: "accept_validator_status env a sgnd = (a', r) \<Longrightarrow> same_chain a a'"
  by (auto simp: accept_validator_status_def Let_def same_chain_def split: sum.splits)

lemma publish_status_same: "publish_validator_status env a = (a', r) \<Longrightarrow> same_chain a a'"
  by (auto simp: publish_validator_status_def Let_def st_then_def same_chain_def
      split: option.splits sum.splits prod.splits if_splits dest!: accept_status_same)

lemma network_request_same: "network_request a p request = (a', x) \<Longrightarrow> same_chain a a'"
  by (auto simp: network_request_def Let_def same_chain_def)

lemma request_blocks_same: "request_sync_blocks a p = (a', r) \<Longrightarrow> same_chain a a'"
  by (auto simp: request_sync_blocks_def Let_def same_chain_def
      split: if_splits option.splits prod.splits dest!: network_request_same)

lemma ensure_request_same: "ensure_active_sync_request a p = (a', r) \<Longrightarrow> same_chain a a'"
  by (auto simp: ensure_active_sync_request_def split: if_splits dest: request_blocks_same)

lemma sleep_same [simp]: "same_chain a (sleep d a)"
  by (simp add: sleep_def same_chain_def)

lemma same_chain_trans: "same_chain a b \<Longrightarrow> same_chain b c \<Longrightarrow> same_chain a c"
  by (simp add: same_chain_def)

lemma same_st_then:
  assumes "st_then p k = (a', r)" and "\<And>b s. p = (b, s) \<Longrightarrow> same_chain a b"
    and "\<And>b x c s. k b x = (c, s) \<Longrightarrow> same_chain b c"
  shows "same_chain a a'"
  using assms by (cases p; cases "snd p") (auto intro: same_chain_trans)

lemma begin_sync_same:
  assumes "begin_sync env a p target = (a', r)"
  shows "same_chain a a'"
proof (cases "na_halted a \<or> target \<le> ls_height (na_ledger a)")
  case False
  let ?a = "publish_snapshot env (a\<lparr>na_sync_target := Some (case na_sync_target a of None \<Rightarrow> target
    | Some known \<Rightarrow> max known target), na_consensus_started := False\<rparr>)"
  have "same_chain a ?a" using False by (simp add: same_chain_def)
  moreover have "st_then (publish_validator_status env ?a) (\<lambda>a _.
      let a = (if nc_role (na_config a) = Validator then sleep VALIDATOR_SYNC_ANNOUNCEMENT_WINDOW a else a)
      in if na_networked a then ensure_active_sync_request a p else (a, Inr ())) = (a', r)"
    using assms False by (simp add: begin_sync_def Let_def)
  then have "same_chain ?a a'"
    by (rule same_st_then)
      (auto simp: Let_def split: if_splits intro: publish_status_same ensure_request_same
        same_chain_trans [OF sleep_same])
  ultimately show ?thesis by (rule same_chain_trans)
qed (use assms in \<open>auto simp: begin_sync_def split: if_splits\<close>)

lemma finish_sync_same: "same_chain a (finish_sync_if_current env a)"
  by (simp add: finish_sync_if_current_def same_chain_def)

lemma halt_on_conflict_state:
  "na_halted (halt_on_conflict env a)" "na_sync_target (halt_on_conflict env a) = None"
  "na_ledger (halt_on_conflict env a) = na_ledger a" "na_store (halt_on_conflict env a) = na_store a"
  "na_chain_id (halt_on_conflict env a) = na_chain_id a"
  "na_validator_ids (halt_on_conflict env a) = na_validator_ids a"
  "na_mempool (halt_on_conflict env a) = na_mempool a"
  "na_mempool_ids (halt_on_conflict env a) = na_mempool_ids a"
  by (simp_all add: halt_on_conflict_def enter_halted_state_def Let_def split: option.splits)

lemma import_finalized_path:
  assumes "import_finalized env a b certificate source = (a', r)"
  shows "path env a a'"
proof (cases "\<not> na_halted a \<and> na_halted a'")
  case False
  with assms show ?thesis
    by (auto simp: import_finalized_def Let_def halt_on_conflict_state split: if_splits sum.splits option.splits
        elim!: path_st_then intro: path.stay path.commit finish_sync_same
        dest: begin_sync_same reset_consensus_same)
qed (use assms in \<open>blast intro: path.conflict\<close>)

lemma import_all_path: "import_all env a records = (a', r) \<Longrightarrow> path env a a'"
proof (induction env a records arbitrary: a' r rule: import_all.induct)
  case (2 env a b certificate records)
  from 2(2) have "st_then (import_finalized env a b certificate None) (\<lambda>a _. import_all env a records) = (a', r)"
    by simp
  then show ?case by (rule path_st_then) (auto intro: import_finalized_path 2(1))
qed simp

lemma continue_sync_same:
  assumes "continue_sync env a p h = (a', r)"
  shows "same_chain a a'"
proof (cases "ls_height (na_ledger a) \<le> h")
  case False
  with assms have "st_then (publish_validator_status env a) (\<lambda>a _.
        case na_sync_target a of
          None \<Rightarrow> (a, Inr ())
        | Some target \<Rightarrow>
          if ls_height (na_ledger a) < target
          then if na_networked a then request_sync_blocks a p else (a, Inr ())
          else (finish_sync_if_current env a, Inr ())) = (a', r)"
    by (simp add: continue_sync_def)
  then show ?thesis
    by (rule same_st_then)
      (auto split: if_splits option.splits intro: publish_status_same request_blocks_same simp: finish_sync_same)
qed (use assms in \<open>simp add: continue_sync_def\<close>)

lemma import_range_path:
  assumes run: "import_range env a p from_height records = (a', r)"
  shows "path env a a'"
proof (cases "records = []")
  case True
  with run have "same_chain a a'"
    by (auto simp: import_range_def Let_def same_chain_def network_request_def split: if_splits option.splits)
  then show ?thesis by (rule path.stay)
next
  case False
  with run show ?thesis
    by (auto simp: import_range_def Let_def split: sum.splits elim!: path_st_then
        intro: import_all_path path.stay [OF continue_sync_same])
qed

lemma handle_sync_response_path:
  "handle_sync_response env a p intent response = (a', r) \<Longrightarrow> path env a a'"
  by (auto simp: handle_sync_response_def split: sum.splits sync_request.splits sync_response.splits if_splits
      intro: import_range_path path.stay begin_sync_same)

lemma retry_same: "retry_sync_after_failure env a p rid = (a', r) \<Longrightarrow> same_chain a a'"
proof -
  assume run: "retry_sync_after_failure env a p rid = (a', r)"
  have "same_chain a (publish_snapshot env (a\<lparr>na_sync_peer := q, na_sync_request_id := None,
      na_sync_request_deadline := None\<rparr>))" for q
    by (simp add: same_chain_def)
  with run show ?thesis
    by (auto simp: retry_sync_after_failure_def Let_def split: if_splits option.splits
        dest!: request_blocks_same intro: same_chain_trans same_chain_trans [OF sleep_same])
qed

lemma retry_timed_out_same: "retry_timed_out_sync_request env a now = (a', r) \<Longrightarrow> same_chain a a'"
  by (auto simp: retry_timed_out_sync_request_def split: if_splits option.splits dest: retry_same)

section \<open>Commands\<close>

lemma produce_standalone_path: "produce_standalone env a = (a', r) \<Longrightarrow> path env a a'"
  by (auto simp: produce_standalone_def Let_def split: if_splits sum.splits intro: path.commit)

lemma produce_path: "produce env a = Some (a', r) \<Longrightarrow> path env a a'"
  by (auto simp: produce_def Let_def split: if_splits node_role.splits
      intro: produce_standalone_path ensure_consensus_started_path)

lemma publish_due_status_same: "publish_due_status env a = (a', r) \<Longrightarrow> same_chain a a'"
proof -
  have "same_chain a (a\<lparr>na_last_status_at := t\<rparr>)" for t by (simp add: same_chain_def)
  moreover assume "publish_due_status env a = (a', r)"
  ultimately show ?thesis
    by (auto simp: publish_due_status_def split: if_splits dest: publish_status_same intro: same_chain_trans)
qed

lemma tick_path:
  assumes "tick env a = Some (a', r)"
  shows "path env a a'"
  using assms unfolding tick_def
  by (rule path_then_run)
    (auto elim!: path_then_run split: if_splits intro: produce_path path.stay [OF retry_timed_out_same]
      path.stay [OF publish_due_status_same])

lemma respond_same: "respond_to_sync env a token request = (a', r) \<Longrightarrow> same_chain a a'"
  by (auto simp: respond_to_sync_def same_chain_def split: if_splits sum.splits)

lemmas fst_same =
  respond_same [OF prod.collapse [symmetric]] retry_same [OF prod.collapse [symmetric]]
  accept_status_same [OF prod.collapse [symmetric]] ensure_request_same [OF prod.collapse [symmetric]]
  network_request_same [OF prod.collapse [symmetric]]

lemma peers_same: "same_chain a (publish_snapshot env b) \<longleftrightarrow> same_chain a b"
  "same_chain a (a\<lparr>na_peers := q\<rparr>)"
  "same_chain (a\<lparr>na_peers := q\<rparr>) b \<Longrightarrow> same_chain a b"
  by (simp_all add: same_chain_def)

lemma peer_connected_same: "same_chain a (peer_connected env a p)"
  unfolding peer_connected_def Let_def
  by (auto simp: peers_same(1,2) intro: fst_same [THEN peers_same(3)])

lemma peer_disconnected_same: "same_chain a (peer_disconnected env a p)"
  unfolding peer_disconnected_def Let_def
  by (auto simp: peers_same(1,2) intro: fst_same [THEN peers_same(3)])

lemma sync_responded_path: "path env a (sync_responded env a p intent response)"
proof -
  obtain b r where b: "handle_sync_response env a p intent response = (b, r)" by fastforce
  have "path env b (fst (retry_sync_after_failure env b q x))" for q x
    by (rule path.stay, rule fst_same)
  with b handle_sync_response_path [OF b] show ?thesis
    by (auto simp: sync_responded_def split: sum.splits intro: path.further)
qed

theorem handle_command_path:
  assumes "handle_command env a command = Some a'"
  shows "path env a a'"
proof (cases command)
  case (Submit t gossip)
  obtain b r where b: "accept_transaction env a t gossip = (b, r)" by fastforce
  with assms Submit have "a' = emit [SubmitResult r] b" by (simp add: handle_command_def)
  with b show ?thesis by (auto intro: path_before path.submission simp: same_chain_def)
qed (use assms in \<open>auto simp: handle_command_def split: if_splits sync_request.splits
      intro: tick_path handle_consensus_message_path process_consensus_event_path
        import_finalized_path [OF prod.collapse [symmetric]] sync_responded_path
        path.stay [OF peer_connected_same] path.stay [OF peer_disconnected_same] fst_same [THEN path.stay]\<close>)

lemma at_time_same: "same_chain a (at_time now a)"
  by (simp add: at_time_def same_chain_def)

lemma run_commands_path: "run_commands env a commands = Some a' \<Longrightarrow> path env a a'"
proof (induction env a commands rule: run_commands.induct)
  case (2 env a now command commands)
  then show ?case
    by (auto split: if_splits bind_splits dest!: handle_command_path intro: path_after [OF at_time_same] path.further)
qed simp

text \<open>The halt of a node whose recovery fails when it starts to run.\<close>

definition fails_closed :: "'z actor_env_scheme \<Rightarrow> node_actor \<Rightarrow> node_actor \<Rightarrow> node_actor \<Rightarrow> bool" where
  "fails_closed env a b c \<longleftrightarrow> na_recovery_messages a \<noteq> [] \<and>
     (\<exists>e. resume_interrupted_consensus env a = Some (b, Inl e)) \<and> c = publish_snapshot env (enter_halted_state b)"

lemma run_prologue_path:
  assumes "run_prologue env a = Some c"
  shows "\<exists>b. path env a b \<and> (c = b \<or> fails_closed env a b c)"
  using assms
  by (auto simp: run_prologue_def fails_closed_def split: if_splits option.splits sum.splits dest: resume_path)

lemma run_path:
  assumes "run env a commands = Some a'"
  shows "\<exists>b c. path env a b \<and> (c = b \<or> fails_closed env a b c) \<and> path env c a'"
  using assms run_prologue_path [of env a] run_commands_path [of env _ commands a']
  by (auto simp: run_def split: bind_splits)

section \<open>When a node halts\<close>

lemma modes_kept:
  "commit_finalized env a b certificate g = (a', r) \<Longrightarrow> na_halted a' = na_halted a"
  "reset_consensus env a = (a', r) \<Longrightarrow> na_halted a' = na_halted a"
  "accept_validator_status env a sgnd = (a', r) \<Longrightarrow> na_halted a' = na_halted a"
  "request_sync_blocks a p = (a', r) \<Longrightarrow> na_halted a' = na_halted a"
  by (auto simp: commit_finalized_def reset_consensus_def accept_validator_status_def request_sync_blocks_def
      network_request_def Let_def split: prod.splits sum.splits option.splits if_splits)

lemma publish_status_halted: "publish_validator_status env a = (a', r) \<Longrightarrow> na_halted a' = na_halted a"
  by (auto simp: publish_validator_status_def st_then_def Let_def
      split: option.splits sum.splits prod.splits if_splits dest: modes_kept(3))

lemma begin_sync_halted: "begin_sync env a p target = (a', r) \<Longrightarrow> na_halted a' = na_halted a"
  by (auto simp: begin_sync_def st_then_def Let_def sleep_def ensure_active_sync_request_def
      split: sum.splits prod.splits if_splits dest!: publish_status_halted modes_kept(4))

lemma finish_sync_halted: "na_halted (finish_sync_if_current env a) = na_halted a"
  by (simp add: finish_sync_if_current_def)

lemma commit_import_halted:
  assumes "st_then (commit_finalized env a b certificate False) (\<lambda>a _.
      st_then (reset_consensus env a) (\<lambda>a _. (finish_sync_if_current env a, Inr ()))) = (a', r)"
  shows "na_halted a' = na_halted a"
  using assms
  by (auto simp: st_then_def finish_sync_halted split: prod.splits sum.splits dest!: modes_kept(1,2))

lemma import_halts:
  assumes "import_finalized env a b certificate source = (a', r)" and "\<not> na_halted a" and "na_halted a'"
  obtains row existing where "certificate_verify_for_block env certificate b (na_validator_ids a) = Inr ()"
    "bt_get (db_blocks (na_store a)) (bh_height (bk_header b)) = Some row"
    "block_decode env (br_block_bytes row) = Inr existing" "block_hash env b \<noteq> block_hash env existing"
    "a' = halt_on_conflict env a"
proof (cases "bh_chain_id (bk_header b) = na_chain_id a \<and> cc_chain_id certificate = na_chain_id a \<and>
    validate_commitments env b = Inr () \<and>
    certificate_verify_for_block env certificate b (na_validator_ids a) = Inr ()")
  case False
  with assms have "a' = a" by (auto simp: import_finalized_def Let_def split: if_splits sum.splits)
  with assms(2,3) show thesis by simp
next
  case checked: True
  show thesis
  proof (cases "bh_height (bk_header b) \<le> ls_height (na_ledger a)")
    case True
    with checked assms(1,2) have c: "(case block_by_height (na_store a) (bh_height (bk_header b)) of
        Inl e \<Rightarrow> (a, Inl (NodeStorage e))
      | Inr None \<Rightarrow> (a, Inl (NodeBail ''local finalized height is missing from storage''))
      | Inr (Some existing) \<Rightarrow>
        case block_decode env (br_block_bytes existing) of
          Inl e \<Rightarrow> (a, Inl (NodeValidation e))
        | Inr canonical_existing \<Rightarrow>
          if block_hash env b \<noteq> block_hash env canonical_existing
          then (halt_on_conflict env a, Inl (NodeBail ''conflicting certified block''))
          else (a, Inr ())) = (a', r)"
      by (simp add: import_finalized_def Let_def)
    obtain row where row: "block_by_height (na_store a) (bh_height (bk_header b)) = Inr (Some row)"
      using c assms(2,3) by (auto split: sum.splits option.splits)
    moreover obtain existing where existing: "block_decode env (br_block_bytes row) = Inr existing"
      using c row assms(2,3) by (auto split: sum.splits)
    moreover have "block_hash env b \<noteq> block_hash env existing \<and> a' = halt_on_conflict env a"
      using c row existing assms(2,3) by (auto split: if_splits)
    ultimately show thesis
      using checked by (intro that [of row existing]) (auto simp: block_by_height_def result_simps)
  next
    case False
    with checked assms(1,2) have "na_halted a' = na_halted a"
      by (auto simp: import_finalized_def Let_def split: if_splits option.splits
          dest: begin_sync_halted commit_import_halted)
    with assms(2,3) show thesis by simp
  qed
qed

text \<open>Halting along a path: the one import that halts the node, and that a halted node does not synchronize.\<close>

lemma path_halts:
  assumes "path env a a'" and "\<not> na_halted a" and "na_halted a'"
  shows "\<exists>c b certificate source c' r. path env a c \<and> \<not> na_halted c \<and>
    import_finalized env c b certificate source = (c', r) \<and> na_halted c' \<and> path env c' a'"
  using assms
proof induction
  case (stay a a')
  then show ?case by (simp add: same_chain_def)
next
  case (submission a t gossip a' r)
  then show ?case
    by (auto simp: accept_transaction_def Let_def split: if_splits option.splits sum.splits)
next
  case (commit a b certificate gossip a' r)
  with modes_kept(1) [OF commit(1)] show ?case by simp
next
  case (conflict a b certificate source a' r)
  then show ?case using path_refl by blast
next
  case (further a b c)
  show ?case
  proof (cases "na_halted b")
    case True
    with further.IH(1) further.prems(1) further.hyps(2) show ?thesis by (blast intro: path.further)
  next
    case False
    with further.IH(2) further.prems(2) further.hyps(1) show ?thesis by (blast intro: path.further)
  qed
qed

lemma path_halted_idle:
  assumes "path env a a'" and "na_halted a \<longrightarrow> na_sync_target a = None"
  shows "na_halted a' \<longrightarrow> na_sync_target a' = None"
  using assms
proof induction
  case (stay a a')
  then show ?case by (simp add: same_chain_def)
next
  case (submission a t gossip a' r)
  then show ?case
    by (auto simp: accept_transaction_def Let_def split: if_splits option.splits sum.splits)
next
  case (commit a b certificate gossip a' r)
  have "na_sync_target a' = na_sync_target a"
    using commit(1) by (auto simp: commit_finalized_def Let_def split: prod.splits sum.splits option.splits if_splits)
  with commit modes_kept(1) [OF commit(1)] show ?case by simp
next
  case (conflict a b certificate source a' r)
  from import_halts [OF conflict.hyps] show ?case by (metis halt_on_conflict_state(2))
qed blast

end
