(* ===== verification/NodeRuns.thy ===== *)
theory NodeRuns
  imports NodePath NodeTermination
begin

text \<open>
  Facts about whole runs of a node, from the start on a store to any state it reaches by
  any commands at any times.
\<close>

section \<open>Every run returns\<close>

lemma then_run_Some [simp]: "then_run (Some p) k = (case p of (a, Inl e) \<Rightarrow> Some (a, Inl e) | (a, Inr _) \<Rightarrow> k a)"
  by (simp add: then_run_def)

lemma tick_returns: "tick env a \<noteq> None"
  by (simp add: tick_def produce_def Let_def ensure_consensus_started_returns
      split: prod.splits sum.splits node_role.splits del: not_None_eq)

lemma handle_command_returns: "handle_command env a command \<noteq> None"
  by (simp add: handle_command_def tick_returns handle_consensus_message_returns process_consensus_event_returns
      split: command.splits prod.splits sync_request.splits del: not_None_eq)

lemma run_commands_returns: "run_commands env a commands \<noteq> None"
proof (induction env a commands rule: run_commands.induct)
  case (2 env a now command commands)
  then show ?case
    using handle_command_returns [of env "at_time now a" command]
    by (auto simp del: not_None_eq split: bind_splits)
qed simp

lemma run_returns: "run env a commands \<noteq> None"
proof -
  have "run_prologue env a \<noteq> None"
    using resume_interrupted_consensus_returns [of env a]
    by (auto simp: run_prologue_def split: option.splits sum.splits prod.splits)
  then show ?thesis using run_commands_returns by (auto simp: run_def split: bind_splits)
qed

section \<open>The invariant of a run\<close>

lemma path_keeps:
  assumes "path env a a'"
  shows "na_validator_ids a' = na_validator_ids a \<and> na_chain_id a' = na_chain_id a \<and>
    (mempool_ok env a \<longrightarrow> mempool_ok env a') \<and>
    (\<forall>records. backed env a records \<longrightarrow> (\<exists>new. backed env a' (records @ new) \<and>
       prefix (canonical_block_rows (na_store a)) (canonical_block_rows (na_store a'))))"
  using assms
proof induction
  case (stay a a')
  then show ?case
    by (auto simp: same_chain_def mempool_ok_def backed_def stored_records_def canonical_block_rows_def
        intro!: exI [of _ "[]"])
next
  case (submission a t gossip a' r)
  from submission have "na_validator_ids a' = na_validator_ids a \<and> na_chain_id a' = na_chain_id a \<and>
      na_store a' = na_store a \<and> na_ledger a' = na_ledger a"
    by (auto simp: accept_transaction_def Let_def split: if_splits option.splits sum.splits)
  with accept_transaction_keeps [OF _ submission] show ?case
    by (auto simp: backed_def intro!: exI [of _ "[]"])
next
  case (commit a b certificate gossip a' r)
  have ids: "na_validator_ids a' = na_validator_ids a \<and> na_chain_id a' = na_chain_id a"
    using commit by (auto simp: commit_finalized_def Let_def split: prod.splits sum.splits option.splits if_splits)
  have "\<exists>new. backed env a' (records @ new) \<and>
      prefix (canonical_block_rows (na_store a)) (canonical_block_rows (na_store a'))"
    if "backed env a records" for records
    using commit
  proof (cases rule: commit_finalized_cases)
    case (refused e)
    with that ids show ?thesis by (auto simp: backed_def intro!: exI [of _ "[]"])
  next
    case (committed ledger' receipts projection db)
    with that ids records_extend [OF _ _ committed(1-3)] show ?thesis
      by (auto simp: backed_def intro!: exI [of _ "[(b, certificate)]"])
  qed
  with ids commit_finalized_keeps [OF _ commit] show ?case by blast
next
  case (conflict a b certificate source a' r)
  then have "a' = halt_on_conflict env a" using import_halts [OF conflict] by metis
  then show ?case
    by (auto simp: halt_on_conflict_state mempool_ok_def backed_def intro!: exI [of _ "[]"])
next
  case (further a b c)
  have "\<exists>new. backed env c (records @ new) \<and> prefix (canonical_block_rows (na_store a)) (canonical_block_rows (na_store c))"
    if r: "backed env a records" for records
  proof -
    from r further.IH(1) obtain n1 where "backed env b (records @ n1)"
      "prefix (canonical_block_rows (na_store a)) (canonical_block_rows (na_store b))" by blast
    moreover from this(1) further.IH(2) obtain n2 where "backed env c ((records @ n1) @ n2)"
      "prefix (canonical_block_rows (na_store b)) (canonical_block_rows (na_store c))" by blast
    ultimately show ?thesis by (auto intro: prefix_order.trans)
  qed
  with further.IH show ?case by simp
qed

text \<open>A recovery that fails at the start of a run halts the node and changes nothing else of this.\<close>

lemma fails_closed_keeps:
  assumes "fails_closed env a b c"
  shows "na_halted c" "na_sync_target c = None" "na_ledger c = na_ledger b" "na_store c = na_store b"
    "na_chain_id c = na_chain_id b" "na_validator_ids c = na_validator_ids b" "na_mempool c = na_mempool b"
    "na_mempool_ids c = na_mempool_ids b"
  using assms by (auto simp: fails_closed_def enter_halted_state_def)

lemma run_keeps:
  assumes "run env a commands = Some a'"
  shows "na_validator_ids a' = na_validator_ids a \<and> na_chain_id a' = na_chain_id a \<and>
    (mempool_ok env a \<longrightarrow> mempool_ok env a') \<and>
    (\<forall>records. backed env a records \<longrightarrow> (\<exists>new. backed env a' (records @ new) \<and>
       prefix (canonical_block_rows (na_store a)) (canonical_block_rows (na_store a'))))"
proof -
  obtain b c where p: "path env a b" "c = b \<or> fails_closed env a b c" "path env c a'"
    using run_path [OF assms] by blast
  have "na_validator_ids c = na_validator_ids b \<and> na_chain_id c = na_chain_id b \<and>
      (mempool_ok env b \<longrightarrow> mempool_ok env c) \<and>
      (\<forall>records. backed env b records \<longrightarrow> backed env c records) \<and> na_store c = na_store b"
    using p(2) fails_closed_keeps [of env a b c] by (auto simp: mempool_ok_def backed_def)
  note mid = this path_keeps [OF p(1)] path_keeps [OF p(3)]
  have "\<exists>new. backed env a' (records @ new) \<and> prefix (canonical_block_rows (na_store a)) (canonical_block_rows (na_store a'))"
    if r: "backed env a records" for records
  proof -
    from r mid obtain n1 where "backed env c (records @ n1)"
      "prefix (canonical_block_rows (na_store a)) (canonical_block_rows (na_store c))" by metis
    moreover from this(1) mid obtain n2 where "backed env a' ((records @ n1) @ n2)"
      "prefix (canonical_block_rows (na_store c)) (canonical_block_rows (na_store a'))" by blast
    ultimately show ?thesis by (auto intro: prefix_order.trans)
  qed
  with mid show ?thesis by simp
qed

text \<open>The start of a node, field by field.\<close>

lemma start_node_ok:
  assumes "start_node env config db network clock_ms instant = Inr a"
  shows "na_chain_id a = ChainId (nc_chain_id config)" and "na_store a = db"
    and "na_validator_ids a = dev_validator_ids env" and "na_mempool a = []" and "na_mempool_ids a = []"
    and "\<not> na_halted a" and "na_sync_target a = None"
    and "replay_on_start env db (ChainId (nc_chain_id config)) = Inr (na_ledger a)"
  using assms by (auto simp: start_node_def result_simps initial_actor_def Let_def split: if_splits)

lemma start_node_backed:
  assumes "store_wf db" and "verify_store env db (ChainId (nc_chain_id config)) = Inr report"
    and "start_node env config db network clock_ms instant = Inr a"
  shows "\<exists>records. backed env a records" and "mempool_ok env a"
proof -
  note S = start_node_ok [OF assms(3)]
  from assms(1,2) obtain ledger where hist: "history_holds env db (ChainId (nc_chain_id config)) ledger"
    by (auto simp: verify_store_def history_holds_def store_wf_def result_simps)
  with history_starts [OF this] S(8) have "ledger = na_ledger a" by simp
  with history_records [OF hist] S obtain records where rec: "backed env a records" by (auto simp: backed_def)
  then show "\<exists>records. backed env a records" by blast
  from rec have "ledger_wf (na_ledger a)"
    by (auto simp: backed_def replay_finalized_blocks_def replay_finalized_blocks_from
        intro: replay_wf ledger_wf_new)
  with S show "mempool_ok env a" by (simp add: mempool_ok_def)
qed

section \<open>Importing the next block\<close>

lemma commit_backs:
  assumes "backed env a records" and "commit_finalized env a b certificate g = (a', r)"
    and "na_ledger a' \<noteq> na_ledger a"
  shows "backed env a' (records @ [(b, certificate)])"
  using assms(2)
proof (cases rule: commit_finalized_cases)
  case (committed ledger' receipts projection db)
  have ids: "na_validator_ids a' = na_validator_ids a" "na_chain_id a' = na_chain_id a"
    using path_keeps [OF path.commit [OF assms(2)]] by simp_all
  have "stored_records env (na_store a) records"
    "replay_finalized_blocks env (na_chain_id a) records (na_validator_ids a) = Inr (na_ledger a)"
    using assms(1) by (simp_all add: backed_def)
  from records_extend [OF this committed(1-3)] ids committed(4,5) show ?thesis by (simp add: backed_def)
qed (use assms(3) in simp)

lemma commit_without_gossip:
  assumes "apply_finalized_block env (na_ledger a) b certificate (na_validator_ids a) = (s, Inr receipts)"
    and "build_projection env (na_store a) s b certificate receipts = Inr projection"
    and "persist_finalized (na_store a) projection = (db, Inr ())"
  shows "\<exists>a'. commit_finalized env a b certificate False = (a', Inr ()) \<and> na_ledger a' = s \<and> na_store a' = db"
  using assms by (simp add: commit_finalized_def Let_def)

text \<open>What an import of the next block does when it succeeds.\<close>

lemma import_next_ok:
  assumes "import_finalized env a b certificate source = (a', Inr ())"
    and "bh_height (bk_header b) = ls_height (na_ledger a) + 1" and "ls_height (na_ledger a) < bh_height (bk_header b)"
  obtains a1 where "commit_finalized env a b certificate False = (a1, Inr ())" "same_chain a1 a'"
proof -
  have "st_then (commit_finalized env a b certificate False) (\<lambda>a _.
      st_then (reset_consensus env a) (\<lambda>a _. (finish_sync_if_current env a, Inr ()))) = (a', Inr ())"
    using assms by (simp add: import_finalized_def Let_def not_le split: if_splits sum.splits)
  then obtain a1 a2 where c: "commit_finalized env a b certificate False = (a1, Inr ())"
    "reset_consensus env a1 = (a2, Inr ())" "a' = finish_sync_if_current env a2"
    by (auto simp: result_simps)
  then have "same_chain a1 a'"
    by (simp add: same_chain_trans [OF reset_consensus_same finish_sync_same])
  with c(1) show thesis by (rule that)
qed

text \<open>An import that can be committed is committed, whatever becomes of the rest.\<close>

lemma import_commits_block:
  assumes "apply_finalized_block env (na_ledger a) b certificate (na_validator_ids a) = (s, Inr receipts)"
    and "build_projection env (na_store a) s b certificate receipts = Inr projection"
    and "persist_finalized (na_store a) projection = (db, Inr ())"
    and "\<not> na_halted a" and "na_chain_id a = bh_chain_id (bk_header b)"
  obtains a1 where "na_ledger a1 = s" "na_store a1 = db"
    "same_chain a1 (fst (import_finalized env a b certificate source))"
proof -
  obtain a1 where c: "commit_finalized env a b certificate False = (a1, Inr ())" "na_ledger a1 = s" "na_store a1 = db"
    using commit_without_gossip [OF assms(1-3)] by blast
  obtain a2 r where reset: "reset_consensus env a1 = (a2, r)" by fastforce
  have v: "validate_commitments env b = Inr ()" "certificate_verify_for_block env certificate b (na_validator_ids a) = Inr ()"
    "bh_height (bk_header b) = ls_height (na_ledger a) + 1" "ls_height (na_ledger a) < bh_height (bk_header b)"
    using assms(1) apply_finalized_height [OF assms(1)]
    by (auto simp: apply_finalized_block_ok apply_block_ok word_less_nat_alt)
  have "cc_chain_id certificate = na_chain_id a" using v(2) assms(5) by (simp add: certificate_verify_for_block_ok)
  with v assms(4,5) c(1) reset
  have "fst (import_finalized env a b certificate source) = a2 \<or>
      fst (import_finalized env a b certificate source) = finish_sync_if_current env a2"
    by (cases r) (auto simp: import_finalized_def Let_def)
  moreover have "same_chain a1 a2" "same_chain a2 (finish_sync_if_current env a2)"
    using reset finish_sync_same by (auto intro: reset_consensus_same)
  ultimately have "same_chain a1 (fst (import_finalized env a b certificate source))"
    by (auto intro: same_chain_trans)
  with c(2,3) show thesis by (rule that)
qed

lemma import_commits:
  assumes "apply_finalized_block env (na_ledger a) b certificate (na_validator_ids a) = (s, Inr receipts)"
    and "build_projection env (na_store a) s b certificate receipts = Inr projection"
    and "persist_finalized (na_store a) projection = (db, Inr ())"
    and "\<not> na_halted a" and "na_chain_id a = bh_chain_id (bk_header b)"
  shows "na_ledger (fst (import_finalized env a b certificate source)) = s"
  using import_commits_block [OF assms] by (metis same_chain_def)

end
