(* ===== verification/NodeSyncFacts.thy ===== *)
theory NodeSyncFacts
  imports NodeRuns
begin

text \<open>
  Halting and synchronization: what a halted node still does, what evidence two certificates
  are, what a range of imported blocks does to its ledger, and what a node serves to its peers.
\<close>

section \<open>A halted node\<close>

text \<open>
  What a halted node in state \<open>a\<close> still sends: answers to what peers ask of its chain, as that
  state gives them, its status with the phase \<open>halted\<close>, requests for the status of a peer,
  refusals of transactions, and local events.
\<close>

fun halted_output :: "'z actor_env_scheme \<Rightarrow> node_actor \<Rightarrow> node_output \<Rightarrow> bool" where
  "halted_output env a (SendSyncResponse _ response) \<longleftrightarrow> (\<exists>request. sync_response_for env a request = Inr response)"
| "halted_output env a (SendStatus sgnd) \<longleftrightarrow> sm_phase (ss_status sgnd) = str ''halted''"
| "halted_output env a (SendSyncRequest _ _ request) \<longleftrightarrow> request = SyncStatus"
| "halted_output env a (SubmitResult result) \<longleftrightarrow> result = Inl Malformed"
| "halted_output env a (SendEvent _ _) \<longleftrightarrow> True"
| "halted_output env a _ \<longleftrightarrow> False"

definition frozen_step :: "'z actor_env_scheme \<Rightarrow> node_actor \<Rightarrow> node_actor \<Rightarrow> bool" where
  "frozen_step env a a' \<longleftrightarrow>
     na_halted a \<and> na_sync_target a = None \<and>
     na_halted a' \<and> na_sync_target a' = None \<and> na_ledger a' = na_ledger a \<and> na_store a' = na_store a \<and>
     na_mempool a' = na_mempool a \<and> na_consensus a' = na_consensus a \<and>
     (\<exists>out. na_outputs a' = na_outputs a @ out \<and> list_all (halted_output env a) out)"

lemma frozen_refl: "na_halted a \<Longrightarrow> na_sync_target a = None \<Longrightarrow> frozen_step env a a"
  by (simp add: frozen_step_def)

lemma halted_output_frame:
  assumes "na_ledger b = na_ledger a" "na_store b = na_store a" "na_sync_target b = na_sync_target a"
  shows "halted_output env b out \<longleftrightarrow> halted_output env a out"
proof -
  have "sync_response_for env b = sync_response_for env a"
    using assms by (intro ext) (simp add: sync_response_for_def cong: sync_request.case_cong)
  then show ?thesis by (cases out) simp_all
qed

lemma frozen_trans:
  assumes "frozen_step env a b" "frozen_step env b c"
  shows "frozen_step env a c"
proof -
  have "halted_output env b = halted_output env a"
    using assms(1) by (intro ext halted_output_frame) (simp_all add: frozen_step_def)
  with assms show ?thesis by (force simp: frozen_step_def)
qed

lemma outputs_frame [simp]:
  "na_outputs (emit out a) = na_outputs a @ out"
  "na_outputs (publish_snapshot env a) =
     na_outputs a @ [SendEvent ''validator_status'' (u64_to_string (ls_height (na_ledger a)))]"
  by (simp_all add: emit_def publish_snapshot_def)

lemma frozen_accept_status:
  assumes halted: "na_halted a" and idle: "na_sync_target a = None"
  shows "frozen_step env a (fst (accept_validator_status env a sgnd))"
  using halted idle by (auto simp: accept_validator_status_def Let_def frozen_step_def split: sum.splits)

lemma frozen_publish_status:
  assumes halted: "na_halted a" and idle: "na_sync_target a = None"
  shows "frozen_step env a (fst (publish_validator_status env a))"
proof (cases "na_local_validator_key a")
  case (Some key)
  have "sm_phase (own_status env a key) = str ''halted''"
    using halted idle by (simp add: own_status_def split: prod.split)
  then have "frozen_step env a (emit [SendStatus sgnd] b)"
    if "frozen_step env a b" "ss_status sgnd = own_status env a key" for b sgnd
    using that by (auto simp: frozen_step_def)
  moreover have "frozen_step env a b" if "accept_validator_status env a sgnd = (b, r)" for sgnd b r
    using frozen_accept_status [OF assms, of env sgnd] that by simp
  ultimately show ?thesis
    using Some halted idle
    by (auto simp: publish_validator_status_def Let_def st_then_def
        split: sum.splits prod.splits option.splits intro: frozen_refl)
qed (use halted idle in \<open>simp add: publish_validator_status_def frozen_refl\<close>)

lemma halted_requests:
  assumes halted: "na_halted a" and idle: "na_sync_target a = None"
  shows "retry_sync_after_failure env a p rid = (a, Inr ())"
    and "retry_timed_out_sync_request env a now = (a, Inr ())"
    and "consensus_is_idle a"
    and "fst (import_finalized env a b certificate source) = a"
  using halted idle
  by (simp_all add: retry_sync_after_failure_def retry_timed_out_sync_request_def consensus_is_idle_def
      import_finalized_def)

lemma halted_sync_response:
  assumes halted: "na_halted a" and idle: "na_sync_target a = None"
  shows "fst (handle_sync_response env a p intent response) = a"
proof (cases "si_request intent")
  case (SyncBlocks from_height limit)
  with idle show ?thesis
    by (cases "p = si_peer intent") (simp_all add: handle_sync_response_def validate_sync_response_intent_def)
next
  case SyncStatus
  have "begin_sync env a p height = (a, Inl (NodeBail ''halted node refuses to enter synchronization''))" for height
    using halted by (simp add: begin_sync_def)
  with SyncStatus show ?thesis
    by (cases response) (simp_all add: handle_sync_response_def split: sum.split)
qed

lemma frozen_tick:
  assumes "na_halted a" and "na_sync_target a = None" and "tick env a = Some (a', r)"
  shows "frozen_step env a a'"
proof -
  let ?b = "a\<lparr>na_last_status_at := na_instant a\<rparr>"
  have b: "frozen_step env a ?b" using assms(1,2) by (simp add: frozen_step_def)
  obtain c s where due: "publish_due_status env a = (c, s)" by fastforce
  have c: "frozen_step env a c"
  proof (cases "elapsed a (na_last_status_at a) \<ge> from_millis 1000")
    case True
    with due frozen_publish_status [of ?b env] assms(1,2) have "frozen_step env ?b c"
      by (simp add: publish_due_status_def)
    with b show ?thesis by (rule frozen_trans)
  qed (use due assms(1,2) in \<open>simp add: publish_due_status_def frozen_refl\<close>)
  then have "na_halted c" by (simp add: frozen_step_def)
  with assms(3) due halted_requests(2) [OF assms(1,2), of env "na_instant a"] have "a' = c"
    by (auto simp: tick_def split: sum.splits)
  with c show ?thesis by simp
qed

lemma frozen_command:
  assumes "na_halted a" and "na_sync_target a = None" and "handle_command env a command = Some a'"
  shows "frozen_step env a a'"
proof -
  note H = halted_requests(1,2,4) [OF assms(1,2), of env] halted_requests(3) [OF assms(1,2)]
  note F = frozen_refl [OF assms(1,2)]
  show ?thesis
  proof (cases command)
    case (Submit t gossip)
    have "accept_transaction env a t gossip = (a, Inl Malformed)"
      using assms(1) by (simp add: accept_transaction_def)
    with assms Submit show ?thesis by (auto simp: handle_command_def frozen_step_def)
  next
    case Tick
    with assms frozen_tick [OF assms(1,2)] show ?thesis by (auto simp: handle_command_def)
  next
    case (PeerConnected p)
    with assms show ?thesis
      by (auto simp: handle_command_def peer_connected_def Let_def network_request_def frozen_step_def)
  next
    case (PeerDisconnected p)
    let ?b = "a\<lparr>na_peers := removeAll p (na_peers a)\<rparr>"
    have "fst (retry_sync_after_failure env ?b p None) = ?b"
      using halted_requests(1) [of ?b env p None] assms(1,2) by simp
    with assms PeerDisconnected show ?thesis
      by (auto simp: handle_command_def peer_disconnected_def Let_def frozen_step_def)
  next
    case (SyncRequested token request)
    with assms F show ?thesis
      by (auto simp: handle_command_def respond_to_sync_def frozen_step_def split: sum.splits)
  next
    case (SyncResponded p intent response)
    have "fst (handle_sync_response env a p intent response) = a"
      using assms(1,2) by (rule halted_sync_response)
    then have "sync_responded env a p intent response = a"
      using H(1) by (auto simp: sync_responded_def split: prod.splits sum.splits)
    with assms SyncResponded F show ?thesis by (simp add: handle_command_def)
  next
    case (ValidatorStatus sgnd)
    with assms frozen_accept_status [OF assms(1,2)] show ?thesis by (auto simp: handle_command_def)
  qed (use assms H F in \<open>auto simp: handle_command_def handle_consensus_message_def process_consensus_event_def
        split: sync_request.splits if_splits\<close>)
qed

lemma frozen_run:
  "na_halted a \<Longrightarrow> na_sync_target a = None \<Longrightarrow> run_commands env a commands = Some a' \<Longrightarrow> frozen_step env a a'"
proof (induction env a commands rule: run_commands.induct)
  case (2 env a now command commands)
  show ?case
  proof (cases "command = Shutdown")
    case False
    let ?a = "at_time now a"
    from 2(4) False obtain b where b: "handle_command env ?a command = Some b" "run_commands env b commands = Some a'"
      by (auto split: bind_splits)
    have t: "frozen_step env a ?a" using 2(2,3) by (simp add: at_time_def frozen_step_def)
    then have "na_halted ?a" "na_sync_target ?a = None" by (simp_all add: frozen_step_def)
    from frozen_command [OF this b(1)] have "frozen_step env ?a b" .
    with t have ab: "frozen_step env a b" by (rule frozen_trans)
    then have "na_halted b" "na_sync_target b = None" by (simp_all add: frozen_step_def)
    from 2(1) [OF False b(1) this b(2)] show ?thesis using ab by (rule frozen_trans [rotated])
  qed (use 2 in \<open>simp add: frozen_refl\<close>)
qed (simp add: frozen_refl)

section \<open>Evidence\<close>

text \<open>Two certificates for one height and their signers.\<close>

lemma certificates_overlap:
  assumes "certificate_verify env c1 vs = Inr ()" and "certificate_verify env c2 vs = Inr ()"
  shows "max_faults vs < card (set (certificate_signers c1) \<inter> set (certificate_signers c2))"
  using assms by (intro bft.quorum_card_Int certificate_verify_quorum)

lemma replay_finalized_members:
  "replay_finalized_from env s records vs = Inr s' \<Longrightarrow> (b, certificate) \<in> set records \<Longrightarrow>
     \<exists>s1 s2 rs. apply_finalized_block env s1 b certificate vs = (s2, Inr rs)"
  by (induction env s records vs rule: replay_finalized_from.induct) (auto split: prod.splits sum.splits)

lemma backed_row:
  assumes "backed env a records" and "bt_get (db_blocks (na_store a)) h = Some row"
  obtains b certificate where "(b, certificate) \<in> set records" "row_agrees env row b certificate"
    "bh_height (bk_header b) = h"
proof -
  have "(h, row) \<in> set (db_blocks (na_store a))" using assms(2) by (rule bt_get_in_set)
  then have "row \<in> set (canonical_block_rows (na_store a))"
    by (force simp: canonical_block_rows_def bt_values_def)
  then obtain i where i: "i < length (canonical_block_rows (na_store a))" "canonical_block_rows (na_store a) ! i = row"
    by (auto simp: in_set_conv_nth)
  obtain b certificate where r: "records ! i = (b, certificate)" by fastforce
  have l: "list_all2 (\<lambda>row (b, certificate). row_agrees env row b certificate) (canonical_block_rows (na_store a)) records"
    using assms(1) by (simp add: backed_def stored_records_def)
  have agrees: "row_agrees env row b certificate" using list_all2_nthD [OF l i(1)] i(2) r by simp
  moreover have "(b, certificate) \<in> set records"
    using i(1) r list_all2_lengthD [OF l] by (metis nth_mem)
  moreover have "br_height row = h"
    using assms by (simp add: backed_def stored_records_def blocks_wf_def)
  with agrees have "bh_height (bk_header b) = h" by (simp add: row_agrees_def Let_def)
  ultimately show thesis by (intro that)
qed

section \<open>Importing a range\<close>

lemma check_heights_ok:
  assumes "check_heights first_expected (enumerate k records) = Inr ()" and "k + length records < 2 ^ 64"
  shows "map (\<lambda>(b, _). unat (bh_height (bk_header b))) records = map (\<lambda>i. unat first_expected + k + i) [0..<length records]"
  using assms
proof (induction records arbitrary: k)
  case (Cons x records)
  have k: "unat (of_nat k :: u64) = k" using Cons.prems(2) by (simp add: unat_of_nat take_bit_nat_eq_self)
  with Cons.prems(1) have "unat (bh_height (bk_header (fst x))) = unat first_expected + k"
    by (auto simp: arith_simps unat_add_less split: option.splits if_splits)
  moreover have "check_heights first_expected (enumerate (Suc k) records) = Inr ()"
    using Cons.prems(1) by (auto split: option.splits if_splits)
  with Cons.IH [of "Suc k"] Cons.prems(2)
  have "map (\<lambda>(b, _). unat (bh_height (bk_header b))) records =
      map (\<lambda>i. unat first_expected + Suc k + i) [0..<length records]" by simp
  ultimately show ?case
    by (cases x) (simp add: upt_conv_Cons map_Suc_upt [symmetric] del: upt_Suc)
qed simp

lemma import_all_ok:
  assumes "import_all env a records = (a', Inr ())"
    and "map (\<lambda>(b, _). unat (bh_height (bk_header b))) records =
      map (\<lambda>i. unat (ls_height (na_ledger a)) + 1 + i) [0..<length records]"
  shows "replay_finalized_from env (na_ledger a) records (na_validator_ids a) = Inr (na_ledger a')"
  using assms
proof (induction env a records arbitrary: a' rule: import_all.induct)
  case (2 env a b certificate records)
  from 2(2) obtain a2 where i: "import_finalized env a b certificate None = (a2, Inr ())"
    "import_all env a2 records = (a', Inr ())" by (auto simp: result_simps)
  have h: "unat (bh_height (bk_header b)) = unat (ls_height (na_ledger a)) + 1"
    "map (\<lambda>(b, _). unat (bh_height (bk_header b))) records =
      map (\<lambda>i. unat (ls_height (na_ledger a)) + 2 + i) [0..<length records]"
    using 2(3) by (simp_all add: upt_conv_Cons map_Suc_upt [symmetric] del: upt_Suc)
  then have lt: "ls_height (na_ledger a) < bh_height (bk_header b)" by (simp add: word_less_nat_alt)
  have "bh_height (bk_header b) = ls_height (na_ledger a) + 1"
    using h(1) unat_lt2p [of "bh_height (bk_header b)"] by (intro word_unat_eq_iff [THEN iffD2]) (simp add: unat_add_less)
  from import_next_ok [OF i(1) this lt] obtain a1 where
    c: "commit_finalized env a b certificate False = (a1, Inr ())" "same_chain a1 a2" by blast
  from c(1) obtain receipts where ap:
    "apply_finalized_block env (na_ledger a) b certificate (na_validator_ids a) = (na_ledger a1, Inr receipts)"
    by (cases rule: commit_finalized_cases) auto
  have "na_validator_ids a1 = na_validator_ids a" using path_keeps [OF path.commit [OF c(1)]] by simp
  with c(2) have same: "na_ledger a2 = na_ledger a1" "na_validator_ids a2 = na_validator_ids a"
    by (simp_all add: same_chain_def)
  have "unat (ls_height (na_ledger a2)) = unat (ls_height (na_ledger a)) + 1"
    using apply_finalized_height [OF ap] same by simp
  with h(2) 2(1) [OF i(2)] same ap show ?case by simp
qed simp

text \<open>A successful answer to a request for blocks.\<close>

lemma range_response_ok:
  assumes run: "handle_sync_response env a p intent (RespondBlocks xs) = (a', Inr ())" and "xs \<noteq> []"
  shows "\<exists>records. collect_results (\<lambda>x. ok_or (borsh_record_parse env x) NodeSerialization) xs = Inr records \<and>
     replay_finalized_from env (na_ledger a) records (na_validator_ids a) = Inr (na_ledger a')"
proof -
  obtain from_height limit where req: "si_request intent = SyncBlocks from_height limit"
    using run by (cases "si_request intent")
      (auto simp: handle_sync_response_def validate_sync_response_intent_def split: if_splits)
  have valid: "from_height = ls_height (na_ledger a) + 1" "length xs \<le> unat limit"
    "unat (ls_height (na_ledger a)) + 1 < 2 ^ 64"
    using run req
    by (auto simp: handle_sync_response_def validate_sync_response_intent_def arith_simps
        split: if_splits sum.splits option.splits)
  have "import_range env a p from_height xs = (a', Inr ())"
    using run req by (auto simp: handle_sync_response_def split: sum.splits)
  with \<open>xs \<noteq> []\<close> obtain records a1 where r:
    "collect_results (\<lambda>x. ok_or (borsh_record_parse env x) NodeSerialization) xs = Inr records"
    "validate_sync_batch_sequence records (saturating_sub from_height 1) = Inr ()"
    "import_all env a records = (a1, Inr ())" "continue_sync env a1 p (ls_height (na_ledger a)) = (a', Inr ())"
    by (auto simp: import_range_def Let_def result_simps split: sum.splits)
  have len: "0 + length records < 2 ^ 64"
    using r(1) valid(2) unat_lt2p [of limit]
    by (auto simp: collect_results_ok dest!: list_all2_lengthD)
  have "saturating_sub from_height 1 = ls_height (na_ledger a)"
    using valid(1,3) by (simp add: saturating_sub_def word_le_nat_alt unat_add_less)
  with r(2) valid(3) have "check_heights (ls_height (na_ledger a) + 1) (enumerate 0 records) = Inr ()"
    by (auto simp: validate_sync_batch_sequence_def arith_simps split: option.splits)
  from check_heights_ok [OF this len] valid(3)
  have "map (\<lambda>(b, _). unat (bh_height (bk_header b))) records =
      map (\<lambda>i. unat (ls_height (na_ledger a)) + 1 + i) [0..<length records]"
    by (simp add: unat_add_less)
  from import_all_ok [OF r(3) this] continue_sync_same [OF r(4)] r(1) show ?thesis
    by (auto simp: same_chain_def)
qed

section \<open>Serving a range\<close>

definition record_codec :: "'z actor_env_scheme \<Rightarrow> block \<times> commit_certificate \<Rightarrow> bool" where
  "record_codec env record \<longleftrightarrow>
     codec_restores env (fst record) (snd record) \<and>
     (\<exists>x. borsh_record env record = Some x \<and> borsh_record_parse env x = Some record)"

text \<open>The rows from a height on are the rows of the records from that position on.\<close>

lemma stored_heights:
  assumes "stored_records env db records" and "replay_finalized_blocks env chain records vs = Inr ledger"
  shows "map (\<lambda>row. unat (br_height row)) (canonical_block_rows db) = map (\<lambda>i. i + 1) [0..<length records]"
    and "length records < 2 ^ 63"
proof -
  have l: "list_all2 (\<lambda>row (b, certificate). row_agrees env row b certificate) (canonical_block_rows db) records"
    using assms(1) by (simp add: stored_records_def)
  have "list_all2 (\<lambda>row (b, certificate). unat (br_height row) = unat (bh_height (bk_header b))) (canonical_block_rows db) records"
    using l by (rule list_all2_mono) (auto simp: row_agrees_def Let_def)
  then have "map (\<lambda>row. unat (br_height row)) (canonical_block_rows db) =
      map (\<lambda>(b, _). unat (bh_height (bk_header b))) records"
    by (induction rule: list_all2_induct) auto
  moreover have "map (\<lambda>(b, _). unat (bh_height (bk_header b))) records = map (\<lambda>i. i + 1) [0..<length records]"
    using replay_finalized_heights [OF assms(2) [unfolded replay_finalized_blocks_def]]
    by (simp add: ledger_new_def)
  ultimately show h: "map (\<lambda>row. unat (br_height row)) (canonical_block_rows db) = map (\<lambda>i. i + 1) [0..<length records]"
    by simp
  show "length records < 2 ^ 63"
  proof (cases records)
    case (Cons x xs)
    then have "length records \<in> set (map (\<lambda>row. unat (br_height row)) (canonical_block_rows db))" unfolding h by auto
    then obtain row where row: "row \<in> set (canonical_block_rows db)" "unat (br_height row) = length records" by auto
    then obtain k where k: "(k, row) \<in> set (db_blocks db)" by (auto simp: canonical_block_rows_def bt_values_def)
    have wf: "blocks_wf (db_blocks db)" using assms(1) by (simp add: stored_records_def)
    with k have "bt_get (db_blocks db) k = Some row" by (simp add: blocks_wf_def bt_get_iff)
    with wf have "br_height row < 0x8000000000000000" by (auto simp: blocks_wf_def)
    with row(2) show ?thesis by (simp add: word_less_nat_alt)
  qed simp
qed

lemma filter_from_position:
  assumes "map f xs = map (\<lambda>i. i + 1) [0..<length xs]" and "h \<le> length xs"
  shows "filter (\<lambda>x. h < f x) xs = drop h xs"
proof -
  have f: "f (xs ! i) = i + 1" if "i < length xs" for i
    using arg_cong [OF assms(1), of "\<lambda>l. l ! i"] that by simp
  have "filter (\<lambda>x. h < f x) (take h xs) = []"
    using f assms(2) by (auto simp: filter_empty_conv in_set_conv_nth)
  moreover have "filter (\<lambda>x. h < f x) (drop h xs) = drop h xs"
    using f assms(2) by (intro filter_True) (auto simp: in_set_conv_nth)
  ultimately show ?thesis
    by (metis append_Nil append_take_drop_id filter_append)
qed

lemma collect_records_prefix:
  "list_all2 (\<lambda>row x. decode_finalized_row env row = Inr x) rows xs \<Longrightarrow>
     \<exists>n. n \<le> length xs \<and> collect_records env k rows = Inr (take n xs) \<and>
       (n = 0 \<longrightarrow> xs = [] \<or> MAX_SYNC_RESPONSE_BYTES - 64 * 1024 < k + length (hd xs))"
proof (induction rows arbitrary: k xs)
  case (Cons row rows)
  then obtain x ys where xs: "xs = x # ys" "decode_finalized_row env row = Inr x"
    "list_all2 (\<lambda>row x. decode_finalized_row env row = Inr x) rows ys"
    by (auto simp: list_all2_Cons1)
  show ?case
  proof (cases "k + length x > MAX_SYNC_RESPONSE_BYTES - 64 * 1024")
    case True
    with xs show ?thesis by (intro exI [of _ 0]) (simp add: Let_def)
  next
    case False
    from Cons.IH [OF xs(3), of "k + length x"] obtain n where "n \<le> length ys"
      "collect_records env (k + length x) rows = Inr (take n ys)" by blast
    with xs False show ?thesis by (intro exI [of _ "Suc n"]) (simp add: Let_def)
  qed
qed simp

lemma decode_stored_rows:
  assumes "backed env a records" and "\<forall>record \<in> set records. record_codec env record"
  shows "list_all2 (\<lambda>row x. decode_finalized_row env row = Inr x) (canonical_block_rows (na_store a))
     (map (\<lambda>record. the (borsh_record env record)) records)"
proof -
  have l: "list_all2 (\<lambda>row (b, certificate). row_agrees env row b certificate) (canonical_block_rows (na_store a)) records"
    and rep: "replay_finalized_from env (ledger_new (na_chain_id a)) records (na_validator_ids a) = Inr (na_ledger a)"
    using assms(1) by (auto simp: backed_def stored_records_def replay_finalized_blocks_def)
  have "decode_finalized_row env row = Inr (the (borsh_record env rc))"
    if "rc \<in> set records" "case rc of (b, certificate) \<Rightarrow> row_agrees env row b certificate" for row rc
  proof -
    obtain b certificate where r: "rc = (b, certificate)" by fastforce
    with replay_finalized_members [OF rep] that(1) obtain s1 s2 rs where
      "apply_finalized_block env s1 b certificate (na_validator_ids a) = (s2, Inr rs)" by blast
    with decode_committed_row [of env b certificate row] that r assms(2) show ?thesis
      by (force simp: decode_finalized_row_def record_codec_def)
  qed
  with l show ?thesis
    by (auto simp: list_all2_conv_all_nth)
qed

text \<open>A stored row stands for a record with a verified certificate.\<close>

lemma stored_row_certified:
  assumes "backed env a records" and "bt_get (db_blocks (na_store a)) h = Some row"
  obtains b certificate where "(b, certificate) \<in> set records" "bh_height (bk_header b) = h"
    "certificate_verify_for_block env certificate b (na_validator_ids a) = Inr ()"
    "codec_restores env b certificate \<longrightarrow> block_decode env (br_block_bytes row) = Inr b"
proof -
  obtain b certificate where r: "(b, certificate) \<in> set records" "row_agrees env row b certificate"
    "bh_height (bk_header b) = h"
    by (rule backed_row [OF assms])
  have "replay_finalized_from env (ledger_new (na_chain_id a)) records (na_validator_ids a) = Inr (na_ledger a)"
    using assms(1) by (simp add: backed_def replay_finalized_blocks_def)
  from replay_finalized_members [OF this r(1)] obtain s1 s2 rs where
    ap: "apply_finalized_block env s1 b certificate (na_validator_ids a) = (s2, Inr rs)" by blast
  have "block_decode env (br_block_bytes row) = Inr b" if "codec_restores env b certificate"
    using decode_committed_row [OF that r(2) ap] by (auto simp: decode_row_def result_simps)
  with r ap that show thesis by (auto simp: apply_finalized_block_ok)
qed

lemma conflict_halts:
  assumes "\<not> na_halted a" and "validate_commitments env b = Inr ()"
    and "certificate_verify_for_block env certificate b (na_validator_ids a) = Inr ()"
    and "bh_chain_id (bk_header b) = na_chain_id a" and "bh_height (bk_header b) \<le> ls_height (na_ledger a)"
    and "block_by_height (na_store a) (bh_height (bk_header b)) = Inr (Some row)"
    and "block_decode env (br_block_bytes row) = Inr existing" and "block_hash env b \<noteq> block_hash env existing"
  shows "fst (import_finalized env a b certificate source) = halt_on_conflict env a"
proof -
  have "cc_chain_id certificate = na_chain_id a" using assms(3,4) by (simp add: certificate_verify_for_block_ok)
  with assms show ?thesis by (simp add: import_finalized_def Let_def)
qed

text \<open>The heights of a stretch of a replayed history pass the check of a received batch.\<close>

lemma check_heights_of:
  assumes "map (\<lambda>(b, _). unat (bh_height (bk_header b))) records = map (\<lambda>i. unat first_expected + k + i) [0..<length records]"
    and "unat first_expected + k + length records < 2 ^ 64"
  shows "check_heights first_expected (enumerate k records) = Inr ()"
  using assms
proof (induction records arbitrary: k)
  case (Cons x records)
  obtain b certificate where x: "x = (b, certificate)" by fastforce
  have k: "unat (of_nat k :: u64) = k" using Cons.prems(2) by (simp add: unat_of_nat take_bit_nat_eq_self)
  have h: "unat (bh_height (bk_header b)) = unat first_expected + k"
    "map (\<lambda>(b, _). unat (bh_height (bk_header b))) records = map (\<lambda>i. unat first_expected + Suc k + i) [0..<length records]"
    using Cons.prems(1) x by (simp_all add: upt_conv_Cons map_Suc_upt [symmetric] del: upt_Suc)
  have "bh_height (bk_header b) = first_expected + of_nat k"
    using h(1) k Cons.prems(2) by (simp add: word_unat_eq_iff unat_add_less)
  moreover have "check_heights first_expected (enumerate (Suc k) records) = Inr ()"
    using Cons.IH [OF h(2)] Cons.prems(2) by simp
  ultimately show ?case
    using x k Cons.prems(2) by (auto simp: arith_simps split: option.splits)
qed simp

text \<open>The records that are sent, and their number.\<close>

lemma served_records:
  assumes "backed env server records" and "\<forall>rc \<in> set records. record_codec env rc" and "h < length records"
  obtains n where "n \<le> unat limit" "n \<le> length records - h"
    "sync_response_for env server (SyncBlocks (of_nat h + 1) limit) =
       Inr (RespondBlocks (map (\<lambda>rc. the (borsh_record env rc)) (take n (drop h records))))"
    "n = 0 \<longrightarrow> limit = 0 \<or> MAX_SYNC_RESPONSE_BYTES - 65536 < length (the (borsh_record env (records ! h)))"
proof -
  let ?rows = "canonical_block_rows (na_store server)"
  let ?enc = "\<lambda>rc. the (borsh_record env rc)"
  let ?m = "unat (min limit 128)"
  have st: "stored_records env (na_store server) records"
    "replay_finalized_blocks env (na_chain_id server) records (na_validator_ids server) = Inr (na_ledger server)"
    using assms(1) by (simp_all add: backed_def)
  note H = stored_heights [OF st]
  have len: "length ?rows = length records"
    using st(1) by (auto simp: stored_records_def dest: list_all2_lengthD)
  have from_height: "unat (of_nat h + 1 :: u64) = h + 1"
    using assms(3) H(2) by (simp add: unat_add_less unat_of_nat take_bit_nat_eq_self)
  then have "filter (\<lambda>row. of_nat h + 1 \<le> br_height row) ?rows = drop h ?rows"
    using filter_from_position [of "\<lambda>row. unat (br_height row)" ?rows h] H(1) len assms(3)
    by (simp add: word_le_nat_alt Suc_le_eq)
  moreover have "(of_nat h + 1 :: u64) < 0x8000000000000000"
    using from_height assms(3) H(2) by (simp add: word_less_nat_alt)
  ultimately have range: "finalized_range (na_store server) (of_nat h + 1) limit = Inr (take ?m (drop h ?rows))"
    by (simp add: finalized_range_def sql_u64_def canonical_block_rows_def)
  have "list_all2 (\<lambda>row x. decode_finalized_row env row = Inr x) (take ?m (drop h ?rows)) (take ?m (drop h (map ?enc records)))"
    by (intro list_all2_takeI list_all2_dropI decode_stored_rows assms)
  from collect_records_prefix [OF this, of 0] obtain n where n: "n \<le> length (take ?m (drop h (map ?enc records)))"
    "collect_records env 0 (take ?m (drop h ?rows)) = Inr (take n (take ?m (drop h (map ?enc records))))"
    "n = 0 \<longrightarrow> take ?m (drop h (map ?enc records)) = [] \<or>
       MAX_SYNC_RESPONSE_BYTES - 64 * 1024 < 0 + length (hd (take ?m (drop h (map ?enc records))))" by blast
  have m: "?m \<le> unat limit" by (simp add: word_le_nat_alt [symmetric])
  show thesis
  proof (rule that)
    show "n \<le> unat limit" "n \<le> length records - h" using n(1) m by auto
    show "sync_response_for env server (SyncBlocks (of_nat h + 1) limit) =
       Inr (RespondBlocks (map ?enc (take n (drop h records))))"
      using n(1,2) range by (simp add: sync_response_for_def take_map drop_map)
    show "n = 0 \<longrightarrow> limit = 0 \<or> MAX_SYNC_RESPONSE_BYTES - 65536 < length (?enc (records ! h))"
    proof
      assume "n = 0"
      show "limit = 0 \<or> MAX_SYNC_RESPONSE_BYTES - 65536 < length (?enc (records ! h))"
      proof (cases "?m = 0")
        case True
        then show ?thesis by (auto simp: unat_eq_0 min_def split: if_splits)
      next
        case False
        then have "hd (take ?m (drop h (map ?enc records))) = ?enc (records ! h)"
          using assms(3) by (simp add: hd_drop_conv_nth)
        with n(3) \<open>n = 0\<close> False assms(3) show ?thesis by auto
      qed
    qed
  qed
qed

end
