(* ===== verification/NodeRunProps.thy ===== *)
theory NodeRunProps
  imports NodeSyncFacts NodeDemo
begin

text \<open>
  The properties of whole runs of a node.
\<close>

section \<open>Runs\<close>

text \<open>
  C12: A node handles every command: from any state, on any sequence of commands at any times,
  the actor's loop works off the whole sequence, or stops at a shutdown.
\<close>

theorem node_run_returns:
  "\<exists>a'. run env a commands = Some a'"
  using run_returns [of env a commands] by auto

text \<open>
  C13: A node started on a store that verifies keeps it so in every run, whatever commands,
  messages and failures it meets. Its ledger is always the replay of finalized blocks whose
  certificates verify; its store holds exactly these, column by column, and only ever
  appends to them; its mempool always applies to its ledger.
\<close>

theorem run_keeps_verified_history:
  assumes "store_wf db" and "verify_store env db (ChainId (nc_chain_id config)) = Inr report"
    and "start_node env config db network clock_ms instant = Inr a"
    and "run env a commands = Some a'"
  shows "\<exists>records new.
     replay_finalized_blocks env (na_chain_id a) records (dev_validator_ids env) = Inr (na_ledger a) \<and>
     replay_finalized_blocks env (na_chain_id a) (records @ new) (dev_validator_ids env) = Inr (na_ledger a') \<and>
     stored_records env (na_store a') (records @ new) \<and>
     prefix (canonical_block_rows db) (canonical_block_rows (na_store a')) \<and> mempool_ok env a'"
proof -
  note S = start_node_ok [OF assms(3)]
  obtain records where rec: "backed env a records"
    using start_node_backed(1) [OF assms(1-3)] by blast
  with run_keeps [OF assms(4)] start_node_backed(2) [OF assms(1-3)] obtain new
    where "backed env a' (records @ new)" "mempool_ok env a'"
      "prefix (canonical_block_rows (na_store a)) (canonical_block_rows (na_store a'))"
      "na_validator_ids a' = na_validator_ids a" "na_chain_id a' = na_chain_id a"
    by blast
  with S rec show ?thesis
    by - (rule exI [of _ records], rule exI [of _ new], simp add: backed_def)
qed

text \<open>A validator that is started, imports a finalized block and is shut down.\<close>

definition demo_commands :: "((u64 \<times> duration) \<times> command) list" where
  "demo_commands =
     [((5, from_millis 200), ImportFinalized demo_node_block demo_dev_certificate None),
      ((7, from_millis 400), Shutdown)]"

definition demo_start :: "node_error + node_actor" where
  "demo_start = start_node demo_node_env demo_node_config store_empty (Some ([], 1)) 5 0"

lemma demo_starts: "case demo_start of Inl _ \<Rightarrow> False | Inr a \<Rightarrow> na_recovery_messages a = []"
  by code_simp

lemma demo_height: "bh_height (bk_header demo_node_block) = 1"
  by code_simp

lemma demo_chain_ids:
  "bh_chain_id (bk_header demo_node_block) = demo_chain" "ChainId (nc_chain_id demo_node_config) = demo_chain"
  by code_simp+

theorem run_keeps_verified_history_witness:
  "\<exists>a0 a records. demo_start = Inr a0 \<and> run demo_node_env a0 demo_commands = Some a \<and>
     stored_records demo_node_env (na_store a) records \<and> ls_height (na_ledger a) = 1 \<and> length records = 1"
proof -
  obtain a0 where start: "demo_start = Inr a0" "na_recovery_messages a0 = []"
    using demo_starts by (auto split: sum.splits)
  note S = start_node_ok [OF start(1) [unfolded demo_start_def]]
  let ?a0 = "at_time (5, from_millis 200) a0"
  let ?a = "fst (import_finalized demo_node_env ?a0 demo_node_block demo_dev_certificate None)"
  have run: "run demo_node_env a0 demo_commands = Some ?a"
    using start(2) by (simp add: run_def run_prologue_def demo_commands_def handle_command_def)
  have "replay_on_start demo_node_env store_empty demo_chain = Inr (ledger_new demo_chain)"
    using demo_history by (rule history_starts)
  with S(8) have "na_ledger a0 = ledger_new demo_chain" by (simp add: demo_chain_ids)
  moreover have "store_wf store_empty" by (rule store_empty_wf)
  moreover have "verify_store demo_node_env store_empty (ChainId (nc_chain_id demo_node_config)) =
      Inr (replay_report_of demo_node_env (ledger_new demo_chain))"
    using demo_history by (simp add: verify_store_def history_holds_def demo_chain_ids)
  moreover have "ls_height (na_ledger ?a) = 1"
  proof (rule demo_commit_parts)
    fix ledger receipts projection db
    assume parts: "apply_finalized_block demo_node_env (ledger_new demo_chain) demo_node_block demo_dev_certificate
       (dev_validator_ids demo_node_env) = (ledger, Inr receipts)"
      "build_projection demo_node_env store_empty ledger demo_node_block demo_dev_certificate receipts = Inr projection"
      "persist_finalized store_empty projection = (db, Inr ())" "ls_height ledger = 1"
    have "na_ledger ?a = ledger"
      using S \<open>na_ledger a0 = ledger_new demo_chain\<close> parts
      by (intro import_commits [of _ _ _ _ _ receipts projection db]) (simp_all add: at_time_def demo_chain_ids)
    with parts show ?thesis by simp
  qed
  ultimately obtain records where r: "stored_records demo_node_env (na_store ?a) records"
    "replay_finalized_blocks demo_node_env (na_chain_id a0) records (dev_validator_ids demo_node_env) = Inr (na_ledger ?a)"
    "ls_height (na_ledger ?a) = 1"
    using run_keeps_verified_history [OF _ _ start(1) [unfolded demo_start_def] run] by blast
  from replay_finalized_heights [OF r(2) [unfolded replay_finalized_blocks_def]] r(3)
  have "length records = 1" by (simp add: ledger_new_def)
  with r(1,3) run start(1) show ?thesis by blast
qed

section \<open>Halting\<close>






lemma demo_committed_backed: "backed demo_node_env demo_committed [(demo_node_block, demo_dev_certificate)]"
proof -
  obtain a r where c: "commit_finalized demo_node_env demo_actor demo_node_block demo_dev_certificate True = (a, r)"
    by fastforce
  have "backed demo_node_env demo_actor []"
    using demo_history
    by (simp add: backed_def stored_records_def demo_actor_fields history_holds_def canonical_block_rows_def
        store_empty_def bt_values_def replay_finalized_blocks_def)
  moreover have "na_ledger a \<noteq> na_ledger demo_actor"
    using c demo_commit by (auto simp: demo_actor_fields ledger_new_def)
  ultimately have "backed demo_node_env a ([] @ [(demo_node_block, demo_dev_certificate)])"
    using c by (intro commit_backs)
  with c show ?thesis by (simp add: demo_committed_def)
qed

lemma demo_committed_fields:
  "na_validator_ids demo_committed = dev_validator_ids demo_node_env" "na_chain_id demo_committed = demo_chain"
  "\<not> na_halted demo_committed" "ls_height (na_ledger demo_committed) = 1"
proof -
  obtain a r where c: "commit_finalized demo_node_env demo_actor demo_node_block demo_dev_certificate True = (a, r)"
    by fastforce
  then show "na_validator_ids demo_committed = dev_validator_ids demo_node_env" "na_chain_id demo_committed = demo_chain"
    "\<not> na_halted demo_committed" "ls_height (na_ledger demo_committed) = 1"
    using path_keeps [OF path.commit [OF c]] modes_kept(1) [OF c] demo_commit
    by (simp_all add: demo_committed_def demo_actor_fields)
qed

lemma demo_dev_card: "card (set (dev_validator_ids demo_node_env)) = 4"
proof -
  have "length (remdups (dev_validator_ids demo_node_env)) = 4" by code_simp
  then show ?thesis by (simp add: length_remdups_card_conv)
qed

lemma demo_record_codec: "record_codec demo_node_env (demo_node_block, demo_dev_certificate)"
  using demo_codec by (simp add: record_codec_def demo_node_env_def demo_consensus_codec_def actor_env.extend_def
      node_env.extend_def consensus_env.extend_def ledger_env.extend_def actor_env.fields_def)







section \<open>Synchronization\<close>

text \<open>
  C23: A non-empty answer to a request for blocks that is handled without an error has moved the
  ledger up by exactly the records it contains: they decode, they apply to the ledger one
  after the other with their certificates, and the height grows by their number.
\<close>

theorem sync_range_advances:
  assumes "handle_sync_response env a p intent (RespondBlocks xs) = (a', Inr ())" and "xs \<noteq> []"
  shows "\<exists>records. collect_results (\<lambda>x. ok_or (borsh_record_parse env x) NodeSerialization) xs = Inr records \<and>
     replay_finalized_from env (na_ledger a) records (na_validator_ids a) = Inr (na_ledger a') \<and>
     unat (ls_height (na_ledger a')) = unat (ls_height (na_ledger a)) + length xs"
proof -
  from range_response_ok [OF assms] obtain records where r:
    "collect_results (\<lambda>x. ok_or (borsh_record_parse env x) NodeSerialization) xs = Inr records"
    "replay_finalized_from env (na_ledger a) records (na_validator_ids a) = Inr (na_ledger a')" by blast
  then have "length records = length xs" by (auto simp: collect_results_ok dest: list_all2_lengthD)
  with r replay_finalized_heights [OF r(2)] show ?thesis by auto
qed

text \<open>An observer that waits for the first block.\<close>

definition demo_intent :: sync_intent where
  "demo_intent = \<lparr>si_request_id = 7, si_peer = [1], si_request = SyncBlocks 1 128\<rparr>"

definition demo_syncing :: node_actor where
  "demo_syncing = demo_actor\<lparr>na_local_validator_key := None, na_sync_target := Some 1, na_sync_peer := Some [1],
     na_sync_request_id := Some 7\<rparr>"

lemma observer_imports:
  assumes "apply_finalized_block env (na_ledger a) b certificate (na_validator_ids a) = (s, Inr receipts)"
    and "build_projection env (na_store a) s b certificate receipts = Inr projection"
    and "persist_finalized (na_store a) projection = (db, Inr ())"
    and "\<not> na_halted a" and "na_chain_id a = bh_chain_id (bk_header b)" and "na_local_validator_key a = None"
  shows "\<exists>a'. import_finalized env a b certificate source = (a', Inr ()) \<and> na_ledger a' = s \<and>
     na_local_validator_key a' = None"
proof -
  obtain a1 where c: "commit_finalized env a b certificate False = (a1, Inr ())" "na_ledger a1 = s"
    using commit_without_gossip [OF assms(1-3)] by blast
  have key: "na_local_validator_key a1 = None"
    using c(1) assms(6) by (auto simp: commit_finalized_def Let_def split: prod.splits sum.splits)
  have v: "validate_commitments env b = Inr ()" "certificate_verify_for_block env certificate b (na_validator_ids a) = Inr ()"
    "bh_height (bk_header b) = ls_height (na_ledger a) + 1" "ls_height (na_ledger a) < bh_height (bk_header b)"
    using assms(1) apply_finalized_height [OF assms(1)]
    by (auto simp: apply_finalized_block_ok apply_block_ok word_less_nat_alt)
  have "cc_chain_id certificate = na_chain_id a" using v(2) assms(5) by (simp add: certificate_verify_for_block_ok)
  with v assms(4,5) c key show ?thesis
    by (auto simp: import_finalized_def Let_def reset_consensus_def finish_sync_if_current_def)
qed

theorem sync_range_advances_witness:
  "\<exists>a. handle_sync_response demo_node_env demo_syncing [1] demo_intent (RespondBlocks [[]]) = (a, Inr ()) \<and>
     unat (ls_height (na_ledger a)) = 1"
proof (rule demo_commit_parts)
  fix ledger receipts projection db
  assume parts: "apply_finalized_block demo_node_env (ledger_new demo_chain) demo_node_block demo_dev_certificate
     (dev_validator_ids demo_node_env) = (ledger, Inr receipts)"
    "build_projection demo_node_env store_empty ledger demo_node_block demo_dev_certificate receipts = Inr projection"
    "persist_finalized store_empty projection = (db, Inr ())" "ls_height ledger = 1"
  have h: "ls_height (ledger_new demo_chain) = 0" by (simp add: ledger_new_def)
  obtain a1 where a1: "import_finalized demo_node_env demo_syncing demo_node_block demo_dev_certificate None = (a1, Inr ())"
    "na_ledger a1 = ledger" "na_local_validator_key a1 = None"
    using observer_imports [of demo_node_env demo_syncing demo_node_block demo_dev_certificate ledger receipts projection db None]
      parts by (auto simp: demo_syncing_def demo_actor_fields demo_chain_ids)
  have parse: "borsh_record_parse demo_node_env x = Some (demo_node_block, demo_dev_certificate)" for x
    by (simp add: demo_node_env_def demo_consensus_codec_def actor_env.extend_def
        node_env.extend_def consensus_env.extend_def ledger_env.extend_def actor_env.fields_def)
  have "is_ok (snd (continue_sync demo_node_env a1 [1] 0))"
    using a1 parts(4)
    by (auto simp: continue_sync_def publish_validator_status_def request_sync_blocks_def Let_def checked_add_def
        split: option.split prod.split)
  then obtain a where "handle_sync_response demo_node_env demo_syncing [1] demo_intent (RespondBlocks [[]]) = (a, Inr ())"
    using a1(1) parse h demo_height
    by (cases "continue_sync demo_node_env a1 [1] 0")
      (auto simp: handle_sync_response_def validate_sync_response_intent_def demo_intent_def demo_syncing_def
        demo_actor_fields checked_add_def import_range_def validate_sync_batch_sequence_def saturating_sub_def is_ok_iff)
  with sync_range_advances [OF this] h show ?thesis by (auto simp: demo_syncing_def demo_actor_fields)
qed

text \<open>
  C24: What a node serves, a peer can import: the records that a node with a backed ledger sends
  from a height on decode to the blocks it holds there, in the sequence that the peer checks,
  and apply to the ledger that the peer has at that height. At least one is sent, unless the
  limit is zero or the next record alone exceeds the size budget of a response. Borsh is
  assumed to decode the stored blocks, certificates and records it encoded.
\<close>

theorem served_range_applies:
  assumes "backed env server records" and "\<forall>rc \<in> set records. record_codec env rc"
    and "h < length records"
  shows "\<exists>xs s s'. sync_response_for env server (SyncBlocks (of_nat h + 1) limit) = Inr (RespondBlocks xs) \<and>
     length xs \<le> unat limit \<and>
     collect_results (\<lambda>x. ok_or (borsh_record_parse env x) NodeSerialization) xs =
       Inr (take (length xs) (drop h records)) \<and>
     validate_sync_batch_sequence (take (length xs) (drop h records)) (of_nat h) = Inr () \<and>
     replay_finalized_blocks env (na_chain_id server) (take h records) (na_validator_ids server) = Inr s \<and>
     replay_finalized_from env s (take (length xs) (drop h records)) (na_validator_ids server) = Inr s' \<and>
     (xs = [] \<longrightarrow> limit = 0 \<or> MAX_SYNC_RESPONSE_BYTES - 65536 < length (the (borsh_record env (records ! h))))"
proof -
  let ?vs = "na_validator_ids server"
  obtain n where n: "n \<le> unat limit" "n \<le> length records - h"
    "sync_response_for env server (SyncBlocks (of_nat h + 1) limit) =
       Inr (RespondBlocks (map (\<lambda>rc. the (borsh_record env rc)) (take n (drop h records))))"
    "n = 0 \<longrightarrow> limit = 0 \<or> MAX_SYNC_RESPONSE_BYTES - 65536 < length (the (borsh_record env (records ! h)))"
    by (rule served_records [OF assms])
  let ?served = "take n (drop h records)"
  have parts: "records = take h records @ ?served @ drop n (drop h records)" by (metis append_take_drop_id)
  have "replay_finalized_from env (ledger_new (na_chain_id server)) records ?vs = Inr (na_ledger server)"
    using assms(1) by (simp add: backed_def replay_finalized_blocks_def)
  then obtain s s' where s: "replay_finalized_from env (ledger_new (na_chain_id server)) (take h records) ?vs = Inr s"
    "replay_finalized_from env s ?served ?vs = Inr s'"
    by (subst (asm) parts) (auto simp only: replay_finalized_append result_simps)
  have decoded: "collect_results (\<lambda>x. ok_or (borsh_record_parse env x) NodeSerialization)
      (map (\<lambda>rc. the (borsh_record env rc)) rs) = Inr rs" if "set rs \<subseteq> set records" for rs
    using that assms(2) by (induction rs) (force simp: record_codec_def)+
  have "length records < 2 ^ 63"
    using assms(1) stored_heights(2) [of env "na_store server" records] unfolding backed_def by blast
  then have h: "unat (ls_height s) = h" "h + n < 2 ^ 63"
    using replay_finalized_heights [OF s(1)] assms(3) n(2) by (auto simp: ledger_new_def)
  then have first: "unat (of_nat h + 1 :: u64) = h + 1" "unat (of_nat h :: u64) = h"
    by (simp_all add: unat_add_less unat_of_nat take_bit_nat_eq_self)
  have "check_heights (of_nat h + 1) (enumerate 0 ?served) = Inr ()"
    using replay_finalized_heights [OF s(2)] h first n(2) assms(3)
    by (intro check_heights_of) (simp_all add: add.commute)
  with first h(2) have "validate_sync_batch_sequence ?served (of_nat h) = Inr ()"
    by (simp add: validate_sync_batch_sequence_def checked_add_def)
  with n s decoded [of ?served] assms(3) show ?thesis
    by (intro exI [of _ "map (\<lambda>rc. the (borsh_record env rc)) ?served"] exI [of _ s] exI [of _ s'])
      (auto simp: replay_finalized_blocks_def dest: in_set_takeD in_set_dropD)
qed

theorem served_range_applies_witness:
  "\<exists>xs s. sync_response_for demo_node_env demo_committed (SyncBlocks 1 128) = Inr (RespondBlocks xs) \<and> length xs = 1 \<and>
     replay_finalized_from demo_node_env (ledger_new demo_chain) [(demo_node_block, demo_dev_certificate)]
       (dev_validator_ids demo_node_env) = Inr s"
proof -
  let ?records = "[(demo_node_block, demo_dev_certificate)]"
  have "\<forall>rc \<in> set ?records. record_codec demo_node_env rc" using demo_record_codec by simp
  from served_range_applies [OF demo_committed_backed this, of 0 128] obtain xs s s' where x:
    "sync_response_for demo_node_env demo_committed (SyncBlocks 1 128) = Inr (RespondBlocks xs)"
    "collect_results (\<lambda>x. ok_or (borsh_record_parse demo_node_env x) NodeSerialization) xs =
       Inr (take (length xs) ?records)"
    "replay_finalized_blocks demo_node_env demo_chain [] (dev_validator_ids demo_node_env) = Inr s"
    "replay_finalized_from demo_node_env s (take (length xs) ?records) (dev_validator_ids demo_node_env) = Inr s'"
    "xs = [] \<longrightarrow> MAX_SYNC_RESPONSE_BYTES - 65536 < length (the (borsh_record demo_node_env (?records ! 0)))"
    by (auto simp: demo_committed_fields)
  have "borsh_record demo_node_env r = Some []" for r
    by (simp add: demo_node_env_def demo_consensus_codec_def actor_env.extend_def
        node_env.extend_def consensus_env.extend_def ledger_env.extend_def actor_env.fields_def)
  with x(5) have "xs \<noteq> []" by auto
  moreover have "length xs = length (take (length xs) ?records)"
    using x(2) by (auto simp: collect_results_ok dest: list_all2_lengthD)
  ultimately have "length xs = 1" by (cases xs) auto
  with x show ?thesis by (auto simp: replay_finalized_blocks_def)
qed

end
