(* ===== verification/Network.thy ===== *)
theory Network
  imports NodeRun "HOL-Library.Multiset"
begin

text \<open>
  The network task of a node (\<open>kcoin-node/src/network.rs\<close>): the envelopes of gossip, the
  static bootstrap peers and when they are dialed again, and \<open>run_network\<close>, which turns
  commands of the node and events of the libp2p swarm into calls of the swarm and events for
  the node. The swarm is third-party code: a state of any type \<open>'w\<close> with the operations of
  \<open>network_env\<close>, whose identifiers for connections, requests and response channels are
  opaque. The event stream is a broadcast channel; what is sent on it while a receiver is
  attached is appended to \<open>nt_events\<close>. The channel keeps 1,024 events, and a receiver further
  behind loses the oldest ones (\<open>Lagged\<close>); that is not modelled: \<open>nt_events\<close> is what was sent.
\<close>

section \<open>Messages\<close>

type_synonym multiaddr = rstring
type_synonym connection_id = nat
type_synonym outbound_request_id = nat
type_synonym response_channel = nat

definition TRANSACTIONS_TOPIC :: rstring where "TRANSACTIONS_TOPIC = str ''kcoin/transactions/1''"
definition CONSENSUS_TOPIC :: rstring where "CONSENSUS_TOPIC = str ''kcoin/consensus/1''"
definition FINALIZED_TOPIC :: rstring where "FINALIZED_TOPIC = str ''kcoin/finalized/1''"

text \<open>The loop of \<open>spawn_network\<close> that subscribes to the topics of the chain.\<close>

definition subscribed_topics :: "rstring \<Rightarrow> rstring list" where
  "subscribed_topics chain =
     map (\<lambda>topic. chain @ str ''/'' @ topic) [TRANSACTIONS_TOPIC, CONSENSUS_TOPIC, FINALIZED_TOPIC]"

definition MAX_GOSSIP_MESSAGE_BYTES :: nat where
  "MAX_GOSSIP_MESSAGE_BYTES = MAX_BLOCK_BYTES + MAX_COMMIT_CERTIFICATE_BYTES + 64 * 1024"

definition MAX_BOOTSTRAP_DIALS_PER_TICK :: nat where "MAX_BOOTSTRAP_DIALS_PER_TICK = 4"

datatype network_error =
    EncodeEnvelope
  | DecodeEnvelope
  | UnsupportedEnvelopeVersion u16
  | PublishFailed rstring

datatype network_command =
    Publish rstring gossip_envelope
  | Request sync_intent
  | Respond u64 sync_response
  | Dial multiaddr

record 'w network_env =
  sw_connected_peers :: "'w \<Rightarrow> peer list"
  sw_dial :: "'w \<Rightarrow> multiaddr \<Rightarrow> 'w \<times> connection_id \<times> bool"
    \<comment> \<open>a dial with a new connection id, and whether it was started\<close>
  sw_publish :: "'w \<Rightarrow> rstring \<Rightarrow> bytes \<Rightarrow> 'w \<times> (rstring + unit)"
  sw_send_request :: "'w \<Rightarrow> peer \<Rightarrow> sync_request \<Rightarrow> 'w \<times> outbound_request_id"
  sw_send_response :: "'w \<Rightarrow> response_channel \<Rightarrow> sync_response \<Rightarrow> 'w"
  borsh_envelope :: "gossip_envelope \<Rightarrow> bytes option"
  borsh_envelope_parse :: "bytes \<Rightarrow> gossip_envelope option"

definition envelope_encode :: "('w, 'z) network_env_scheme \<Rightarrow> gossip_envelope \<Rightarrow> network_error + bytes" where
  "envelope_encode env e = ok_or (borsh_envelope env e) EncodeEnvelope"

definition envelope_decode :: "('w, 'z) network_env_scheme \<Rightarrow> bytes \<Rightarrow> network_error + gossip_envelope" where
  "envelope_decode env x =
     and_then (ok_or (borsh_envelope_parse env x) DecodeEnvelope) (\<lambda>e.
       if ge_version e \<noteq> 1 then Inl (UnsupportedEnvelopeVersion (ge_version e)) else Inr e)"

text \<open>The commands that the handle of the network sends.\<close>

definition publish :: "rstring \<Rightarrow> rstring \<Rightarrow> gossip_kind \<Rightarrow> bytes \<Rightarrow> network_command" where
  "publish topic chain kind payload =
     Publish topic \<lparr>ge_version = 1, ge_chain_id = chain, ge_kind = kind, ge_payload = payload\<rparr>"

definition publish_transaction :: "rstring \<Rightarrow> bytes \<Rightarrow> network_command" where
  "publish_transaction chain x = publish TRANSACTIONS_TOPIC chain GossipTransaction x"

definition publish_consensus :: "rstring \<Rightarrow> bytes \<Rightarrow> network_command" where
  "publish_consensus chain x = publish CONSENSUS_TOPIC chain GossipConsensus x"

definition publish_finalized :: "rstring \<Rightarrow> bytes \<Rightarrow> network_command" where
  "publish_finalized chain x = publish FINALIZED_TOPIC chain GossipFinalized x"

definition publish_status :: "rstring \<Rightarrow> bytes \<Rightarrow> network_command" where
  "publish_status chain x = publish CONSENSUS_TOPIC chain GossipStatus x"

section \<open>Static bootstrap peers\<close>

record static_bootstrap =
  sb_address :: multiaddr
  sb_peer_id :: "peer option"
  sb_pending_connection :: "connection_id option"

definition static_bootstrap_new :: "multiaddr \<Rightarrow> static_bootstrap" where
  "static_bootstrap_new address =
     \<lparr>sb_address = address, sb_peer_id = None, sb_pending_connection = None\<rparr>"

definition should_dial :: "peer list \<Rightarrow> static_bootstrap \<Rightarrow> bool" where
  "should_dial connected target \<longleftrightarrow>
     sb_pending_connection target = None \<and>
     (case sb_peer_id target of None \<Rightarrow> True | Some p \<Rightarrow> p \<notin> set connected)"

record static_bootstrap_set =
  bs_targets :: "static_bootstrap list"
  bs_cursor :: nat

text \<open>\<open>unique\<close> is the hash set that the filter of \<open>new\<close> fills.\<close>

fun first_occurrences :: "'a list \<Rightarrow> 'a list \<Rightarrow> 'a list" where
  "first_occurrences unique [] = []"
| "first_occurrences unique (x # xs) =
     (if x \<in> set unique then first_occurrences unique xs
      else x # first_occurrences (x # unique) xs)"

definition static_bootstrap_set_new :: "multiaddr list \<Rightarrow> static_bootstrap_set" where
  "static_bootstrap_set_new addresses =
     \<lparr>bs_targets = map static_bootstrap_new (first_occurrences [] addresses), bs_cursor = 0\<rparr>"

text \<open>
  The loop of \<open>redial_due\<close>: how many targets were looked at and how many dials were started.
\<close>

function redial_loop ::
  "('w, 'z) network_env_scheme \<Rightarrow> peer list \<Rightarrow> nat \<Rightarrow> nat \<Rightarrow> nat \<Rightarrow> 'w \<Rightarrow> static_bootstrap list \<Rightarrow>
   'w \<times> static_bootstrap list \<times> nat \<times> nat" where
  "redial_loop env connected cursor scanned attempts w targets =
     (if scanned < length targets \<and> attempts < MAX_BOOTSTRAP_DIALS_PER_TICK
      then let index = (cursor + scanned) mod length targets; target = targets ! index in
        if \<not> should_dial connected target
        then redial_loop env connected cursor (scanned + 1) attempts w targets
        else case sw_dial env w (sb_address target) of
          (w, connection, started) \<Rightarrow>
            if started
            then redial_loop env connected cursor (scanned + 1) (attempts + 1) w
                   (targets[index := target\<lparr>sb_pending_connection := Some connection\<rparr>])
            else redial_loop env connected cursor (scanned + 1) attempts w targets
      else (w, targets, scanned, attempts))"
  by pat_completeness auto
termination
  by (relation "measure (\<lambda>(env, connected, cursor, scanned, attempts, w, targets). length targets - scanned)")
    (auto simp: Let_def)

declare redial_loop.simps [simp del]

definition redial_due ::
  "('w, 'z) network_env_scheme \<Rightarrow> 'w \<Rightarrow> static_bootstrap_set \<Rightarrow> 'w \<times> static_bootstrap_set" where
  "redial_due env w b =
     (if bs_targets b = [] then (w, b)
      else case redial_loop env (sw_connected_peers env w) (bs_cursor b) 0 0 w (bs_targets b) of
        (w, targets, scanned, _) \<Rightarrow>
          (w, \<lparr>bs_targets = targets, bs_cursor = (bs_cursor b + scanned) mod length (bs_targets b)\<rparr>))"

fun update_first :: "('a \<Rightarrow> bool) \<Rightarrow> ('a \<Rightarrow> 'a) \<Rightarrow> 'a list \<Rightarrow> 'a list" where
  "update_first P f [] = []"
| "update_first P f (x # xs) = (if P x then f x # xs else x # update_first P f xs)"

definition connection_established ::
  "connection_id \<Rightarrow> peer \<Rightarrow> static_bootstrap_set \<Rightarrow> static_bootstrap_set" where
  "connection_established connection p b =
     b\<lparr>bs_targets := update_first (\<lambda>target. sb_pending_connection target = Some connection)
         (\<lambda>target. target\<lparr>sb_peer_id := Some p, sb_pending_connection := None\<rparr>) (bs_targets b)\<rparr>"

definition connection_failed :: "connection_id \<Rightarrow> static_bootstrap_set \<Rightarrow> static_bootstrap_set" where
  "connection_failed connection b =
     b\<lparr>bs_targets := update_first (\<lambda>target. sb_pending_connection target = Some connection)
         (\<lambda>target. target\<lparr>sb_pending_connection := None\<rparr>) (bs_targets b)\<rparr>"

section \<open>The network task\<close>

datatype swarm_event =
    GossipMessage peer "peer option" bytes
      \<comment> \<open>who passed it on, who signed it, the data\<close>
  | SyncRequestMessage peer sync_request response_channel
  | SyncResponseMessage peer outbound_request_id sync_response
  | OutboundFailure peer outbound_request_id rstring
  | ConnectionEstablished peer connection_id
  | ConnectionClosed peer u32
      \<comment> \<open>how many connections to the peer remain\<close>
  | OutgoingConnectionError connection_id
  | OtherSwarmEvent

datatype network_input =
    NetworkCommand network_command
  | RedialTick
  | SwarmEvent swarm_event
  | ReceiverAttached bool
      \<comment> \<open>the event stream gains or loses its receivers\<close>

record 'w network_task =
  nt_swarm :: 'w
  nt_response_token :: u64
  nt_pending_responses :: "(u64, response_channel) btree_map"
  nt_pending_requests :: "(outbound_request_id, sync_intent) btree_map"
  nt_bootstrap :: static_bootstrap_set
  nt_connected_peers :: "peer list"
  nt_attached :: bool
  nt_events :: "network_event list"
  nt_publish_results :: "(network_error + unit) list"

definition network_task_new :: "'w \<Rightarrow> multiaddr list \<Rightarrow> bool \<Rightarrow> 'w network_task" where
  "network_task_new w bootstrap attached =
     \<lparr>nt_swarm = w, nt_response_token = 0, nt_pending_responses = [], nt_pending_requests = [],
      nt_bootstrap = static_bootstrap_set_new bootstrap, nt_connected_peers = [],
      nt_attached = attached, nt_events = [], nt_publish_results = []\<rparr>"

definition send_event :: "network_event \<Rightarrow> 'w network_task \<Rightarrow> 'w network_task" where
  "send_event ev t = (if nt_attached t then t\<lparr>nt_events := nt_events t @ [ev]\<rparr> else t)"

definition network_handle_command ::
  "('w, 'z) network_env_scheme \<Rightarrow> network_command \<Rightarrow> 'w network_task \<Rightarrow> 'w network_task" where
  "network_handle_command env command t =
     (case command of
        Publish topic envelope \<Rightarrow>
          (case envelope_encode env envelope of
             Inl e \<Rightarrow> t\<lparr>nt_publish_results := nt_publish_results t @ [Inl e]\<rparr>
           | Inr x \<Rightarrow>
             (case sw_publish env (nt_swarm t) (ge_chain_id envelope @ str ''/'' @ topic) x of
                (w, result) \<Rightarrow>
                  t\<lparr>nt_swarm := w,
                    nt_publish_results := nt_publish_results t @ [map_err PublishFailed result]\<rparr>))
      | Request intent \<Rightarrow>
          (case sw_send_request env (nt_swarm t) (si_peer intent) (si_request intent) of
             (w, request_id) \<Rightarrow>
               t\<lparr>nt_swarm := w,
                 nt_pending_requests := bt_insert request_id intent (nt_pending_requests t)\<rparr>)
      | Respond response_token response \<Rightarrow>
          (case bt_get (nt_pending_responses t) response_token of
             None \<Rightarrow> t
           | Some channel \<Rightarrow>
               t\<lparr>nt_pending_responses := bt_remove response_token (nt_pending_responses t),
                 nt_swarm := sw_send_response env (nt_swarm t) channel response\<rparr>)
      | Dial address \<Rightarrow> t\<lparr>nt_swarm := fst (sw_dial env (nt_swarm t) address)\<rparr>)"

definition answer_request ::
  "outbound_request_id \<Rightarrow> (sync_intent \<Rightarrow> network_event) \<Rightarrow> 'w network_task \<Rightarrow> 'w network_task" where
  "answer_request request_id ev t =
     (case bt_get (nt_pending_requests t) request_id of
        None \<Rightarrow> t
      | Some intent \<Rightarrow>
          send_event (ev intent)
            (t\<lparr>nt_pending_requests := bt_remove request_id (nt_pending_requests t)\<rparr>))"

definition not_ready :: sync_response where
  "not_ready =
     RespondError (str ''NOT_READY'') (str ''sync provider has not attached a response handler'')"

definition receive_request ::
  "('w, 'z) network_env_scheme \<Rightarrow> peer \<Rightarrow> sync_request \<Rightarrow> response_channel \<Rightarrow>
   'w network_task \<Rightarrow> 'w network_task" where
  "receive_request env p request channel t =
     (let response_token = nt_response_token t + 1;
          t = t\<lparr>nt_response_token := response_token,
                nt_pending_responses := bt_insert response_token channel (nt_pending_responses t)\<rparr>
      in if nt_attached t then send_event (NetSyncRequest p response_token request) t
         else t\<lparr>nt_pending_responses := bt_remove response_token (nt_pending_responses t),
                nt_swarm := sw_send_response env (nt_swarm t) channel not_ready\<rparr>)"

definition receive_gossip ::
  "('w, 'z) network_env_scheme \<Rightarrow> peer list \<Rightarrow> peer \<Rightarrow> peer option \<Rightarrow> bytes \<Rightarrow>
   'w network_task \<Rightarrow> 'w network_task" where
  "receive_gossip env allowlist propagation_source source x t =
     (if allowlist \<noteq> [] \<and> propagation_source \<notin> set allowlist then t
      else case envelope_decode env x of
        Inl _ \<Rightarrow> t
      | Inr envelope \<Rightarrow> send_event (Gossip source envelope) t)"

definition handle_swarm_event ::
  "('w, 'z) network_env_scheme \<Rightarrow> peer list \<Rightarrow> swarm_event \<Rightarrow> 'w network_task \<Rightarrow> 'w network_task" where
  "handle_swarm_event env allowlist ev t =
     (case ev of
        GossipMessage propagation_source source x \<Rightarrow>
          receive_gossip env allowlist propagation_source source x t
      | SyncRequestMessage p request channel \<Rightarrow> receive_request env p request channel t
      | SyncResponseMessage p request_id response \<Rightarrow>
          answer_request request_id (\<lambda>intent. NetSyncResponse p intent response) t
      | OutboundFailure p request_id e \<Rightarrow>
          answer_request request_id (\<lambda>intent. NetSyncFailure p intent e) t
      | ConnectionEstablished p connection \<Rightarrow>
          send_event (NetPeerConnected p)
            (t\<lparr>nt_bootstrap := connection_established connection p (nt_bootstrap t),
               nt_connected_peers := List.insert p (nt_connected_peers t)\<rparr>)
      | ConnectionClosed p num_established \<Rightarrow>
          if num_established = 0
          then send_event (NetPeerDisconnected p)
                 (t\<lparr>nt_connected_peers := removeAll p (nt_connected_peers t)\<rparr>)
          else t
      | OutgoingConnectionError connection \<Rightarrow>
          t\<lparr>nt_bootstrap := connection_failed connection (nt_bootstrap t)\<rparr>
      | OtherSwarmEvent \<Rightarrow> t)"

definition network_step ::
  "('w, 'z) network_env_scheme \<Rightarrow> peer list \<Rightarrow> network_input \<Rightarrow> 'w network_task \<Rightarrow> 'w network_task" where
  "network_step env allowlist input t =
     (case input of
        NetworkCommand command \<Rightarrow> network_handle_command env command t
      | RedialTick \<Rightarrow>
          (case redial_due env (nt_swarm t) (nt_bootstrap t) of
             (w, b) \<Rightarrow> t\<lparr>nt_swarm := w, nt_bootstrap := b\<rparr>)
      | SwarmEvent ev \<Rightarrow> handle_swarm_event env allowlist ev t
      | ReceiverAttached attached \<Rightarrow> t\<lparr>nt_attached := attached\<rparr>)"

text \<open>\<open>select!\<close> takes whatever is ready, so a run is any sequence of inputs.\<close>

definition run_network ::
  "('w, 'z) network_env_scheme \<Rightarrow> peer list \<Rightarrow> network_input list \<Rightarrow> 'w network_task \<Rightarrow> 'w network_task" where
  "run_network env allowlist inputs t = fold (network_step env allowlist) inputs t"

end
