(* ===== verification/NetworkProps.thy ===== *)
theory NetworkProps
  imports Network NodeDemo
begin

text \<open>
  Properties of the network task: what becomes of requests to peers, which bootstrap peers
  are dialed, and that gossip of one node reaches another as the message that was sent.
\<close>

section \<open>Requests and their answers\<close>

lemma mset_bt_insert:
  "k \<notin> fst ` set m \<Longrightarrow> mset (bt_insert k v m) = add_mset (k, v) (mset m)"
  by (induction k v m rule: bt_insert.induct) auto

lemma mset_bt_remove:
  assumes "bt_wf m" "bt_get m k = Some v"
  shows "mset m = add_mset (k, v) (mset (bt_remove k m))"
  using assms
proof (induction m)
  case (Cons kv m)
  then show ?case
  proof (cases "fst kv = k")
    case True
    with Cons.prems have "bt_remove k m = m"
      by (cases kv) (force simp: bt_wf_Cons filter_id_conv bt_remove_def)
    with True Cons.prems show ?thesis
      by (cases kv) (simp add: bt_remove_def bt_get_def)
  next
    case False
    with Cons show ?thesis by (cases kv) (simp add: bt_remove_def bt_get_def bt_wf_Cons)
  qed
qed simp

text \<open>
  What the peers say to a request, with the number of the request: the event of the swarm and
  what the node is told of it, given the intent.
\<close>

type_synonym request_answer = "outbound_request_id \<times> (sync_intent \<Rightarrow> network_event)"

fun answer_to :: "network_input \<Rightarrow> request_answer option" where
  "answer_to (SwarmEvent (SyncResponseMessage p i response)) = Some (i, \<lambda>intent. NetSyncResponse p intent response)"
| "answer_to (SwarmEvent (OutboundFailure p i e)) = Some (i, \<lambda>intent. NetSyncFailure p intent e)"
| "answer_to _ = None"

fun is_answer :: "network_event \<Rightarrow> bool" where
  "is_answer (NetSyncResponse _ _ _) \<longleftrightarrow> True"
| "is_answer (NetSyncFailure _ _ _) \<longleftrightarrow> True"
| "is_answer _ \<longleftrightarrow> False"

definition given_answers :: "'w network_task \<Rightarrow> network_event list" where
  "given_answers t = filter is_answer (nt_events t)"

text \<open>The requests that a run hands to the swarm, each with the number the swarm returns for it.\<close>

fun sent_request ::
  "('w, 'z) network_env_scheme \<Rightarrow> 'w network_task \<Rightarrow> network_input \<Rightarrow> (outbound_request_id \<times> sync_intent) list" where
  "sent_request env t (NetworkCommand (Request intent)) =
     [(snd (sw_send_request env (nt_swarm t) (si_peer intent) (si_request intent)), intent)]"
| "sent_request env t _ = []"

fun sent_requests ::
  "('w, 'z) network_env_scheme \<Rightarrow> peer list \<Rightarrow> network_input list \<Rightarrow> 'w network_task \<Rightarrow>
   (outbound_request_id \<times> sync_intent) list" where
  "sent_requests env allowlist [] t = []"
| "sent_requests env allowlist (input # inputs) t =
     sent_request env t input @ sent_requests env allowlist inputs (network_step env allowlist input t)"

text \<open>
  libp2p numbers outbound requests: an id is above all ids given out before, of which
  \<open>bound\<close> keeps track.
\<close>

definition fresh_request_ids :: "('w, 'z) network_env_scheme \<Rightarrow> ('w \<Rightarrow> nat) \<Rightarrow> bool" where
  "fresh_request_ids env bound \<longleftrightarrow>
     (\<forall>w p r. bound w \<le> snd (sw_send_request env w p r) \<and>
        snd (sw_send_request env w p r) < bound (fst (sw_send_request env w p r))) \<and>
     (\<forall>w a. bound w \<le> bound (fst (sw_dial env w a))) \<and>
     (\<forall>w topic x. bound w \<le> bound (fst (sw_publish env w topic x))) \<and>
     (\<forall>w channel response. bound w \<le> bound (sw_send_response env w channel response))"

definition pending_ok :: "('w \<Rightarrow> nat) \<Rightarrow> 'w network_task \<Rightarrow> bool" where
  "pending_ok bound t \<longleftrightarrow>
     bt_wf (nt_pending_requests t) \<and>
     (\<forall>i \<in> fst ` set (nt_pending_requests t). i < bound (nt_swarm t))"

lemma fresh_request_idsD:
  assumes "fresh_request_ids env bound"
  shows "sw_dial env w a = (w', c) \<Longrightarrow> bound w \<le> bound w'"
    and "sw_publish env w topic x = (w', r) \<Longrightarrow> bound w \<le> bound w'"
    and "sw_send_request env w p request = (w', i) \<Longrightarrow> bound w \<le> i \<and> i < bound w'"
proof -
  have "bound w \<le> bound (fst (sw_dial env w a))" "bound w \<le> bound (fst (sw_publish env w topic x))"
    "bound w \<le> snd (sw_send_request env w p request) \<and>
     snd (sw_send_request env w p request) < bound (fst (sw_send_request env w p request))"
    using assms by (simp_all add: fresh_request_ids_def)
  then show "sw_dial env w a = (w', c) \<Longrightarrow> bound w \<le> bound w'"
    "sw_publish env w topic x = (w', r) \<Longrightarrow> bound w \<le> bound w'"
    "sw_send_request env w p request = (w', i) \<Longrightarrow> bound w \<le> i \<and> i < bound w'"
    by simp_all
qed

lemma redial_loop_bound:
  assumes "fresh_request_ids env bound"
  shows "bound w \<le> bound (fst (redial_loop env connected cursor scanned attempts w targets))"
  using assms
proof (induction env connected cursor scanned attempts w targets rule: redial_loop.induct)
  case (1 env connected cursor scanned attempts w targets)
  have dial: "bound w \<le> bound w'" if "sw_dial env w a = (w', c)" for a w' c
    using "1.prems" that by (rule fresh_request_idsD)
  show ?case
    by (subst redial_loop.simps)
      (use 1 dial in \<open>fastforce simp: Let_def split: prod.split intro: order_trans\<close>)
qed

lemma pending_ok_send_event [simp]: "pending_ok bound (send_event ev t) = pending_ok bound t"
  by (simp add: pending_ok_def send_event_def)

lemma pending_ok_mono:
  "pending_ok bound t \<Longrightarrow> bound (nt_swarm t) \<le> bound (nt_swarm t') \<Longrightarrow>
   nt_pending_requests t' = nt_pending_requests t \<Longrightarrow> pending_ok bound t'"
  by (auto simp: pending_ok_def)

lemma attached_send_event [simp]: "nt_attached (send_event ev t) = nt_attached t"
  by (simp add: send_event_def)

lemma send_event_fields [simp]:
  "nt_swarm (send_event ev t) = nt_swarm t" "nt_pending_requests (send_event ev t) = nt_pending_requests t"
  by (simp_all add: send_event_def)

lemma given_send_event:
  "nt_attached t \<Longrightarrow> given_answers (send_event ev t) = given_answers t @ (if is_answer ev then [ev] else [])"
  by (simp add: send_event_def given_answers_def)

text \<open>
  What a step does to the requests: \<open>sent\<close> are taken up, and \<open>given\<close>, answers with the intents
  they are delivered with, complete some.
\<close>

definition step_accounts ::
  "('w \<Rightarrow> nat) \<Rightarrow> (outbound_request_id \<times> sync_intent) list \<Rightarrow> (request_answer \<times> sync_intent) list \<Rightarrow>
   'w network_task \<Rightarrow> 'w network_task \<Rightarrow> bool" where
  "step_accounts bound sent given t t' \<longleftrightarrow>
     pending_ok bound t' \<and> nt_attached t' \<and> bound (nt_swarm t) \<le> bound (nt_swarm t') \<and>
     given_answers t' = given_answers t @ map (\<lambda>((i, deliver), intent). deliver intent) given \<and>
     mset (map (\<lambda>((i, deliver), intent). (i, intent)) given) + mset (nt_pending_requests t') =
       mset (nt_pending_requests t) + mset sent"

lemma step_accounts_frame:
  assumes "pending_ok bound t" "nt_attached t'" "nt_events t' = nt_events t"
    "nt_pending_requests t' = nt_pending_requests t" "bound (nt_swarm t) \<le> bound (nt_swarm t')"
  shows "step_accounts bound [] [] t t'"
  using pending_ok_mono [OF assms(1,5,4)] assms by (simp add: step_accounts_def given_answers_def)

lemma step_accounts_event:
  "step_accounts bound [] [] t t' \<Longrightarrow> \<not> is_answer ev \<Longrightarrow> step_accounts bound [] [] t (send_event ev t')"
  by (simp add: step_accounts_def given_send_event)

lemma answer_accounts:
  assumes "pending_ok bound t" "nt_attached t" "\<And>intent. is_answer (deliver intent)"
  shows "\<exists>given. map fst given \<in> set (subseqs [(i, deliver)]) \<and>
    step_accounts bound [] given t (answer_request i deliver t)"
proof (cases "bt_get (nt_pending_requests t) i")
  case None
  with assms show ?thesis by (intro exI [of _ "[]"]) (simp add: answer_request_def step_accounts_def)
next
  case (Some intent)
  let ?t = "t\<lparr>nt_pending_requests := bt_remove i (nt_pending_requests t)\<rparr>"
  have "mset (nt_pending_requests t) = add_mset (i, intent) (mset (nt_pending_requests ?t))"
    using mset_bt_remove [OF _ Some] assms(1) by (simp add: pending_ok_def)
  moreover have "pending_ok bound ?t"
    using assms(1) by (auto simp: pending_ok_def) (auto simp: bt_remove_def)
  moreover have "given_answers ?t = given_answers t" by (simp add: given_answers_def)
  ultimately show ?thesis
    using Some assms
    by (intro exI [of _ "[((i, deliver), intent)]"])
      (simp add: answer_request_def step_accounts_def given_send_event Let_def)
qed

text \<open>The steps that answer nothing.\<close>

lemma no_answer_accounts:
  "step_accounts bound sent [] t t' \<Longrightarrow> \<exists>given. map fst given \<in> set (subseqs xs) \<and> step_accounts bound sent given t t'"
  by (rule exI [of _ "[]"]) (induction xs; simp add: Let_def)

abbreviation answers_to :: "network_input \<Rightarrow> request_answer list" where
  "answers_to input \<equiv> (case answer_to input of None \<Rightarrow> [] | Some x \<Rightarrow> [x])"

lemma swarm_event_accounts:
  assumes fresh: "fresh_request_ids env bound" and t: "pending_ok bound t" "nt_attached t"
  shows "\<exists>given. map fst given \<in> set (subseqs (answers_to (SwarmEvent ev))) \<and>
    step_accounts bound [] given t (handle_swarm_event env allowlist ev t)"
proof (cases ev)
  case (GossipMessage p source x)
  with t show ?thesis
    by (intro no_answer_accounts) (auto simp: handle_swarm_event_def receive_gossip_def
        intro!: step_accounts_frame step_accounts_event split: sum.split)
next
  case (SyncRequestMessage p request channel)
  with t fresh show ?thesis
    by (intro no_answer_accounts) (auto simp: handle_swarm_event_def receive_request_def Let_def fresh_request_ids_def
        intro!: step_accounts_frame step_accounts_event)
next
  case (SyncResponseMessage p i response)
  with answer_accounts [OF t, of "\<lambda>intent. NetSyncResponse p intent response" i] show ?thesis
    by (simp add: handle_swarm_event_def)
next
  case (OutboundFailure p i e)
  with answer_accounts [OF t, of "\<lambda>intent. NetSyncFailure p intent e" i] show ?thesis
    by (simp add: handle_swarm_event_def)
qed (use t in \<open>intro no_answer_accounts; auto simp: handle_swarm_event_def
       intro!: step_accounts_frame step_accounts_event\<close>)+

lemma network_command_accounts:
  assumes fresh: "fresh_request_ids env bound" and t: "pending_ok bound t" "nt_attached t"
  shows "step_accounts bound (sent_request env t (NetworkCommand command)) [] t
    (network_handle_command env command t)"
proof (cases command)
  case (Publish topic envelope)
  have "bound (nt_swarm t) \<le> bound w" if "sw_publish env (nt_swarm t) topic' x = (w, r)" for topic' x w r
    using fresh that by (rule fresh_request_idsD)
  with Publish t show ?thesis
    by (auto simp: network_handle_command_def intro!: step_accounts_frame split: sum.split prod.split)
next
  case (Request intent)
  obtain w i where sent: "sw_send_request env (nt_swarm t) (si_peer intent) (si_request intent) = (w, i)"
    by fastforce
  then have i: "bound (nt_swarm t) \<le> i" "i < bound w"
    using fresh_request_idsD(3) [OF fresh] by blast+
  then have "i \<notin> fst ` set (nt_pending_requests t)" using t(1) by (auto simp: pending_ok_def)
  moreover have "\<forall>j \<in> fst ` set (bt_insert i intent (nt_pending_requests t)). j < bound w"
    using t(1) i unfolding keys_bt_insert by (auto simp: pending_ok_def)
  ultimately show ?thesis
    using Request sent t i
    by (simp add: network_handle_command_def step_accounts_def given_answers_def mset_bt_insert pending_ok_def)
next
  case (Respond response_token response)
  with t fresh show ?thesis
    by (auto simp: network_handle_command_def fresh_request_ids_def
        intro!: step_accounts_frame split: option.split)
next
  case (Dial address)
  with t fresh show ?thesis
    by (auto simp: network_handle_command_def fresh_request_ids_def intro!: step_accounts_frame)
qed

lemma network_step_accounts:
  assumes fresh: "fresh_request_ids env bound" and t: "pending_ok bound t" "nt_attached t"
    and "input \<noteq> ReceiverAttached False"
  shows "\<exists>given. map fst given \<in> set (subseqs (answers_to input)) \<and>
    step_accounts bound (sent_request env t input) given t (network_step env allowlist input t)"
proof (cases input)
  case (NetworkCommand command)
  with network_command_accounts [OF fresh t] show ?thesis
    by (intro no_answer_accounts) (simp add: network_step_def)
next
  case RedialTick
  have "bound (nt_swarm t) \<le> bound w" if "redial_due env (nt_swarm t) b = (w, b')" for b w b'
    using redial_loop_bound [OF fresh, of "nt_swarm t"] that
    by (auto simp: redial_due_def split: if_splits prod.splits) (metis fst_conv)
  with RedialTick t show ?thesis
    by (intro no_answer_accounts) (auto simp: network_step_def intro!: step_accounts_frame split: prod.split)
next
  case (SwarmEvent ev)
  with swarm_event_accounts [OF fresh t, of ev allowlist] show ?thesis by (simp add: network_step_def)
next
  case (ReceiverAttached b)
  with assms show ?thesis
    by (intro no_answer_accounts) (auto simp: network_step_def intro!: step_accounts_frame)
qed

lemma sent_request_numbers:
  assumes "fresh_request_ids env bound" "(i, intent) \<in> set (sent_request env t input)"
  shows "bound (nt_swarm t) \<le> i \<and> i < bound (nt_swarm (network_step env allowlist input t)) \<and>
    sent_request env t input = [(i, intent)]"
proof -
  from assms(2) obtain w where "input = NetworkCommand (Request intent)"
    "sw_send_request env (nt_swarm t) (si_peer intent) (si_request intent) = (w, i)"
    by (induction env t input rule: sent_request.induct) (auto intro: prod.collapse [symmetric])
  with fresh_request_idsD(3) [OF assms(1)] show ?thesis
    by (simp add: network_step_def network_handle_command_def)
qed

lemma subseqs_append:
  "xs \<in> set (subseqs us) \<Longrightarrow> ys \<in> set (subseqs vs) \<Longrightarrow> xs @ ys \<in> set (subseqs (us @ vs))"
  by (induction us arbitrary: xs) (auto simp: Let_def)

lemma run_network_accounts:
  assumes fresh: "fresh_request_ids env bound"
  shows "pending_ok bound t \<Longrightarrow> nt_attached t \<Longrightarrow> ReceiverAttached False \<notin> set inputs \<Longrightarrow>
    (\<exists>given. map fst given \<in> set (subseqs (List.map_filter answer_to inputs)) \<and>
      step_accounts bound (sent_requests env allowlist inputs t) given t (run_network env allowlist inputs t)) \<and>
    distinct (map fst (sent_requests env allowlist inputs t)) \<and>
    (\<forall>i \<in> fst ` set (sent_requests env allowlist inputs t). bound (nt_swarm t) \<le> i)"
proof (induction inputs arbitrary: t)
  case Nil
  then show ?case by (auto simp: run_network_def List.map_filter_simps intro!: exI [of _ "[]"] step_accounts_frame)
next
  case (Cons input inputs)
  let ?t = "network_step env allowlist input t"
  obtain given where now: "map fst given \<in> set (subseqs (answers_to input))"
    "step_accounts bound (sent_request env t input) given t ?t"
    using network_step_accounts [OF fresh Cons.prems(1,2), of input allowlist] Cons.prems(3) by auto
  then have t: "pending_ok bound ?t" "nt_attached ?t" "bound (nt_swarm t) \<le> bound (nt_swarm ?t)"
    by (simp_all add: step_accounts_def)
  with Cons.IH [of ?t] Cons.prems(3) obtain more where more:
    "map fst more \<in> set (subseqs (List.map_filter answer_to inputs))"
    "step_accounts bound (sent_requests env allowlist inputs ?t) more ?t (run_network env allowlist inputs ?t)"
    and fr: "distinct (map fst (sent_requests env allowlist inputs ?t))"
      "\<forall>i \<in> fst ` set (sent_requests env allowlist inputs ?t). bound (nt_swarm ?t) \<le> i"
    by auto
  have "step_accounts bound (sent_requests env allowlist (input # inputs) t) (given @ more) t
      (run_network env allowlist (input # inputs) t)"
    using now(2) more(2) by (auto simp: step_accounts_def run_network_def ac_simps)
  moreover have "List.map_filter answer_to (input # inputs) = answers_to input @ List.map_filter answer_to inputs"
    by (simp add: List.map_filter_simps split: option.split)
  then have "map fst (given @ more) \<in> set (subseqs (List.map_filter answer_to (input # inputs)))"
    using subseqs_append [OF now(1) more(1)] by simp
  moreover have "distinct (map fst (sent_requests env allowlist (input # inputs) t)) \<and>
      (\<forall>i \<in> fst ` set (sent_requests env allowlist (input # inputs) t). bound (nt_swarm t) \<le> i)"
  proof (cases "sent_request env t input")
    case Nil
    with fr t(3) show ?thesis by force
  next
    case (Cons r rs)
    then obtain i intent where "sent_request env t input = [(i, intent)]" "bound (nt_swarm t) \<le> i" "i < bound (nt_swarm ?t)"
      using sent_request_numbers [OF fresh, of "fst r" "snd r" t input allowlist] by (cases r) auto
    with fr t(3) show ?thesis by fastforce
  qed
  ultimately show ?case by blast
qed

lemma pending_answer_delivered:
  assumes "pending_ok bound t" "nt_attached t" "(i, intent) \<in> set (nt_pending_requests t)"
    "answer_to input = Some (i, deliver)"
  shows "nt_events (network_step env allowlist input t) = nt_events t @ [deliver intent]"
proof -
  have "bt_get (nt_pending_requests t) i = Some intent"
    using assms(1,3) by (auto simp: pending_ok_def bt_get_def bt_wf_def strict_sorted_iff intro: map_of_is_SomeI)
  with assms(2,4) show ?thesis
    by (induction input rule: answer_to.induct)
      (auto simp: network_step_def handle_swarm_event_def answer_request_def send_event_def)
qed

text \<open>
  C28: Every answer the node is told of belongs to the request it answers. While the node
  listens, in any order of commands, answers, ticks and connections: the answers the node
  got are some of those that the swarm reported, in their order and with their peer and
  content, each with the intent of that one request for which the swarm had returned the
  number the answer carries; the requests that were sent are exactly those answered and those
  pending, and as their numbers differ none is answered twice; and whatever next answers
  a pending request is passed on at once. So no answer is invented, mixed up,
  repeated or lost.
\<close>

theorem sync_answers_match_requests:
  assumes "fresh_request_ids env bound" and "ReceiverAttached False \<notin> set inputs"
    and start: "start = network_task_new w bootstrap True" and t: "t = run_network env allowlist inputs start"
  shows "\<exists>given :: (request_answer \<times> sync_intent) list.
    filter is_answer (nt_events t) = map (\<lambda>((i, deliver), intent). deliver intent) given \<and>
    map fst given \<in> set (subseqs (List.map_filter answer_to inputs)) \<and>
    mset (map (\<lambda>((i, deliver), intent). (i, intent)) given) + mset (nt_pending_requests t) =
      mset (sent_requests env allowlist inputs start) \<and>
    distinct (map fst (sent_requests env allowlist inputs start)) \<and>
    (\<forall>input i deliver intent. answer_to input = Some (i, deliver) \<longrightarrow> (i, intent) \<in> set (nt_pending_requests t) \<longrightarrow>
      nt_events (network_step env allowlist input t) = nt_events t @ [deliver intent])"
proof -
  have ok: "pending_ok bound start" "nt_attached start" "given_answers start = []" "nt_pending_requests start = []"
    by (simp_all add: start network_task_new_def pending_ok_def given_answers_def)
  from run_network_accounts [OF assms(1) ok(1,2) assms(2), of allowlist] obtain given where given:
    "map fst given \<in> set (subseqs (List.map_filter answer_to inputs))"
    "step_accounts bound (sent_requests env allowlist inputs start) given start t"
    "distinct (map fst (sent_requests env allowlist inputs start))"
    unfolding t by blast
  then have "pending_ok bound t" "nt_attached t" by (simp_all add: step_accounts_def)
  from pending_answer_delivered [OF this] have next_answer:
    "\<forall>input i deliver intent. answer_to input = Some (i, deliver) \<longrightarrow> (i, intent) \<in> set (nt_pending_requests t) \<longrightarrow>
      nt_events (network_step env allowlist input t) = nt_events t @ [deliver intent]" by blast
  from given ok(3,4) show ?thesis
    by (intro exI [of _ given] conjI next_answer) (simp_all add: step_accounts_def given_answers_def)
qed

section \<open>Bootstrap peers\<close>

text \<open>Peers that are neither being dialed nor known to be connected.\<close>

definition dial_due :: "peer list \<Rightarrow> static_bootstrap \<Rightarrow> bool" where
  "dial_due connected target \<longleftrightarrow>
     sb_pending_connection target = None \<and> (\<forall>p \<in> set connected. sb_peer_id target \<noteq> Some p)"

text \<open>Dials one after the other: the connections, and which of them were started.\<close>

fun dial_each ::
  "('w, 'z) network_env_scheme \<Rightarrow> 'w \<Rightarrow> multiaddr list \<Rightarrow> 'w \<times> (connection_id \<times> bool) list" where
  "dial_each env w [] = (w, [])"
| "dial_each env w (a # as) =
     (case sw_dial env w a of (w, r) \<Rightarrow> case dial_each env w as of (w, rs) \<Rightarrow> (w, r # rs))"

text \<open>What becomes of a peer: a dial that was started is remembered.\<close>

definition dialed :: "(nat \<times> connection_id \<times> bool) list \<Rightarrow> static_bootstrap list \<Rightarrow> nat \<Rightarrow> static_bootstrap" where
  "dialed results targets j =
     (case map_of results j of
        Some (connection, True) \<Rightarrow> (targets ! j)\<lparr>sb_pending_connection := Some connection\<rparr>
      | _ \<Rightarrow> targets ! j)"

text \<open>The indices that a tick looks at, from the one at distance \<open>i\<close> from the cursor on.\<close>

definition scan :: "nat \<Rightarrow> nat \<Rightarrow> nat \<Rightarrow> nat \<Rightarrow> nat list" where
  "scan n cursor i j = map (\<lambda>k. (cursor + k) mod n) [i..<j]"

lemma should_dial_due: "should_dial connected target \<longleftrightarrow> dial_due connected target"
  by (auto simp: should_dial_def dial_due_def split: option.split)

lemma scan_Cons: "i < j \<Longrightarrow> scan n cursor i j = (cursor + i) mod n # scan n cursor (Suc i) j"
  by (simp add: scan_def upt_conv_Cons)

lemma scan_apart:
  assumes "k \<in> set (scan n cursor (Suc i) j)" "j \<le> n"
  shows "k \<noteq> (cursor + i) mod n"
proof
  assume eq: "k = (cursor + i) mod n"
  from assms obtain d where d: "k = (cursor + d) mod n" "i < d" "d < n" by (auto simp: scan_def)
  with eq have "(cursor + d) mod n = (cursor + i) mod n" by simp
  then have "n dvd (cursor + d) - (cursor + i)"
    using d(2) by (metis mod_eq_dvd_iff_nat add_le_cancel_left less_imp_le_nat)
  then have "n dvd d - i" by simp
  with d show False by (auto dest: dvd_imp_le)
qed

text \<open>The loop, in closed form.\<close>

definition redial_outcome ::
  "('w, 'z) network_env_scheme \<Rightarrow> peer list \<Rightarrow> nat \<Rightarrow> nat \<Rightarrow> nat \<Rightarrow> 'w \<Rightarrow> static_bootstrap list \<Rightarrow>
   'w \<Rightarrow> static_bootstrap list \<Rightarrow> nat \<Rightarrow> nat \<Rightarrow> nat list \<Rightarrow> (connection_id \<times> bool) list \<Rightarrow> bool" where
  "redial_outcome env connected cursor scanned attempts w targets w' targets' scanned' attempts' indices results \<longleftrightarrow>
     scanned \<le> scanned' \<and> scanned' \<le> length targets \<and>
     indices = filter (\<lambda>j. dial_due connected (targets ! j)) (scan (length targets) cursor scanned scanned') \<and>
     dial_each env w (map (\<lambda>j. sb_address (targets ! j)) indices) = (w', results) \<and>
     length results = length indices \<and>
     attempts' = attempts + length (filter snd results) \<and> attempts' \<le> 4 \<and>
     (attempts' < 4 \<longrightarrow> scanned' = length targets) \<and>
     (attempts < attempts' \<and> attempts' = 4 \<longrightarrow>
        indices \<noteq> [] \<and> last indices = (cursor + (scanned' - 1)) mod length targets \<and> snd (last results)) \<and>
     (attempts = 4 \<longrightarrow> scanned' = scanned) \<and>
     length targets' = length targets \<and>
     (\<forall>j < length targets. targets' ! j = dialed (zip indices results) targets j)"

text \<open>A peer that is dialed, then the rest of the loop.\<close>

lemma redial_outcome_dial:
  assumes go: "scanned < length targets" "attempts < 4" "should_dial connected (targets ! j)"
    and j: "j = (cursor + scanned) mod length targets"
    and dial: "sw_dial env w (sb_address (targets ! j)) = (w1, connection, started)"
    and rest: "redial_outcome env connected cursor (scanned + 1) (if started then attempts + 1 else attempts) w1
      (if started then targets[j := (targets ! j)\<lparr>sb_pending_connection := Some connection\<rparr>] else targets)
      w' targets' scanned' attempts' indices results"
  shows "redial_outcome env connected cursor scanned attempts w targets w' targets' scanned' attempts'
    (j # indices) ((connection, started) # results)"
proof -
  let ?n = "length targets"
  let ?targets = "if started then targets[j := (targets ! j)\<lparr>sb_pending_connection := Some connection\<rparr>] else targets"
  let ?attempts = "if started then attempts + 1 else attempts"
  have "targets \<noteq> []" using go(1) by auto
  then have jn: "j < ?n" unfolding j by (intro mod_less_divisor) auto
  have n: "length ?targets = ?n" by simp
  have bound: "scanned' \<le> ?n" using rest unfolding redial_outcome_def n by blast
  have apart: "?targets ! k = targets ! k" if "k \<in> set (scan ?n cursor (scanned + 1) scanned')" for k
    using scan_apart [of k ?n cursor scanned scanned'] that bound by (cases started) (simp_all add: j)
  then have ind: "filter (\<lambda>j. dial_due connected (?targets ! j)) (scan ?n cursor (scanned + 1) scanned') =
      filter (\<lambda>j. dial_due connected (targets ! j)) (scan ?n cursor (scanned + 1) scanned')"
    by (intro filter_cong refl) simp
  have ind: "indices = filter (\<lambda>j. dial_due connected (targets ! j)) (scan ?n cursor (scanned + 1) scanned')"
    using rest unfolding redial_outcome_def n ind by blast
  have addresses: "map (\<lambda>j. sb_address (?targets ! j)) indices = map (\<lambda>j. sb_address (targets ! j)) indices"
    using apart unfolding ind by (intro map_cong refl) simp
  have "dial_each env w1 (map (\<lambda>j. sb_address (?targets ! j)) indices) = (w', results)"
    using rest unfolding redial_outcome_def by blast
  then have dials: "dial_each env w1 (map (\<lambda>j. sb_address (targets ! j)) indices) = (w', results)"
    unfolding addresses .
  have "j \<notin> set indices"
    using scan_apart [of j ?n cursor scanned scanned'] bound j unfolding ind by auto
  then have "map_of (zip indices results) j = None"
    by (auto simp: map_of_eq_None_iff dest: set_zip_leftD)
  moreover have "\<forall>k < ?n. targets' ! k = dialed (zip indices results) ?targets k"
    using rest unfolding redial_outcome_def n by blast
  ultimately have marks: "\<forall>k < ?n. targets' ! k = dialed (zip (j # indices) ((connection, started) # results)) targets k"
    using jn by (cases started) (auto simp: dialed_def nth_list_update split: option.split bool.split)
  show ?thesis
    unfolding redial_outcome_def
  proof (intro conjI)
    have f: "scanned + 1 \<le> scanned'" "length results = length indices"
      "attempts' = ?attempts + length (filter snd results)" "attempts' \<le> 4" "attempts' < 4 \<longrightarrow> scanned' = ?n"
      "?attempts < attempts' \<and> attempts' = 4 \<longrightarrow>
         indices \<noteq> [] \<and> last indices = (cursor + (scanned' - 1)) mod ?n \<and> snd (last results)"
      "?attempts = 4 \<longrightarrow> scanned' = scanned + 1" "length targets' = ?n"
      using rest unfolding redial_outcome_def n by blast+
    then show "scanned \<le> scanned'" "scanned' \<le> ?n" "attempts' \<le> 4" "attempts' < 4 \<longrightarrow> scanned' = ?n"
      "length targets' = ?n" "length ((connection, started) # results) = length (j # indices)"
      using bound by simp_all
    show "j # indices = filter (\<lambda>j. dial_due connected (targets ! j)) (scan ?n cursor scanned scanned')"
      using f(1) go(3) ind by (simp add: scan_Cons should_dial_due j [symmetric])
    show "dial_each env w (map (\<lambda>j. sb_address (targets ! j)) (j # indices)) = (w', (connection, started) # results)"
      using dial dials by simp
    show "attempts' = attempts + length (filter snd ((connection, started) # results))"
      using f(3) by (cases started) simp_all
    show "attempts = 4 \<longrightarrow> scanned' = scanned" using go(2) by simp
    show "\<forall>k < ?n. targets' ! k = dialed (zip (j # indices) ((connection, started) # results)) targets k"
      by (rule marks)
    have none: "indices = []" if "?attempts = 4"
      using that f(7) unfolding ind by (simp add: scan_def)
    have last_one: "last (j # indices) = (cursor + (scanned' - 1)) mod ?n \<and> snd (last ((connection, started) # results))"
      if "attempts < attempts'" "attempts' = 4"
    proof (cases "?attempts = 4")
      case True
      with that go(2) none f(2,7) show ?thesis
        by (cases started) (auto simp: j)
    next
      case False
      with that(2) f(3) have "?attempts < attempts'" by linarith
      with f(2,6) that(2) show ?thesis by (cases results) auto
    qed
    then show "attempts < attempts' \<and> attempts' = 4 \<longrightarrow> j # indices \<noteq> [] \<and>
        last (j # indices) = (cursor + (scanned' - 1)) mod ?n \<and> snd (last ((connection, started) # results))"
      by blast
  qed
qed

lemma redial_loop_outcome:
  assumes "attempts \<le> 4" "scanned \<le> length targets"
    "redial_loop env connected cursor scanned attempts w targets = (w', targets', scanned', attempts')"
  shows "\<exists>indices results.
    redial_outcome env connected cursor scanned attempts w targets w' targets' scanned' attempts' indices results"
  using assms
proof (induction env connected cursor scanned attempts w targets rule: redial_loop.induct)
  case (1 env connected cursor scanned attempts w targets)
  let ?n = "length targets"
  let ?j = "(cursor + scanned) mod ?n"
  let ?target = "targets ! ?j"
  show ?case
  proof (cases "scanned < ?n \<and> attempts < MAX_BOOTSTRAP_DIALS_PER_TICK")
    case False
    then have "w' = w" "targets' = targets" "attempts' = attempts" "scanned' = scanned" "scanned = ?n \<or> attempts = 4"
      using "1.prems" by (auto simp: redial_loop.simps [of env] MAX_BOOTSTRAP_DIALS_PER_TICK_def)
    with "1.prems"(1,2) have
      "redial_outcome env connected cursor scanned attempts w targets w' targets' scanned' attempts' [] []"
      by (auto simp: redial_outcome_def scan_def dialed_def)
    then show ?thesis by blast
  next
    case go: True
    then have "targets \<noteq> []" by auto
    then have j: "?j < ?n" by (intro mod_less_divisor) auto
    show ?thesis
    proof (cases "should_dial connected ?target")
      case False
      have "redial_loop env connected cursor (scanned + 1) attempts w targets = (w', targets', scanned', attempts')"
        using "1.prems"(3) go False by (simp add: redial_loop.simps [of env _ _ scanned])
      then obtain indices results where rest:
        "redial_outcome env connected cursor (scanned + 1) attempts w targets w' targets' scanned' attempts' indices results"
        using "1.IH"(1) [OF go refl refl False "1.prems"(1)] go by auto
      then have "redial_outcome env connected cursor scanned attempts w targets w' targets' scanned' attempts' indices results"
        using False go by (auto simp: redial_outcome_def scan_Cons should_dial_due MAX_BOOTSTRAP_DIALS_PER_TICK_def)
      then show ?thesis by blast
    next
      case True
      obtain w1 connection started where dial: "sw_dial env w (sb_address ?target) = (w1, connection, started)"
        by (metis prod.collapse)
      let ?targets = "if started then targets[?j := ?target\<lparr>sb_pending_connection := Some connection\<rparr>] else targets"
      let ?attempts = "if started then attempts + 1 else attempts"
      have loop: "redial_loop env connected cursor (scanned + 1) ?attempts w1 ?targets = (w', targets', scanned', attempts')"
        using "1.prems"(3) go True dial
        by (cases started) (simp_all add: redial_loop.simps [of env connected cursor scanned attempts w targets] Let_def)
      have "\<exists>indices results.
          redial_outcome env connected cursor (scanned + 1) ?attempts w1 ?targets w' targets' scanned' attempts' indices results"
        using "1.IH"(2,3) [OF go refl refl, of w1 "(connection, started)" connection started] True dial loop go "1.prems"(1)
        by (auto simp: MAX_BOOTSTRAP_DIALS_PER_TICK_def split: if_splits)
      then obtain indices results where rest:
        "redial_outcome env connected cursor (scanned + 1) ?attempts w1 ?targets w' targets' scanned' attempts' indices results"
        by blast
      have "redial_outcome env connected cursor scanned attempts w targets w' targets' scanned' attempts'
          (?j # indices) ((connection, started) # results)"
        using go by (intro redial_outcome_dial [OF _ _ True refl dial rest]) (simp_all add: MAX_BOOTSTRAP_DIALS_PER_TICK_def)
      then show ?thesis by blast
    qed
  qed
qed

text \<open>How far ahead of the cursor a peer is.\<close>

definition ahead :: "nat \<Rightarrow> nat \<Rightarrow> nat \<Rightarrow> nat" where
  "ahead n cursor j = (j + n - cursor mod n) mod n"

lemma ahead_reaches:
  assumes "j < n"
  shows "(cursor + ahead n cursor j) mod n = j" "ahead n cursor j < n"
proof -
  have "cursor mod n < n" using assms by simp
  then have "cursor mod n + (j + n - cursor mod n) = j + n" by simp
  then have "(cursor mod n + (j + n - cursor mod n)) mod n = j" using assms by simp
  then show "(cursor + ahead n cursor j) mod n = j"
    unfolding ahead_def by (metis mod_add_left_eq mod_add_right_eq)
  show "ahead n cursor j < n" using assms by (simp add: ahead_def)
qed

lemma ahead_unique:
  assumes "(cursor + d) mod n = j" "d < n"
  shows "ahead n cursor j = d"
proof -
  have "j < n" using assms by auto
  note a = ahead_reaches [OF this, of cursor]
  with assms have eq: "(cursor + ahead n cursor j) mod n = (cursor + d) mod n" by simp
  show ?thesis
  proof (rule ccontr)
    have no: False if "x < y" "y < n" "(cursor + x) mod n = (cursor + y) mod n" for x y
      using scan_apart [of "(cursor + y) mod n" n cursor x n] that by (force simp: scan_def)
    assume "ahead n cursor j \<noteq> d"
    with no [OF _ assms(2) eq] no [OF _ a(2) eq [symmetric]] show False by linarith
  qed
qed

lemma scan_overtakes:
  assumes "j < n" "scanned \<le> n"
  shows "j \<in> set (scan n cursor 0 scanned) \<or>
    ahead n ((cursor + scanned) mod n) j + scanned = ahead n cursor j"
proof (cases "ahead n cursor j < scanned")
  case True
  with ahead_reaches [OF assms(1), of cursor] show ?thesis by (force simp: scan_def)
next
  case False
  then have "((cursor + scanned) mod n + (ahead n cursor j - scanned)) mod n = j"
    using ahead_reaches(1) [OF assms(1), of cursor]
    by (metis False add.assoc le_add_diff_inverse mod_add_left_eq not_less)
  then have "ahead n ((cursor + scanned) mod n) j = ahead n cursor j - scanned"
    using ahead_reaches(2) [OF assms(1), of cursor] by (intro ahead_unique) auto
  with False show ?thesis by simp
qed

text \<open>
  C36: What a redial tick does. From the cursor on and around, it looks at \<open>scanned\<close> peers and
  dials, in this order, exactly those that are neither being dialed nor connected; it stops
  right after the fourth dial that the swarm starts, or when every peer was looked at once; a
  started dial is remembered with its connection, a refused one leaves the peer due, and
  nothing else of any peer changes. The next tick goes on where this one stopped: a peer
  that was not looked at is at least four places nearer to the cursor, so that none
  waits longer than a quarter as many ticks as there are peers, whatever the swarm refuses.
\<close>

theorem redial_works_off_bootstrap_peers:
  assumes "redial_due env w b = (w', b')" and "bs_targets b \<noteq> []"
  defines "n \<equiv> length (bs_targets b)"
  shows "\<exists>scanned indices results.
    scanned \<le> n \<and>
    indices = filter (\<lambda>j. dial_due (sw_connected_peers env w) (bs_targets b ! j)) (scan n (bs_cursor b) 0 scanned) \<and>
    dial_each env w (map (\<lambda>j. sb_address (bs_targets b ! j)) indices) = (w', results) \<and>
    length results = length indices \<and> length (filter snd results) \<le> 4 \<and>
    (if length (filter snd results) < 4 then scanned = n
     else last indices = (bs_cursor b + (scanned - 1)) mod n \<and> snd (last results)) \<and>
    length (bs_targets b') = n \<and> (\<forall>j < n. bs_targets b' ! j = dialed (zip indices results) (bs_targets b) j) \<and>
    bs_cursor b' = (bs_cursor b + scanned) mod n \<and>
    (\<forall>j < n. j \<in> set (scan n (bs_cursor b) 0 scanned) \<or>
       ahead n (bs_cursor b') j + 4 \<le> ahead n (bs_cursor b) j)"
proof -
  obtain w1 targets scanned attempts where loop:
    "redial_loop env (sw_connected_peers env w) (bs_cursor b) 0 0 w (bs_targets b) = (w1, targets, scanned, attempts)"
    by (metis prod_cases4)
  then obtain indices results where r: "redial_outcome env (sw_connected_peers env w) (bs_cursor b) 0 0 w (bs_targets b)
      w1 targets scanned attempts indices results"
    using redial_loop_outcome [OF _ _ loop] by auto
  from loop assms(1,2) have b': "w' = w1" "bs_targets b' = targets" "bs_cursor b' = (bs_cursor b + scanned) mod n"
    by (auto simp: redial_due_def n_def)
  have "length indices \<le> scanned"
    using r length_filter_le [of _ "scan n (bs_cursor b) 0 scanned"] by (simp add: redial_outcome_def scan_def n_def)
  then have many: "length (filter snd results) \<le> scanned"
    using r length_filter_le [of snd results] by (simp add: redial_outcome_def)
  have "j \<in> set (scan n (bs_cursor b) 0 scanned) \<or> ahead n (bs_cursor b') j + 4 \<le> ahead n (bs_cursor b) j" if "j < n" for j
    using scan_overtakes [OF that, of scanned "bs_cursor b"] ahead_reaches [OF that, of "bs_cursor b"] r many that
    by (cases "scanned = n") (force simp: b'(3) redial_outcome_def scan_def n_def)+
  with r b' show ?thesis
    by (intro exI [of _ scanned] exI [of _ indices] exI [of _ results])
      (auto simp: redial_outcome_def n_def)
qed

section \<open>A swarm for the examples\<close>

text \<open>The state counts the requests and keeps the calls that were made.\<close>

definition demo_swarm :: "(nat \<times> (rstring \<times> bytes) list) network_env" where
  "demo_swarm =
     \<lparr>sw_connected_peers = \<lambda>_. [[1]], sw_dial = \<lambda>(n, sent) a. ((Suc n, sent), n, True),
      sw_publish = \<lambda>(n, sent) topic x. ((n, sent @ [(topic, x)]), Inr ()),
      sw_send_request = \<lambda>(n, sent) p r. ((Suc n, sent), n),
      sw_send_response = \<lambda>s channel response. s,
      borsh_envelope = \<lambda>e. Some [ucast (ge_version e)],
      borsh_envelope_parse = \<lambda>x. if x = [1] then Some
        \<lparr>ge_version = 1, ge_chain_id = str ''testnet'', ge_kind = GossipConsensus, ge_payload = []\<rparr> else None\<rparr>"

lemma demo_swarm_fresh: "fresh_request_ids demo_swarm fst"
  by (simp add: fresh_request_ids_def demo_swarm_def split_def)

text \<open>
  Seven peers, of which the second is connected and the third being dialed; the swarm refuses to
  dial \<open>d\<close>. The tick dials \<open>a\<close>, \<open>d\<close> (refused), \<open>e\<close>, \<open>f\<close> and \<open>g\<close>, and comes back to \<open>a\<close>.
\<close>

definition demo_refusing_swarm :: "(nat \<times> (rstring \<times> bytes) list) network_env" where
  "demo_refusing_swarm = demo_swarm\<lparr>sw_dial :=
     \<lambda>(n, sent) a. ((Suc n, sent @ [(a, [])]), n, a \<noteq> str ''d'')\<rparr>"

definition demo_peers :: static_bootstrap_set where
  "demo_peers = (let b = static_bootstrap_set_new (map str [''a'', ''b'', ''a'', ''c'', ''d'', ''e'', ''f'', ''g''])
     in b\<lparr>bs_targets := (bs_targets b)
       [1 := (bs_targets b ! 1)\<lparr>sb_peer_id := Some [1]\<rparr>, 2 := (bs_targets b ! 2)\<lparr>sb_pending_connection := Some 9\<rparr>]\<rparr>)"

theorem redial_works_off_bootstrap_peers_witness:
  "\<exists>indices results. map (\<lambda>j. sb_address (bs_targets demo_peers ! j)) indices = map str [''a'', ''d'', ''e'', ''f'', ''g''] \<and>
     dial_each demo_refusing_swarm (0, []) (map str [''a'', ''d'', ''e'', ''f'', ''g'']) =
       (fst (redial_due demo_refusing_swarm (0, []) demo_peers), results) \<and>
     length (filter snd results) = 4"
proof -
  let ?r = "redial_due demo_refusing_swarm (0, []) demo_peers"
  let ?dialed = "map str [''a'', ''d'', ''e'', ''f'', ''g'']"
  have all: "map (\<lambda>j. sb_address (bs_targets demo_peers ! j)) (filter (\<lambda>j. dial_due (sw_connected_peers demo_refusing_swarm (0, []))
      (bs_targets demo_peers ! j)) (scan (length (bs_targets demo_peers)) (bs_cursor demo_peers) 0 7)) = ?dialed"
    "length (filter snd (snd (dial_each demo_refusing_swarm (0, []) ?dialed))) = 4"
    "length (bs_targets demo_peers) = 7"
    by code_simp+
  have "?r = (fst ?r, snd ?r)" "bs_targets demo_peers \<noteq> []" using all(3) by auto
  from redial_works_off_bootstrap_peers [OF this] obtain scanned indices results where r: "scanned \<le> 7"
    "indices = filter (\<lambda>j. dial_due (sw_connected_peers demo_refusing_swarm (0, [])) (bs_targets demo_peers ! j))
      (scan 7 (bs_cursor demo_peers) 0 scanned)"
    "dial_each demo_refusing_swarm (0, []) (map (\<lambda>j. sb_address (bs_targets demo_peers ! j)) indices) = (fst ?r, results)"
    "if length (filter snd results) < 4 then scanned = 7
     else last indices = (bs_cursor demo_peers + (scanned - 1)) mod 7 \<and> snd (last results)"
    "bs_cursor (snd ?r) = (bs_cursor demo_peers + scanned) mod 7"
    unfolding all(3) by blast
  have "bs_cursor (snd ?r) = 0" "bs_cursor demo_peers = 0" by code_simp+
  then have "scanned = 7 \<or> scanned = 0" using r(1,5) by (cases "scanned = 7") auto
  moreover have "scanned \<noteq> 0"
  proof
    assume "scanned = 0"
    with r(2) have "indices = []" by (simp add: scan_def)
    with r(3) have "results = []" by simp
    with r(4) \<open>scanned = 0\<close> show False by simp
  qed
  ultimately have "map (\<lambda>j. sb_address (bs_targets demo_peers ! j)) indices = ?dialed"
    using r(2) all(1,3) by simp
  with r(3) all(2) show ?thesis by (intro exI [of _ indices] exI [of _ results]) simp
qed

text \<open>Two requests, of which the second is answered first, twice, and the first fails.\<close>

definition demo_inputs :: "network_input list" where
  "demo_inputs =
     [NetworkCommand (Request \<lparr>si_request_id = 1, si_peer = [1], si_request = SyncStatus\<rparr>),
      NetworkCommand (Request \<lparr>si_request_id = 2, si_peer = [1], si_request = SyncBlocks 5 10\<rparr>),
      RedialTick,
      SwarmEvent (SyncResponseMessage [1] 1 (RespondBlocks [])),
      SwarmEvent (SyncResponseMessage [1] 1 (RespondBlocks [])),
      SwarmEvent (OutboundFailure [1] 0 [])]"

definition demo_network :: "(nat \<times> (rstring \<times> bytes) list) network_task" where
  "demo_network = run_network demo_swarm [] demo_inputs (network_task_new (0, []) [str ''a''] True)"

theorem sync_answers_match_requests_witness:
  "\<exists>given :: (request_answer \<times> sync_intent) list.
     [NetSyncResponse [1] \<lparr>si_request_id = 2, si_peer = [1], si_request = SyncBlocks 5 10\<rparr> (RespondBlocks []),
      NetSyncFailure [1] \<lparr>si_request_id = 1, si_peer = [1], si_request = SyncStatus\<rparr> []] =
       map (\<lambda>((i, deliver), intent). deliver intent) given \<and>
     mset (map (\<lambda>((i, deliver), intent). (i, intent)) given) =
       {#(0, \<lparr>si_request_id = 1, si_peer = [1], si_request = SyncStatus\<rparr>),
         (1, \<lparr>si_request_id = 2, si_peer = [1], si_request = SyncBlocks 5 10\<rparr>)#}"
proof -
  have "filter is_answer (nt_events demo_network) =
      [NetSyncResponse [1] \<lparr>si_request_id = 2, si_peer = [1], si_request = SyncBlocks 5 10\<rparr> (RespondBlocks []),
       NetSyncFailure [1] \<lparr>si_request_id = 1, si_peer = [1], si_request = SyncStatus\<rparr> []]"
    "nt_pending_requests demo_network = []" "ReceiverAttached False \<notin> set demo_inputs"
    "sent_requests demo_swarm [] demo_inputs (network_task_new (0, []) [str ''a''] True) =
      [(0, \<lparr>si_request_id = 1, si_peer = [1], si_request = SyncStatus\<rparr>),
       (1, \<lparr>si_request_id = 2, si_peer = [1], si_request = SyncBlocks 5 10\<rparr>)]"
    by code_simp+
  note facts = this
  from sync_answers_match_requests [OF demo_swarm_fresh facts(3) refl demo_network_def]
  show ?thesis unfolding facts by (elim exE conjE) (intro exI conjI; assumption?; simp)
qed

section \<open>Gossip between two nodes\<close>

text \<open>The call of the network handle that stands behind each message a node sends.\<close>

definition send_output ::
  "'z actor_env_scheme \<Rightarrow> rstring \<Rightarrow> node_output \<Rightarrow> network_command option" where
  "send_output env chain sent_output =
     (case sent_output of
        SendConsensus wire \<Rightarrow> map_option (publish_consensus chain) (borsh_wire env wire)
      | SendFinalized b certificate \<Rightarrow> map_option (publish_finalized chain) (borsh_record env (b, certificate))
      | SendTransaction t \<Rightarrow> Some (publish_transaction chain (tx_canonical_bytes env t))
      | SendStatus sgnd \<Rightarrow> map_option (publish_status chain) (borsh_signed_status env sgnd)
      | SendSyncRequest request_id p request \<Rightarrow>
          Some (Request \<lparr>si_request_id = request_id, si_peer = p, si_request = request\<rparr>)
      | SendSyncResponse response_token response \<Rightarrow> Some (Respond response_token response)
      | _ \<Rightarrow> None)"

text \<open>The command that a gossiped message is for the node that receives it.\<close>

definition received_as :: "peer option \<Rightarrow> node_output \<Rightarrow> command option" where
  "received_as source sent_output =
     (case sent_output of
        SendConsensus wire \<Rightarrow> Some (ConsensusMessage source wire)
      | SendFinalized b certificate \<Rightarrow> Some (ImportFinalized b certificate source)
      | SendTransaction t \<Rightarrow> Some (Submit t False)
      | SendStatus sgnd \<Rightarrow> Some (ValidatorStatus sgnd)
      | _ \<Rightarrow> None)"

text \<open>
  What Borsh writes for the message is read back as the message; for a transaction this is
  the round trip of the signed transaction, which the receiver also verifies.
\<close>

definition message_restores :: "'z bridge_env_scheme \<Rightarrow> node_output \<Rightarrow> bool" where
  "message_restores env sent_output \<longleftrightarrow>
     (case sent_output of
        SendConsensus wire \<Rightarrow> (\<forall>x. borsh_wire env wire = Some x \<longrightarrow> borsh_wire_parse env x = Some wire)
      | SendFinalized b certificate \<Rightarrow>
          (\<forall>x. borsh_record env (b, certificate) = Some x \<longrightarrow> borsh_record_parse env x = Some (b, certificate))
      | SendTransaction t \<Rightarrow> unborsh_signed_tx env (borsh_signed_tx env t) = Some t
      | SendStatus sgnd \<Rightarrow>
          (\<forall>x. borsh_signed_status env sgnd = Some x \<longrightarrow> borsh_signed_status_parse env x = Some sgnd)
      | _ \<Rightarrow> False)"

definition envelope_restores :: "('w, 'y) network_env_scheme \<Rightarrow> gossip_envelope \<Rightarrow> bool" where
  "envelope_restores swarm e \<longleftrightarrow>
     (\<forall>x. borsh_envelope swarm e = Some x \<longrightarrow> borsh_envelope_parse swarm x = Some e)"

text \<open>
  A transaction that may be gossiped: signed by its sender and of a size that fits. The
  actor gossips what \<open>accept_transaction\<close> admitted.
\<close>

definition gossip_admissible :: "'z bridge_env_scheme \<Rightarrow> node_output \<Rightarrow> bool" where
  "gossip_admissible env sent_output \<longleftrightarrow>
     (case sent_output of
        SendTransaction t \<Rightarrow>
          tx_verify_signature env t = Inr () \<and> length (tx_canonical_bytes env t) \<le> MAX_TRANSACTION_BYTES
      | _ \<Rightarrow> True)"

text \<open>
  The way of a gossiped message into the network task of a node of \<open>chain\<close>: gossipsub hands a
  subscriber the messages of the topics it has subscribed to, and no others.
\<close>

definition gossip_arrives ::
  "('w, 'y) network_env_scheme \<Rightarrow> rstring \<Rightarrow> peer list \<Rightarrow> peer \<Rightarrow> peer option \<Rightarrow> rstring \<Rightarrow> bytes \<Rightarrow>
   'w network_task \<Rightarrow> 'w network_task" where
  "gossip_arrives swarm chain allowlist p source topic x receiver =
     (if topic \<in> set (subscribed_topics chain)
      then network_step swarm allowlist (SwarmEvent (GossipMessage p source x)) receiver else receiver)"

lemma bridge_reads_publish:
  assumes "message_restores env sent_output" "gossip_admissible env sent_output"
    "send_output env chain sent_output = Some (Publish topic e)"
  shows "ge_version e = 1 \<and> bridge_command env chain (Gossip source e) = received_as source sent_output"
  using assms
  by (cases sent_output)
    (auto simp: send_output_def message_restores_def received_as_def publish_consensus_def
      publish_finalized_def publish_transaction_def publish_status_def publish_def gossip_admissible_def
      tx_decode_def tx_canonical_bytes_def ok_or_def bridge_command_def gossip_command_def Let_def)

lemma published_under:
  assumes "send_output env chain sent_output = Some (Publish topic e)"
  shows "ge_chain_id e = chain" "chain @ str ''/'' @ topic \<in> set (subscribed_topics chain)"
  using assms
  by (cases sent_output; force simp: send_output_def publish_consensus_def subscribed_topics_def
    publish_finalized_def publish_transaction_def publish_status_def publish_def)+

text \<open>No topic belongs to two chains.\<close>

lemma topics_apart:
  assumes "topic \<in> set (subscribed_topics chain)" "topic \<in> set (subscribed_topics other)"
  shows "chain = other"
proof -
  have "rev topic \<in> set (map rev (subscribed_topics chain))" "rev topic \<in> set (map rev (subscribed_topics other))"
    using assms by simp_all
  then show ?thesis
    by (auto simp: subscribed_topics_def TRANSACTIONS_TOPIC_def CONSENSUS_TOPIC_def FINALIZED_TOPIC_def str_def)
qed

text \<open>
  C29: What one node gossips is what another handles. The message is published once, under a
  topic of its chain, to which the nodes of that chain subscribe and those of another
  do not. So a listening node of the chain whose allowlist admits the peer passing it on gets
  exactly one event from those bytes, which the bridge turns into the command for
  the same message; from a peer outside its allowlist it gets none, a node of another chain
  is not handed the bytes, and would make no command of the event.
\<close>

theorem gossip_reaches_the_node:
  assumes "message_restores env sent_output" "gossip_admissible env sent_output" "envelope_restores swarm e"
    and sent: "send_output env chain sent_output = Some (Publish topic e)" "borsh_envelope swarm e = Some x"
    and "nt_attached receiver"
  shows "\<exists>full_topic ev.
    nt_swarm (network_step swarm allowed (NetworkCommand (Publish topic e)) sender) =
      fst (sw_publish swarm (nt_swarm sender) full_topic x) \<and>
    nt_events (gossip_arrives swarm chain allowlist p source full_topic x receiver) =
      nt_events receiver @ (if allowlist = [] \<or> p \<in> set allowlist then [ev] else []) \<and>
    bridge_command env chain ev = received_as source sent_output \<and>
    (\<forall>other. other \<noteq> chain \<longrightarrow> bridge_command env other ev = None \<and>
       gossip_arrives swarm other allowlist p source full_topic x receiver = receiver)"
proof (intro exI conjI)
  let ?topic = "chain @ str ''/'' @ topic"
  have e: "ge_version e = 1" "bridge_command env chain (Gossip source e) = received_as source sent_output"
    using bridge_reads_publish [OF assms(1,2) sent(1)] by simp_all
  note under = published_under [OF sent(1)]
  show "nt_swarm (network_step swarm allowed (NetworkCommand (Publish topic e)) sender) =
      fst (sw_publish swarm (nt_swarm sender) ?topic x)"
    by (simp add: network_step_def network_handle_command_def envelope_encode_def sent(2) under(1) split: prod.split)
  have "envelope_decode swarm x = Inr e"
    using assms(3) sent(2) e(1) by (simp add: envelope_restores_def envelope_decode_def)
  then show "nt_events (gossip_arrives swarm chain allowlist p source ?topic x receiver) =
      nt_events receiver @ (if allowlist = [] \<or> p \<in> set allowlist then [Gossip source e] else [])"
    using assms(6) under(2)
    by (simp add: gossip_arrives_def network_step_def handle_swarm_event_def receive_gossip_def send_event_def)
  show "bridge_command env chain (Gossip source e) = received_as source sent_output" by (rule e(2))
  show "\<forall>other. other \<noteq> chain \<longrightarrow> bridge_command env other (Gossip source e) = None \<and>
      gossip_arrives swarm other allowlist p source ?topic x receiver = receiver"
    using under topics_apart [OF under(2)] by (auto simp: bridge_command_def gossip_arrives_def)
qed

definition demo_bridge_env :: bridge_env where
  "demo_bridge_env = actor_env.extend demo_node_env
     (bridge_env.fields (\<lambda>_. Some (WireVote (demo_dev_vote 2 Prevote))) (\<lambda>_. None))"

theorem gossip_reaches_the_node_witness:
  "\<exists>ev. nt_events (gossip_arrives demo_swarm (str ''testnet'') [] [9] (Some [9]) (str ''testnet/kcoin/consensus/1'') [1] demo_network) =
      nt_events demo_network @ [ev] \<and>
    bridge_command demo_bridge_env (str ''testnet'') ev =
      Some (ConsensusMessage (Some [9]) (WireVote (demo_dev_vote 2 Prevote)))"
proof -
  let ?out = "SendConsensus (WireVote (demo_dev_vote 2 Prevote))"
  let ?e = "\<lparr>ge_version = 1, ge_chain_id = str ''testnet'', ge_kind = GossipConsensus, ge_payload = []\<rparr>"
  have "message_restores demo_bridge_env ?out" "gossip_admissible demo_bridge_env ?out"
    by (simp_all add: message_restores_def gossip_admissible_def demo_bridge_env_def actor_env.defs bridge_env.defs)
  moreover have "envelope_restores demo_swarm ?e" "borsh_envelope demo_swarm ?e = Some [1]"
    by (simp_all add: envelope_restores_def demo_swarm_def)
  moreover have "send_output demo_bridge_env (str ''testnet'') ?out = Some (Publish CONSENSUS_TOPIC ?e)"
    by (simp add: send_output_def publish_consensus_def publish_def demo_bridge_env_def
        actor_env.defs bridge_env.defs demo_node_env_def node_env.defs consensus_env.defs)
  moreover have "nt_attached demo_network" by code_simp
  ultimately obtain full_topic ev where
    "nt_swarm (network_step demo_swarm [] (NetworkCommand (Publish CONSENSUS_TOPIC ?e)) demo_network) =
      fst (sw_publish demo_swarm (nt_swarm demo_network) full_topic [1])"
    "nt_events (gossip_arrives demo_swarm (str ''testnet'') [] [9] (Some [9]) full_topic [1] demo_network) =
      nt_events demo_network @ [ev]"
    "bridge_command demo_bridge_env (str ''testnet'') ev = received_as (Some [9]) ?out"
    using gossip_reaches_the_node [of demo_bridge_env ?out demo_swarm ?e "str ''testnet''" CONSENSUS_TOPIC
        "[1]" demo_network "[]" demo_network "[]" "[9]" "Some [9]"]
    by auto
  moreover from this(1) have "full_topic = str ''testnet/kcoin/consensus/1''"
    by (auto simp: network_step_def network_handle_command_def envelope_encode_def demo_swarm_def CONSENSUS_TOPIC_def
        str_def split: prod.splits)
  ultimately show ?thesis by (auto simp: received_as_def)
qed

end
