(* ===== verification/Config.thy ===== *)
theory Config
  imports Network
begin

text \<open>
  Configuration and start of the process: \<open>kcoin-node/src/config.rs\<close>, and \<open>main.rs\<close> up to
  the running node. The command-line parser, the file system, libp2p's addresses and the
  start of the network are third-party code or the environment: they are arguments.
\<close>

section \<open>Arguments and configuration\<close>

text \<open>\<open>to_ascii_lowercase\<close>.\<close>

definition ascii_lowercase :: "rstring \<Rightarrow> rstring" where
  "ascii_lowercase s = map (\<lambda>c. if 65 \<le> c \<and> c \<le> 90 then c + 32 else c) s"

definition role_from_str :: "rstring \<Rightarrow> node_error + node_role" where
  "role_from_str value =
     (let lower = ascii_lowercase value in
      if lower = str ''validator'' then Inr Validator
      else if lower = str ''observer'' then Inr Observer
      else if lower = str ''standalone'' then Inr Standalone
      else Inl (NodeBail ''role must be validator, observer, or standalone''))"

type_synonym path = rstring

record node_args =
  ag_chain_id :: rstring
  ag_role :: node_role
  ag_validator_index :: "u16 option"
  ag_api_addr :: rstring
  ag_p2p_port :: u16
  ag_db_path :: path
  ag_peers :: "rstring list"
  ag_heartbeat_ms :: u64
  ag_demo :: bool

text \<open>The fields that only the start of the process reads, next to those of the runtime.\<close>

record process_config = node_config +
  pc_api_addr :: rstring
  pc_p2p_port :: u16
  pc_db_path :: path
  pc_peers :: "rstring list"

text \<open>
  The path of the database: \<open>canonicalize\<close> succeeds for an existing file, otherwise the
  directory above is created.
\<close>

record file_system =
  fs_canonicalize :: "path \<Rightarrow> path option"
  fs_parent :: "path \<Rightarrow> path option"
  fs_create_dir_all :: "path \<Rightarrow> bool"

definition prepare_db_path :: "file_system \<Rightarrow> path \<Rightarrow> node_error + path" where
  "prepare_db_path fs db_path =
     (case fs_canonicalize fs db_path of
        Some canonical \<Rightarrow> Inr canonical
      | None \<Rightarrow>
          let parent = (case fs_parent fs db_path of None \<Rightarrow> str ''.'' | Some p \<Rightarrow> p)
          in if fs_create_dir_all fs parent then Inr db_path
             else Inl (NodeBail ''prepare database path''))"

definition config_try_from :: "file_system \<Rightarrow> node_args \<Rightarrow> node_error + process_config" where
  "config_try_from fs args =
     (if ag_chain_id args = [] \<or> str_len (ag_chain_id args) > 50
      then Inl (NodeBail ''chain id must be between 1 and 50 characters'')
      else if ag_role args = Validator \<and> ag_validator_index args = None
      then Inl (NodeBail ''validator nodes require --validator-index'')
      else if (case ag_validator_index args of None \<Rightarrow> False | Some index \<Rightarrow> index \<ge> 4) \<and>
              ag_chain_id args = str ''kcoin-local-1''
      then Inl (NodeBail ''the default local network has validator indices 0 through 3'')
      else and_then (prepare_db_path fs (ag_db_path args)) (\<lambda>db_path.
        Inr \<lparr>nc_chain_id = ag_chain_id args, nc_role = ag_role args,
             nc_validator_index = ag_validator_index args,
             nc_heartbeat_ms = max (ag_heartbeat_ms args) 250, nc_demo = ag_demo args,
             pc_api_addr = ag_api_addr args, pc_p2p_port = ag_p2p_port args,
             pc_db_path = db_path, pc_peers = ag_peers args\<rparr>))"

section \<open>The start of the process\<close>

text \<open>
  The parameters are the file system, \<open>Store::open\<close> (\<open>None\<close> when it fails), the parser of peer
  addresses and \<open>spawn_network\<close>, which gives the peers and the next request id of its
  handle. The actor that \<open>start_node\<close> returns is the running node.
\<close>

record process_env =
  pe_file_system :: file_system
  pe_open_store :: "path \<Rightarrow> store option"
  pe_parse_multiaddr :: "rstring \<Rightarrow> multiaddr option"
  pe_spawn_network :: "rstring \<Rightarrow> u16 \<Rightarrow> multiaddr list \<Rightarrow> (peer list \<times> u64) option"

definition open_network ::
  "process_env \<Rightarrow> process_config \<Rightarrow> multiaddr list \<Rightarrow> node_error + (peer list \<times> u64) option" where
  "open_network process config bootstrap =
     (case pe_spawn_network process (nc_chain_id config) (pc_p2p_port config) bootstrap of
        Some network \<Rightarrow> Inr (Some network)
      | None \<Rightarrow>
          if nc_demo config then Inr None else Inl (NodeBail ''start libp2p network''))"

definition node_main ::
  "'z actor_env_scheme \<Rightarrow> process_env \<Rightarrow> node_args \<Rightarrow> u64 \<Rightarrow> duration \<Rightarrow> node_error + node_actor" where
  "node_main env process args clock_ms instant =
     and_then (config_try_from (pe_file_system process) args) (\<lambda>config.
     and_then (ok_or (pe_open_store process (pc_db_path config)) (NodeBail ''open node database'')) (\<lambda>db.
     and_then (collect_results
         (\<lambda>p. ok_or (pe_parse_multiaddr process p) (NodeBail ''invalid peer'')) (pc_peers config)) (\<lambda>bootstrap.
     and_then (open_network process config bootstrap) (\<lambda>network.
       start_node env (node_config.truncate config) db network clock_ms instant))))"

section \<open>What a configuration guarantees\<close>

text \<open>Whatever the spelling in upper or lower case, a role is read as itself.\<close>

fun role_text :: "node_role \<Rightarrow> rstring" where
  "role_text Validator = str ''validator''"
| "role_text Observer = str ''observer''"
| "role_text Standalone = str ''standalone''"

lemma role_text_inject: "role_text r = role_text s \<longleftrightarrow> r = s"
  by (cases r; cases s) (simp_all add: str_def)

lemma role_from_str_ok: "role_from_str value = Inr r \<longleftrightarrow> ascii_lowercase value = role_text r"
  by (cases r) (auto simp: role_from_str_def Let_def str_def)

lemma config_try_from_ok:
  assumes "config_try_from fs args = Inr config"
  shows "nc_chain_id config = ag_chain_id args" "nc_role config = ag_role args"
    "nc_validator_index config = ag_validator_index args" "250 \<le> nc_heartbeat_ms config"
    "ag_chain_id args \<noteq> []" "str_len (ag_chain_id args) \<le> 50"
    "ag_role args = Validator \<Longrightarrow> ag_validator_index args \<noteq> None"
    "ag_chain_id args = str ''kcoin-local-1'' \<Longrightarrow> ag_validator_index args = Some i \<Longrightarrow> i < 4"
  using assms by (auto simp: config_try_from_def result_simps not_le split: if_splits)

text \<open>
  A configuration of the default local network always has a signing key for a validator, so
  the start of the node cannot fail for want of one.
\<close>

lemma local_network_has_key:
  assumes "config_try_from fs args = Inr config" "ag_chain_id args = str ''kcoin-local-1''"
  shows "is_ok (local_signing_key env (node_config.truncate config))"
proof (cases "ag_role args = Validator")
  case True
  with config_try_from_ok [OF assms(1)] obtain i where i: "ag_validator_index args = Some i" by blast
  with config_try_from_ok(8) [OF assms] have "unat i < 4" by (simp add: word_less_nat_alt)
  with i True config_try_from_ok(2,3) [OF assms(1)] show ?thesis
    by (simp add: local_signing_key_def node_config.defs deterministic_dev_validator_keys_def is_ok_iff)
next
  case False
  with config_try_from_ok(2) [OF assms(1)] show ?thesis
    by (simp add: local_signing_key_def node_config.defs)
qed

end
