(* ===== verification/Api.thy ===== *)
theory Api
  imports Network
begin

text \<open>
  The HTTP API of a node (\<open>kcoin-node/src/api.rs\<close>): each handler as a function of the
  request, the snapshot and the store behind the \<open>NodeHandle\<close>, with errors as an HTTP status,
  a stable code and a message. Routing, JSON text, the event stream and Base64 are
  third-party code: a handler gets its decoded request and returns the record that is
  serialized. Where \<open>to_string\<close> of an address panics the result is \<open>None\<close>. The floating point
  \<open>sync_progress\<close> is left out.
\<close>

section \<open>Errors\<close>

record api_error =
  ae_status :: nat
  ae_code :: rstring
  ae_message :: rstring

definition bad_request :: "rstring \<Rightarrow> rstring \<Rightarrow> api_error" where
  "bad_request code message = \<lparr>ae_status = 400, ae_code = code, ae_message = message\<rparr>"

definition not_found :: "rstring \<Rightarrow> rstring \<Rightarrow> api_error" where
  "not_found code message = \<lparr>ae_status = 404, ae_code = code, ae_message = message\<rparr>"

definition unavailable :: "rstring \<Rightarrow> rstring \<Rightarrow> api_error" where
  "unavailable code message = \<lparr>ae_status = 503, ae_code = code, ae_message = message\<rparr>"

definition internal :: "rstring \<Rightarrow> api_error" where
  "internal message = \<lparr>ae_status = 500, ae_code = str ''INTERNAL'', ae_message = message\<rparr>"

fun validation_status :: "validation_error \<Rightarrow> nat" where
  "validation_status DuplicateTransaction = 409"
| "validation_status (InsufficientBalance _ _) = 422"
| "validation_status (NonceMismatch _ _) = 422"
| "validation_status (StaleChallenge _ _) = 422"
| "validation_status WrongChallengeAnswer = 422"
| "validation_status (Expired _ _) = 422"
| "validation_status _ = 400"

record challenge_response =
  cr_challenge_id :: rstring
  cr_expression :: rstring
  cr_issued_at_height :: rstring
  cr_reward_atoms :: rstring

record api_env = actor_env +
  base64_encode :: "bytes \<Rightarrow> rstring"
  base64_decode :: "rstring \<Rightarrow> bytes option"
  timestamp_iso :: "u64 \<Rightarrow> rstring"
    \<comment> \<open>\<open>chrono\<close>\<close>
  json_challenge_read :: "rstring \<Rightarrow> challenge_response option"

definition api_validation :: "'z node_env_scheme \<Rightarrow> validation_error \<Rightarrow> api_error" where
  "api_validation env e =
     \<lparr>ae_status = validation_status e, ae_code = str (error_code e),
      ae_message = validation_error_text env e\<rparr>"

definition storage_failed :: api_error where
  "storage_failed = internal (str ''persistent explorer data is temporarily unavailable'')"

text \<open>The conversion that \<open>?\<close> applies to an error of the store.\<close>

definition from_store :: "storage_error + 'a \<Rightarrow> api_error + 'a" where
  "from_store r = map_err (\<lambda>_. storage_failed) r"

section \<open>Parsing\<close>

definition decode_fixed :: "'z api_env_scheme \<Rightarrow> nat \<Rightarrow> rstring \<Rightarrow> rstring \<Rightarrow> api_error + bytes" where
  "decode_fixed env n value field =
     (case base64_decode env value of
        None \<Rightarrow> Inl (bad_request (str ''MALFORMED'') (field @ str '' must be canonical base64''))
      | Some x \<Rightarrow>
          if length x = n then Inr x
          else Inl (bad_request (str ''MALFORMED'')
            (field @ str '' must contain '' @ nat_to_string n @ str '' bytes'')))"

definition api_parse_u64 :: "rstring \<Rightarrow> rstring \<Rightarrow> api_error + u64" where
  "api_parse_u64 value field =
     ok_or (parse_u64 value)
       (bad_request (str ''MALFORMED'') (field @ str '' must be an unsigned 64-bit decimal string''))"

text \<open>\<open>parse\<close> at the narrower types fails where the value does not fit.\<close>

definition parse_u32 :: "rstring \<Rightarrow> u32 option" where
  "parse_u32 s = (case parse_u64 s of
     None \<Rightarrow> None | Some w \<Rightarrow> if w \<le> 4294967295 then Some (ucast w) else None)"

definition parse_u16 :: "rstring \<Rightarrow> u16 option" where
  "parse_u16 s = (case parse_u64 s of
     None \<Rightarrow> None | Some w \<Rightarrow> if w \<le> 65535 then Some (ucast w) else None)"

fun split_once :: "rchar \<Rightarrow> rstring \<Rightarrow> (rstring \<times> rstring) option" where
  "split_once c [] = None"
| "split_once c (x # xs) =
     (if x = c then Some ([], xs) else map_option (\<lambda>(a, b). (x # a, b)) (split_once c xs))"

definition malformed_cursor :: "rstring \<Rightarrow> api_error" where
  "malformed_cursor message = bad_request (str ''MALFORMED_CURSOR'') message"

definition parse_transaction_cursor :: "rstring \<Rightarrow> api_error + u64 \<times> u32" where
  "parse_transaction_cursor value =
     and_then (ok_or (split_once 58 value)
       (malformed_cursor (str ''transaction cursor must have height:index form''))) (\<lambda>(height, index).
     and_then (ok_or (parse_u64 height)
       (malformed_cursor (str ''transaction cursor height must be an unsigned decimal integer''))) (\<lambda>height.
     and_then (ok_or (parse_u32 index)
       (malformed_cursor (str ''transaction cursor index must be an unsigned decimal integer''))) (\<lambda>index.
       Inr (height, index))))"

text \<open>\<open>Option::map\<close> and \<open>transpose\<close>: an absent cursor is no error.\<close>

definition optional :: "('a \<Rightarrow> 'e + 'b) \<Rightarrow> 'a option \<Rightarrow> 'e + 'b option" where
  "optional f x = (case x of None \<Rightarrow> Inr None | Some y \<Rightarrow> and_then (f y) (\<lambda>z. Inr (Some z)))"

definition basis_points :: "u64 \<Rightarrow> u64 \<Rightarrow> u32" where
  "basis_points value whole =
     (if whole = 0 then 0
      else ucast (min ((ucast value * 10000 :: 128 word) div ucast whole) 10000))"

fun api_operation_symbol :: "challenge_operation \<Rightarrow> rstring" where
  "api_operation_symbol Add = [43]"
| "api_operation_symbol Subtract = [8722]"
| "api_operation_symbol Multiply = [215]"

section \<open>The handle\<close>

record node_handle =
  nh_snapshot :: runtime_snapshot
  nh_store :: store

record cursor_query =
  cq_cursor :: "rstring option"
  cq_limit :: "u32 option"

record 'a paginated =
  pg_items :: "'a list"
  pg_next_cursor :: "rstring option"

definition page_limit :: "u32 \<Rightarrow> cursor_query \<Rightarrow> u32" where
  "page_limit preset query =
     (let limit = (case cq_limit query of None \<Rightarrow> preset | Some l \<Rightarrow> l)
      in if limit < 1 then 1 else if limit > 100 then 100 else limit)"

text \<open>
  One row more than the page is fetched; if it is there, the page is cut and its last row
  gives the cursor of the next one.
\<close>

definition cut_page :: "u32 \<Rightarrow> ('a \<Rightarrow> rstring) \<Rightarrow> 'a list \<Rightarrow> 'a list \<times> rstring option" where
  "cut_page limit cursor_of rows =
     (let has_more = length rows > unat limit;
          rows = take (unat limit) rows
      in (rows, if has_more then Some (cursor_of (last rows)) else None))"

section \<open>Status\<close>

record validator_response =
  vr_id :: rstring
  vr_name :: rstring
  vr_index :: u16
  vr_online :: bool
  vr_phase :: rstring
  vr_height :: rstring
  vr_round :: u32
  vr_block_hash :: rstring
  vr_state_root :: rstring
  vr_last_seen_ms :: rstring

record status_response =
  sr_chain_id :: rstring
  sr_protocol_version :: u16
  sr_height :: rstring
  sr_finalized_hash :: rstring
  sr_state_root :: rstring
  sr_circulating_supply_atoms :: rstring
  sr_max_supply_atoms :: rstring
  sr_mempool_size :: rstring
  sr_peer_count :: rstring
  sr_block_time_ms :: rstring
  sr_validators :: "validator_response list"
  sr_syncing :: bool
  sr_halted :: bool

definition validator_response_of :: "validator_view \<Rightarrow> validator_response" where
  "validator_response_of v =
     \<lparr>vr_id = vv_id v, vr_name = vv_name v, vr_index = vv_index v, vr_online = vv_online v,
      vr_phase = vv_phase v, vr_height = vv_height v, vr_round = vv_round v,
      vr_block_hash = vv_block_hash v, vr_state_root = vv_state_root v,
      vr_last_seen_ms = u64_to_string (vv_last_seen_ms v)\<rparr>"

definition status_response_of :: "runtime_snapshot \<Rightarrow> status_response" where
  "status_response_of s =
     \<lparr>sr_chain_id = rs_chain_id s, sr_protocol_version = rs_protocol_version s,
      sr_height = rs_height s, sr_finalized_hash = rs_finalized_hash s,
      sr_state_root = rs_state_root s,
      sr_circulating_supply_atoms = rs_circulating_supply_atoms s,
      sr_max_supply_atoms = rs_max_supply_atoms s,
      sr_mempool_size = nat_to_string (rs_mempool_size s),
      sr_peer_count = nat_to_string (rs_peer_count s),
      sr_block_time_ms = u64_to_string (rs_block_time_ms s),
      sr_validators = map validator_response_of (rs_validators s),
      sr_syncing = rs_syncing s, sr_halted = rs_halted s\<rparr>"

definition get_status :: "node_handle \<Rightarrow> status_response" where
  "get_status h = status_response_of (nh_snapshot h)"

definition get_validators :: "node_handle \<Rightarrow> validator_response list" where
  "get_validators h = sr_validators (status_response_of (nh_snapshot h))"

definition snapshot_supply :: "runtime_snapshot \<Rightarrow> u64" where
  "snapshot_supply s = (case parse_u64 (rs_circulating_supply_atoms s) of None \<Rightarrow> 0 | Some n \<Rightarrow> n)"

definition get_challenge :: "'z api_env_scheme \<Rightarrow> node_handle \<Rightarrow> api_error + challenge_response" where
  "get_challenge env h =
     (case store_metadata (nh_store h) (str ''challenge'') of
        Some value \<Rightarrow>
          ok_or (json_challenge_read env value) (internal (str ''stored challenge is invalid''))
      | None \<Rightarrow>
          let challenge = challenge_for_id env 0;
              supply = snapshot_supply (nh_snapshot h)
          in Inr \<lparr>cr_challenge_id = u64_to_string (ch_id challenge),
                  cr_expression = nat_to_string (unat (ch_left challenge)) @ str '' '' @
                    api_operation_symbol (ch_operation challenge) @ str '' '' @
                    nat_to_string (unat (ch_right challenge)),
                  cr_issued_at_height = rs_height (nh_snapshot h),
                  cr_reward_atoms = u64_to_string
                    (case reward_for_supply supply of None \<Rightarrow> 0 | Some r \<Rightarrow> r)\<rparr>)"

text \<open>Status code, state and height.\<close>

definition health_ready :: "node_handle \<Rightarrow> nat \<times> rstring \<times> rstring" where
  "health_ready h =
     (let s = nh_snapshot h in
      if rs_halted s then (503, str ''halted'', rs_height s)
      else if rs_syncing s then (503, str ''syncing'', rs_height s)
      else (200, str ''ready'', rs_height s))"

definition metrics :: "node_handle \<Rightarrow> rstring" where
  "metrics h =
     (let s = nh_snapshot h; newline = [10] in
      str ''# TYPE kcoin_chain_height gauge'' @ newline @
      str ''kcoin_chain_height '' @ rs_height s @ newline @
      str ''# TYPE kcoin_mempool_size gauge'' @ newline @
      str ''kcoin_mempool_size '' @ nat_to_string (rs_mempool_size s) @ newline @
      str ''# TYPE kcoin_connected_peers gauge'' @ newline @
      str ''kcoin_connected_peers '' @ nat_to_string (rs_peer_count s) @ newline @
      str ''# TYPE kcoin_circulating_supply_atoms gauge'' @ newline @
      str ''kcoin_circulating_supply_atoms '' @ rs_circulating_supply_atoms s @ newline)"

section \<open>Blocks and transactions\<close>

record explorer_transaction =
  et_id :: rstring
  et_kind :: rstring
  et_status :: rstring
  et_sender :: rstring
  et_recipient :: "rstring option"
  et_amount_atoms :: rstring
  et_nonce :: rstring
  et_display_name :: "rstring option"
  et_block_height :: rstring
  et_block_hash :: rstring
  et_timestamp :: rstring

record explorer_commit_signature =
  es_validator :: rstring
  es_signature :: rstring

record explorer_certificate =
  ec_chain_id :: rstring
  ec_height :: rstring
  ec_round :: u32
  ec_consensus_value_hash :: rstring
  ec_signatures :: "explorer_commit_signature list"

record explorer_block =
  eb_height :: rstring
  eb_hash :: rstring
  eb_parent_hash :: rstring
  eb_proposer :: rstring
  eb_round :: u32
  eb_header_proposer :: rstring
  eb_header_round :: u32
  eb_timestamp :: rstring
  eb_transaction_count :: rstring
  eb_transaction_root :: rstring
  eb_state_root :: rstring
  eb_signers :: "rstring list"
  eb_certificate :: explorer_certificate
  eb_transactions :: "explorer_transaction list option"

definition transaction_at ::
  "'z api_env_scheme \<Rightarrow> block \<Rightarrow> transaction_row \<Rightarrow> signed_transaction option" where
  "transaction_at env b row =
     (if unat (tr_index row) < length (bk_transactions b)
      then let t = bk_transactions b ! unat (tr_index row)
           in if hash32_display env (tx_id env t) = tr_id row then Some t else None
      else None)"

definition displayed_name :: "store \<Rightarrow> transaction_row \<Rightarrow> signed_transaction \<Rightarrow> rstring option" where
  "displayed_name db row t =
     (case ut_action (st_unsigned t) of
        SetDisplayName name \<Rightarrow> name
      | _ \<Rightarrow> Option.bind (store_account db (transaction_row.tr_sender row)) ap_display_name)"

definition explorer_transaction_of ::
  "'z api_env_scheme \<Rightarrow> node_handle \<Rightarrow> transaction_row \<Rightarrow> api_error + explorer_transaction" where
  "explorer_transaction_of env h row =
     and_then (from_store (block_by_height (nh_store h) (tr_block_height row))) (\<lambda>found.
     and_then (ok_or found (internal (str ''transaction references a missing block''))) (\<lambda>stored.
     and_then (map_err (api_validation env) (block_decode env (br_block_bytes stored))) (\<lambda>b.
     and_then (ok_or (transaction_at env b row)
       (internal (str ''transaction projection disagrees with canonical block history''))) (\<lambda>t.
       Inr \<lparr>et_id = tr_id row, et_kind = tr_kind row, et_status = str ''finalized'',
            et_sender = transaction_row.tr_sender row, et_recipient = tr_recipient row,
            et_amount_atoms = u64_to_string (tr_amount_atoms row),
            et_nonce = u64_to_string (transaction_row.tr_nonce row),
            et_display_name = displayed_name (nh_store h) row t,
            et_block_height = u64_to_string (tr_block_height row),
            et_block_hash = br_block_hash stored,
            et_timestamp = timestamp_iso env (br_timestamp_ms stored)\<rparr>))))"

definition validator_label :: "runtime_snapshot \<Rightarrow> rstring \<Rightarrow> rstring" where
  "validator_label s validator_hex =
     (case find (\<lambda>v. vv_id v = validator_hex) (rs_validators s) of
        None \<Rightarrow> validator_hex
      | Some v \<Rightarrow> str ''validator-'' @ nat_to_string (unat (vv_index v + 1)))"

definition finality_proposer :: "runtime_snapshot \<Rightarrow> block_row \<Rightarrow> commit_certificate \<Rightarrow> rstring" where
  "finality_proposer s row certificate =
     (let n = length (rs_validators s) in
      if n = 0 then br_proposer row
      else let height_offset = unat (saturating_sub (cc_height certificate) 1) mod n;
               round_offset = unat (cc_round certificate) mod n;
               index = (height_offset + round_offset) mod n
           in str ''validator-'' @ nat_to_string (unat (vv_index (rs_validators s ! index) + 1)))"

definition certificate_view :: "'z api_env_scheme \<Rightarrow> commit_certificate \<Rightarrow> explorer_certificate" where
  "certificate_view env certificate =
     \<lparr>ec_chain_id = chain_str (cc_chain_id certificate),
      ec_height = u64_to_string (cc_height certificate), ec_round = cc_round certificate,
      ec_consensus_value_hash = hash32_display env (cc_block_hash certificate),
      ec_signatures = map (\<lambda>signature.
        \<lparr>es_validator = hex_encode env (vid_as_bytes (cs_validator signature)),
         es_signature = hex_encode env (cs_signature signature)\<rparr>) (cc_signatures certificate)\<rparr>"

definition block_transactions ::
  "'z api_env_scheme \<Rightarrow> node_handle \<Rightarrow> block \<Rightarrow> api_error + explorer_transaction list" where
  "block_transactions env h b =
     collect_results (\<lambda>t.
       and_then (ok_or (store_transaction (nh_store h) (hash32_display env (tx_id env t)))
         (internal (str ''transaction projection is missing from finalized block'')))
         (explorer_transaction_of env h)) (bk_transactions b)"

definition explorer_block_of ::
  "'z api_env_scheme \<Rightarrow> node_handle \<Rightarrow> bool \<Rightarrow> block_row \<Rightarrow> api_error + explorer_block" where
  "explorer_block_of env h include_transactions row =
     and_then (map_err (api_validation env) (block_decode env (br_block_bytes row))) (\<lambda>b.
     and_then (map_err (api_validation env) (certificate_decode env (br_certificate_bytes row))) (\<lambda>certificate.
     and_then (if include_transactions then and_then (block_transactions env h b) (\<lambda>ts. Inr (Some ts))
               else Inr None) (\<lambda>transactions.
       Inr \<lparr>eb_height = u64_to_string (br_height row), eb_hash = br_block_hash row,
            eb_parent_hash = br_parent_hash row,
            eb_proposer = finality_proposer (nh_snapshot h) row certificate,
            eb_round = cc_round certificate,
            eb_header_proposer = validator_label (nh_snapshot h) (br_proposer row),
            eb_header_round = br_round row,
            eb_timestamp = timestamp_iso env (br_timestamp_ms row),
            eb_transaction_count = nat_to_string (length (bk_transactions b)),
            eb_transaction_root = hash32_display env (bh_transactions_root (bk_header b)),
            eb_state_root = br_state_root row,
            eb_signers = map (\<lambda>signature.
                validator_label (nh_snapshot h) (hex_encode env (vid_as_bytes (cs_validator signature))))
              (cc_signatures certificate),
            eb_certificate = certificate_view env certificate,
            eb_transactions = transactions\<rparr>)))"

definition block_page ::
  "store \<Rightarrow> cursor_query \<Rightarrow> api_error + block_row list \<times> rstring option" where
  "block_page db query =
     and_then (optional (\<lambda>cursor. ok_or (parse_u64 cursor)
       (malformed_cursor (str ''cursor must be a block height''))) (cq_cursor query)) (\<lambda>before.
     let limit = page_limit 25 query in
     and_then (from_store (list_blocks db before (limit + 1))) (\<lambda>rows.
       Inr (cut_page limit (\<lambda>row. u64_to_string (br_height row)) rows)))"

definition get_blocks ::
  "'z api_env_scheme \<Rightarrow> node_handle \<Rightarrow> cursor_query \<Rightarrow> api_error + explorer_block paginated" where
  "get_blocks env h query =
     and_then (block_page (nh_store h) query) (\<lambda>(rows, next_cursor).
     and_then (collect_results (explorer_block_of env h False) rows) (\<lambda>items.
       Inr \<lparr>pg_items = items, pg_next_cursor = next_cursor\<rparr>))"

definition get_block :: "'z api_env_scheme \<Rightarrow> node_handle \<Rightarrow> rstring \<Rightarrow> api_error + explorer_block" where
  "get_block env h selector =
     and_then (case parse_u64 selector of
         Some height \<Rightarrow> from_store (block_by_height (nh_store h) height)
       | None \<Rightarrow> Inr (block_by_hash (nh_store h) selector)) (\<lambda>found.
     and_then (ok_or found (not_found (str ''BLOCK_NOT_FOUND'') (str ''block was not found'')))
       (explorer_block_of env h True))"

definition transaction_page ::
  "store \<Rightarrow> cursor_query \<Rightarrow> api_error + transaction_row list \<times> rstring option" where
  "transaction_page db query =
     and_then (optional parse_transaction_cursor (cq_cursor query)) (\<lambda>before.
     let limit = page_limit 25 query in
     and_then (from_store (list_transactions db before (limit + 1))) (\<lambda>rows.
       Inr (cut_page limit
         (\<lambda>row. u64_to_string (tr_block_height row) @ str '':'' @ u32_to_string (tr_index row)) rows)))"

definition get_transactions ::
  "'z api_env_scheme \<Rightarrow> node_handle \<Rightarrow> cursor_query \<Rightarrow> api_error + explorer_transaction paginated" where
  "get_transactions env h query =
     and_then (transaction_page (nh_store h) query) (\<lambda>(rows, next_cursor).
     and_then (collect_results (explorer_transaction_of env h) rows) (\<lambda>items.
       Inr \<lparr>pg_items = items, pg_next_cursor = next_cursor\<rparr>))"

definition get_transaction ::
  "'z api_env_scheme \<Rightarrow> node_handle \<Rightarrow> rstring \<Rightarrow> api_error + explorer_transaction" where
  "get_transaction env h tid =
     and_then (ok_or (store_transaction (nh_store h) tid)
       (not_found (str ''TRANSACTION_NOT_FOUND'') (str ''transaction was not found'')))
       (explorer_transaction_of env h)"

section \<open>Accounts\<close>

record address_response =
  ar_address :: rstring
  ar_display_name :: "rstring option"
  ar_balance_atoms :: rstring
  ar_nonce :: rstring
  ar_transaction_count :: rstring
  ar_first_seen_height :: "rstring option"
  ar_transactions :: "explorer_transaction list"

definition get_address ::
  "'z api_env_scheme \<Rightarrow> node_handle \<Rightarrow> rstring \<Rightarrow> (api_error + address_response) option" where
  "get_address env h text_form =
     (case address_from_str env text_form of
        None \<Rightarrow> None
      | Some (Inl e) \<Rightarrow> Some (Inl (api_validation env e))
      | Some (Inr parsed) \<Rightarrow>
          let account = store_account (nh_store h) text_form in
          case collect_results (explorer_transaction_of env h)
                 (address_transactions (nh_store h) text_form 100) of
            Inl e \<Rightarrow> Some (Inl e)
          | Inr transactions \<Rightarrow>
              map_option (\<lambda>canonical. Inr
                \<lparr>ar_address = canonical,
                 ar_display_name = Option.bind account ap_display_name,
                 ar_balance_atoms = (case account of None \<Rightarrow> str ''0'' | Some x \<Rightarrow> u64_to_string (ap_balance_atoms x)),
                 ar_nonce = (case account of None \<Rightarrow> str ''0'' | Some x \<Rightarrow> u64_to_string (ap_nonce x)),
                 ar_transaction_count = u64_to_string
                   (case account of None \<Rightarrow> 0 | Some x \<Rightarrow> ap_transaction_count x),
                 ar_first_seen_height =
                   map_option u64_to_string (account_first_seen_height (nh_store h) text_form),
                 ar_transactions = transactions\<rparr>) (address_display env parsed))"

record leaderboard_entry =
  le_rank :: u32
  le_address :: rstring
  le_display_name :: "rstring option"
  le_balance_atoms :: rstring
  le_share_bps :: u32
  le_transaction_count :: rstring

record leaderboard_response =
  lr_entries :: "leaderboard_entry list"
  lr_next_cursor :: "rstring option"
  lr_circulating_supply_atoms :: rstring
  lr_unissued_supply_atoms :: rstring
  lr_top_1_bps :: u32
  lr_top_5_bps :: u32
  lr_top_10_bps :: u32

definition leaderboard_entry_of :: "u64 \<Rightarrow> u32 \<Rightarrow> nat \<times> account_projection \<Rightarrow> leaderboard_entry" where
  "leaderboard_entry_of supply offset = (\<lambda>(index, account).
     \<lparr>le_rank = saturating_add (saturating_add offset (of_nat index)) 1,
      le_address = ap_address account, le_display_name = ap_display_name account,
      le_balance_atoms = u64_to_string (ap_balance_atoms account),
      le_share_bps = basis_points (ap_balance_atoms account) supply,
      le_transaction_count = u64_to_string (ap_transaction_count account)\<rparr>)"

text \<open>The sum of balances wraps as in a release build.\<close>

definition concentration_for :: "account_projection list \<Rightarrow> u64 \<Rightarrow> nat \<Rightarrow> u32" where
  "concentration_for accounts supply n =
     basis_points (sum_list (map ap_balance_atoms (take n accounts))) supply"

definition get_leaderboard :: "node_handle \<Rightarrow> cursor_query \<Rightarrow> api_error + leaderboard_response" where
  "get_leaderboard h query =
     (let supply = snapshot_supply (nh_snapshot h) in
      and_then (optional (\<lambda>cursor. ok_or (parse_u32 cursor)
        (malformed_cursor (str ''cursor must be a decimal row offset''))) (cq_cursor query)) (\<lambda>cursor.
      let offset = (case cursor of None \<Rightarrow> 0 | Some c \<Rightarrow> c);
          limit = page_limit 30 query;
          rows = leaderboard_page (nh_store h) (limit + 1) offset;
          page = cut_page limit (\<lambda>_. u32_to_string (saturating_add offset limit)) rows;
          top = leaderboard (nh_store h) 10
      in Inr \<lparr>lr_entries = map (leaderboard_entry_of supply offset) (enumerate 0 (fst page)),
              lr_next_cursor = snd page,
              lr_circulating_supply_atoms = u64_to_string supply,
              lr_unissued_supply_atoms = u64_to_string (saturating_sub MAX_SUPPLY_ATOMS supply),
              lr_top_1_bps = concentration_for top supply 1,
              lr_top_5_bps = concentration_for top supply 5,
              lr_top_10_bps = concentration_for top supply 10\<rparr>))"

section \<open>Submitting a transaction\<close>

datatype action_submission =
    SubmitTransfer rstring rstring
  | SubmitClaimReward rstring rstring
  | SubmitSetDisplayName "rstring option"

record transaction_submission =
  ts_protocol_version :: u16
  ts_chain_id :: rstring
  ts_sender_public_key :: rstring
  ts_nonce :: rstring
  ts_expiry_height :: rstring
  ts_action :: action_submission
  ts_signature :: rstring

definition action_from_submission ::
  "'z api_env_scheme \<Rightarrow> action_submission \<Rightarrow> (api_error + transaction_action) option" where
  "action_from_submission env action =
     (case action of
        SubmitTransfer recipient amount \<Rightarrow>
          map_option (\<lambda>parsed.
            and_then (map_err (api_validation env) parsed) (\<lambda>recipient.
            and_then (api_parse_u64 amount (str ''amount_atoms'')) (\<lambda>amount.
              Inr (Transfer recipient amount)))) (address_from_str env recipient)
      | SubmitClaimReward challenge_id answer \<Rightarrow> Some
          (and_then (api_parse_u64 challenge_id (str ''challenge_id'')) (\<lambda>challenge_id.
           and_then (ok_or (parse_u16 answer)
             (bad_request (str ''MALFORMED'') (str ''answer must be an unsigned 16-bit integer''))) (\<lambda>answer.
             Inr (ClaimReward challenge_id answer))))
      | SubmitSetDisplayName name \<Rightarrow> Some (Inr (SetDisplayName name)))"

definition submission_parts ::
  "'z api_env_scheme \<Rightarrow> transaction_submission \<Rightarrow>
   api_error + bytes \<times> bytes \<times> chain_id \<times> u64 \<times> u64" where
  "submission_parts env submission =
     and_then (decode_fixed env 32 (ts_sender_public_key submission) (str ''sender_public_key'')) (\<lambda>public_key.
     and_then (decode_fixed env 64 (ts_signature submission) (str ''signature'')) (\<lambda>signature.
     and_then (map_err (api_validation env) (chain_id_new (ts_chain_id submission))) (\<lambda>chain.
     and_then (api_parse_u64 (ts_nonce submission) (str ''nonce'')) (\<lambda>nonce.
     and_then (api_parse_u64 (ts_expiry_height submission) (str ''expiry_height'')) (\<lambda>expiry_height.
       Inr (public_key, signature, chain, nonce, expiry_height))))))"

definition transaction_from_submission ::
  "'z api_env_scheme \<Rightarrow> transaction_submission \<Rightarrow> (api_error + signed_transaction) option" where
  "transaction_from_submission env submission =
     (case submission_parts env submission of
        Inl e \<Rightarrow> Some (Inl e)
      | Inr (public_key, signature, chain, nonce, expiry_height) \<Rightarrow>
          map_option (\<lambda>parsed. and_then parsed (\<lambda>action.
            map_err (api_validation env) (tx_from_parts env
              \<lparr>ut_protocol_version = ts_protocol_version submission, ut_chain_id = chain,
               ut_sender_public_key = public_key, ut_nonce = nonce,
               ut_expiry_height = expiry_height, ut_action = action\<rparr> signature)))
            (action_from_submission env (ts_action submission)))"

definition ensure_submission_ready :: "runtime_snapshot \<Rightarrow> api_error + unit" where
  "ensure_submission_ready s =
     (if rs_halted s
      then Inl (unavailable (str ''NODE_HALTED'')
        (str ''node is safety-halted and cannot accept transactions''))
      else if rs_syncing s
      then Inl (unavailable (str ''NODE_SYNCING'')
        (str ''node is verifying finalized history and cannot accept transactions''))
      else Inr ())"

text \<open>\<open>NodeHandle::submit\<close>: the actor's answer to the command that asks for gossip.\<close>

definition handle_submit ::
  "'z actor_env_scheme \<Rightarrow> node_actor \<Rightarrow> signed_transaction \<Rightarrow> node_actor \<times> (validation_error + hash32)" where
  "handle_submit env a t = accept_transaction env a t True"

text \<open>
  The handler, with the actor that answers it: \<open>None\<close> as the payload is a rejected JSON body.
  The result is the id of the pending transaction, the body of the 202 response.
\<close>

definition submit_transaction ::
  "'z api_env_scheme \<Rightarrow> runtime_snapshot \<Rightarrow> transaction_submission option \<Rightarrow> node_actor \<Rightarrow>
   node_actor \<times> (api_error + rstring) option" where
  "submit_transaction env s payload a =
     (case ensure_submission_ready s of
        Inl e \<Rightarrow> (a, Some (Inl e))
      | Inr _ \<Rightarrow>
        case payload of
          None \<Rightarrow> (a, Some (Inl (bad_request (str ''MALFORMED'')
            (str ''request body must be valid transaction JSON with application/json content type''))))
        | Some submission \<Rightarrow>
          case transaction_from_submission env submission of
            None \<Rightarrow> (a, None)
          | Some (Inl e) \<Rightarrow> (a, Some (Inl e))
          | Some (Inr t) \<Rightarrow>
            case handle_submit env a t of
              (a, Inl e) \<Rightarrow> (a, Some (Inl (api_validation env e)))
            | (a, Inr tid) \<Rightarrow> (a, Some (Inr (hash32_display env tid))))"

end
