(* ===== verification/Cli.thy ===== *)
theory Cli
  imports Api
begin

text \<open>
  The command line \<open>kcoin-cli/src/main.rs\<close>: wallet files, the verification and the re-indexing
  of a database, and the client of the API with which \<open>benchmark\<close> submits transactions. Files
  are a map from paths to bytes, the parser of JSON text is a parameter; an HTTP response is
  its status with the JSON value and the text of its body. The JSON values of requests and
  responses are those that the derived serializers of the API's records produce. Printing,
  wall-clock measurements and the floating point numbers of the report are left out.
\<close>

section \<open>JSON values\<close>

datatype json =
    JNull
  | JBool bool
  | JNumber u64
  | JString rstring
  | JArray "json list"
  | JObject "(rstring \<times> json) list"

definition json_get :: "rstring \<Rightarrow> json \<Rightarrow> json option" where
  "json_get field v = (case v of JObject entries \<Rightarrow> map_of entries field | _ \<Rightarrow> None)"

fun json_str :: "json \<Rightarrow> rstring option" where
  "json_str (JString s) = Some s"
| "json_str _ = None"

datatype cli_error =
    CliBail string
  | OmittedField rstring
  | NotDecimal rstring
  | HttpStatus nat rstring
  | CliValidation validation_error
  | CliNode node_error

definition string_field :: "json \<Rightarrow> rstring \<Rightarrow> cli_error + rstring" where
  "string_field v field =
     ok_or (Option.bind (json_get field v) json_str) (OmittedField field)"

definition decimal_field :: "json \<Rightarrow> rstring \<Rightarrow> cli_error + u64" where
  "decimal_field v field =
     and_then (string_field v field) (\<lambda>s. ok_or (parse_u64 s) (NotDecimal field))"

section \<open>HTTP\<close>

record http_response =
  hr_status :: nat
  hr_json :: "json option"
    \<comment> \<open>\<open>None\<close> when the body is not JSON\<close>
  hr_text :: rstring

definition is_success :: "nat \<Rightarrow> bool" where
  "is_success s \<longleftrightarrow> 200 \<le> s \<and> s < 300"

definition parse_response :: "http_response \<Rightarrow> cli_error + json" where
  "parse_response response =
     (if \<not> is_success (hr_status response)
      then Inl (HttpStatus (hr_status response)
        (case Option.bind (hr_json response)
                (\<lambda>v. Option.bind (json_get (str ''message'') v) json_str) of
           Some detail \<Rightarrow> detail
         | None \<Rightarrow> hr_text response))
      else ok_or (hr_json response) (CliBail ''decode node JSON response''))"

definition endpoint :: "rstring \<Rightarrow> rstring \<Rightarrow> rstring" where
  "endpoint base path = rev (dropWhile (\<lambda>c. c = 47) (rev base)) @ path"

record account_view =
  av_balance_atoms :: u64
  av_nonce :: u64

definition get_account :: "http_response \<Rightarrow> cli_error + account_view option" where
  "get_account response =
     (if hr_status response = 404 then Inr None
      else and_then (parse_response response) (\<lambda>v.
           and_then (decimal_field v (str ''balance_atoms'')) (\<lambda>balance.
           and_then (decimal_field v (str ''nonce'')) (\<lambda>nonce.
             Inr (Some \<lparr>av_balance_atoms = balance, av_nonce = nonce\<rparr>)))))"

section \<open>Submitting a transaction\<close>

definition action_json :: "'z crypto_env_scheme \<Rightarrow> transaction_action \<Rightarrow> json option" where
  "action_json env action =
     (case action of
        Transfer recipient amount \<Rightarrow>
          map_option (\<lambda>text_form. JObject
            [(str ''type'', JString (str ''transfer'')), (str ''recipient'', JString text_form),
             (str ''amount_atoms'', JString (u64_to_string amount))]) (address_display env recipient)
      | ClaimReward challenge_id answer \<Rightarrow> Some (JObject
            [(str ''type'', JString (str ''claim_reward'')),
             (str ''challenge_id'', JString (u64_to_string challenge_id)),
             (str ''answer'', JString (u64_to_string (ucast answer)))])
      | SetDisplayName name \<Rightarrow> Some (JObject
            [(str ''type'', JString (str ''set_display_name'')),
             (str ''display_name'', case name of None \<Rightarrow> JNull | Some n \<Rightarrow> JString n)]))"

text \<open>The body of the request; \<open>None\<close> is the panic of an address without text.\<close>

definition submission_json :: "'z api_env_scheme \<Rightarrow> signed_transaction \<Rightarrow> json option" where
  "submission_json env t =
     (let u = st_unsigned t in
      map_option (\<lambda>action. JObject
        [(str ''protocol_version'', JNumber (ucast (ut_protocol_version u))),
         (str ''chain_id'', JString (chain_str (ut_chain_id u))),
         (str ''sender_public_key'', JString (base64_encode env (ut_sender_public_key u))),
         (str ''nonce'', JString (u64_to_string (ut_nonce u))),
         (str ''expiry_height'', JString (u64_to_string (ut_expiry_height u))),
         (str ''action'', action),
         (str ''signature'', JString (base64_encode env (st_signature t)))])
        (action_json env (ut_action u)))"

text \<open>How the API's derived deserializer reads the body: \<open>None\<close> is a rejected one.\<close>

definition action_of_json :: "json \<Rightarrow> action_submission option" where
  "action_of_json v =
     (let text_field = (\<lambda>field. Option.bind (json_get (str field) v) json_str) in
      case text_field ''type'' of
        None \<Rightarrow> None
      | Some kind \<Rightarrow>
          if kind = str ''transfer'' then
            Option.bind (text_field ''recipient'') (\<lambda>recipient.
              map_option (SubmitTransfer recipient) (text_field ''amount_atoms''))
          else if kind = str ''claim_reward'' then
            Option.bind (text_field ''challenge_id'') (\<lambda>challenge_id.
              map_option (SubmitClaimReward challenge_id) (text_field ''answer''))
          else if kind = str ''set_display_name'' then
            (case json_get (str ''display_name'') v of
               None \<Rightarrow> Some (SubmitSetDisplayName None)
             | Some JNull \<Rightarrow> Some (SubmitSetDisplayName None)
             | Some (JString n) \<Rightarrow> Some (SubmitSetDisplayName (Some n))
             | Some _ \<Rightarrow> None)
          else None)"

definition submission_of_json :: "json \<Rightarrow> transaction_submission option" where
  "submission_of_json v =
     (let text_field = (\<lambda>field. Option.bind (json_get (str field) v) json_str) in
      Option.bind (json_get (str ''protocol_version'') v) (\<lambda>version.
      Option.bind (case version of JNumber n \<Rightarrow> if n \<le> 65535 then Some n else None | _ \<Rightarrow> None) (\<lambda>n.
      Option.bind (text_field ''chain_id'') (\<lambda>chain.
      Option.bind (text_field ''sender_public_key'') (\<lambda>public_key.
      Option.bind (text_field ''nonce'') (\<lambda>nonce.
      Option.bind (text_field ''expiry_height'') (\<lambda>expiry_height.
      Option.bind (Option.bind (json_get (str ''action'') v) action_of_json) (\<lambda>action.
      map_option (\<lambda>signature.
        \<lparr>ts_protocol_version = ucast n, ts_chain_id = chain, ts_sender_public_key = public_key,
         ts_nonce = nonce, ts_expiry_height = expiry_height, ts_action = action,
         ts_signature = signature\<rparr>) (text_field ''signature'')))))))))"

text \<open>The API's answers as HTTP responses.\<close>

definition error_response :: "api_error \<Rightarrow> http_response" where
  "error_response e =
     \<lparr>hr_status = ae_status e,
      hr_json = Some (JObject [(str ''code'', JString (ae_code e)), (str ''message'', JString (ae_message e))]),
      hr_text = []\<rparr>"

definition json_response :: "nat \<Rightarrow> json \<Rightarrow> http_response" where
  "json_response status v = \<lparr>hr_status = status, hr_json = Some v, hr_text = []\<rparr>"

definition submission_response :: "api_error + rstring \<Rightarrow> http_response" where
  "submission_response r =
     (case r of
        Inl e \<Rightarrow> error_response e
      | Inr tid \<Rightarrow> json_response 202
          (JObject [(str ''transaction_id'', JString tid), (str ''status'', JString (str ''pending''))]))"

definition optional_field :: "string \<Rightarrow> rstring option \<Rightarrow> (rstring \<times> json) list" where
  "optional_field field v = (case v of None \<Rightarrow> [] | Some s \<Rightarrow> [(str field, JString s)])"

definition transaction_json :: "explorer_transaction \<Rightarrow> json" where
  "transaction_json r =
     JObject ([(str ''id'', JString (et_id r)), (str ''kind'', JString (et_kind r)),
        (str ''status'', JString (et_status r)), (str ''sender'', JString (et_sender r))] @
      optional_field ''recipient'' (et_recipient r) @
      [(str ''amount_atoms'', JString (et_amount_atoms r)), (str ''nonce'', JString (et_nonce r))] @
      optional_field ''display_name'' (et_display_name r) @
      [(str ''block_height'', JString (et_block_height r)),
       (str ''block_hash'', JString (et_block_hash r)), (str ''timestamp'', JString (et_timestamp r))])"

definition address_json :: "address_response \<Rightarrow> json" where
  "address_json r =
     JObject ([(str ''address'', JString (ar_address r))] @
      optional_field ''display_name'' (ar_display_name r) @
      [(str ''balance_atoms'', JString (ar_balance_atoms r)), (str ''nonce'', JString (ar_nonce r)),
       (str ''transaction_count'', JString (ar_transaction_count r))] @
      optional_field ''first_seen_height'' (ar_first_seen_height r) @
      [(str ''transactions'', JArray (map transaction_json (ar_transactions r)))])"

text \<open>\<open>submit\<close> of the command line, for a transport that takes the body to the response.\<close>

definition cli_submit ::
  "'z api_env_scheme \<Rightarrow> (json \<Rightarrow> http_response) \<Rightarrow> signed_transaction \<Rightarrow> (cli_error + rstring) option" where
  "cli_submit env post t =
     map_option (\<lambda>body. and_then (parse_response (post body)) (\<lambda>v. string_field v (str ''transaction_id'')))
       (submission_json env t)"

definition cli_sign_transaction ::
  "'z api_env_scheme \<Rightarrow> rstring \<Rightarrow> bytes \<Rightarrow> u64 \<Rightarrow> u64 \<Rightarrow> transaction_action \<Rightarrow> cli_error + signed_transaction" where
  "cli_sign_transaction env chain signing_key nonce expiry_height action =
     map_err CliValidation (and_then (chain_id_new chain) (\<lambda>chain.
       tx_sign env (unsigned_new chain (ed25519_public env signing_key) nonce expiry_height action) signing_key))"

text \<open>The transfers of the benchmark, one atom each.\<close>

definition benchmark_transfer ::
  "'z api_env_scheme \<Rightarrow> rstring \<Rightarrow> bytes \<Rightarrow> u64 \<Rightarrow> u64 \<Rightarrow> address \<Rightarrow> u32 \<Rightarrow> cli_error + signed_transaction" where
  "benchmark_transfer env chain signing_key nonce height recipient offset =
     cli_sign_transaction env chain signing_key (nonce + ucast offset)
       (saturating_add height (100 + ucast offset)) (Transfer recipient 1)"

text \<open>The funding claim of the benchmark, answering the challenge that the API shows.\<close>

definition benchmark_claim ::
  "'z api_env_scheme \<Rightarrow> rstring \<Rightarrow> bytes \<Rightarrow> u64 \<Rightarrow> u64 \<Rightarrow> rstring \<Rightarrow> cli_error + signed_transaction" where
  "benchmark_claim env chain signing_key nonce height challenge_text =
     and_then (ok_or (parse_u64 challenge_text) (CliBail ''challenge id'')) (\<lambda>challenge_id.
       cli_sign_transaction env chain signing_key nonce (saturating_add height 100)
         (ClaimReward challenge_id (challenge_answer (challenge_for_id env challenge_id))))"

text \<open>
  Nearest-rank percentiles. The index is out of bounds, and the program panics, only for an
  empty list; the result is converted to floating point afterwards.
\<close>

definition percentile :: "u64 list \<Rightarrow> nat \<Rightarrow> u64 option" where
  "percentile raw_micros p =
     (let sorted = sort raw_micros;
          index = (p * length sorted + 99) div 100 - 1
      in if index < length sorted then Some (sorted ! index) else None)"

section \<open>Wallets\<close>

record wallet_file =
  wf_format :: rstring
  wf_secret_seed :: rstring
  wf_public_key :: rstring
  wf_address :: rstring

record wallet_env = api_env +
  json_wallet :: "wallet_file \<Rightarrow> bytes"
  json_wallet_read :: "bytes \<Rightarrow> wallet_file option"

definition WALLET_FORMAT :: rstring where "WALLET_FORMAT = str ''kcoin-secret-seed-v1''"

type_synonym files = "(rstring \<times> bytes) list"

definition write_secret_file :: "files \<Rightarrow> rstring \<Rightarrow> bytes \<Rightarrow> bool \<Rightarrow> cli_error + files" where
  "write_secret_file files path contents force =
     (if \<not> force \<and> map_of files path \<noteq> None then Inl (CliBail ''create wallet'')
      else Inr ((path, contents @ [10]) # files))"

text \<open>
  \<open>seed\<close> is what the generator drew; \<open>None\<close> is the panic of an address without text. Creating
  the directory above the file and failures of the disk are left out.
\<close>

definition generate_wallet ::
  "'z wallet_env_scheme \<Rightarrow> files \<Rightarrow> rstring \<Rightarrow> bool \<Rightarrow> bytes \<Rightarrow> (cli_error + files) option" where
  "generate_wallet env files path force seed =
     (if map_of files path \<noteq> None \<and> \<not> force
      then Some (Inl (CliBail ''already exists; pass --force to replace it''))
      else let public_key = ed25519_public env seed in
        map_option (\<lambda>address.
          write_secret_file files path (json_wallet env
            \<lparr>wf_format = WALLET_FORMAT, wf_secret_seed = base64_encode env seed,
             wf_public_key = base64_encode env public_key, wf_address = address\<rparr>) force)
          (address_display env (address_from_public_key env public_key)))"

definition load_wallet :: "'z wallet_env_scheme \<Rightarrow> files \<Rightarrow> rstring \<Rightarrow> (cli_error + bytes) option" where
  "load_wallet env files path =
     (case map_of files path of
        None \<Rightarrow> Some (Inl (CliBail ''read wallet''))
      | Some x \<Rightarrow>
        case json_wallet_read env x of
          None \<Rightarrow> Some (Inl (CliBail ''decode wallet JSON''))
        | Some w \<Rightarrow>
          if wf_format w \<noteq> WALLET_FORMAT then Some (Inl (CliBail ''unsupported wallet format''))
          else case base64_decode env (wf_secret_seed w) of
            None \<Rightarrow> Some (Inl (CliBail ''wallet seed is not base64''))
          | Some seed \<Rightarrow>
            if length seed \<noteq> 32
            then Some (Inl (CliBail ''wallet seed must contain exactly 32 bytes''))
            else let public_key = ed25519_public env seed in
              if base64_encode env public_key \<noteq> wf_public_key w
              then Some (Inl (CliBail ''wallet public key does not match secret seed''))
              else map_option (\<lambda>address.
                if address \<noteq> wf_address w
                then Inl (CliBail ''wallet address does not match secret seed'')
                else Inr seed) (address_display env (address_from_public_key env public_key)))"

text \<open>What \<open>kcoin wallet address\<close> prints.\<close>

definition show_wallet_address ::
  "'z wallet_env_scheme \<Rightarrow> files \<Rightarrow> rstring \<Rightarrow> (cli_error + rstring) option" where
  "show_wallet_address env files path =
     (case load_wallet env files path of
        None \<Rightarrow> None
      | Some (Inl e) \<Rightarrow> Some (Inl e)
      | Some (Inr key) \<Rightarrow>
          map_option Inr (address_display env (address_from_public_key env (ed25519_public env key))))"

section \<open>The database\<close>

record verification_report =
  vp_database :: rstring
  vp_chain_id :: rstring
  vp_block_count :: nat
  vp_transaction_count :: nat
  vp_account_count :: nat
  vp_height :: rstring
  vp_finalized_hash :: rstring
  vp_state_root :: rstring
  vp_circulating_supply_atoms :: rstring
  vp_tip_metadata_matches :: bool

definition metadata_is :: "store \<Rightarrow> rstring \<Rightarrow> rstring \<Rightarrow> bool" where
  "metadata_is db key expected \<longleftrightarrow> store_metadata db key = Some expected"

definition tip_matches :: "store \<Rightarrow> replay_report \<Rightarrow> bool" where
  "tip_matches db replay \<longleftrightarrow>
     (case store_tip db of
        None \<Rightarrow> True
      | Some tip \<Rightarrow> br_height tip = rr_height replay \<and> br_block_hash tip = rr_block_hash replay \<and>
          br_state_root tip = rr_state_root replay)"

definition metadata_matches :: "store \<Rightarrow> replay_report \<Rightarrow> bool" where
  "metadata_matches db replay \<longleftrightarrow>
     metadata_is db (str ''tip_height'') (u64_to_string (rr_height replay)) \<and>
     metadata_is db (str ''tip_hash'') (rr_block_hash replay) \<and>
     metadata_is db (str ''state_root'') (rr_state_root replay) \<and>
     metadata_is db (str ''issued_supply_atoms'') (u64_to_string (rr_circulating_supply_atoms replay))"

text \<open>\<open>files\<close> maps a path to the store that \<open>Store::open\<close> finds there.\<close>

type_synonym databases = "rstring \<Rightarrow> store option"

definition verify_database ::
  "'z node_env_scheme \<Rightarrow> databases \<Rightarrow> rstring \<Rightarrow> rstring \<Rightarrow> cli_error + verification_report" where
  "verify_database env files path chain_text =
     and_then (ok_or (files path) (CliBail ''database does not exist'')) (\<lambda>db.
     and_then (map_err CliValidation (chain_id_new chain_text)) (\<lambda>chain.
     let block_count = length (canonical_block_rows db) in
     and_then (map_err CliNode (verify_store env db chain)) (\<lambda>replay.
     let tip_metadata_matches = tip_matches db replay \<and> (block_count = 0 \<or> metadata_matches db replay) in
     if \<not> tip_metadata_matches
     then Inl (CliBail ''persisted tip metadata does not match replayed history'')
     else Inr
       \<lparr>vp_database = path, vp_chain_id = chain_str chain, vp_block_count = block_count,
        vp_transaction_count = rr_transaction_count replay, vp_account_count = rr_account_count replay,
        vp_height = u64_to_string (rr_height replay), vp_finalized_hash = rr_block_hash replay,
        vp_state_root = rr_state_root replay,
        vp_circulating_supply_atoms = u64_to_string (rr_circulating_supply_atoms replay),
        vp_tip_metadata_matches = tip_metadata_matches\<rparr>)))"

definition reindex_database ::
  "'z node_env_scheme \<Rightarrow> databases \<Rightarrow> rstring \<Rightarrow> rstring \<Rightarrow>
   databases \<times> (cli_error + verification_report)" where
  "reindex_database env files path chain_text =
     (case files path of
        None \<Rightarrow> (files, Inl (CliBail ''database does not exist''))
      | Some db \<Rightarrow>
        case chain_id_new chain_text of
          Inl e \<Rightarrow> (files, Inl (CliValidation e))
        | Inr chain \<Rightarrow>
          case reindex_store env db chain of
            (db, Inl e) \<Rightarrow> (files(path \<mapsto> db), Inl (CliNode e))
          | (db, Inr _) \<Rightarrow>
              let files = files(path \<mapsto> db) in (files, verify_database env files path chain_text))"

end
