(* ===== verification/ApiPages.thy ===== *)
theory ApiPages
  imports Api StorageInv
begin

text \<open>
  Listings with cursors. A client follows \<open>next_cursor\<close> from page to page; the locale
  \<open>listing\<close> states what a page handler returns for a cursor it gave out, and proves once that
  the pages together are the whole listing. Blocks and transactions are its two instances.
\<close>

section \<open>Cursors as text\<close>

lemma parse_u32_to_string: "parse_u32 (u32_to_string w) = Some w"
proof -
  have "unat (ucast w :: u64) = unat w"
    using unat_lt2p [of w] by (simp add: unsigned_ucast_eq take_bit_nat_eq_self)
  then have "u32_to_string w = u64_to_string (ucast w)" "(ucast w :: u64) \<le> 4294967295"
    using unat_lt2p [of w] by (simp_all add: u32_to_string_def u64_to_string_def word_le_nat_alt)
  then show ?thesis by (simp add: parse_u32_def parse_u64_to_string ucast_up_ucast_id is_up)
qed

lemma split_once_number: "split_once 58 (nat_to_string n @ 58 # rest) = Some (nat_to_string n, rest)"
proof -
  have "split_once 58 (s @ 58 # rest) = Some (s, rest)" if "list_all is_digit s" for s
    using that by (induction s) (auto simp: is_digit_def)
  then show ?thesis using nat_to_string_digits by blast
qed

lemma transaction_cursor_parses:
  "parse_transaction_cursor (u64_to_string h @ str '':'' @ u32_to_string i) = Inr (h, i)"
proof -
  have "str '':'' = [58]" by (simp add: str_def)
  then have "split_once 58 (u64_to_string h @ str '':'' @ u32_to_string i) = Some (u64_to_string h, u32_to_string i)"
    using split_once_number by (simp add: u64_to_string_def)
  then show ?thesis
    by (simp add: parse_transaction_cursor_def parse_u64_to_string parse_u32_to_string)
qed

section \<open>Following the cursors\<close>

text \<open>Pages from a cursor on, at most \<open>fuel\<close> of them.\<close>

fun collect_pages ::
  "nat \<Rightarrow> (rstring option \<Rightarrow> 'e + 'r list \<times> rstring option) \<Rightarrow> rstring option \<Rightarrow> 'e + 'r list" where
  "collect_pages 0 page cursor = Inr []"
| "collect_pages (Suc fuel) page cursor =
     and_then (page cursor) (\<lambda>(rows, next_cursor).
       case next_cursor of
         None \<Rightarrow> Inr rows
       | Some c \<Rightarrow> and_then (collect_pages fuel page (Some c)) (\<lambda>more. Inr (rows @ more)))"

lemma page_limit_range: "1 \<le> unat (page_limit preset query)" "unat (page_limit preset query) \<le> 100"
  by (auto simp: page_limit_def Let_def word_less_nat_alt not_less)

lemma page_limit_cursor [simp]:
  "page_limit preset \<lparr>cq_cursor = Some c, cq_limit = l\<rparr> = page_limit preset \<lparr>cq_cursor = None, cq_limit = l\<rparr>"
  by (simp add: page_limit_def)

text \<open>The store's clamp admits the extra row of a page.\<close>

lemma fetch_one_more: "u32_clamp (page_limit preset query + 1) 1 101 = unat (page_limit preset query) + 1"
proof -
  let ?l = "page_limit preset query"
  have "unat (?l + 1) = unat ?l + 1"
    using page_limit_range(2) [of preset query] by (subst unat_add_less) simp_all
  then show ?thesis
    using page_limit_range [of preset query]
    by (auto simp: u32_clamp_def word_less_nat_alt)
qed

lemma cut_page_fetched [simp]: "cut_page l f (take (Suc (unat l)) xs) = cut_page l f xs"
  by (simp add: cut_page_def Let_def min_def)

lemma after_sorted:
  assumes "sorted_wrt (\<lambda>r s. key s < (key r :: 'k::linorder)) (as @ r # bs)"
  shows "filter (\<lambda>s. key s < key r) (as @ r # bs) = bs"
proof -
  have "filter (\<lambda>s. key s < key r) as = []" "filter (\<lambda>s. key s < key r) bs = bs"
    using assms by (auto simp: sorted_wrt_append filter_empty_conv filter_id_conv not_less intro: less_imp_le)
  then show ?thesis by simp
qed

locale listing =
  fixes wf :: "'s \<Rightarrow> bool"
    and page :: "'s \<Rightarrow> u32 option \<Rightarrow> rstring option \<Rightarrow> api_error + 'r list \<times> rstring option"
    and rows :: "'s \<Rightarrow> 'r list"
    and key :: "'r \<Rightarrow> 'k::linorder"
    and cursor_of :: "'r \<Rightarrow> rstring"
    and limit_of :: "u32 option \<Rightarrow> u32"
  assumes newest_first: "wf s \<Longrightarrow> sorted_wrt (\<lambda>r r'. key r' < key r) (rows s)"
    and first_page: "wf s \<Longrightarrow> page s limit None = Inr (cut_page (limit_of limit) cursor_of (rows s))"
    and next_page: "wf s \<Longrightarrow> r \<in> set (rows s) \<Longrightarrow>
      page s limit (Some (cursor_of r)) =
      Inr (cut_page (limit_of limit) cursor_of (filter (\<lambda>r'. key r' < key r) (rows s)))"
    and positive: "0 < unat (limit_of limit)"
begin

lemma collect_from:
  assumes "wf s" and "rows s = earlier @ older"
    and "page s limit cursor = Inr (cut_page (limit_of limit) cursor_of older)"
    and "length older \<le> fuel"
  shows "collect_pages fuel (page s limit) cursor = Inr older"
  using assms(2-)
proof (induction fuel arbitrary: earlier older cursor)
  case (Suc fuel)
  let ?n = "unat (limit_of limit)"
  show ?case
  proof (cases "length older > ?n")
    case False
    with Suc.prems show ?thesis by (simp add: cut_page_def Let_def)
  next
    case True
    define r where "r = last (take ?n older)"
    let ?newer = "butlast (take ?n older)"
    have "take ?n older \<noteq> []" using True positive [of limit] by auto
    then have split: "older = ?newer @ r # drop ?n older"
      by (metis append_butlast_last_id append_Cons append_Nil append_assoc append_take_drop_id r_def)
    then have rows: "rows s = (earlier @ ?newer) @ r # drop ?n older" using Suc.prems(1) by simp
    with newest_first [OF assms(1)] have "filter (\<lambda>r'. key r' < key r) (rows s) = drop ?n older"
      by (metis after_sorted)
    with next_page [OF assms(1), of r limit] rows
    have "page s limit (Some (cursor_of r)) = Inr (cut_page (limit_of limit) cursor_of (drop ?n older))"
      by simp
    moreover have "rows s = (earlier @ take ?n older) @ drop ?n older" using Suc.prems(1) by simp
    moreover have "length (drop ?n older) \<le> fuel" using Suc.prems(3) positive [of limit] by simp
    ultimately have "collect_pages fuel (page s limit) (Some (cursor_of r)) = Inr (drop ?n older)"
      by (intro Suc.IH)
    with Suc.prems(2) True show ?thesis by (simp add: cut_page_def Let_def r_def)
  qed
qed simp

lemma collect_all:
  assumes "wf s" "length (rows s) \<le> fuel"
  shows "collect_pages fuel (page s limit) None = Inr (rows s)"
  using collect_from [OF assms(1) _ first_page [OF assms(1)] assms(2)] by simp

end

section \<open>Blocks\<close>

definition blocks_newest_first :: "store \<Rightarrow> block_row list" where
  "blocks_newest_first db = rev (canonical_block_rows db)"

lemma block_row_height:
  assumes "blocks_wf (db_blocks db)" "row \<in> set (canonical_block_rows db)"
  shows "br_height row < 0x8000000000000000"
  using assms bt_get_iff [of "db_blocks db"]
  by (fastforce simp: blocks_wf_def canonical_block_rows_def bt_values_def)

lemma blocks_sorted:
  assumes "blocks_wf (db_blocks db)"
  shows "sorted_wrt (\<lambda>r r'. br_height r' < br_height r) (blocks_newest_first db)"
proof -
  have "br_height (snd kv) = fst kv" if "kv \<in> set (db_blocks db)" for kv
    using assms that bt_get_iff [of "db_blocks db" "fst kv" "snd kv"] by (auto simp: blocks_wf_def)
  then have "map br_height (bt_values (db_blocks db)) = map fst (db_blocks db)" by (auto simp: bt_values_def)
  with assms have "sorted_wrt (<) (map br_height (bt_values (db_blocks db)))"
    by (simp add: blocks_wf_def bt_wf_def)
  then show ?thesis
    by (simp add: blocks_newest_first_def canonical_block_rows_def sorted_wrt_map sorted_wrt_rev)
qed

interpretation block_listing: listing "\<lambda>db. blocks_wf (db_blocks db)"
  "\<lambda>db limit cursor. block_page db \<lparr>cq_cursor = cursor, cq_limit = limit\<rparr>" blocks_newest_first
  br_height "\<lambda>row. u64_to_string (br_height row)"
  "\<lambda>limit. page_limit 25 \<lparr>cq_cursor = None, cq_limit = limit\<rparr>"
proof unfold_locales
  fix db :: store and limit :: "u32 option" and row :: block_row
  assume wf: "blocks_wf (db_blocks db)"
  show "sorted_wrt (\<lambda>r r'. br_height r' < br_height r) (blocks_newest_first db)"
    using wf by (rule blocks_sorted)
  show "block_page db \<lparr>cq_cursor = None, cq_limit = limit\<rparr> =
      Inr (cut_page (page_limit 25 \<lparr>cq_cursor = None, cq_limit = limit\<rparr>)
        (\<lambda>row. u64_to_string (br_height row)) (blocks_newest_first db))"
    by (simp add: block_page_def optional_def from_store_def list_blocks_def sql_opt_u64_def Let_def
        fetch_one_more blocks_newest_first_def canonical_block_rows_def)
  assume "row \<in> set (blocks_newest_first db)"
  then have "br_height row < 0x8000000000000000"
    using block_row_height [OF wf] by (simp add: blocks_newest_first_def)
  then show "block_page db \<lparr>cq_cursor = Some (u64_to_string (br_height row)), cq_limit = limit\<rparr> =
      Inr (cut_page (page_limit 25 \<lparr>cq_cursor = None, cq_limit = limit\<rparr>)
        (\<lambda>row. u64_to_string (br_height row))
        (filter (\<lambda>r'. br_height r' < br_height row) (blocks_newest_first db)))"
    by (simp add: block_page_def optional_def parse_u64_to_string from_store_def list_blocks_def
        sql_opt_u64_def sql_u64_def Let_def fetch_one_more blocks_newest_first_def canonical_block_rows_def)
next
  fix limit :: "u32 option"
  show "0 < unat (page_limit 25 \<lparr>cq_cursor = None, cq_limit = limit\<rparr>)"
    using page_limit_range(1) [of 25 "\<lparr>cq_cursor = None, cq_limit = limit\<rparr>"] by linarith
qed

section \<open>Transactions\<close>

definition transactions_newest_first :: "store \<Rightarrow> transaction_row list" where
  "transactions_newest_first db = newest_first (bt_values (db_transactions db))"

definition position :: "transaction_row \<Rightarrow> u64 \<times> u32" where
  "position row = (tr_block_height row, tr_index row)"

lemma position_less: 
  "position r < (h, i) \<longleftrightarrow> tr_block_height r < h \<or> tr_block_height r = h \<and> tr_index r < i"
  by (auto simp: position_def)

lemma newest_first_position: "newest_first rows = rev (sort_key position rows)"
  by (simp add: newest_first_def position_def [abs_def])

lemma newest_first_filter: "newest_first (filter P rows) = filter P (newest_first rows)"
  by (simp add: newest_first_position filter_sort rev_filter [symmetric])

lemma newest_first_sorted:
  assumes "distinct (map position rows)"
  shows "sorted_wrt (\<lambda>r r'. position r' < position r) (newest_first rows)"
proof -
  have "sorted (map position (sort_key position rows))" by simp
  moreover have "distinct (map position (sort_key position rows))"
    using assms by (simp add: distinct_map)
  ultimately have "sorted_wrt (<) (map position (sort_key position rows))"
    by (simp add: strict_sorted_iff)
  then show ?thesis by (simp add: newest_first_position sorted_wrt_map sorted_wrt_rev)
qed

lemma positions_distinct:
  assumes "store_wf db"
  shows "distinct (map position (bt_values (db_transactions db)))"
proof -
  let ?ts = "db_transactions db"
  have wf: "bt_wf ?ts" and uniq: "\<And>i j r s. (i, r) \<in> set ?ts \<Longrightarrow> (j, s) \<in> set ?ts \<Longrightarrow> position r = position s \<Longrightarrow> i = j"
    using assms bt_get_iff [of ?ts] by (auto simp: store_wf_def transactions_wf_def position_def)
  have "inj_on (\<lambda>kv. position (snd kv)) (set ?ts)"
  proof (rule inj_onI)
    fix x y assume "x \<in> set ?ts" "y \<in> set ?ts" "position (snd x) = position (snd y)"
    moreover from this have "fst x = fst y" using uniq [of "fst x" "snd x" "fst y" "snd y"] by simp
    ultimately show "x = y" using wf bt_get_iff [OF wf, of "fst x"] by (metis option.inject prod.collapse)
  qed
  moreover have "distinct ?ts" using bt_wf_distinct [OF wf] distinct_map by blast
  ultimately show ?thesis by (simp add: bt_values_def distinct_map comp_def)
qed

lemma transaction_row_height:
  assumes "store_wf db" "row \<in> set (bt_values (db_transactions db))"
  shows "tr_block_height row < 0x8000000000000000"
proof -
  from assms(1) have ts: "transactions_wf (db_blocks db) (db_transactions db)" and bs: "blocks_wf (db_blocks db)"
    by (simp_all add: store_wf_def)
  from assms(2) obtain i where "(i, row) \<in> set (db_transactions db)" by (auto simp: bt_values_def)
  with ts have "bt_get (db_transactions db) i = Some row" by (simp add: transactions_wf_def bt_get_iff)
  with ts have "bt_get (db_blocks db) (tr_block_height row) \<noteq> None" unfolding transactions_wf_def by blast
  then obtain b where "bt_get (db_blocks db) (tr_block_height row) = Some b" by blast
  with bs show ?thesis unfolding blocks_wf_def by blast
qed

interpretation transaction_listing: listing store_wf
  "\<lambda>db limit cursor. transaction_page db \<lparr>cq_cursor = cursor, cq_limit = limit\<rparr>"
  transactions_newest_first position
  "\<lambda>row. u64_to_string (tr_block_height row) @ str '':'' @ u32_to_string (tr_index row)"
  "\<lambda>limit. page_limit 25 \<lparr>cq_cursor = None, cq_limit = limit\<rparr>"
proof unfold_locales
  fix db :: store and limit :: "u32 option" and row :: transaction_row
  let ?text = "\<lambda>row. u64_to_string (tr_block_height row) @ str '':'' @ u32_to_string (tr_index row)"
  assume wf: "store_wf db"
  show "sorted_wrt (\<lambda>r r'. position r' < position r) (transactions_newest_first db)"
    unfolding transactions_newest_first_def by (rule newest_first_sorted [OF positions_distinct [OF wf]])
  show "transaction_page db \<lparr>cq_cursor = None, cq_limit = limit\<rparr> =
      Inr (cut_page (page_limit 25 \<lparr>cq_cursor = None, cq_limit = limit\<rparr>) ?text (transactions_newest_first db))"
    by (simp add: transaction_page_def optional_def from_store_def list_transactions_def sql_opt_u64_def
        Let_def fetch_one_more transactions_newest_first_def)
  assume "row \<in> set (transactions_newest_first db)"
  then have "tr_block_height row < 0x8000000000000000"
    using transaction_row_height [OF wf] by (simp add: transactions_newest_first_def newest_first_def)
  then show "transaction_page db \<lparr>cq_cursor = Some (?text row), cq_limit = limit\<rparr> =
      Inr (cut_page (page_limit 25 \<lparr>cq_cursor = None, cq_limit = limit\<rparr>) ?text
        (filter (\<lambda>r'. position r' < position row) (transactions_newest_first db)))"
    unfolding transaction_page_def optional_def
    by (simp only: cursor_query.select_convs option.case transaction_cursor_parses and_then_simps Let_def)
      (simp add: from_store_def list_transactions_def sql_opt_u64_def sql_u64_def fetch_one_more
        transactions_newest_first_def newest_first_filter position_def position_less [symmetric])
next
  fix limit :: "u32 option"
  show "0 < unat (page_limit 25 \<lparr>cq_cursor = None, cq_limit = limit\<rparr>)"
    using page_limit_range(1) [of 25 "\<lparr>cq_cursor = None, cq_limit = limit\<rparr>"] by linarith
qed

end
