(* ===== verification/ApiProps.thy ===== *)
theory ApiProps
  imports Cli ApiPages NodeMempool NodeDemo StorageProps
begin

text \<open>
  Properties of the HTTP API: a transaction signed by a client arrives in the mempool as it
  was signed, the outcome of a submission, and that following the cursors of a listing
  visits everything once.
\<close>

section \<open>From the command line to the mempool\<close>

definition base64_roundtrip :: "'z api_env_scheme \<Rightarrow> bool" where
  "base64_roundtrip env \<longleftrightarrow> (\<forall>x. base64_decode env (base64_encode env x) = Some x)"

lemma u16_fits: "(ucast (w :: u16) :: u64) \<le> 65535" "ucast (ucast w :: u64) = w"
proof -
  have "unat (ucast w :: u64) = unat w"
    using unat_lt2p [of w] by (simp add: unsigned_ucast_eq take_bit_nat_eq_self)
  then show "(ucast w :: u64) \<le> 65535" using unat_lt2p [of w] by (simp add: word_le_nat_alt)
  show "ucast (ucast w :: u64) = w" by (simp add: ucast_up_ucast_id is_up)
qed

lemma parse_u16_to_string: "parse_u16 (u64_to_string (ucast w)) = Some w"
  by (simp add: parse_u16_def parse_u64_to_string u16_fits)

text \<open>Fixed-width parts have their widths, as the byte arrays of the code do.\<close>

definition fixed_widths :: "signed_transaction \<Rightarrow> bool" where
  "fixed_widths t \<longleftrightarrow>
     length (ut_sender_public_key (st_unsigned t)) = 32 \<and> length (st_signature t) = 64 \<and>
     (case ut_action (st_unsigned t) of
        Transfer recipient _ \<Rightarrow> length (addr_as_bytes recipient) = ADDRESS_LENGTH
      | _ \<Rightarrow> True)"

lemma address_text_parses:
  assumes "bech32m_roundtrip env" "length (addr_as_bytes a) = ADDRESS_LENGTH"
  obtains s where "address_display env a = Some s" "address_from_str env s = Some (Inr a)"
proof -
  from assms obtain s where "bech32m_encode env ADDRESS_HRP (addr_as_bytes a) = Some s"
    "bech32_decode env s = Some (ADDRESS_HRP, addr_as_bytes a)"
    by (auto simp: bech32m_roundtrip_def ADDRESS_LENGTH_def)
  with assms(2) have "address_display env a = Some s" "address_from_str env s = Some (Inr a)"
    unfolding address_display_def address_from_str_def by (cases a; simp)+
  then show thesis by (rule that)
qed

lemma action_survives:
  assumes "bech32m_roundtrip env"
    and "case action of Transfer recipient _ \<Rightarrow> length (addr_as_bytes recipient) = ADDRESS_LENGTH | _ \<Rightarrow> True"
  obtains v s where "action_json env action = Some v" "action_of_json v = Some s"
    "action_from_submission env s = Some (Inr action)"
proof -
  note reading = action_json_def action_of_json_def Let_def json_get_def str_def
    action_from_submission_def api_parse_u64_def parse_u64_to_string parse_u16_to_string
  define v where "v = the (action_json env action)"
  have "\<exists>s. action_json env action = Some v \<and> action_of_json v = Some s \<and>
      action_from_submission env s = Some (Inr action)"
  proof (cases action)
    case (Transfer recipient amount)
    with assms obtain x where x: "address_display env recipient = Some x" "address_from_str env x = Some (Inr recipient)"
      by (auto elim: address_text_parses)
    then show ?thesis
      by (intro exI [of _ "SubmitTransfer x (u64_to_string amount)"]) (simp add: v_def Transfer reading)
  next
    case (ClaimReward challenge_id answer)
    then show ?thesis
      by (intro exI [of _ "SubmitClaimReward (u64_to_string challenge_id) (u64_to_string (ucast answer))"])
        (simp add: v_def reading)
  next
    case (SetDisplayName name)
    then show ?thesis
      by (intro exI [of _ "SubmitSetDisplayName name"]) (simp add: v_def reading split: option.split)
  qed
  then show thesis by (blast intro: that)
qed

lemma submission_survives:
  assumes "base64_roundtrip env" "bech32m_roundtrip env" "fixed_widths t" "tx_verify_signature env t = Inr ()"
  obtains body s where "submission_json env t = Some body" "submission_of_json body = Some s"
    "transaction_from_submission env s = Some (Inr t)"
proof -
  let ?u = "st_unsigned t"
  from assms(2,3) obtain v s where a: "action_json env (ut_action ?u) = Some v" "action_of_json v = Some s"
    "action_from_submission env s = Some (Inr (ut_action ?u))"
    by (auto simp: fixed_widths_def elim: action_survives)
  define sub where "sub =
    \<lparr>ts_protocol_version = ut_protocol_version ?u, ts_chain_id = chain_str (ut_chain_id ?u),
     ts_sender_public_key = base64_encode env (ut_sender_public_key ?u), ts_nonce = u64_to_string (ut_nonce ?u),
     ts_expiry_height = u64_to_string (ut_expiry_height ?u), ts_action = s,
     ts_signature = base64_encode env (st_signature t)\<rparr>"
  obtain body where body: "submission_json env t = Some body" using a(1) by (simp add: submission_json_def Let_def)
  then have read: "submission_of_json body = Some sub"
    using a by (auto simp: submission_json_def submission_of_json_def Let_def json_get_def str_def
        u16_fits sub_def)
  have "chain_id_validate (ut_chain_id ?u) = Inr ()"
    using assms(4) by (auto simp: tx_verify_signature_def unsigned_validate_shape_def result_simps split: if_splits)
  then have "chain_id_new (chain_str (ut_chain_id ?u)) = Inr (ut_chain_id ?u)" by (simp add: chain_id_new_Inr)
  then have "submission_parts env sub =
      Inr (ut_sender_public_key ?u, st_signature t, ut_chain_id ?u, ut_nonce ?u, ut_expiry_height ?u)"
    using assms(1,3)
    by (simp add: submission_parts_def sub_def decode_fixed_def base64_roundtrip_def fixed_widths_def
        api_parse_u64_def parse_u64_to_string)
  moreover have "tx_from_parts env ?u (st_signature t) = Inr t"
    using assms(4) by (cases t) (simp add: tx_from_parts_def Let_def)
  moreover have same: "\<lparr>ut_protocol_version = ut_protocol_version ?u, ut_chain_id = ut_chain_id ?u,
      ut_sender_public_key = ut_sender_public_key ?u, ut_nonce = ut_nonce ?u,
      ut_expiry_height = ut_expiry_height ?u, ut_action = ut_action ?u\<rparr> = ?u" by simp
  ultimately have "transaction_from_submission env sub = Some (Inr t)"
    using a(3) unfolding transaction_from_submission_def
    by (simp add: sub_def) (simp only: same map_err_simps)
  with body read show thesis by (rule that)
qed

lemma is_success_error [simp]: "\<not> is_success (validation_status e)"
  by (cases e) (simp_all add: is_success_def)

lemma parse_error_response:
  "\<not> is_success (ae_status e) \<Longrightarrow>
   parse_response (error_response e) = Inl (HttpStatus (ae_status e) (ae_message e))"
  by (simp add: parse_response_def error_response_def json_get_def str_def)

lemma submission_response_read:
  "and_then (parse_response (submission_response (Inr tid))) (\<lambda>v. string_field v (str ''transaction_id'')) = Inr tid"
  by (simp add: submission_response_def json_response_def parse_response_def is_success_def
      string_field_def json_get_def str_def)

text \<open>The node's end of a POST: the snapshot the handler reads and the actor that answers.\<close>

definition post_transaction ::
  "'z api_env_scheme \<Rightarrow> runtime_snapshot \<Rightarrow> node_actor \<Rightarrow> json \<Rightarrow> node_actor \<times> http_response option" where
  "post_transaction env s a body =
     (case submit_transaction env s (submission_of_json body) a of
        (a', r) \<Rightarrow> (a', map_option submission_response r))"

text \<open>
  C18: A signed transaction survives the way from the command line into the node. What the
  client writes (decimal text, Base64, the text of an address) the API reads back as the
  same transaction, whatever its action; so, on a node that is ready, the actor is asked to
  accept exactly the transaction that was signed, and the client gets its id, or the
  HTTP status and the text of the error with which the ledger rules reject it.
\<close>

theorem signed_transaction_reaches_the_node:
  assumes "base64_roundtrip env" and "bech32m_roundtrip env"
    and "fixed_widths t" and "tx_verify_signature env t = Inr ()"
    and "\<not> rs_halted s" and "\<not> rs_syncing s"
  shows "\<exists>body. submission_json env t = Some body \<and>
    fst (post_transaction env s a body) = fst (accept_transaction env a t True) \<and>
    cli_submit env (\<lambda>body. the (snd (post_transaction env s a body))) t =
      Some (case snd (accept_transaction env a t True) of
              Inl e \<Rightarrow> Inl (HttpStatus (validation_status e) (validation_error_text env e))
            | Inr tid \<Rightarrow> Inr (hash32_display env tid))"
proof -
  obtain body sub where survives: "submission_json env t = Some body" "submission_of_json body = Some sub"
    "transaction_from_submission env sub = Some (Inr t)"
    using assms(1-4) by (rule submission_survives)
  obtain a' r where accept: "accept_transaction env a t True = (a', r)" by fastforce
  have post: "post_transaction env s a body = (a', Some (submission_response
      (case r of Inl e \<Rightarrow> Inl (api_validation env e) | Inr tid \<Rightarrow> Inr (hash32_display env tid))))"
    using survives(2,3) assms(5,6) accept
    by (cases r) (simp_all add: post_transaction_def submit_transaction_def ensure_submission_ready_def handle_submit_def)
  have "cli_submit env (\<lambda>body. the (snd (post_transaction env s a body))) t =
      Some (case r of Inl e \<Rightarrow> Inl (HttpStatus (validation_status e) (validation_error_text env e))
                    | Inr tid \<Rightarrow> Inr (hash32_display env tid))"
  proof (cases r)
    case (Inl e)
    then show ?thesis
      using survives(1) post parse_error_response [of "api_validation env e"]
      by (simp add: cli_submit_def submission_response_def) (simp add: api_validation_def)
  next
    case (Inr tid)
    then show ?thesis
      using survives(1) post submission_response_read [of "hash32_display env tid"] by (simp add: cli_submit_def)
  qed
  with survives(1) post accept show ?thesis by simp
qed

section \<open>The outcome of a submission\<close>

lemma map_err_eq_Inl: "map_err f r = Inl e \<longleftrightarrow> (\<exists>x. r = Inl x \<and> f x = e)"
  by (cases r) auto

text \<open>The status and the code of a body that is no transaction, whatever it is the parser objects to.\<close>

definition malformed_submission :: "api_error \<Rightarrow> bool" where
  "malformed_submission e \<longleftrightarrow> ae_status e = 400 \<and>
     ae_code e \<in> str ` {''MALFORMED'', ''MALFORMED_ADDRESS'', ''WRONG_CHAIN'', ''UNSUPPORTED_VERSION'', ''ZERO_AMOUNT'',
       ''INVALID_DISPLAY_NAME'', ''INVALID_SIGNATURE''}"

text \<open>The status and the code with which the ledger rules refuse a transaction.\<close>

fun refusal :: "validation_error \<Rightarrow> nat \<times> rstring" where
  "refusal DuplicateTransaction = (409, str ''DUPLICATE_TRANSACTION'')"
| "refusal (InsufficientBalance _ _) = (422, str ''INSUFFICIENT_BALANCE'')"
| "refusal (NonceMismatch _ _) = (422, str ''NONCE_MISMATCH'')"
| "refusal (StaleChallenge _ _) = (422, str ''STALE_CHALLENGE'')"
| "refusal WrongChallengeAnswer = (422, str ''WRONG_CHALLENGE_ANSWER'')"
| "refusal (Expired _ _) = (422, str ''EXPIRED'')"
| "refusal e = (400, str (error_code e))"

lemma api_validation_refusal [simp]:
  "ae_status (api_validation env v) = fst (refusal v)" "ae_code (api_validation env v) = snd (refusal v)"
  by (cases v; simp add: api_validation_def)+

lemma malformed_bad_request [simp]: "malformed_submission (bad_request (str ''MALFORMED'') m)"
  by (simp add: malformed_submission_def bad_request_def)

lemma chain_error_malformed: "chain_id_new c = Inl v \<Longrightarrow> malformed_submission (api_validation env v)"
  by (auto simp: chain_id_new_def chain_id_validate_def Let_def result_simps malformed_submission_def split: if_splits)

lemma address_error_malformed:
  "address_from_str env x = Some (Inl v) \<Longrightarrow> malformed_submission (api_validation env v)"
  by (auto simp: address_from_str_def Let_def result_simps malformed_submission_def
      split: if_splits option.splits prod.splits)

lemma parts_error_malformed:
  assumes "tx_from_parts env u signature = Inl v"
  shows "malformed_submission (api_validation env v)"
proof -
  have "malformed_submission (api_validation env v)" if "action_validate_shape x = Inl v" for x
    using that by (cases x) (auto simp: validate_display_name_def malformed_submission_def split: if_splits option.splits)
  with assms show ?thesis
    by (auto simp: tx_from_parts_def tx_verify_signature_def unsigned_validate_shape_def chain_id_validate_def Let_def
        result_simps malformed_submission_def split: if_splits)
qed

lemma submission_error_malformed:
  assumes "transaction_from_submission env submission = Some (Inl e)"
  shows "malformed_submission e"
proof -
  have "malformed_submission e" if "submission_parts env submission = Inl e"
    using that by (auto simp: submission_parts_def decode_fixed_def api_parse_u64_def result_simps map_err_eq_Inl
      dest: chain_error_malformed split: option.splits if_splits)
  moreover have "malformed_submission e" if "action_from_submission env x = Some (Inl e)" for x
    using that by (auto simp: action_from_submission_def api_parse_u64_def result_simps map_err_eq_Inl
      dest: address_error_malformed split: action_submission.splits)
  ultimately show ?thesis
    using assms by (auto simp: transaction_from_submission_def result_simps map_err_eq_Inl
      dest: parts_error_malformed split: sum.splits prod.splits)
qed

lemma submission_verified:
  "transaction_from_submission env submission = Some (Inr t) \<Longrightarrow> tx_verify_signature env t = Inr ()"
  by (auto simp: transaction_from_submission_def tx_from_parts_def Let_def result_simps
      split: sum.splits prod.splits)

text \<open>
  C19: What a client that submits a transaction is answered, and what that does to the node.
  A halted node answers 503 NODE_HALTED and a synchronizing one 503 NODE_SYNCING, to any
  body. A body that is not JSON is 400 MALFORMED; one that is no transaction is the 400 of
  what the parser objects to. A transaction the actor refuses is answered with the status
  and code of its ledger rule: 409 for a duplicate, 422 for what a later resubmission
  could mend, 400 for the rest; a resubmission of what is pending or finalized is the
  409. Every refusal leaves the node as it was. Otherwise the transaction is
  verified, new to the chain, and now the last of the mempool under the id that is returned.
\<close>

theorem submission_outcome:
  assumes "submit_transaction env s payload a = (a', Some r)"
  shows "(case r of
      Inl e \<Rightarrow> a' = a \<and>
        (if rs_halted s then (ae_status e, ae_code e) = (503, str ''NODE_HALTED'')
         else if rs_syncing s then (ae_status e, ae_code e) = (503, str ''NODE_SYNCING'')
         else case payload of
           None \<Rightarrow> (ae_status e, ae_code e) = (400, str ''MALFORMED'')
         | Some submission \<Rightarrow>
           (transaction_from_submission env submission = Some (Inl e) \<and> malformed_submission e) \<or>
           (\<exists>t v. transaction_from_submission env submission = Some (Inr t) \<and>
             snd (accept_transaction env a t True) = Inl v \<and> (ae_status e, ae_code e) = refusal v \<and>
             (\<not> na_halted a \<and> na_sync_target a = None \<and>
              (tx_id env t \<in> set (na_mempool_ids a) \<or> contains_transaction (na_ledger a) (tx_id env t)) \<longrightarrow>
                (ae_status e, ae_code e) = (409, str ''DUPLICATE_TRANSACTION''))))
    | Inr tid \<Rightarrow> \<not> rs_halted s \<and> \<not> rs_syncing s \<and>
        (\<exists>submission t. payload = Some submission \<and>
          transaction_from_submission env submission = Some (Inr t) \<and>
          tx_verify_signature env t = Inr () \<and> tid = hash32_display env (tx_id env t) \<and>
          \<not> contains_transaction (na_ledger a) (tx_id env t) \<and>
          na_mempool a' = na_mempool a @ [t] \<and> na_ledger a' = na_ledger a \<and>
          (mempool_ok env a \<longrightarrow> mempool_ok env a')))"
proof (cases "rs_halted s \<or> rs_syncing s")
  case True
  with assms show ?thesis
    by (auto simp: submit_transaction_def ensure_submission_ready_def unavailable_def split: if_splits)
next
  case ready: False
  then have ok: "ensure_submission_ready s = Inr ()" by (simp add: ensure_submission_ready_def)
  show ?thesis
  proof (cases payload)
    case None
    with assms ok ready show ?thesis by (auto simp: submit_transaction_def bad_request_def)
  next
    case (Some submission)
    from assms ok Some obtain p where sub: "transaction_from_submission env submission = Some p"
      by (cases "transaction_from_submission env submission") (auto simp: submit_transaction_def)
    show ?thesis
    proof (cases p)
      case (Inl e)
      with assms ok sub Some ready submission_error_malformed [of env submission e] show ?thesis
        by (auto simp: submit_transaction_def)
    next
      case (Inr t)
      obtain a1 q where accept: "accept_transaction env a t True = (a1, q)" by fastforce
      with assms ok sub Inr Some have a1: "a' = a1"
        "r = (case q of Inl e \<Rightarrow> Inl (api_validation env e) | Inr tid \<Rightarrow> Inr (hash32_display env tid))"
        by (auto simp: submit_transaction_def handle_submit_def split: sum.splits)
      from accept show ?thesis
      proof (cases rule: accept_transaction_cases)
        case (rejected e)
        have "e = DuplicateTransaction" if "\<not> na_halted a \<and> na_sync_target a = None \<and>
            (tx_id env t \<in> set (na_mempool_ids a) \<or> contains_transaction (na_ledger a) (tx_id env t))"
          using that accept rejected by (auto simp: accept_transaction_def Let_def)
        with rejected a1 ready sub Inr Some accept show ?thesis by auto
      next
        case (accepted candidate h v)
        with a1 ready sub Inr Some submission_verified [of env submission t] accept_transaction_keeps [OF _ accept]
        show ?thesis by auto
      qed
    qed
  qed
qed

section \<open>Accounts and heights\<close>

text \<open>What the client reads of an account is what the store keeps, zero for an unknown one.\<close>

lemma client_reads_account:
  assumes "get_address env h text_form = Some (Inr r)"
  shows "get_account (json_response 200 (address_json r)) =
    Inr (Some \<lparr>av_balance_atoms = (case store_account (nh_store h) text_form of None \<Rightarrow> 0 | Some x \<Rightarrow> ap_balance_atoms x),
               av_nonce = (case store_account (nh_store h) text_form of None \<Rightarrow> 0 | Some x \<Rightarrow> ap_nonce x)\<rparr>)"
proof -
  have zero: "str ''0'' = u64_to_string 0" by (simp add: u64_to_string_def nat_to_string.simps str_def)
  have "ar_balance_atoms r = u64_to_string (case store_account (nh_store h) text_form of None \<Rightarrow> 0 | Some x \<Rightarrow> ap_balance_atoms x)"
    "ar_nonce r = u64_to_string (case store_account (nh_store h) text_form of None \<Rightarrow> 0 | Some x \<Rightarrow> ap_nonce x)"
    using assms by (auto simp: get_address_def Let_def zero split: option.splits sum.splits)
  then show ?thesis
    by (cases "ar_display_name r"; cases "ar_first_seen_height r")
      (simp_all add: get_account_def json_response_def parse_response_def is_success_def address_json_def
        parse_u64_to_string optional_field_def decimal_field_def string_field_def json_get_def str_def)
qed

text \<open>
  A height that does not fit the signed integers of the database is answered as a failure of
  the storage, not as a block that is not there.
\<close>

lemma oversized_height_is_internal:
  assumes "0x8000000000000000 \<le> height"
  shows "get_block env h (u64_to_string height) = Inl storage_failed \<and> ae_status storage_failed = 500"
  using assms by (simp add: parse_u64_to_string get_block_def block_by_height_def sql_u64_def from_store_def
      storage_failed_def internal_def not_less [symmetric])

section \<open>An API for the examples\<close>

definition demo_api_env :: api_env where
  "demo_api_env = actor_env.extend demo_node_env
     (api_env.fields (map unat) (\<lambda>s. Some (map of_nat s)) (\<lambda>_. []) (\<lambda>_. None))"

lemma demo_api_base64: "base64_roundtrip demo_api_env"
  by (simp add: base64_roundtrip_def demo_api_env_def actor_env.defs api_env.defs comp_def)

lemma demo_api_bech32m: "bech32m_roundtrip demo_api_env"
  by (simp add: bech32m_roundtrip_def demo_api_env_def demo_node_env_def demo_consensus_codec_def demo_env_def
      actor_env.defs node_env.defs consensus_env.defs ledger_env.defs ADDRESS_HRP_def str_def comp_def)

lemma demo_claim_ready: "fixed_widths demo_claim" "tx_verify_signature demo_api_env demo_claim = Inr ()"
  by code_simp+

lemma demo_api_accepts: "is_ok (snd (accept_transaction demo_api_env demo_actor demo_claim True))"
  by code_simp

definition demo_snapshot :: runtime_snapshot where
  "demo_snapshot = snapshot_for demo_api_env demo_actor"

lemma demo_snapshot_ready: "\<not> rs_halted demo_snapshot" "\<not> rs_syncing demo_snapshot"
  by (simp_all add: demo_snapshot_def snapshot_for_def Let_def demo_actor_fields)

theorem signed_transaction_reaches_the_node_witness:
  "\<exists>tid. cli_submit demo_api_env
     (\<lambda>body. the (snd (post_transaction demo_api_env demo_snapshot demo_actor body))) demo_claim = Some (Inr tid)"
proof -
  obtain tid where "snd (accept_transaction demo_api_env demo_actor demo_claim True) = Inr tid"
    using demo_api_accepts by (auto simp: is_ok_iff)
  with signed_transaction_reaches_the_node [OF demo_api_base64 demo_api_bech32m demo_claim_ready demo_snapshot_ready,
      where a = demo_actor]
  show ?thesis by auto
qed

text \<open>
  A submission that is accepted, the same one again, one with an unreadable nonce, and one
  to the snapshot of a halted node.
\<close>

theorem submission_outcome_witness:
  "\<exists>submission a tid e d f. submit_transaction demo_api_env demo_snapshot (Some submission) demo_actor = (a, Some (Inr tid)) \<and>
     na_mempool a = [demo_claim] \<and>
     submit_transaction demo_api_env demo_snapshot (Some (submission\<lparr>ts_nonce := []\<rparr>)) demo_actor =
       (demo_actor, Some (Inl e)) \<and> ae_status e = 400 \<and>
     submit_transaction demo_api_env demo_snapshot (Some submission) a = (a, Some (Inl d)) \<and>
     (ae_status d, ae_code d) = (409, str ''DUPLICATE_TRANSACTION'') \<and>
     submit_transaction demo_api_env (demo_snapshot\<lparr>rs_halted := True\<rparr>) None a = (a, Some (Inl f)) \<and>
     (ae_status f, ae_code f) = (503, str ''NODE_HALTED'')"
proof -
  obtain body sub where sub: "submission_of_json body = Some sub"
    "transaction_from_submission demo_api_env sub = Some (Inr demo_claim)"
    using submission_survives [OF demo_api_base64 demo_api_bech32m demo_claim_ready] by metis
  obtain a tid where accept: "accept_transaction demo_api_env demo_actor demo_claim True = (a, Inr tid)"
    using demo_api_accepts by (cases "accept_transaction demo_api_env demo_actor demo_claim True") (auto simp: is_ok_iff)
  then have run: "submit_transaction demo_api_env demo_snapshot (Some sub) demo_actor =
      (a, Some (Inr (hash32_display demo_api_env tid)))"
    using sub(2) demo_snapshot_ready
    by (simp add: submit_transaction_def ensure_submission_ready_def handle_submit_def)
  have "\<exists>e. transaction_from_submission demo_api_env (sub\<lparr>ts_nonce := []\<rparr>) = Some (Inl e)"
    using sub(2) by (auto simp: transaction_from_submission_def submission_parts_def decode_fixed_def
        api_parse_u64_def parse_u64_def and_then_def split: sum.splits)
  then obtain e where e: "transaction_from_submission demo_api_env (sub\<lparr>ts_nonce := []\<rparr>) = Some (Inl e)" ..
  then have bad: "submit_transaction demo_api_env demo_snapshot (Some (sub\<lparr>ts_nonce := []\<rparr>)) demo_actor =
      (demo_actor, Some (Inl e))"
    using demo_snapshot_ready by (auto simp: submit_transaction_def ensure_submission_ready_def)
  have again: "\<exists>d. accept_transaction demo_api_env a demo_claim True = (a, Inl d)"
    using accept by (auto simp: accept_transaction_def Let_def publish_snapshot_def emit_def emit_if_networked_def
        split: if_splits option.splits sum.splits)
  then obtain d where dup: "submit_transaction demo_api_env demo_snapshot (Some sub) a =
      (a, Some (Inl (api_validation demo_api_env d)))"
    using sub(2) demo_snapshot_ready
    by (auto simp: submit_transaction_def ensure_submission_ready_def handle_submit_def)
  obtain f where halted: "submit_transaction demo_api_env (demo_snapshot\<lparr>rs_halted := True\<rparr>) None a = (a, Some (Inl f))"
    by (auto simp: submit_transaction_def ensure_submission_ready_def)
  have ready: "\<not> na_halted a \<and> na_sync_target a = None \<and> tx_id demo_api_env demo_claim \<in> set (na_mempool_ids a)"
    using accept by (auto simp: accept_transaction_def Let_def publish_snapshot_def emit_def emit_if_networked_def
        split: if_splits option.splits sum.splits)
  have "na_mempool a = [demo_claim]"
    using submission_outcome [OF run] sub(2) by (simp add: demo_actor_fields)
  moreover have "ae_status e = 400"
    using submission_outcome [OF bad] e demo_snapshot_ready by (simp add: malformed_submission_def)
  moreover have "(ae_status (api_validation demo_api_env d), ae_code (api_validation demo_api_env d)) =
      (409, str ''DUPLICATE_TRANSACTION'')"
    using submission_outcome [OF dup] sub(2) ready demo_snapshot_ready by auto
  moreover have "(ae_status f, ae_code f) = (503, str ''NODE_HALTED'')"
    using submission_outcome [OF halted] by simp
  ultimately show ?thesis using run bad dup halted by metis
qed

section \<open>Listings\<close>

lemma collect_results_append:
  "collect_results f (xs @ ys) = and_then (collect_results f xs) (\<lambda>as. and_then (collect_results f ys) (\<lambda>bs. Inr (as @ bs)))"
  by (induction xs) (auto simp: and_then_def split: sum.splits)

text \<open>A page handler that turns the rows into what is shown.\<close>

lemma collect_shown:
  assumes "\<And>c. shown c = and_then (page c) (\<lambda>(rows, next_cursor).
      and_then (collect_results f rows) (\<lambda>items. Inr (items, next_cursor)))"
  shows "collect_pages fuel page cursor = Inr rows \<Longrightarrow> collect_results f rows = Inr items \<Longrightarrow>
    collect_pages fuel shown cursor = Inr items"
proof (induction fuel arbitrary: cursor rows items)
  case (Suc fuel)
  then obtain now next_cursor where p: "page cursor = Inr (now, next_cursor)"
    by (auto simp: result_simps)
  show ?case
  proof (cases next_cursor)
    case None
    with Suc.prems p show ?thesis by (simp add: assms)
  next
    case (Some c)
    with Suc.prems p obtain more where more: "collect_pages fuel page (Some c) = Inr more" "rows = now @ more"
      by (auto simp: result_simps)
    with Suc.prems(2) obtain as bs where "collect_results f now = Inr as" "collect_results f more = Inr bs"
      "items = as @ bs"
      by (auto simp: collect_results_append result_simps)
    with Suc.IH [OF more(1)] p Some show ?thesis by (simp add: assms)
  qed
qed simp

text \<open>What a client keeps of a page.\<close>

definition page_parts :: "api_error + 'a paginated \<Rightarrow> api_error + 'a list \<times> rstring option" where
  "page_parts r = and_then r (\<lambda>p. Inr (pg_items p, pg_next_cursor p))"

text \<open>
  C34: Whatever page size a client asks for, following the cursors of the block listing shows
  every stored block exactly once, newest first, and following those of the transaction
  listing every stored transaction exactly once, by falling height and index; a
  listing needs no more pages than it has entries.
\<close>

theorem listings_are_complete:
  assumes "store_wf (nh_store h)"
    and "collect_results (explorer_block_of env h False) (blocks_newest_first (nh_store h)) = Inr shown_blocks"
    and "collect_results (explorer_transaction_of env h) (transactions_newest_first (nh_store h)) =
      Inr shown_transactions"
    and "length (canonical_block_rows (nh_store h)) \<le> fuel"
    and "length (db_transactions (nh_store h)) \<le> fuel"
  shows "collect_pages fuel
      (\<lambda>cursor. page_parts (get_blocks env h \<lparr>cq_cursor = cursor, cq_limit = limit\<rparr>)) None = Inr shown_blocks \<and>
    collect_pages fuel
      (\<lambda>cursor. page_parts (get_transactions env h \<lparr>cq_cursor = cursor, cq_limit = limit\<rparr>)) None =
      Inr shown_transactions"
proof
  have blocks: "blocks_wf (db_blocks (nh_store h))" using assms(1) by (simp add: store_wf_def)
  have "collect_pages fuel (\<lambda>cursor. block_page (nh_store h) \<lparr>cq_cursor = cursor, cq_limit = limit\<rparr>) None =
      Inr (blocks_newest_first (nh_store h))"
    using block_listing.collect_all [OF blocks, of fuel limit] assms(4) by (simp add: blocks_newest_first_def)
  then show "collect_pages fuel
      (\<lambda>cursor. page_parts (get_blocks env h \<lparr>cq_cursor = cursor, cq_limit = limit\<rparr>)) None = Inr shown_blocks"
    by (rule collect_shown [rotated, OF _ assms(2)])
      (auto simp: page_parts_def get_blocks_def and_then_def split: sum.splits)
  have "collect_pages fuel (\<lambda>cursor. transaction_page (nh_store h) \<lparr>cq_cursor = cursor, cq_limit = limit\<rparr>) None =
      Inr (transactions_newest_first (nh_store h))"
    using transaction_listing.collect_all [OF assms(1), of fuel limit] assms(5)
    by (simp add: transactions_newest_first_def newest_first_def bt_values_def)
  then show "collect_pages fuel
      (\<lambda>cursor. page_parts (get_transactions env h \<lparr>cq_cursor = cursor, cq_limit = limit\<rparr>)) None =
      Inr shown_transactions"
    by (rule collect_shown [rotated, OF _ assms(3)])
      (auto simp: page_parts_def get_transactions_def and_then_def split: sum.splits)
qed

text \<open>A stored block with two transactions, shown on pages of one entry.\<close>

definition demo_listing_env :: api_env where
  "demo_listing_env = demo_api_env\<lparr>unborsh_block := \<lambda>_. Some demo_block\<rparr>"

definition demo_listing_store :: store where
  "demo_listing_store = fst (persist_finalized store_empty (demo_projection\<lparr>fp_transactions :=
     [\<lparr>tp_id = hash32_display demo_env (tx_id demo_env demo_claim), tp_index = 0, tp_kind = str ''claim_reward'',
       tp_sender = str ''a'', tp_recipient = None, tp_amount_atoms = 100, tp_nonce = 0\<rparr>,
      \<lparr>tp_id = hash32_display demo_env (tx_id demo_env demo_transfer), tp_index = 1, tp_kind = str ''transfer'',
       tp_sender = str ''a'', tp_recipient = Some (str ''b''), tp_amount_atoms = 7, tp_nonce = 1\<rparr>]\<rparr>))"

definition demo_handle :: node_handle where
  "demo_handle =
     \<lparr>nh_snapshot =
        \<lparr>rs_chain_id = [], rs_protocol_version = 1, rs_height = str ''1'', rs_finalized_hash = [],
         rs_state_root = [], rs_circulating_supply_atoms = str ''10'', rs_max_supply_atoms = [],
         rs_mempool_size = 0, rs_peer_count = 0, rs_block_time_ms = 0,
         rs_validators = [], rs_syncing = False, rs_halted = False\<rparr>,
      nh_store = demo_listing_store\<rparr>"

lemma demo_listing_wf: "store_wf demo_listing_store"
  using store_runs_wf [OF store_runs_step [OF store_runs_refl [of "\<lambda>_. []" store_empty], of "PersistFinalized _"] store_empty_wf]
  by (simp add: demo_listing_store_def)

lemma demo_listing_size:
  "length (canonical_block_rows demo_listing_store) = 1" "length (db_transactions demo_listing_store) = 2"
  by code_simp+

lemma demo_listing_shown:
  "is_ok (collect_results (explorer_block_of demo_listing_env demo_handle False) (blocks_newest_first demo_listing_store))"
  "is_ok (collect_results (explorer_transaction_of demo_listing_env demo_handle)
     (transactions_newest_first demo_listing_store))"
  by code_simp+

theorem listings_are_complete_witness:
  "\<exists>items. collect_pages 2 (\<lambda>cursor. page_parts (get_transactions demo_listing_env demo_handle
     \<lparr>cq_cursor = cursor, cq_limit = Some 1\<rparr>)) None = Inr items \<and> length items = 2"
proof -
  obtain shown_blocks shown_transactions where shown:
    "collect_results (explorer_block_of demo_listing_env demo_handle False)
       (blocks_newest_first (nh_store demo_handle)) = Inr shown_blocks"
    "collect_results (explorer_transaction_of demo_listing_env demo_handle)
       (transactions_newest_first (nh_store demo_handle)) = Inr shown_transactions"
    using demo_listing_shown by (auto simp: is_ok_iff demo_handle_def)
  then have "length shown_transactions = 2"
    using demo_listing_size(2)
    by (auto simp: collect_results_ok demo_handle_def transactions_newest_first_def newest_first_def bt_values_def
        dest: list_all2_lengthD)
  moreover have "store_wf (nh_store demo_handle)" "length (canonical_block_rows (nh_store demo_handle)) \<le> 2"
    "length (db_transactions (nh_store demo_handle)) \<le> 2"
    using demo_listing_wf demo_listing_size by (simp_all add: demo_handle_def)
  ultimately show ?thesis
    using listings_are_complete [OF _ shown, where limit = "Some 1" and fuel = 2] by blast
qed

end
