(* ===== verification/CliProps.thy ===== *)
theory CliProps
  imports ApiProps NodeRunProps
begin

text \<open>
  Properties of the command line: \<open>kcoin db verify\<close> accepts the database of every run of a
  node and of every re-indexing, and wallet files are read back as the key they hold.
\<close>

section \<open>Metadata\<close>

lemma fold_metadata_get:
  "distinct (map fst kvs) \<Longrightarrow> (k, v) \<in> set kvs \<Longrightarrow>
   bt_get (db_metadata (fold upsert_metadata kvs db)) k = Some v"
proof (induction kvs rule: rev_induct)
  case (snoc kv kvs)
  then show ?case by (cases kv) (force simp: upsert_metadata_def)
qed simp

lemma metadata_written:
  assumes "persist_finalized_statements b db = Inr db'" "(k, v) \<in> set (finalized_metadata b)"
  shows "metadata_is db' k v"
proof -
  obtain db3 where "db' = clear_safety (fp_height b) (fold upsert_metadata (finalized_metadata b) db3)"
    using assms(1) by (auto simp: persist_finalized_statements_def result_simps)
  moreover have "distinct (map fst (finalized_metadata b))" by (simp add: finalized_metadata_def str_def)
  note fold_metadata_get [OF this assms(2), of db3]
  ultimately show ?thesis by (simp add: metadata_is_def store_metadata_def clear_safety_def)
qed

lemma applied_tip:
  assumes "apply_finalized_block env s b certificate vs = (s', Inr receipts)"
  shows "ls_height s' = bh_height (bk_header b)" "ls_tip_hash s' = block_hash env b"
    "state_root env s' = bh_state_root (bk_header b)" "ls_chain_id s' = ls_chain_id s"
proof -
  from assms have block: "apply_block env s b = (s', Inr receipts)" by (simp add: apply_finalized_block_ok)
  then obtain c where "bh_state_root (bk_header b) = state_root env
        (c\<lparr>ls_height := bh_height (bk_header b), ls_last_block_timestamp_ms := bh_timestamp_ms (bk_header b)\<rparr>)"
    "s' = c\<lparr>ls_height := bh_height (bk_header b), ls_last_block_timestamp_ms := bh_timestamp_ms (bk_header b),
        ls_tip_hash := block_hash env b\<rparr>"
    unfolding apply_block_ok by blast
  then show "ls_height s' = bh_height (bk_header b)" "ls_tip_hash s' = block_hash env b"
    "state_root env s' = bh_state_root (bk_header b)"
    by (simp_all add: state_root_def)
  from extends_apply_block [OF block] show "ls_chain_id s' = ls_chain_id s" by (simp add: extends_def)
qed

lemma commit_metadata:
  assumes "apply_finalized_block env s b certificate vs = (s', Inr receipts)"
    and "build_projection env db0 s' b certificate receipts = Inr projection"
    and "persist_finalized db projection = (db', Inr ())"
  shows "metadata_matches db' (replay_report_of env s')"
proof -
  have st: "persist_finalized_statements projection db = Inr db'"
    using assms(3) by (auto simp: persist_finalized_def transact_def split: sum.splits)
  have "fp_height projection = ls_height s'" "fp_block_hash projection = hash32_display env (ls_tip_hash s')"
    "fp_state_root projection = hash32_display env (state_root env s')"
    "fp_issued_supply_atoms projection = ls_total_supply_atoms s'"
    using assms(2) applied_tip [OF assms(1)] by (auto simp: build_projection_def Let_def result_simps)
  then show ?thesis
    using metadata_written [OF st]
    by (simp add: metadata_matches_def replay_report_of_def finalized_metadata_def)
qed

text \<open>The last row of a history is the tip of its replay.\<close>

lemma history_tip:
  assumes "replay_rows_from env True (ledger_new chain) (canonical_block_rows db) = Inr ledger"
  shows "tip_matches db (replay_report_of env ledger)"
proof (cases "canonical_block_rows db" rule: rev_cases)
  case Nil
  then show ?thesis by (simp add: tip_matches_def store_tip_def canonical_block_rows_def)
next
  case (snoc rows row)
  with assms obtain s where "replay_rows_from env True s [row] = Inr ledger"
    by (auto simp: replay_rows_append result_simps simp del: replay_rows_from.simps)
  then obtain b certificate rs where r: "row_agrees env row b certificate"
    "apply_finalized_block env s b certificate (dev_validator_ids env) = (ledger, Inr rs)"
    unfolding replay_row_step by auto
  have "store_tip db = Some row" using snoc by (simp add: store_tip_def canonical_block_rows_def)
  with r(1) applied_tip [OF r(2)] show ?thesis
    by (simp add: tip_matches_def replay_report_of_def row_agrees_def Let_def)
qed

definition metadata_ok :: "'z node_env_scheme \<Rightarrow> store \<Rightarrow> ledger_state \<Rightarrow> bool" where
  "metadata_ok env db ledger \<longleftrightarrow>
     canonical_block_rows db = [] \<or> metadata_matches db (replay_report_of env ledger)"

text \<open>What \<open>verify\<close> accepts, and what it reports.\<close>

lemma verify_database_ok:
  assumes "files target = Some db" "chain_id_new chain_text = Inr chain"
    and "verify_store env db chain = Inr (replay_report_of env ledger)"
    and "metadata_ok env db ledger"
  shows "\<exists>report. verify_database env files target chain_text = Inr report \<and>
     vp_block_count report = length (canonical_block_rows db) \<and>
     vp_height report = u64_to_string (ls_height ledger) \<and>
     vp_finalized_hash report = hash32_display env (ls_tip_hash ledger) \<and>
     vp_state_root report = hash32_display env (state_root env ledger) \<and>
     vp_circulating_supply_atoms report = u64_to_string (ls_total_supply_atoms ledger)"
proof -
  obtain ledger' where l: "replay_rows_from env True (ledger_new chain) (canonical_block_rows db) = Inr ledger'"
    "replay_report_of env ledger' = replay_report_of env ledger"
    using assms(3) by (auto simp: verify_store_def replay_canonical_rows_def result_simps)
  then have "tip_matches db (replay_report_of env ledger)" using history_tip [OF l(1)] by simp
  then show ?thesis
    using assms by (auto simp: verify_database_def Let_def metadata_ok_def replay_report_of_def)
qed

section \<open>The database of a run\<close>

lemma path_metadata:
  assumes "path env a a'"
  shows "metadata_ok env (na_store a) (na_ledger a) \<longrightarrow> metadata_ok env (na_store a') (na_ledger a')"
  using assms
proof induction
  case (stay a a')
  then show ?case
    by (simp add: same_chain_def metadata_ok_def canonical_block_rows_def metadata_matches_def metadata_is_def
        store_metadata_def)
next
  case (submission a t gossip a' r)
  then have "na_store a' = na_store a \<and> na_ledger a' = na_ledger a"
    by (auto simp: accept_transaction_def Let_def split: if_splits option.splits sum.splits)
  then show ?case by simp
next
  case (conflict a b certificate source a' r)
  then have "a' = halt_on_conflict env a" using import_halts [OF conflict] by metis
  then show ?case by (simp add: halt_on_conflict_state)
next
  case (commit a b certificate gossip a' r)
  then show ?case
  proof (cases rule: commit_finalized_cases)
    case (committed ledger' receipts projection db)
    from commit_metadata [OF committed(1-3)] committed(4,5) show ?thesis by (simp add: metadata_ok_def)
  qed simp
qed simp

lemma run_metadata:
  assumes "run env a commands = Some a'" and "metadata_ok env (na_store a) (na_ledger a)"
  shows "metadata_ok env (na_store a') (na_ledger a')"
proof -
  obtain b c where p: "path env a b" "c = b \<or> fails_closed env a b c" "path env c a'"
    using run_path [OF assms(1)] by blast
  then have "na_store c = na_store b" "na_ledger c = na_ledger b"
    using fails_closed_keeps(3,4) [of env a b c] by auto
  with path_metadata [OF p(1)] path_metadata [OF p(3)] assms(2) show ?thesis by simp
qed

text \<open>Stored records that decode are a history that verifies.\<close>

lemma records_verify:
  "list_all2 (\<lambda>row (b, certificate). row_agrees env row b certificate) rows records \<Longrightarrow>
   replay_finalized_from env s records (dev_validator_ids env) = Inr s' \<Longrightarrow>
   \<forall>(b, certificate) \<in> set records. codec_restores env b certificate \<Longrightarrow>
   replay_rows_from env True s rows = Inr s'"
proof (induction rows records arbitrary: s rule: list_all2_induct)
  case (Cons row rows pair records)
  obtain b certificate where r: "pair = (b, certificate)" by fastforce
  with Cons.prems(1) obtain s1 rs where step:
    "apply_finalized_block env s b certificate (dev_validator_ids env) = (s1, Inr rs)"
    "replay_finalized_from env s1 records (dev_validator_ids env) = Inr s'"
    by (auto split: prod.splits sum.splits)
  have "decode_row env row = Inr (b, certificate)"
    using decode_committed_row [OF _ _ step(1)] Cons.hyps Cons.prems(2) r by auto
  with step Cons r show ?case by simp
qed simp

text \<open>
  C14: \<open>kcoin db verify\<close> accepts the database of a node at any point of any run: when the
  node was started on a database that passes, then, whatever commands, messages and
  failures it has met, its database holds, column by column, finalized blocks whose replay is
  the ledger it has in memory; and if Borsh reads back what it wrote for them, the
  database passes again, with their number and the tip, state root and supply of that ledger.
\<close>

theorem run_leaves_verifiable_database:
  assumes "store_wf db" and "files target = Some db"
    and "verify_database env files target (nc_chain_id config) = Inr report"
    and "start_node env config db network clock_ms instant = Inr a" and "run env a commands = Some a'"
  shows "(\<exists>records. stored_records env (na_store a') records \<and>
      replay_finalized_blocks env (na_chain_id a) records (dev_validator_ids env) = Inr (na_ledger a')) \<and>
    (\<forall>records. stored_records env (na_store a') records \<longrightarrow>
      replay_finalized_blocks env (na_chain_id a) records (dev_validator_ids env) = Inr (na_ledger a') \<longrightarrow>
      (\<forall>(b, certificate) \<in> set records. codec_restores env b certificate) \<longrightarrow>
      (\<exists>report'. verify_database env (files(target \<mapsto> na_store a')) target (nc_chain_id config) = Inr report' \<and>
        vp_block_count report' = length records \<and>
        vp_height report' = u64_to_string (ls_height (na_ledger a')) \<and>
        vp_finalized_hash report' = hash32_display env (ls_tip_hash (na_ledger a')) \<and>
        vp_state_root report' = hash32_display env (state_root env (na_ledger a')) \<and>
        vp_circulating_supply_atoms report' = u64_to_string (ls_total_supply_atoms (na_ledger a'))))"
proof -
  let ?chain = "ChainId (nc_chain_id config)"
  note S = start_node_ok [OF assms(4)]
  have chain: "chain_id_new (nc_chain_id config) = Inr ?chain"
    using assms(4) by (auto simp: start_node_def chain_id_new_Inr result_simps)
  obtain replay where v: "verify_store env db ?chain = Inr replay"
    "canonical_block_rows db = [] \<or> metadata_matches db replay"
    using assms(2,3) chain by (auto simp: verify_database_def Let_def result_simps split: if_splits)
  obtain ledger where l: "replay_canonical_rows env (canonical_block_rows db) ?chain True = Inr ledger"
    "replay = replay_report_of env ledger"
    using v(1) by (auto simp: verify_store_def result_simps)
  then have "history_holds env db ?chain ledger" using assms(1) by (simp add: history_holds_def store_wf_def)
  from history_starts [OF this] S(8) l(2) v(2) S(2)
  have "metadata_ok env (na_store a) (na_ledger a)" by (simp add: metadata_ok_def)
  with run_metadata [OF assms(5)]
  have meta: "metadata_ok env (na_store a') (na_ledger a')" by blast
  have "\<exists>records. stored_records env (na_store a') records \<and>
      replay_finalized_blocks env (na_chain_id a) records (dev_validator_ids env) = Inr (na_ledger a')"
  proof -
    obtain records where "backed env a records"
      using start_node_backed(1) [OF assms(1) v(1) assms(4)] by blast
    with run_keeps [OF assms(5)] obtain new where
      "backed env a' (records @ new)" "na_chain_id a' = na_chain_id a" "na_validator_ids a' = na_validator_ids a"
      by blast
    with S(3) show ?thesis by (auto simp: backed_def)
  qed
  moreover have "\<exists>report'. verify_database env (files(target \<mapsto> na_store a')) target (nc_chain_id config) = Inr report' \<and>
        vp_block_count report' = length records \<and>
        vp_height report' = u64_to_string (ls_height (na_ledger a')) \<and>
        vp_finalized_hash report' = hash32_display env (ls_tip_hash (na_ledger a')) \<and>
        vp_state_root report' = hash32_display env (state_root env (na_ledger a')) \<and>
        vp_circulating_supply_atoms report' = u64_to_string (ls_total_supply_atoms (na_ledger a'))"
    if stored: "stored_records env (na_store a') records"
      and replayed: "replay_finalized_blocks env (na_chain_id a) records (dev_validator_ids env) = Inr (na_ledger a')"
      and codec: "\<forall>(b, certificate) \<in> set records. codec_restores env b certificate" for records
  proof -
    have rows: "list_all2 (\<lambda>row (b, certificate). row_agrees env row b certificate)
        (canonical_block_rows (na_store a')) records"
      using stored by (simp add: stored_records_def)
    from records_verify [OF this _ codec] replayed S(1)
    have "verify_store env (na_store a') ?chain = Inr (replay_report_of env (na_ledger a'))"
      by (simp add: verify_store_def replay_canonical_rows_def replay_finalized_blocks_def)
    from verify_database_ok [OF _ chain this meta, of "files(target \<mapsto> na_store a')" target]
    show ?thesis using list_all2_lengthD [OF rows] by auto
  qed
  ultimately show ?thesis by blast
qed

section \<open>Re-indexing\<close>

definition row_bytes :: "block_row \<Rightarrow> bytes \<times> bytes" where
  "row_bytes row = (br_block_bytes row, br_certificate_bytes row)"

lemma bt_insert_keeps:
  assumes "bt_wf m" "bt_get m k = Some old" "f new = f old"
  shows "map f (bt_values (bt_insert k new m)) = map f (bt_values m)"
  using assms
proof (induction k new m rule: bt_insert.induct)
  case (2 k v k' v' m)
  show ?case
  proof (cases "k < k'")
    case True
    with "2.prems"(1) have "bt_get ((k', v') # m) k = None" by (auto simp: bt_get_None bt_wf_Cons)
    with "2.prems" show ?thesis by simp
  next
    case False
    with 2 show ?thesis by (auto simp: bt_values_def bt_wf_Cons bt_get_def)
  qed
qed simp

text \<open>The bytes of the rows stay, and the last projection leaves its metadata.\<close>

lemma reindex_row_store:
  assumes "bt_wf (db_blocks db)" and "refresh_block_projection db projection = (db1, Inr ())"
    and "persist_finalized db1 projection = (db2, Inr ())"
  shows "bt_wf (db_blocks db2) \<and>
    map row_bytes (canonical_block_rows db2) = map row_bytes (canonical_block_rows db)"
proof -
  obtain row where row: "bt_get (db_blocks db) (fp_height projection) = Some row"
    "br_block_bytes row = fp_block_bytes projection" "br_certificate_bytes row = fp_certificate_bytes projection"
    "db1 = db\<lparr>db_blocks := bt_insert (fp_height projection) (block_row_of projection) (db_blocks db)\<rparr>"
    using assms(2) by (auto simp: refresh_block_projection_def transact_def sql_u64_def sql_constraint_def
        split: if_splits option.splits sum.splits)
  have "persist_finalized_statements projection db1 = Inr db2"
    using assms(3) by (auto simp: persist_finalized_def transact_def split: sum.splits)
  from persist_finalized_ok(1) [OF this] row(4) have "db_blocks db2 = db_blocks db1" by simp
  moreover have "map row_bytes (bt_values (db_blocks db1)) = map row_bytes (bt_values (db_blocks db))"
    using bt_insert_keeps [OF assms(1) row(1), of row_bytes "block_row_of projection"] row(2-4)
    by (simp add: row_bytes_def block_row_of_def)
  ultimately show ?thesis using assms(1) row(4) by (simp add: canonical_block_rows_def)
qed

lemma reindex_rows_ok:
  assumes "reindex_rows env db s rows = (db', Inr s')" "bt_wf (db_blocks db)"
  shows "map row_bytes (canonical_block_rows db') = map row_bytes (canonical_block_rows db) \<and>
    replay_rows_from env False s rows = Inr s' \<and> ls_chain_id s' = ls_chain_id s \<and>
    (rows \<noteq> [] \<longrightarrow> metadata_matches db' (replay_report_of env s'))"
  using assms
proof (induction rows arbitrary: db s)
  case (Cons row rows)
  from Cons.prems(1) obtain b certificate s1 receipts projection db1 db2 where step:
    "decode_row env row = Inr (b, certificate)"
    "apply_finalized_block env s b certificate (dev_validator_ids env) = (s1, Inr receipts)"
    "build_projection env db s1 b certificate receipts = Inr projection"
    "refresh_block_projection db projection = (db1, Inr ())"
    "persist_finalized db1 projection = (db2, Inr ())"
    and rest: "reindex_rows env db2 s1 rows = (db', Inr s')"
    by (auto simp: lift_store_def st_then_def result_simps prod_eq_iff split: sum.splits prod.splits)
  note store = reindex_row_store [OF Cons.prems(2) step(4,5)]
  note IH = Cons.IH [OF rest] store
  have "metadata_matches db' (replay_report_of env s')"
  proof (cases rows)
    case Nil
    with rest commit_metadata [OF step(2,3,5)] show ?thesis by simp
  qed (use IH in simp)
  with IH step applied_tip(4) [OF step(2)] show ?case by simp
qed simp

text \<open>The ledger of a replay depends on the bytes alone.\<close>

lemma decode_row_bytes: "row_bytes row = row_bytes row' \<Longrightarrow> decode_row env row = decode_row env row'"
  by (simp add: decode_row_def row_bytes_def)

lemma replay_depends_on_bytes:
  "map row_bytes rows = map row_bytes rows' \<Longrightarrow>
   replay_rows_from env False s rows = replay_rows_from env False s rows'"
proof (induction rows arbitrary: rows' s)
  case (Cons row rows)
  then obtain row' rest where "rows' = row' # rest" "row_bytes row = row_bytes row'"
    "map row_bytes rows = map row_bytes rest" by auto
  with Cons.IH [of rest] decode_row_bytes [of row row' env] show ?case
    by (auto intro!: arg_cong [of _ _ "and_then _"] ext split: prod.split sum.split)
qed simp

text \<open>
  C27: Re-indexing repairs: when \<open>kcoin db reindex\<close> has rebuilt the projections of a database, a
  following \<open>kcoin db verify\<close> accepts it, whatever the columns, projections and metadata were
  before, and reports what the rebuild reported; the stored blocks and certificates are
  byte for byte the old ones.
\<close>

theorem reindexed_database_verifies:
  assumes "store_wf db" and "files target = Some db"
    and "chain_id_new chain_text = Inr chain" and "reindex_store env db chain = (db', Inr replay)"
  shows "\<exists>report. reindex_database env files target chain_text = (files(target \<mapsto> db'), Inr report) \<and>
    verify_database env (files(target \<mapsto> db')) target chain_text = Inr report \<and>
    vp_height report = u64_to_string (rr_height replay) \<and>
    vp_finalized_hash report = rr_block_hash replay \<and> vp_state_root report = rr_state_root replay \<and>
    vp_circulating_supply_atoms report = u64_to_string (rr_circulating_supply_atoms replay) \<and>
    map row_bytes (canonical_block_rows db') = map row_bytes (canonical_block_rows db)"
proof -
  let ?rows = "canonical_block_rows db"
  obtain s where reindex: "reindex_rows env (clear_projections db) (ledger_new chain) ?rows = (db', Inr s)"
    "verify_store env db' (ls_chain_id s) = Inr replay"
    using assms(4) by (auto simp: reindex_store_def Let_def st_then_def split: sum.splits prod.splits)
  have "bt_wf (db_blocks (clear_projections db))"
    using assms(1) by (simp add: clear_projections_def store_wf_def blocks_wf_def)
  note R = reindex_rows_ok [OF reindex(1) this]
  have same: "map row_bytes (canonical_block_rows db') = map row_bytes ?rows"
    using R by (simp add: clear_projections_def canonical_block_rows_def)
  have chain: "ls_chain_id s = chain" using R by (simp add: ledger_new_def)
  obtain s' where s': "replay_rows_from env True (ledger_new chain) (canonical_block_rows db') = Inr s'"
    "replay = replay_report_of env s'"
    using reindex(2) chain by (auto simp: verify_store_def replay_canonical_rows_def result_simps)
  from replay_without_columns [OF s'(1)] R
    replay_depends_on_bytes [OF same, of env "ledger_new chain"] have "s' = s" by simp
  moreover have "canonical_block_rows db' = [] \<longleftrightarrow> ?rows = []" using same by (metis map_is_Nil_conv)
  ultimately have "metadata_ok env db' s'" using R by (auto simp: metadata_ok_def)
  moreover have "verify_store env db' chain = Inr (replay_report_of env s')" using reindex(2) chain s'(2) by simp
  ultimately obtain report where "verify_database env (files(target \<mapsto> db')) target chain_text = Inr report"
    "vp_height report = u64_to_string (ls_height s')"
    "vp_finalized_hash report = hash32_display env (ls_tip_hash s')"
    "vp_state_root report = hash32_display env (state_root env s')"
    "vp_circulating_supply_atoms report = u64_to_string (ls_total_supply_atoms s')"
    using verify_database_ok [OF _ assms(3), of "files(target \<mapsto> db')" target db' env s'] by auto
  with same assms(2-4) s'(2) show ?thesis
    by (intro exI [of _ report]) (simp add: reindex_database_def Let_def replay_report_of_def)
qed

section \<open>Examples of databases\<close>

text \<open>The validator that imports a block, from \<open>NodeRunProps\<close>.\<close>

theorem run_leaves_verifiable_database_witness:
  "\<exists>a0 a report. demo_start = Inr a0 \<and> run demo_node_env a0 demo_commands = Some a \<and>
     verify_database demo_node_env [str ''db'' \<mapsto> na_store a] (str ''db'') (str ''testnet'') = Inr report \<and>
     vp_block_count report = 1"
proof -
  obtain a0 where start: "demo_start = Inr a0" "na_recovery_messages a0 = []"
    using demo_starts by (auto split: sum.splits)
  note S = start_node_ok [OF start(1) [unfolded demo_start_def]]
  let ?a0 = "at_time (5, from_millis 200) a0"
  let ?a = "fst (import_finalized demo_node_env ?a0 demo_node_block demo_dev_certificate None)"
  have run: "run demo_node_env a0 demo_commands = Some ?a"
    using start(2) by (simp add: run_def run_prologue_def demo_commands_def handle_command_def)
  have "na_ledger a0 = ledger_new demo_chain"
    using history_starts [OF demo_history] S(8) by (simp add: demo_chain_ids)
  note S = S this
  have empty: "verify_store demo_node_env store_empty demo_chain = Inr (replay_report_of demo_node_env (ledger_new demo_chain))"
    using demo_history by (simp add: verify_store_def history_holds_def)
  have chain: "chain_id_new (str ''testnet'') = Inr demo_chain" by code_simp
  have "\<exists>report. verify_database demo_node_env [str ''db'' \<mapsto> store_empty] (str ''db'') (str ''testnet'') = Inr report"
    using verify_database_ok [OF _ chain empty, of "[str ''db'' \<mapsto> store_empty]" "str ''db''"]
    by (auto simp: metadata_ok_def canonical_block_rows_def store_empty_def bt_values_def)
  then obtain report where ok:
    "verify_database demo_node_env [str ''db'' \<mapsto> store_empty] (str ''db'') (nc_chain_id demo_node_config) = Inr report"
    by (auto simp: demo_node_config_def)
  show ?thesis
  proof (rule demo_commit_parts)
    fix ledger receipts projection db
    assume parts: "apply_finalized_block demo_node_env (ledger_new demo_chain) demo_node_block demo_dev_certificate
       (dev_validator_ids demo_node_env) = (ledger, Inr receipts)"
      "build_projection demo_node_env store_empty ledger demo_node_block demo_dev_certificate receipts = Inr projection"
      "persist_finalized store_empty projection = (db, Inr ())"
    obtain a1 where a1: "na_ledger a1 = ledger" "na_store a1 = db" "same_chain a1 ?a"
      using S parts by (elim import_commits_block [rotated -1]) (simp_all add: at_time_def demo_chain_ids)
    have "stored_records demo_node_env store_empty []"
      by (simp add: stored_records_def store_empty_def canonical_block_rows_def bt_values_def blocks_wf_def)
    from records_extend [OF this _ parts(1-3), of demo_chain]
    have "stored_records demo_node_env (na_store ?a) [(demo_node_block, demo_dev_certificate)]"
      "replay_finalized_blocks demo_node_env demo_chain [(demo_node_block, demo_dev_certificate)]
         (dev_validator_ids demo_node_env) = Inr (na_ledger ?a)"
      using a1 by (simp_all add: replay_finalized_blocks_def same_chain_def stored_records_def canonical_block_rows_def)
    note stored = this
    have "stored_records demo_node_env (na_store ?a) [(demo_node_block, demo_dev_certificate)]"
      "replay_finalized_blocks demo_node_env (na_chain_id a0) [(demo_node_block, demo_dev_certificate)]
         (dev_validator_ids demo_node_env) = Inr (na_ledger ?a)"
      "\<forall>(b, certificate) \<in> set [(demo_node_block, demo_dev_certificate)]. codec_restores demo_node_env b certificate"
      using stored S(1) demo_codec by (simp_all add: demo_chain_ids)
    note facts = this
    have "[str ''db'' \<mapsto> store_empty] (str ''db'') = Some store_empty" by simp
    from run_leaves_verifiable_database [OF store_empty_wf this ok start(1) [unfolded demo_start_def] run] facts
    obtain report' where
      "verify_database demo_node_env [str ''db'' \<mapsto> na_store ?a] (str ''db'') (nc_chain_id demo_node_config) = Inr report'"
      "vp_block_count report' = length [(demo_node_block, demo_dev_certificate)]"
      unfolding fun_upd_upd by blast
    with run start(1) show ?thesis
      by (intro exI [of _ a0] exI [of _ ?a] exI [of _ report'] conjI) (simp_all add: demo_node_config_def)
  qed
qed

text \<open>A database whose derived columns were never true to its block.\<close>

definition demo_stale_store :: store where
  "demo_stale_store = fst (persist_finalized store_empty
     (demo_projection\<lparr>fp_block_bytes := [], fp_certificate_bytes := []\<rparr>))"

lemma demo_stale:
  "is_ok (snd (reindex_store demo_node_env demo_stale_store demo_chain)) \<and>
   \<not> is_ok (verify_store demo_node_env demo_stale_store demo_chain)"
  by code_simp

theorem reindexed_database_verifies_witness:
  "\<exists>db report. verify_database demo_node_env [str ''db'' \<mapsto> demo_stale_store] (str ''db'') (str ''testnet'') \<noteq> Inr report \<and>
     verify_database demo_node_env [str ''db'' \<mapsto> db] (str ''db'') (str ''testnet'') = Inr report \<and>
     map row_bytes (canonical_block_rows db) = map row_bytes (canonical_block_rows demo_stale_store)"
proof -
  obtain db replay where "reindex_store demo_node_env demo_stale_store demo_chain = (db, Inr replay)"
    using demo_stale by (cases "reindex_store demo_node_env demo_stale_store demo_chain") (auto simp: is_ok_iff)
  moreover have "store_wf demo_stale_store"
    using store_runs_wf [OF store_runs_step [OF store_runs_refl [of "\<lambda>_. []" store_empty], of "PersistFinalized _"] store_empty_wf]
    by (simp add: demo_stale_store_def)
  moreover have chain: "chain_id_new (str ''testnet'') = Inr demo_chain" by code_simp
  ultimately obtain report where
    "verify_database demo_node_env [str ''db'' \<mapsto> db] (str ''db'') (str ''testnet'') = Inr report"
    "map row_bytes (canonical_block_rows db) = map row_bytes (canonical_block_rows demo_stale_store)"
    using reindexed_database_verifies [where files = "[str ''db'' \<mapsto> demo_stale_store]" and target = "str ''db''"
        and db = demo_stale_store and chain_text = "str ''testnet''" and chain = demo_chain
        and env = demo_node_env and db' = db and replay = replay] by auto
  moreover have "verify_database demo_node_env [str ''db'' \<mapsto> demo_stale_store] (str ''db'') (str ''testnet'') \<noteq> Inr report"
    using demo_stale chain by (auto simp: verify_database_def Let_def result_simps is_ok_iff)
  ultimately show ?thesis by blast
qed

section \<open>Wallets\<close>

text \<open>The JSON text of a wallet is read back, with the newline that the file ends with.\<close>

definition wallet_text_restores :: "'z wallet_env_scheme \<Rightarrow> bool" where
  "wallet_text_restores env \<longleftrightarrow> (\<forall>w. json_wallet_read env (json_wallet env w @ [10]) = Some w)"

text \<open>
  A wallet file that \<open>kcoin wallet generate\<close> writes loads as the key it was made from and
  shows that key's address; without \<open>--force\<close> it never replaces an existing file; and
  whatever \<open>load_wallet\<close> accepts, from any file, is a key whose public key and address are
  those that the file states.
\<close>

theorem generated_wallet_loads:
  assumes "base64_roundtrip env" and "wallet_text_restores env" and "length seed = 32"
    and "generate_wallet env files target force seed = Some (Inr files')"
  shows "load_wallet env files' target = Some (Inr seed) \<and>
    show_wallet_address env files' target =
      map_option Inr (address_display env (address_from_public_key env (ed25519_public env seed))) \<and>
    (map_of files target \<noteq> None \<longrightarrow> force) \<and>
    (\<forall>other. other \<noteq> target \<longrightarrow> map_of files' other = map_of files other) \<and>
    (\<forall>some_files place key. load_wallet env some_files place = Some (Inr key) \<longrightarrow>
       (\<exists>x w. map_of some_files place = Some x \<and> json_wallet_read env x = Some w \<and> length key = 32 \<and>
          wf_public_key w = base64_encode env (ed25519_public env key) \<and>
          address_display env (address_from_public_key env (ed25519_public env key)) = Some (wf_address w)))"
proof -
  obtain address where address: "address_display env (address_from_public_key env (ed25519_public env seed)) = Some address"
    "map_of files target \<noteq> None \<longrightarrow> force"
    "files' = (target, json_wallet env
        \<lparr>wf_format = WALLET_FORMAT, wf_secret_seed = base64_encode env seed,
         wf_public_key = base64_encode env (ed25519_public env seed), wf_address = address\<rparr> @ [10]) # files"
    using assms(4) by (auto simp: generate_wallet_def write_secret_file_def Let_def split: if_splits)
  then have "load_wallet env files' target = Some (Inr seed)"
    using assms(1-3) by (simp add: load_wallet_def wallet_text_restores_def base64_roundtrip_def Let_def)
  moreover have "\<exists>x w. map_of some_files place = Some x \<and> json_wallet_read env x = Some w \<and> length key = 32 \<and>
      wf_public_key w = base64_encode env (ed25519_public env key) \<and>
      address_display env (address_from_public_key env (ed25519_public env key)) = Some (wf_address w)"
    if "load_wallet env some_files place = Some (Inr key)" for some_files place key
    using that by (auto simp: load_wallet_def Let_def split: option.splits if_splits)
  ultimately show ?thesis using address by (auto simp: show_wallet_address_def)
qed

text \<open>
  A wallet text that restores: numbers in unary between separators, and four such lists.
\<close>

definition demo_text :: "rstring \<Rightarrow> bytes" where
  "demo_text s = concat (map (\<lambda>n. replicate n 1 @ [0]) s) @ [2]"

fun demo_read_text :: "nat \<Rightarrow> rstring \<Rightarrow> bytes \<Rightarrow> rstring \<times> bytes" where
  "demo_read_text n s [] = (s, [])"
| "demo_read_text n s (b # x) =
     (if b = 1 then demo_read_text (Suc n) s x
      else if b = 0 then demo_read_text 0 (s @ [n]) x else (s, x))"

definition demo_write_wallet :: "wallet_file \<Rightarrow> bytes" where
  "demo_write_wallet w = demo_text (wf_format w) @ demo_text (wf_secret_seed w) @
     demo_text (wf_public_key w) @ demo_text (wf_address w)"

definition demo_read_wallet :: "bytes \<Rightarrow> wallet_file option" where
  "demo_read_wallet x =
     (let (format, x1) = demo_read_text 0 [] x; (seed, x2) = demo_read_text 0 [] x1;
          (key, x3) = demo_read_text 0 [] x2; (address, _) = demo_read_text 0 [] x3
      in Some \<lparr>wf_format = format, wf_secret_seed = seed, wf_public_key = key, wf_address = address\<rparr>)"

lemma demo_read_unary: "demo_read_text n s (replicate m 1 @ 0 # x) = demo_read_text 0 (s @ [n + m]) x"
  by (induction m arbitrary: n) simp_all

lemma demo_read_text_text: "demo_read_text 0 s (demo_text t @ x) = (s @ t, x)"
  by (induction t arbitrary: s) (simp_all add: demo_text_def demo_read_unary)

definition demo_wallet_env :: wallet_env where
  "demo_wallet_env = api_env.extend demo_api_env (wallet_env.fields demo_write_wallet demo_read_wallet)"

lemma demo_wallet_restores: "wallet_text_restores demo_wallet_env"
  by (simp add: wallet_text_restores_def demo_wallet_env_def demo_write_wallet_def demo_read_wallet_def
      demo_read_text_text api_env.defs wallet_env.defs)

lemma demo_wallet_base64: "base64_roundtrip demo_wallet_env"
  by (simp add: base64_roundtrip_def demo_wallet_env_def demo_api_env_def actor_env.defs api_env.defs
      wallet_env.defs comp_def)

lemma demo_wallet_written:
  "\<exists>files. generate_wallet demo_wallet_env [] (str ''w'') False (demo_key 7) = Some (Inr files)"
  by (simp add: generate_wallet_def write_secret_file_def Let_def demo_wallet_env_def demo_api_env_def
      demo_node_env_def demo_consensus_codec_def demo_env_def address_display_def ADDRESS_HRP_def
      api_env.defs wallet_env.defs actor_env.defs node_env.defs consensus_env.defs ledger_env.defs)

theorem generated_wallet_loads_witness:
  "\<exists>files. generate_wallet demo_wallet_env [] (str ''w'') False (demo_key 7) = Some (Inr files) \<and>
     load_wallet demo_wallet_env files (str ''w'') = Some (Inr (demo_key 7))"
proof -
  obtain files where made: "generate_wallet demo_wallet_env [] (str ''w'') False (demo_key 7) = Some (Inr files)"
    using demo_wallet_written by blast
  from generated_wallet_loads [OF demo_wallet_base64 demo_wallet_restores _ made] made
  show ?thesis by (auto simp: demo_key_def)
qed

end
