(* ===== verification/Benchmark.thy ===== *)
theory Benchmark
  imports Cli
begin

text \<open>
  The command \<open>benchmark\<close> of \<open>kcoin-cli/src/main.rs\<close>: an account is funded by a claim where it
  has to be, then one-atom transfers are submitted one after the other, each timed until the
  API reports it as final. The HTTP client, the clock and the generator of keys are
  operations on a world of any type \<open>'w\<close>. Time is in microseconds; the report leaves out the
  floating point rates and the facts about the machine it ran on.
\<close>

section \<open>Effects\<close>

record 'w http_client =
  hc_get :: "'w \<Rightarrow> rstring \<Rightarrow> 'w \<times> (cli_error + http_response)"
  hc_post :: "'w \<Rightarrow> rstring \<Rightarrow> json \<Rightarrow> 'w \<times> (cli_error + http_response)"
  hc_now :: "'w \<Rightarrow> int"
  hc_sleep :: "'w \<Rightarrow> nat \<Rightarrow> 'w"
    \<comment> \<open>milliseconds\<close>
  hc_generate_key :: "'w \<Rightarrow> 'w \<times> bytes"

text \<open>An action fails with an error, or gives no result at all: it panics or never ends.\<close>

type_synonym ('w, 'a) io = "'w \<Rightarrow> ('w \<times> (cli_error + 'a)) option"

definition io_return :: "'a \<Rightarrow> ('w, 'a) io" where
  "io_return x w = Some (w, Inr x)"

definition io_result :: "cli_error + 'a \<Rightarrow> ('w, 'a) io" where
  "io_result r w = Some (w, r)"

definition io_expect :: "'a option \<Rightarrow> ('w, 'a) io" where
  "io_expect x w = map_option (\<lambda>y. (w, Inr y)) x"

definition io_bind :: "('w, 'a) io \<Rightarrow> ('a \<Rightarrow> ('w, 'b) io) \<Rightarrow> ('w, 'b) io" where
  "io_bind m k w =
     (case m w of
        None \<Rightarrow> None
      | Some (w, Inl e) \<Rightarrow> Some (w, Inl e)
      | Some (w, Inr x) \<Rightarrow> k x w)"

definition io_get :: "('w, 'z) http_client_scheme \<Rightarrow> rstring \<Rightarrow> ('w, http_response) io" where
  "io_get client url w = Some (hc_get client w url)"

definition io_post :: "('w, 'z) http_client_scheme \<Rightarrow> rstring \<Rightarrow> json \<Rightarrow> ('w, http_response) io" where
  "io_post client url body w = Some (hc_post client w url body)"

definition io_now :: "('w, 'z) http_client_scheme \<Rightarrow> ('w, int) io" where
  "io_now client w = Some (w, Inr (hc_now client w))"

definition io_generate_key :: "('w, 'z) http_client_scheme \<Rightarrow> ('w, bytes) io" where
  "io_generate_key client w = (case hc_generate_key client w of (w, key) \<Rightarrow> Some (w, Inr key))"

text \<open>\<open>Instant::elapsed\<close> is zero for an instant in the future.\<close>

definition elapsed :: "int \<Rightarrow> int \<Rightarrow> int" where
  "elapsed started now = max 0 (now - started)"

section \<open>The client\<close>

definition get_json :: "('w, 'z) http_client_scheme \<Rightarrow> rstring \<Rightarrow> rstring \<Rightarrow> ('w, json) io" where
  "get_json client api_url path =
     io_bind (io_get client (endpoint api_url path)) (\<lambda>response. io_result (parse_response response))"

definition fetch_account ::
  "('w, 'z) http_client_scheme \<Rightarrow> 'y crypto_env_scheme \<Rightarrow> rstring \<Rightarrow> address \<Rightarrow> ('w, account_view option) io" where
  "fetch_account client env api_url account_address =
     io_bind (io_expect (address_display env account_address)) (\<lambda>text_form.
     io_bind (io_get client (endpoint api_url (str ''/api/v1/addresses/'' @ text_form)))
       (\<lambda>response. io_result (get_account response)))"

text \<open>The derived deserializer needs all four fields, as strings.\<close>

definition challenge_of_json :: "json \<Rightarrow> challenge_response option" where
  "challenge_of_json v =
     (let text_field = (\<lambda>field. Option.bind (json_get (str field) v) json_str) in
      Option.bind (text_field ''challenge_id'') (\<lambda>challenge_id.
      Option.bind (text_field ''expression'') (\<lambda>expression.
      Option.bind (text_field ''issued_at_height'') (\<lambda>issued_at_height.
      map_option (\<lambda>reward_atoms.
        \<lparr>cr_challenge_id = challenge_id, cr_expression = expression,
         cr_issued_at_height = issued_at_height, cr_reward_atoms = reward_atoms\<rparr>)
        (text_field ''reward_atoms'')))))"

definition fetch_challenge ::
  "('w, 'z) http_client_scheme \<Rightarrow> rstring \<Rightarrow> ('w, challenge_response) io" where
  "fetch_challenge client api_url =
     io_bind (get_json client api_url (str ''/api/v1/challenge'')) (\<lambda>v.
       io_result (ok_or (challenge_of_json v) (CliBail ''decode node JSON response'')))"

definition submit ::
  "('w, 'z) http_client_scheme \<Rightarrow> 'y api_env_scheme \<Rightarrow> rstring \<Rightarrow> signed_transaction \<Rightarrow> ('w, rstring) io" where
  "submit client env api_url t =
     io_bind (io_expect (submission_json env t)) (\<lambda>body.
     io_bind (io_post client (endpoint api_url (str ''/api/v1/transactions'')) body) (\<lambda>response.
     io_bind (io_result (parse_response response)) (\<lambda>v.
       io_result (string_field v (str ''transaction_id'')))))"

text \<open>
  Polling until the transaction is found; a 404 is asked again, any other failure ends it.
  Without an advancing clock the loop need not end.
\<close>

partial_function (option) poll_finality ::
  "('w, 'z) http_client_scheme \<Rightarrow> rstring \<Rightarrow> int \<Rightarrow> 'w \<Rightarrow> ('w \<times> (cli_error + unit)) option" where
  "poll_finality client url deadline w =
     (case hc_get client w url of
        (w, Inl e) \<Rightarrow> Some (w, Inl e)
      | (w, Inr response) \<Rightarrow>
          if is_success (hr_status response) then Some (w, Inr ())
          else if hr_status response \<noteq> 404 \<and> \<not> is_ok (parse_response response)
          then Some (w, and_then (parse_response response) (\<lambda>_. Inr ()))
          else if \<not> hc_now client w < deadline
          then Some (w, Inl (CliBail ''transaction did not finalize in time''))
          else poll_finality client url deadline (hc_sleep client w 20))"

definition wait_for_finality ::
  "('w, 'z) http_client_scheme \<Rightarrow> rstring \<Rightarrow> rstring \<Rightarrow> int \<Rightarrow> ('w, unit) io" where
  "wait_for_finality client api_url tid timeout =
     io_bind (io_now client) (\<lambda>now.
       poll_finality client (endpoint api_url (str ''/api/v1/transactions/'' @ tid)) (now + timeout))"

section \<open>The benchmark\<close>

record benchmark_args =
  ba_api_url :: rstring
  ba_samples :: u32
  ba_timeout_seconds :: u64
  ba_wallet :: "rstring option"

record benchmark_report =
  bp_chain_id :: rstring
  bp_protocol_version :: u64
  bp_node_url :: rstring
  bp_node_height_at_start :: rstring
  bp_connected_peer_count :: u64
  bp_reported_online_validators :: nat
  bp_sample_count :: nat
  bp_funding_claims :: nat
  bp_elapsed_micros :: int
  bp_raw_micros :: "u64 list"
  bp_p50 :: u64
  bp_p95 :: u64
  bp_p99 :: u64

record node_summary =
  ns_chain_id :: rstring
  ns_protocol_version :: u64
  ns_height :: u64
  ns_peer_count :: u64
  ns_online_validators :: nat

definition online_validators :: "json \<Rightarrow> nat option" where
  "online_validators status =
     (case json_get (str ''validators'') status of
        Some (JArray validators) \<Rightarrow>
          Some (length (filter (\<lambda>v. json_get (str ''online'') v = Some (JBool True)) validators))
      | _ \<Rightarrow> None)"

definition summarize_status :: "json \<Rightarrow> cli_error + node_summary" where
  "summarize_status status =
     and_then (string_field status (str ''chain_id'')) (\<lambda>chain.
     and_then (case json_get (str ''protocol_version'') status of
         Some (JNumber n) \<Rightarrow> Inr n
       | _ \<Rightarrow> Inl (CliBail ''node response omitted numeric field protocol_version'')) (\<lambda>version.
     and_then (decimal_field status (str ''height'')) (\<lambda>height.
     and_then (decimal_field status (str ''peer_count'')) (\<lambda>peers.
     and_then (ok_or (online_validators status)
       (CliBail ''node response omitted validators array'')) (\<lambda>online.
       Inr \<lparr>ns_chain_id = chain, ns_protocol_version = version, ns_height = height,
            ns_peer_count = peers, ns_online_validators = online\<rparr>)))))"

definition benchmark_key ::
  "('w, 'z) http_client_scheme \<Rightarrow> 'y wallet_env_scheme \<Rightarrow> files \<Rightarrow> rstring option \<Rightarrow> ('w, bytes) io" where
  "benchmark_key client env disk wallet =
     (case wallet of
        Some path \<Rightarrow> io_bind (io_expect (load_wallet env disk path)) io_result
      | None \<Rightarrow> io_generate_key client)"

text \<open>The claim that funds the account: its nonce, its balance and the height afterwards.\<close>

definition fund_account ::
  "('w, 'z) http_client_scheme \<Rightarrow> 'y api_env_scheme \<Rightarrow> rstring \<Rightarrow> int \<Rightarrow> rstring \<Rightarrow> bytes \<Rightarrow>
   address \<Rightarrow> u64 \<Rightarrow> u64 \<Rightarrow> ('w, u64 \<times> u64 \<times> u64) io" where
  "fund_account client env api_url timeout chain signing_key sender sender_nonce height =
     io_bind (fetch_challenge client api_url) (\<lambda>challenge.
     io_bind (io_result (benchmark_claim env chain signing_key sender_nonce height (cr_challenge_id challenge)))
       (\<lambda>t.
     io_bind (submit client env api_url t) (\<lambda>tid.
     io_bind (wait_for_finality client api_url tid timeout) (\<lambda>_.
     io_bind (fetch_account client env api_url sender) (\<lambda>account.
     io_bind (io_result (ok_or account
         (CliBail ''funding claim finalized but account was not indexed''))) (\<lambda>funded.
     io_bind (get_json client api_url (str ''/api/v1/status'')) (\<lambda>refreshed.
     io_bind (io_result (decimal_field refreshed (str ''height''))) (\<lambda>height.
       io_return (av_nonce funded, av_balance_atoms funded, height)))))))))"

definition ensure_funded ::
  "('w, 'z) http_client_scheme \<Rightarrow> 'y api_env_scheme \<Rightarrow> rstring \<Rightarrow> int \<Rightarrow> node_summary \<Rightarrow> bytes \<Rightarrow>
   address \<Rightarrow> u64 \<Rightarrow> u64 \<Rightarrow> u32 \<Rightarrow> ('w, (u64 \<times> u64 \<times> u64) \<times> nat) io" where
  "ensure_funded client env api_url timeout node signing_key sender sender_nonce balance samples =
     (if balance < ucast samples
      then io_bind (fund_account client env api_url timeout (ns_chain_id node) signing_key sender
             sender_nonce (ns_height node)) (\<lambda>funded. io_return (funded, 1))
      else io_return ((sender_nonce, balance, ns_height node), 0))"

text \<open>The loop over the samples, with the microseconds that each took.\<close>

primrec measure_transfers ::
  "('w, 'z) http_client_scheme \<Rightarrow> 'y api_env_scheme \<Rightarrow> rstring \<Rightarrow> int \<Rightarrow> (u32 \<Rightarrow> cli_error + signed_transaction) \<Rightarrow>
   nat list \<Rightarrow> ('w, u64 list) io" where
  "measure_transfers client env api_url timeout transfer [] = io_return []"
| "measure_transfers client env api_url timeout transfer (offset # offsets) =
     io_bind (io_result (transfer (of_nat offset))) (\<lambda>t.
     io_bind (io_now client) (\<lambda>sample_started.
     io_bind (submit client env api_url t) (\<lambda>tid.
     io_bind (wait_for_finality client api_url tid timeout) (\<lambda>_.
     io_bind (io_now client) (\<lambda>now.
     io_bind (measure_transfers client env api_url timeout transfer offsets) (\<lambda>raw_micros.
       io_return (of_int (elapsed sample_started now) # raw_micros)))))))"

definition benchmark ::
  "('w, 'z) http_client_scheme \<Rightarrow> 'y wallet_env_scheme \<Rightarrow> files \<Rightarrow> benchmark_args \<Rightarrow> ('w, benchmark_report) io" where
  "benchmark client env disk args =
     (let api_url = ba_api_url args; timeout = uint (ba_timeout_seconds args) * 1000000 in
      io_bind (get_json client api_url (str ''/api/v1/status'')) (\<lambda>status.
      io_bind (io_result (summarize_status status)) (\<lambda>node.
      io_bind (benchmark_key client env disk (ba_wallet args)) (\<lambda>signing_key.
      let sender = address_from_public_key env (ed25519_public env signing_key) in
      io_bind (fetch_account client env api_url sender) (\<lambda>account.
      let sender_nonce = (case account of None \<Rightarrow> 0 | Some a \<Rightarrow> av_nonce a);
          balance = (case account of None \<Rightarrow> 0 | Some a \<Rightarrow> av_balance_atoms a) in
      io_bind (ensure_funded client env api_url timeout node signing_key sender sender_nonce balance
          (ba_samples args))
        (\<lambda>((sender_nonce, balance, height), funding_claims).
      io_bind (io_result (if balance < ucast (ba_samples args)
          then Inl (CliBail ''wallet has too few atoms for the benchmark'') else Inr ())) (\<lambda>_.
      io_bind (io_generate_key client) (\<lambda>recipient_key.
      let recipient = address_from_public_key env (ed25519_public env recipient_key) in
      io_bind (io_now client) (\<lambda>started.
      io_bind (measure_transfers client env api_url timeout
          (benchmark_transfer env (ns_chain_id node) signing_key sender_nonce height recipient)
          [0..<unat (ba_samples args)]) (\<lambda>raw_micros.
      io_bind (io_now client) (\<lambda>finished.
      io_bind (io_expect (percentile raw_micros 50)) (\<lambda>p50.
      io_bind (io_expect (percentile raw_micros 95)) (\<lambda>p95.
      io_bind (io_expect (percentile raw_micros 99)) (\<lambda>p99.
      io_return
        \<lparr>bp_chain_id = ns_chain_id node, bp_protocol_version = ns_protocol_version node,
         bp_node_url = endpoint api_url [], bp_node_height_at_start = u64_to_string (ns_height node),
         bp_connected_peer_count = ns_peer_count node,
         bp_reported_online_validators = ns_online_validators node,
         bp_sample_count = length raw_micros, bp_funding_claims = funding_claims,
         bp_elapsed_micros = elapsed started finished, bp_raw_micros = raw_micros,
         bp_p50 = p50, bp_p95 = p95, bp_p99 = p99\<rparr>))))))))))))))"

end
