(* ===== verification/BenchmarkProps.thy ===== *)
theory BenchmarkProps
  imports Benchmark ApiProps
begin

text \<open>
  Properties of the benchmark: the percentiles are nearest ranks, what a successful run has
  submitted and reports, and that every run comes to an end.
\<close>

section \<open>Percentiles\<close>

lemma length_filter_sort: "length (filter P (sort xs)) = length (filter P xs)"
  by (metis mset_filter mset_sort size_mset)

text \<open>
  The percentiles of the benchmark are nearest ranks: for a non-empty list of samples and a
  percentage from 1 to 100 the result is one of the samples, at least that share of the
  samples does not exceed it, and fewer lie below it.
\<close>

lemma percentile_is_nearest_rank:
  assumes "raw \<noteq> []" and "1 \<le> p" and "p \<le> 100"
  shows "\<exists>v. percentile raw p = Some v \<and> v \<in> set raw \<and>
    p * length raw \<le> 100 * length (filter (\<lambda>x. x \<le> v) raw) \<and>
    100 * length (filter (\<lambda>x. x < v) raw) < p * length raw"
proof -
  let ?n = "length raw" and ?s = "sort raw"
  define i where "i = (p * ?n + 99) div 100 - 1"
  have n: "1 \<le> ?n" using assms(1) by (cases raw) auto
  have pn: "1 \<le> p * ?n" "p * ?n \<le> 100 * ?n" using n assms(2,3) by simp_all
  have rank: "m \<le> 100 * ((m + 99) div 100 - 1 + 1)" "100 * ((m + 99) div 100 - 1) < m" if "1 \<le> m" for m :: nat
  proof -
    obtain q r where "(m + 99) div 100 = q" "m + 99 = 100 * q + r" "r < 100"
      using that by (metis mod_less_divisor mult_div_mod_eq zero_less_numeral)
    with that show "m \<le> 100 * ((m + 99) div 100 - 1 + 1)" "100 * ((m + 99) div 100 - 1) < m"
      by simp_all
  qed
  have i: "p * ?n \<le> 100 * (i + 1)" "100 * i < p * ?n"
    unfolding i_def by (rule rank [OF pn(1)])+
  with pn(2) have "i < ?n" by linarith
  note i = this i
  let ?v = "?s ! i"
  have "\<forall>x \<in> set (take (i + 1) ?s). x \<le> ?v"
    using i(1) by (auto simp: in_set_conv_nth intro!: sorted_nth_mono)
  then have "filter (\<lambda>x. x \<le> ?v) (take (i + 1) ?s) = take (i + 1) ?s" by (simp add: filter_id_conv)
  then have "i + 1 \<le> length (filter (\<lambda>x. x \<le> ?v) (take (i + 1) ?s @ drop (i + 1) ?s))"
    using i(1) by (simp del: append_take_drop_id)
  then have le: "i + 1 \<le> length (filter (\<lambda>x. x \<le> ?v) raw)" by (simp add: length_filter_sort)
  have "\<forall>x \<in> set (drop i ?s). \<not> x < ?v"
    using i(1) by (auto simp: in_set_conv_nth not_less intro!: sorted_nth_mono)
  then have "filter (\<lambda>x. x < ?v) (drop i ?s) = []" by (simp add: filter_empty_conv)
  then have "length (filter (\<lambda>x. x < ?v) (take i ?s @ drop i ?s)) \<le> i"
    using length_filter_le [of "\<lambda>x. x < ?v" "take i ?s"] by (simp del: append_take_drop_id)
  then have less: "length (filter (\<lambda>x. x < ?v) raw) \<le> i" by (simp add: length_filter_sort)
  have "percentile raw p = Some ?v" using i(1) by (simp add: percentile_def Let_def i_def)
  moreover have "?v \<in> set raw" using i(1) by (metis length_sort nth_mem set_sort)
  ultimately show ?thesis using le less i(2,3) by (intro exI [of _ ?v]) auto
qed

lemma percentile_some:
  assumes "raw \<noteq> []" "1 \<le> p" "p \<le> 100"
  obtains v where "percentile raw p = Some v"
  using percentile_is_nearest_rank [OF assms] by blast

lemma percentile_mono:
  assumes "percentile raw p = Some a" "percentile raw q = Some b" "p \<le> q"
  shows "a \<le> b"
proof -
  have "(p * length raw + 99) div 100 - 1 \<le> (q * length raw + 99) div 100 - 1"
    using assms(3) by (intro diff_le_mono div_le_mono add_right_mono mult_le_mono1)
  with assms(1,2) show ?thesis
    by (auto simp: percentile_def Let_def split: if_splits intro!: sorted_nth_mono)
qed

lemma percentile_in_set: "percentile raw p = Some v \<Longrightarrow> v \<in> set raw"
  by (auto simp: percentile_def Let_def split: if_splits) (metis length_sort nth_mem set_sort)

section \<open>Actions\<close>

named_theorems io_simps \<open>when an action succeeds\<close>

lemma io_bind_ok [io_simps]:
  "io_bind m k w = Some (w', Inr y) \<longleftrightarrow> (\<exists>v x. m w = Some (v, Inr x) \<and> k x v = Some (w', Inr y))"
  by (auto simp: io_bind_def split: option.splits prod.splits sum.splits)

lemma io_return_ok [io_simps]: "io_return x w = Some (w', Inr y) \<longleftrightarrow> w' = w \<and> y = x"
  by (auto simp: io_return_def)

lemma io_result_ok [io_simps]: "io_result r w = Some (w', Inr y) \<longleftrightarrow> w' = w \<and> r = Inr y"
  by (auto simp: io_result_def)

lemma io_expect_ok [io_simps]: "io_expect x w = Some (w', Inr y) \<longleftrightarrow> w' = w \<and> x = Some y"
  by (auto simp: io_expect_def)

lemma io_now_ok [io_simps]: "io_now client w = Some (w', Inr y) \<longleftrightarrow> w' = w \<and> y = hc_now client w"
  by (auto simp: io_now_def)

text \<open>An action that gives a result, which satisfies \<open>P\<close> if it is not an error.\<close>

definition ends_with :: "('w, 'a) io \<Rightarrow> ('a \<Rightarrow> bool) \<Rightarrow> bool" where
  "ends_with m P \<longleftrightarrow> (\<forall>w. \<exists>w' r. m w = Some (w', r) \<and> (\<forall>x. r = Inr x \<longrightarrow> P x))"

lemma ends_with_bind:
  assumes "ends_with m P" and "\<And>x. P x \<Longrightarrow> ends_with (k x) Q"
  shows "ends_with (io_bind m k) Q"
  unfolding ends_with_def
proof
  fix w
  obtain v r where m: "m w = Some (v, r)" "\<forall>x. r = Inr x \<longrightarrow> P x"
    using assms(1) unfolding ends_with_def by blast
  show "\<exists>w' r. io_bind m k w = Some (w', r) \<and> (\<forall>x. r = Inr x \<longrightarrow> Q x)"
  proof (cases r)
    case (Inl e)
    with m show ?thesis by (simp add: io_bind_def)
  next
    case (Inr x)
    with assms(2) [of x] m obtain w' r' where "k x v = Some (w', r')" "\<forall>y. r' = Inr y \<longrightarrow> Q y"
      unfolding ends_with_def by blast
    with m Inr show ?thesis by (simp add: io_bind_def)
  qed
qed

lemmas ends_bind = ends_with_bind [where P = "\<lambda>_. True"]

lemma ends_with_True [intro]: "(\<And>w. m w \<noteq> None) \<Longrightarrow> ends_with m (\<lambda>_. True)"
  by (fastforce simp: ends_with_def)

lemma ends_basic [intro!]:
  "ends_with (io_result r) (\<lambda>_. True)" "ends_with (io_get client url) (\<lambda>_. True)"
  "ends_with (io_post client url body) (\<lambda>_. True)" "ends_with (io_now client) (\<lambda>_. True)"
  "ends_with (io_generate_key client) (\<lambda>_. True)"
  by (auto simp: io_result_def io_get_def io_post_def io_now_def io_generate_key_def split: prod.split)

lemma ends_with_return [intro!]: "P x \<Longrightarrow> ends_with (io_return x) P"
  by (simp add: ends_with_def io_return_def)

lemma ends_expect: "x \<noteq> None \<Longrightarrow> ends_with (io_expect x) (\<lambda>_. True)"
  by (auto simp: io_expect_def)

section \<open>Every run ends\<close>

text \<open>Time passes while the client sleeps and does not run backwards while it asks.\<close>

definition clock_advances :: "('w, 'z) http_client_scheme \<Rightarrow> bool" where
  "clock_advances client \<longleftrightarrow>
     (\<forall>w n. 0 < n \<longrightarrow> hc_now client w < hc_now client (hc_sleep client w n)) \<and>
     (\<forall>w url. hc_now client w \<le> hc_now client (fst (hc_get client w url)))"

definition addresses_have_text :: "'z crypto_env_scheme \<Rightarrow> bool" where
  "addresses_have_text env \<longleftrightarrow> (\<forall>a. address_display env a \<noteq> None)"

lemma poll_finality_ends:
  assumes "clock_advances client"
  shows "poll_finality client url deadline w \<noteq> None"
proof (induction "nat (deadline - hc_now client w)" arbitrary: w rule: less_induct)
  case less
  obtain v r where get: "hc_get client w url = (v, r)" by fastforce
  have "hc_now client w \<le> hc_now client v"
    using assms get by (metis clock_advances_def fst_conv)
  also have "hc_now client v < hc_now client (hc_sleep client v 20)"
    using assms by (simp add: clock_advances_def)
  finally have later: "hc_now client w < hc_now client (hc_sleep client v 20)" .
  show ?case
  proof (cases "hc_now client v < deadline")
    case True
    with later \<open>hc_now client w \<le> hc_now client v\<close>
    have "poll_finality client url deadline (hc_sleep client v 20) \<noteq> None"
      by (intro less) simp
    with get True show ?thesis
      by (subst poll_finality.simps) (simp split: sum.split del: not_None_eq)
  next
    case False
    with get show ?thesis
      by (subst poll_finality.simps) (simp split: sum.split)
  qed
qed

lemma wait_for_finality_ends:
  "clock_advances client \<Longrightarrow> ends_with (wait_for_finality client api_url tid timeout) (\<lambda>_. True)"
  unfolding wait_for_finality_def
  by (intro ends_bind ends_basic ends_with_True poll_finality_ends)

lemma get_json_ends: "ends_with (get_json client api_url path) (\<lambda>_. True)"
  unfolding get_json_def by (intro ends_bind ends_basic)

lemma fetch_account_ends:
  "addresses_have_text env \<Longrightarrow> ends_with (fetch_account client env api_url a) (\<lambda>_. True)"
  unfolding fetch_account_def
  by (intro ends_bind ends_basic ends_expect) (simp add: addresses_have_text_def)

lemma submit_ends:
  assumes "addresses_have_text env"
  shows "ends_with (submit client env api_url t) (\<lambda>_. True)"
proof -
  have "submission_json env t \<noteq> None"
    using assms by (auto simp: submission_json_def action_json_def addresses_have_text_def Let_def
        split: transaction_action.split)
  then show ?thesis unfolding submit_def by (intro ends_bind ends_basic ends_expect)
qed

lemma load_wallet_returns:
  assumes "addresses_have_text env"
  shows "load_wallet env disk path \<noteq> None"
  using assms by (auto simp: load_wallet_def addresses_have_text_def Let_def split: option.split)

lemma benchmark_key_ends:
  assumes "addresses_have_text env"
  shows "ends_with (benchmark_key client env disk wallet) (\<lambda>_. True)"
  unfolding benchmark_key_def
  using load_wallet_returns [OF assms, of disk]
  by (auto split: option.split intro!: ends_bind ends_expect simp del: not_None_eq)

lemma fund_account_ends:
  assumes "clock_advances client" "addresses_have_text env"
  shows "ends_with (fund_account client env api_url timeout chain key sender sn height) (\<lambda>_. True)"
  unfolding fund_account_def fetch_challenge_def
  by (intro ends_bind ends_basic submit_ends wait_for_finality_ends fetch_account_ends get_json_ends
      ends_with_return assms TrueI)

lemma ensure_funded_ends:
  assumes "clock_advances client" "addresses_have_text env"
  shows "ends_with (ensure_funded client env api_url timeout node key sender sn funds samples) (\<lambda>_. True)"
  unfolding ensure_funded_def by (auto intro!: ends_bind fund_account_ends assms)

lemma measure_transfers_ends:
  assumes "clock_advances client" "addresses_have_text env"
  shows "ends_with (measure_transfers client env api_url timeout transfer offsets)
    (\<lambda>raw. length raw = length offsets)"
proof (induction offsets)
  case (Cons offset offsets)
  show ?case
    unfolding measure_transfers.simps
    by (intro ends_bind ends_basic submit_ends wait_for_finality_ends assms
        ends_with_bind [OF Cons.IH] ends_with_return) simp
qed auto

text \<open>
  The benchmark always comes to an end, with a report or an error: it cannot hang as long
  as time passes while the client sleeps, whatever the node answers or fails to answer, and
  it never panics for one or more samples when addresses have a text.
\<close>

theorem benchmark_ends:
  assumes "clock_advances client" and "addresses_have_text env" and "0 < ba_samples args"
  shows "\<exists>w' r. benchmark client env disk args w = Some (w', r)"
proof -
  have some: "0 < unat (ba_samples args)" using assms(3) by (simp add: word_less_nat_alt)
  have percentiles: "ends_with (io_expect (percentile raw p)) (\<lambda>_. True)"
    if raw: "length raw = length [0..<unat (ba_samples args)]" and p: "1 \<le> p" "p \<le> 100" for raw p
  proof -
    from raw some have "raw \<noteq> []" by auto
    then obtain v where "percentile raw p = Some v" by (rule percentile_some [OF _ p])
    then show ?thesis by (intro ends_expect) simp
  qed
  have "ends_with (benchmark client env disk args) (\<lambda>_. True)"
    unfolding benchmark_def Let_def
    by (intro ends_bind [OF get_json_ends] ends_bind [OF ends_basic(1)] ends_bind [OF benchmark_key_ends [OF assms(2)]]
        ends_bind [OF fetch_account_ends [OF assms(2)]] ends_bind)
      (auto intro!: ends_bind ensure_funded_ends assms(1,2) ends_with_bind [OF measure_transfers_ends [OF assms(1,2)]]
        percentiles)
  then show ?thesis by (auto simp: ends_with_def)
qed

section \<open>What a successful run has submitted\<close>

text \<open>A client that keeps the bodies it has posted.\<close>

definition logging :: "('w, 'z) http_client_scheme \<Rightarrow> ('w \<times> json list) http_client" where
  "logging client =
     \<lparr>hc_get = \<lambda>(w, posts) url. case hc_get client w url of (w, r) \<Rightarrow> ((w, posts), r),
      hc_post = \<lambda>(w, posts) url body. case hc_post client w url body of (w, r) \<Rightarrow> ((w, posts @ [body]), r),
      hc_now = \<lambda>(w, posts). hc_now client w,
      hc_sleep = \<lambda>(w, posts) n. (hc_sleep client w n, posts),
      hc_generate_key = \<lambda>(w, posts). case hc_generate_key client w of (w, key) \<Rightarrow> ((w, posts), key)\<rparr>"

definition quiet :: "('w \<times> json list, 'a) io \<Rightarrow> bool" where
  "quiet m \<longleftrightarrow> (\<forall>w w' r. m w = Some (w', r) \<longrightarrow> snd w' = snd w)"

lemma quietD: "quiet m \<Longrightarrow> m w = Some (w', r) \<Longrightarrow> snd w' = snd w"
  unfolding quiet_def by blast

lemma quiet_bind: "quiet m \<Longrightarrow> (\<And>x. quiet (k x)) \<Longrightarrow> quiet (io_bind m k)"
  by (fastforce simp: quiet_def io_bind_def split: option.splits prod.splits sum.splits)

lemma quiet_basic:
  "quiet (io_result r)" "quiet (io_return x)" "quiet (io_expect y)" "quiet (io_get (logging client) url)"
  "quiet (io_now (logging client))" "quiet (io_generate_key (logging client))"
  by (auto simp: quiet_def io_result_def io_return_def io_expect_def io_get_def io_now_def
      io_generate_key_def logging_def split: prod.splits)

lemma poll_finality_keeps:
  assumes "poll_finality client url deadline w = Some result"
    and "\<And>w url. f (fst (hc_get client w url)) = f w" and "\<And>w n. f (hc_sleep client w n) = f w"
  shows "f (fst result) = f w"
  using assms
proof (induction client url deadline w result rule: poll_finality.raw_induct [rotated, consumes 1, case_names polling])
  case (polling poll client url deadline w result)
  obtain v g where get: "hc_get client w url = (v, g)" by fastforce
  with polling(3) [of w url] have v: "f v = f w" by simp
  have "f (fst r) = f v" if "poll client url deadline (hc_sleep client v 20) = Some r" for r
    using polling(1) [OF that polling(3,4)] polling(4) by simp
  with polling(2) get v show ?case by (auto split: sum.splits if_splits)
qed

lemma quiet_client:
  "quiet (get_json (logging client) api_url path)"
  "quiet (fetch_account (logging client) env api_url a)"
  "quiet (fetch_challenge (logging client) api_url)"
  "quiet (wait_for_finality (logging client) api_url tid timeout)"
  "quiet (benchmark_key (logging client) wallet_env disk wallet)"
  for client :: "('a, 'z) http_client_scheme"
proof -
  show json: "quiet (get_json (logging client) api_url path)" for api_url path
    unfolding get_json_def by (intro quiet_bind quiet_basic)
  show "quiet (fetch_account (logging client) env api_url a)"
    unfolding fetch_account_def by (intro quiet_bind quiet_basic)
  show "quiet (fetch_challenge (logging client) api_url)"
    unfolding fetch_challenge_def by (intro quiet_bind quiet_basic json)
  have "quiet (poll_finality (logging client) url deadline)" for url deadline
    unfolding quiet_def
  proof (intro allI impI)
    fix w w' :: "'a \<times> json list" and r
    assume "poll_finality (logging client) url deadline w = Some (w', r)"
    from poll_finality_keeps [where f = snd, OF this] show "snd w' = snd w"
      by (auto simp: logging_def split: prod.splits)
  qed
  then show "quiet (wait_for_finality (logging client) api_url tid timeout)"
    unfolding wait_for_finality_def by (intro quiet_bind quiet_basic)
  show "quiet (benchmark_key (logging client) wallet_env disk wallet)"
    unfolding benchmark_key_def by (cases wallet) (auto intro: quiet_bind quiet_basic)
qed

lemma submit_posts:
  assumes "submit (logging client) env api_url t w = Some (w', Inr tid)"
  obtains body where "submission_json env t = Some body" "snd w' = snd w @ [body]"
proof -
  from assms obtain body v response where "submission_json env t = Some body"
    "io_post (logging client) (endpoint api_url (str ''/api/v1/transactions'')) body w = Some (v, Inr response)"
    "w' = v"
    by (auto simp: submit_def io_simps)
  moreover from this(2) have "snd v = snd w @ [body]"
    by (auto simp: io_post_def logging_def split: prod.splits)
  ultimately show ?thesis using that by simp
qed

lemma fund_account_posts:
  assumes "fund_account (logging client) env api_url timeout chain key sender sn height w = Some (w', Inr funded)"
  shows "\<exists>body. snd w' = snd w @ [body]"
proof -
  from assms obtain w1 challenge t w2 tid w3 w4 account where
    "fetch_challenge (logging client) api_url w = Some (w1, Inr challenge)"
    "submit (logging client) env api_url t w1 = Some (w2, Inr tid)"
    "wait_for_finality (logging client) api_url tid timeout w2 = Some (w3, Inr ())"
    "fetch_account (logging client) env api_url sender w3 = Some (w4, Inr account)"
    "\<exists>v. get_json (logging client) api_url (str ''/api/v1/status'') w4 = Some (w', Inr v)"
    by (auto simp: fund_account_def io_simps)
  with submit_posts [of client env api_url t w1 w2 tid] show ?thesis
    using quiet_client [THEN quietD] by metis
qed

text \<open>The bodies of the transfers, each the submission of what \<open>transfer\<close> signs at its offset.\<close>

definition submits :: "'z api_env_scheme \<Rightarrow> (u32 \<Rightarrow> cli_error + signed_transaction) \<Rightarrow> nat \<Rightarrow> json \<Rightarrow> bool" where
  "submits env transfer offset body \<longleftrightarrow>
     (\<exists>t. transfer (of_nat offset) = Inr t \<and> submission_json env t = Some body)"

lemma measure_transfers_posts:
  assumes "measure_transfers (logging client) env api_url timeout transfer offsets w = Some (w', Inr raw)"
  shows "length raw = length offsets \<and>
    (\<exists>bodies. snd w' = snd w @ bodies \<and> list_all2 (submits env transfer) offsets bodies)"
  using assms
proof (induction offsets arbitrary: w w' raw)
  case (Cons offset offsets)
  from Cons.prems obtain t w1 tid w2 rest where
    t: "transfer (of_nat offset) = Inr t" and
    sent: "submit (logging client) env api_url t w = Some (w1, Inr tid)" and
    waited: "wait_for_finality (logging client) api_url tid timeout w1 = Some (w2, Inr ())" and
    rest: "measure_transfers (logging client) env api_url timeout transfer offsets w2 = Some (w', Inr rest)"
      "length raw = Suc (length rest)"
    by (auto simp: io_simps)
  obtain body where "submission_json env t = Some body" "snd w2 = snd w @ [body]"
    using submit_posts [OF sent] quietD [OF quiet_client(4) waited] by metis
  moreover from Cons.IH [OF rest(1)] obtain bodies where
    "length rest = length offsets" "snd w' = snd w2 @ bodies" "list_all2 (submits env transfer) offsets bodies"
    by blast
  ultimately show ?case
    using t rest(2) by (intro conjI exI [of _ "body # bodies"]) (auto simp: submits_def [of _ _ offset])
qed (simp add: io_simps)

lemma submits_transfer:
  assumes "ed25519_correct env" "submits env (benchmark_transfer env chain key sn height recipient) k body"
  shows "\<exists>t. submission_json env t = Some body \<and> tx_verify_signature env t = Inr () \<and>
    ut_sender_public_key (st_unsigned t) = ed25519_public env key \<and>
    chain_str (ut_chain_id (st_unsigned t)) = chain \<and> ut_nonce (st_unsigned t) = sn + ucast (of_nat k :: u32) \<and>
    ut_action (st_unsigned t) = Transfer recipient 1"
proof -
  from assms(2) obtain t where t: "benchmark_transfer env chain key sn height recipient (of_nat k) = Inr t"
    "submission_json env t = Some body"
    by (auto simp: submits_def)
  from t(1) have sign: "tx_sign env (unsigned_new (ChainId chain) (ed25519_public env key) (sn + ucast (of_nat k :: u32))
      (saturating_add height (100 + ucast (of_nat k :: u32))) (Transfer recipient 1)) key = Inr t"
    by (auto simp: benchmark_transfer_def cli_sign_transaction_def result_simps)
  then show ?thesis
    using tx_sign_verifies [OF assms(1) sign] t(2) sign
    by (intro exI [of _ t]) (auto simp: tx_sign_ok unsigned_new_def)
qed

lemma ensure_funded_posts:
  assumes "ensure_funded (logging client) env api_url timeout node key sender sn funds samples w = Some (w', Inr (funded, claims))"
  shows "claims \<le> 1 \<and> (\<exists>claimed. length claimed = claims \<and> snd w' = snd w @ claimed)"
proof (cases "funds < ucast samples")
  case True
  with assms have "claims = 1"
    "fund_account (logging client) env api_url timeout (ns_chain_id node) key sender sn (ns_height node) w =
      Some (w', Inr funded)"
    by (auto simp: ensure_funded_def io_simps)
  with fund_account_posts [OF this(2)] show ?thesis by (metis One_nat_def length_Cons list.size(3) order_refl)
next
  case False
  with assms show ?thesis by (auto simp: ensure_funded_def io_simps)
qed

text \<open>The parts of a run that ends with a report.\<close>

lemma benchmark_parts:
  assumes "benchmark client env disk args w = Some (w', Inr report)"
  obtains api_url timeout w1 status node w2 key w3 account sn funds w4 start height claims w5 recipient raw where
    "get_json client api_url (str ''/api/v1/status'') w = Some (w1, Inr status)"
    "benchmark_key client env disk (ba_wallet args) w1 = Some (w2, Inr key)"
    "fetch_account client env api_url (address_from_public_key env (ed25519_public env key)) w2 = Some (w3, Inr account)"
    "ensure_funded client env api_url timeout node key (address_from_public_key env (ed25519_public env key))
       sn funds (ba_samples args) w3 = Some (w4, Inr (start, claims))"
    "io_generate_key client w4 = Some (w5, Inr recipient)"
    "measure_transfers client env api_url timeout
       (benchmark_transfer env (ns_chain_id node) key (fst start) height
          (address_from_public_key env (ed25519_public env recipient))) [0..<unat (ba_samples args)] w5 =
       Some (w', Inr raw)"
    "percentile raw 50 = Some (bp_p50 report)" "percentile raw 95 = Some (bp_p95 report)"
    "percentile raw 99 = Some (bp_p99 report)"
    "bp_chain_id report = ns_chain_id node" "bp_funding_claims report = claims"
    "bp_sample_count report = length raw" "bp_raw_micros report = raw"
  using assms by (auto simp: benchmark_def Let_def io_simps)

text \<open>
  A benchmark that ends with a report has posted, after at most one funding claim,
  exactly the transfers that it reports as samples, in the order of their nonces, each of
  one atom, to one recipient and correctly signed with the key of the wallet; it has as many
  samples as were asked for, and its percentiles are among them and in order.
\<close>

theorem benchmark_submits_its_samples:
  assumes "ed25519_correct env"
    and "benchmark (logging client) env disk args (w, []) = Some ((w', posts), Inr report)"
  shows "bp_funding_claims report \<le> 1 \<and>
    length posts = bp_funding_claims report + unat (ba_samples args) \<and>
    bp_sample_count report = unat (ba_samples args) \<and> length (bp_raw_micros report) = unat (ba_samples args) \<and>
    (\<exists>key start recipient.
       (\<forall>path. ba_wallet args = Some path \<longrightarrow> load_wallet env disk path = Some (Inr key)) \<and>
       (\<forall>k < unat (ba_samples args). \<exists>t.
          submission_json env t = Some (posts ! (bp_funding_claims report + k)) \<and>
          tx_verify_signature env t = Inr () \<and> ut_sender_public_key (st_unsigned t) = ed25519_public env key \<and>
          chain_str (ut_chain_id (st_unsigned t)) = bp_chain_id report \<and>
          ut_nonce (st_unsigned t) = start + of_nat k \<and> ut_action (st_unsigned t) = Transfer recipient 1)) \<and>
    bp_p50 report \<le> bp_p95 report \<and> bp_p95 report \<le> bp_p99 report \<and>
    {bp_p50 report, bp_p95 report, bp_p99 report} \<subseteq> set (bp_raw_micros report)"
proof -
  from benchmark_parts [OF assms(2)]
  obtain api_url timeout w1 status node w2 key w3 account sn funds w4 start height claims w5 recipient raw where run:
    "get_json (logging client) api_url (str ''/api/v1/status'') (w, []) = Some (w1, Inr status)"
    "benchmark_key (logging client) env disk (ba_wallet args) w1 = Some (w2, Inr key)"
    "fetch_account (logging client) env api_url (address_from_public_key env (ed25519_public env key)) w2 = Some (w3, Inr account)"
    "ensure_funded (logging client) env api_url timeout node key (address_from_public_key env (ed25519_public env key))
       sn funds (ba_samples args) w3 = Some (w4, Inr (start, claims))"
    "io_generate_key (logging client) w4 = Some (w5, Inr recipient)"
    "measure_transfers (logging client) env api_url timeout
       (benchmark_transfer env (ns_chain_id node) key (fst start) height
          (address_from_public_key env (ed25519_public env recipient))) [0..<unat (ba_samples args)] w5 =
       Some ((w', posts), Inr raw)" and
    report: "percentile raw 50 = Some (bp_p50 report)" "percentile raw 95 = Some (bp_p95 report)"
    "percentile raw 99 = Some (bp_p99 report)" "bp_chain_id report = ns_chain_id node"
    "bp_funding_claims report = claims" "bp_sample_count report = length raw" "bp_raw_micros report = raw" .
  let ?n = "unat (ba_samples args)" and ?to = "address_from_public_key env (ed25519_public env recipient)"
  have "snd w3 = []"
    using quiet_client(1-3,5) [THEN quietD] run(1-3) by (metis quietD quiet_client(1,2,5) snd_conv)
  with ensure_funded_posts [OF run(4)] quietD [OF quiet_basic(6) run(5)]
  have claimed: "claims \<le> 1" "length (snd w5) = claims" by auto
  from measure_transfers_posts [OF run(6)] obtain bodies where
    raw: "length raw = ?n" and posts: "posts = snd w5 @ bodies" and
    all: "list_all2 (submits env (benchmark_transfer env (ns_chain_id node) key (fst start) height ?to)) [0..<?n] bodies"
    by auto
  then have len: "length bodies = ?n" by (auto dest: list_all2_lengthD)
  have transfers: "\<exists>t. submission_json env t = Some (posts ! (claims + k)) \<and>
      tx_verify_signature env t = Inr () \<and> ut_sender_public_key (st_unsigned t) = ed25519_public env key \<and>
      chain_str (ut_chain_id (st_unsigned t)) = ns_chain_id node \<and>
      ut_nonce (st_unsigned t) = fst start + of_nat k \<and> ut_action (st_unsigned t) = Transfer ?to 1"
    if k: "k < ?n" for k
  proof -
    have "unat (of_nat k :: u32) = k" using k unat_lt2p [of "ba_samples args"] by (simp add: unat_of_nat)
    moreover have "(ucast (of_nat k :: u32) :: u64) = of_nat (unat (of_nat k :: u32))" by simp
    ultimately have "(ucast (of_nat k :: u32) :: u64) = of_nat k" by simp
    moreover have "posts ! (claims + k) = bodies ! k" using claimed(2) posts by (simp add: nth_append)
    moreover have "submits env (benchmark_transfer env (ns_chain_id node) key (fst start) height ?to) k (bodies ! k)"
      using list_all2_nthD [OF all, of k] k by simp
    ultimately show ?thesis using submits_transfer [OF assms(1)] by metis
  qed
  have wallet: "load_wallet env disk path = Some (Inr key)" if "ba_wallet args = Some path" for path
    using run(2) that by (auto simp: benchmark_key_def io_simps)
  from percentile_mono [OF report(1,2)] percentile_mono [OF report(2,3)]
    percentile_in_set [OF report(1)] percentile_in_set [OF report(2)] percentile_in_set [OF report(3)]
  show ?thesis
    using claimed posts len raw report(4-7) transfers wallet
    by (intro conjI exI [of _ key] exI [of _ "fst start"] exI [of _ ?to]) auto
qed

section \<open>A node for the examples\<close>

text \<open>One answer for every request, and a clock that each action moves by a millisecond.\<close>

definition demo_answer :: json where
  "demo_answer = JObject
     [(str ''chain_id'', JString (str ''testnet'')), (str ''protocol_version'', JNumber 1),
      (str ''height'', JString (str ''7'')), (str ''peer_count'', JString (str ''3'')),
      (str ''validators'', JArray [JObject [(str ''online'', JBool True)], JObject []]),
      (str ''balance_atoms'', JString (str ''9'')), (str ''nonce'', JString (str ''4'')),
      (str ''transaction_id'', JString (str ''t''))]"

definition demo_client :: "int http_client" where
  "demo_client =
     \<lparr>hc_get = \<lambda>w url. (w + 1000, Inr (json_response 200 demo_answer)),
      hc_post = \<lambda>w url body. (w + 1000, Inr (json_response 202 demo_answer)),
      hc_now = \<lambda>w. w, hc_sleep = \<lambda>w n. w + 1000 * int n, hc_generate_key = \<lambda>w. (w + 1, demo_key 1)\<rparr>"

definition demo_args :: benchmark_args where
  "demo_args = \<lparr>ba_api_url = str ''http://node/'', ba_samples = 2, ba_timeout_seconds = 30, ba_wallet = None\<rparr>"

definition demo_bench_env :: wallet_env where
  "demo_bench_env = api_env.extend demo_api_env (wallet_env.fields (\<lambda>_. []) (\<lambda>_. None))"

lemma demo_bench_ed25519: "ed25519_correct demo_bench_env"
  using demo_ed25519_correct
  by (simp add: ed25519_correct_def demo_bench_env_def demo_api_env_def demo_node_env_def
      demo_consensus_codec_def demo_env_def api_env.defs wallet_env.defs actor_env.defs node_env.defs
      consensus_env.defs ledger_env.defs)

lemma demo_bench_text: "addresses_have_text demo_bench_env"
  by (simp add: addresses_have_text_def address_display_def demo_bench_env_def demo_api_env_def demo_node_env_def
      demo_consensus_codec_def demo_env_def api_env.defs wallet_env.defs actor_env.defs node_env.defs
      consensus_env.defs ledger_env.defs)

lemma demo_clock: "clock_advances demo_client" "clock_advances (logging demo_client)"
  by (auto simp: clock_advances_def logging_def demo_client_def split: prod.split)

lemmas demo_bench_fields = demo_client_def json_response_def parse_response_def is_success_def

lemma demo_bench_get:
  "io_get (logging demo_client) url w = Some ((fst w + 1000, snd w), Inr (json_response 200 demo_answer))"
  by (cases w) (simp add: io_get_def logging_def demo_client_def)

lemma demo_bench_wait:
  "wait_for_finality (logging demo_client) api_url tid timeout w = Some ((fst w + 1000, snd w), Inr ())"
proof -
  have "poll_finality (logging demo_client) url deadline w = Some ((fst w + 1000, snd w), Inr ())" for url deadline
    by (cases w; subst poll_finality.simps) (simp add: logging_def demo_bench_fields)
  then show ?thesis by (simp add: wait_for_finality_def io_bind_def io_now_def)
qed

lemma demo_transaction_id: "string_field demo_answer (str ''transaction_id'') = Inr (str ''t'')"
  by code_simp

lemma demo_bench_submit:
  assumes "submission_json demo_bench_env t = Some body"
  shows "\<exists>w'. submit (logging demo_client) demo_bench_env api_url t w = Some (w', Inr (str ''t''))"
  using assms
  by (cases w) (simp add: submit_def io_simps io_post_def logging_def demo_bench_fields demo_transaction_id)

lemma demo_bench_transfer:
  "\<exists>t body. benchmark_transfer demo_bench_env (str ''testnet'') key sn height to k = Inr t \<and>
     submission_json demo_bench_env t = Some body"
proof -
  have "chain_id_validate (ChainId (str ''testnet'')) = Inr ()" by code_simp
  then have "\<exists>t. benchmark_transfer demo_bench_env (str ''testnet'') key sn height to k = Inr t"
    by (simp add: benchmark_transfer_def cli_sign_transaction_def result_simps unsigned_new_def
        unsigned_validate_shape_def)
  moreover have "\<exists>body. submission_json demo_bench_env t = Some body" for t
    using demo_bench_text
    by (auto simp: submission_json_def action_json_def addresses_have_text_def Let_def
        split: transaction_action.split)
  ultimately show ?thesis by blast
qed

lemma demo_bench_measure:
  "\<exists>w' raw. measure_transfers (logging demo_client) demo_bench_env api_url timeout
     (benchmark_transfer demo_bench_env (str ''testnet'') key sn height to) offsets w = Some (w', Inr raw)"
proof (induction offsets arbitrary: w)
  case (Cons offset offsets)
  obtain t body where t: "benchmark_transfer demo_bench_env (str ''testnet'') key sn height to (of_nat offset) = Inr t"
    "submission_json demo_bench_env t = Some body"
    using demo_bench_transfer by metis
  obtain v where "submit (logging demo_client) demo_bench_env api_url t w = Some (v, Inr (str ''t''))"
    using demo_bench_submit [OF t(2)] by metis
  moreover obtain w' raw where "measure_transfers (logging demo_client) demo_bench_env api_url timeout
     (benchmark_transfer demo_bench_env (str ''testnet'') key sn height to) offsets (fst v + 1000, snd v) = Some (w', Inr raw)"
    using Cons.IH by metis
  ultimately show ?case using t(1) by (cases v; cases w') (auto simp: io_simps demo_bench_wait)
qed (simp add: io_simps)

lemma demo_bench_status:
  "\<exists>node. summarize_status demo_answer = Inr node \<and> ns_chain_id node = str ''testnet''"
proof -
  have "(case summarize_status demo_answer of Inr node \<Rightarrow> ns_chain_id node = str ''testnet'' | Inl _ \<Rightarrow> False)"
    by code_simp
  then show ?thesis by (auto split: sum.splits)
qed

lemma demo_bench_account:
  "get_account (json_response 200 demo_answer) = Inr (Some \<lparr>av_balance_atoms = 9, av_nonce = 4\<rparr>)"
  by code_simp

lemma demo_benchmark_reports:
  "\<exists>w' posts report. benchmark (logging demo_client) demo_bench_env [] demo_args (0, []) = Some ((w', posts), Inr report)"
proof -
  let ?client = "logging demo_client" and ?samples = "[0..<unat (ba_samples demo_args)]"
  obtain node where node: "summarize_status demo_answer = Inr node" "ns_chain_id node = str ''testnet''"
    using demo_bench_status by blast
  have account: "fetch_account ?client demo_bench_env url a w = Some ((fst w + 1000, snd w), Inr (Some \<lparr>av_balance_atoms = 9, av_nonce = 4\<rparr>))"
    for url a w
    using demo_bench_text
    by (auto simp: fetch_account_def addresses_have_text_def io_bind_def io_expect_def io_result_def
        demo_bench_get demo_bench_account split: option.split)
  have status: "get_json ?client url path w = Some ((fst w + 1000, snd w), Inr demo_answer)" for url path w
    by (simp add: get_json_def io_bind_def demo_bench_get io_result_def json_response_def parse_response_def is_success_def)
  have key: "benchmark_key ?client demo_bench_env [] None w = Some ((fst w + 1, snd w), Inr (demo_key 1))"
    "io_generate_key ?client w = Some ((fst w + 1, snd w), Inr (demo_key 1))" for w
    by (cases w; simp add: benchmark_key_def io_generate_key_def logging_def demo_client_def)+
  obtain w' raw where measured: "measure_transfers ?client demo_bench_env (str ''http://node/'') 30000000
     (benchmark_transfer demo_bench_env (str ''testnet'') (demo_key 1) 4 (ns_height node)
       (address_from_public_key demo_bench_env (ed25519_public demo_bench_env (demo_key 1)))) ?samples (2002, []) =
     Some (w', Inr raw)"
    using demo_bench_measure by metis
  from measure_transfers_posts [OF this] have "raw \<noteq> []" by (auto simp: demo_args_def)
  then obtain p50 p95 p99 where percentiles: "percentile raw 50 = Some p50" "percentile raw 95 = Some p95"
    "percentile raw 99 = Some p99"
    using percentile_is_nearest_rank [of raw 50] percentile_is_nearest_rank [of raw 95]
      percentile_is_nearest_rank [of raw 99] by auto
  have "\<exists>report. benchmark ?client demo_bench_env [] demo_args (0, []) = Some (w', Inr report)"
    using measured percentiles node
    by (simp add: benchmark_def Let_def io_bind_def io_result_def io_expect_def io_return_def io_now_def status account key
        ensure_funded_def demo_args_def)
  then show ?thesis by (cases w') blast
qed

theorem benchmark_ends_witness:
  "\<exists>w' r. benchmark demo_client demo_bench_env [] demo_args 0 = Some (w', r)"
  by (rule benchmark_ends [OF demo_clock(1) demo_bench_text]) (simp add: demo_args_def)

theorem benchmark_submits_its_samples_witness:
  "\<exists>w' posts report. benchmark (logging demo_client) demo_bench_env [] demo_args (0, []) = Some ((w', posts), Inr report) \<and>
     bp_sample_count report = 2 \<and> bp_p50 report \<le> bp_p99 report"
proof -
  obtain w' posts report where run:
    "benchmark (logging demo_client) demo_bench_env [] demo_args (0, []) = Some ((w', posts), Inr report)"
    using demo_benchmark_reports by blast
  from benchmark_submits_its_samples [OF demo_bench_ed25519 run] have
    "bp_sample_count report = unat (ba_samples demo_args)" "bp_p50 report \<le> bp_p95 report" "bp_p95 report \<le> bp_p99 report"
    by auto
  with run show ?thesis by (auto simp: demo_args_def intro: order_trans)
qed

end
