(* ===== verification/Wasm.thy ===== *)
theory Wasm
  imports Decimal Demo
begin

text \<open>
  The browser bindings \<open>kcoin-protocol/src/wasm.rs\<close>: the address and the signing bytes that
  a wallet page asks for, and the texts of their errors. A JavaScript exception is the left
  side of a result; \<open>None\<close> is the panic of an address without text.
\<close>

section \<open>Errors\<close>

text \<open>The display texts that \<open>error.rs\<close> derives for its failures.\<close>

fun error_text :: "validation_error \<Rightarrow> rstring" where
  "error_text (UnsupportedProtocolVersion expected actual) =
     str ''unsupported protocol version '' @ nat_to_string (unat actual) @
     str ''; expected '' @ nat_to_string (unat expected)"
| "error_text InvalidChainId = str ''invalid chain id''"
| "error_text (WrongChain expected actual) =
     str ''transaction belongs to chain '' @ actual @ str '', not '' @ expected"
| "error_text InvalidPublicKey = str ''public key is not a valid Ed25519 key''"
| "error_text InvalidSignature = str ''Ed25519 signature verification failed''"
| "error_text DuplicateTransaction = str ''transaction has already been applied''"
| "error_text (Expired expiry_height current_height) =
     str ''transaction expired at height '' @ u64_to_string expiry_height @
     str ''; execution height is '' @ u64_to_string current_height"
| "error_text (NonceMismatch expected actual) =
     str ''nonce mismatch: expected '' @ u64_to_string expected @
     str '', received '' @ u64_to_string actual"
| "error_text ZeroAmount = str ''transfer amount must be positive''"
| "error_text (InsufficientBalance available required) =
     str ''insufficient balance: available '' @ u64_to_string available @
     str '', required '' @ u64_to_string required"
| "error_text (StaleChallenge expected actual) =
     str ''challenge '' @ u64_to_string actual @
     str '' is stale; active challenge is '' @ u64_to_string expected"
| "error_text WrongChallengeAnswer = str ''incorrect challenge answer''"
| "error_text SupplyExhausted = str ''the maximum KCoin supply has already been issued''"
| "error_text InvalidDisplayName = str ''display name is invalid''"
| "error_text ArithmeticOverflow = str ''integer arithmetic overflow''"
| "error_text (InvalidBlockHeight expected actual) =
     str ''block height mismatch: expected '' @ u64_to_string expected @
     str '', received '' @ u64_to_string actual"
| "error_text InvalidParentHash = str ''block parent does not match the current tip''"
| "error_text InvalidTimestamp = str ''block timestamp precedes the previous finalized block''"
| "error_text InvalidTransactionsRoot = str ''transaction Merkle root is invalid''"
| "error_text InvalidStateRoot = str ''post-execution state root is invalid''"
| "error_text InvalidCommitCertificate =
     str ''commit certificate does not describe the expected block''"
| "error_text DuplicateValidator =
     str ''validator appears more than once in a commit certificate''"
| "error_text UnauthorizedValidator = str ''commit signature is from an unauthorized validator''"
| "error_text (InsufficientQuorum required actual) =
     str ''commit certificate has '' @ nat_to_string actual @
     str '' signatures; quorum is '' @ nat_to_string required"
| "error_text MalformedAddress = str ''address is malformed or not canonical Bech32m''"
| "error_text Malformed = str ''canonical payload is malformed''"
| "error_text PayloadTooLarge = str ''payload exceeds its protocol size limit''"

type_synonym js_value = rstring

definition js_error :: "validation_error \<Rightarrow> js_value" where
  "js_error e = str (error_code e) @ str '': '' @ error_text e"

section \<open>Bindings\<close>

definition wasm_public_key :: "bytes \<Rightarrow> js_value + bytes" where
  "wasm_public_key x =
     (if length x = 32 then Inr x else Inl (str ''public key must contain exactly 32 bytes''))"

definition wasm_address_from_public_key ::
  "'z tx_env_scheme \<Rightarrow> bytes \<Rightarrow> (js_value + rstring) option" where
  "wasm_address_from_public_key env public_key_bytes =
     (case wasm_public_key public_key_bytes of
        Inl e \<Rightarrow> Some (Inl e)
      | Inr key \<Rightarrow> map_option Inr (address_display env (address_from_public_key env key)))"

definition wasm_unsigned_transfer_signing_bytes ::
  "'z tx_env_scheme \<Rightarrow> rstring \<Rightarrow> bytes \<Rightarrow> u64 \<Rightarrow> u64 \<Rightarrow> rstring \<Rightarrow> u64 \<Rightarrow> (js_value + bytes) option" where
  "wasm_unsigned_transfer_signing_bytes env chain sender_public_key tx_nonce expiry_height recipient amount_atoms =
     (case map_err js_error (chain_id_new chain) of
        Inl e \<Rightarrow> Some (Inl e)
      | Inr chain_id \<Rightarrow>
        case wasm_public_key sender_public_key of
          Inl e \<Rightarrow> Some (Inl e)
        | Inr key \<Rightarrow>
          map_option (\<lambda>parsed. and_then (map_err js_error parsed) (\<lambda>to.
            let transaction = unsigned_new chain_id key tx_nonce expiry_height (Transfer to amount_atoms)
            in and_then (map_err js_error (unsigned_validate_shape transaction))
                 (\<lambda>_. Inr (tx_signing_bytes env transaction))))
            (address_from_str env recipient))"

definition wasm_unsigned_claim_reward_signing_bytes ::
  "'z tx_env_scheme \<Rightarrow> rstring \<Rightarrow> bytes \<Rightarrow> u64 \<Rightarrow> u64 \<Rightarrow> u64 \<Rightarrow> u16 \<Rightarrow> js_value + bytes" where
  "wasm_unsigned_claim_reward_signing_bytes env chain sender_public_key tx_nonce expiry_height challenge_id answer =
     and_then (map_err js_error (chain_id_new chain)) (\<lambda>chain_id.
     and_then (wasm_public_key sender_public_key) (\<lambda>key.
       let transaction = unsigned_new chain_id key tx_nonce expiry_height (ClaimReward challenge_id answer)
       in and_then (map_err js_error (unsigned_validate_shape transaction))
            (\<lambda>_. Inr (tx_signing_bytes env transaction))))"

definition wasm_unsigned_set_display_name_signing_bytes ::
  "'z tx_env_scheme \<Rightarrow> rstring \<Rightarrow> bytes \<Rightarrow> u64 \<Rightarrow> u64 \<Rightarrow> rstring option \<Rightarrow> js_value + bytes" where
  "wasm_unsigned_set_display_name_signing_bytes env chain sender_public_key tx_nonce expiry_height display_name =
     and_then (map_err js_error (chain_id_new chain)) (\<lambda>chain_id.
     and_then (wasm_public_key sender_public_key) (\<lambda>key.
       let transaction = unsigned_new chain_id key tx_nonce expiry_height (SetDisplayName display_name)
       in and_then (map_err js_error (unsigned_validate_shape transaction))
            (\<lambda>_. Inr (tx_signing_bytes env transaction))))"

section \<open>The page signs what the program signs\<close>

text \<open>A message whose signature by a key makes the transaction that \<open>tx_sign\<close> makes.\<close>

definition signs_as ::
  "'z tx_env_scheme \<Rightarrow> bytes \<Rightarrow> unsigned_transaction \<Rightarrow> bytes \<Rightarrow> bool" where
  "signs_as env key u message \<longleftrightarrow>
     tx_sign env u key = Inr \<lparr>st_unsigned = u, st_signature = ed25519_sign env key message\<rparr> \<and>
     tx_verify_signature env \<lparr>st_unsigned = u, st_signature = ed25519_sign env key message\<rparr> = Inr ()"

lemma signs_as_iff:
  assumes "ed25519_correct env" "ut_sender_public_key u = ed25519_public env key"
  shows "unsigned_validate_shape u = Inr () \<longleftrightarrow> signs_as env key u (tx_signing_bytes env u)"
  using assms by (auto simp: signs_as_def result_simps ed25519_correct_def)

lemma chain_id_new_iff: "chain_id_new chain = Inr c \<longleftrightarrow> c = ChainId chain \<and> chain_id_validate (ChainId chain) = Inr ()"
  by (auto simp: result_simps)

lemma unsigned_shape_chain:
  "unsigned_validate_shape u = Inr () \<Longrightarrow> chain_id_validate (ut_chain_id u) = Inr ()"
  by (auto simp: unsigned_validate_shape_def result_simps split: if_splits)

lemma signing_bytes_shape:
  assumes "ed25519_correct env" "length (ed25519_public env key) = 32"
    and "u = unsigned_new (ChainId chain) (ed25519_public env key) tx_nonce expiry action"
  shows "and_then (map_err js_error (chain_id_new chain)) (\<lambda>c.
       and_then (wasm_public_key (ed25519_public env key)) (\<lambda>k.
         let t = unsigned_new c k tx_nonce expiry action
         in and_then (map_err js_error (unsigned_validate_shape t)) (\<lambda>_. Inr (tx_signing_bytes env t)))) =
       Inr message \<longleftrightarrow>
     message = tx_signing_bytes env u \<and> signs_as env key u message"
proof -
  have "signs_as env key u (tx_signing_bytes env u) \<longleftrightarrow> unsigned_validate_shape u = Inr ()"
    using signs_as_iff [OF assms(1), of u key] assms(3) by (simp add: unsigned_new_def)
  moreover have "unsigned_validate_shape u = Inr () \<Longrightarrow> chain_id_validate (ChainId chain) = Inr ()"
    using unsigned_shape_chain [of u] assms(3) by (simp add: unsigned_new_def)
  ultimately show ?thesis
    using assms(2,3) by (auto simp: result_simps wasm_public_key_def Let_def)
qed

text \<open>
  C37: For a public key of 32 bytes the bindings return exactly the bytes whose signature
  makes the transaction that signing in Rust makes, with a signature that verifies: for a
  transfer to every recipient text that names an address, for a claim and for a display name.
  They return nothing where Rust refuses to sign.
\<close>

theorem browser_signs_what_rust_signs:
  fixes env :: "'z tx_env_scheme" and key tx_nonce expiry
  assumes "ed25519_correct env" and "length (ed25519_public env key) = 32"
  defines "made chain action \<equiv>
    unsigned_new (ChainId chain) (ed25519_public env key) tx_nonce expiry action"
  shows "(\<forall>chain recipient amount message.
      wasm_unsigned_transfer_signing_bytes env chain (ed25519_public env key) tx_nonce expiry recipient amount =
        Some (Inr message) \<longleftrightarrow>
      (\<exists>to. address_from_str env recipient = Some (Inr to) \<and>
         message = tx_signing_bytes env (made chain (Transfer to amount)) \<and>
         signs_as env key (made chain (Transfer to amount)) message)) \<and>
    (\<forall>chain challenge answer message.
      wasm_unsigned_claim_reward_signing_bytes env chain (ed25519_public env key) tx_nonce expiry challenge answer =
        Inr message \<longleftrightarrow>
      message = tx_signing_bytes env (made chain (ClaimReward challenge answer)) \<and>
      signs_as env key (made chain (ClaimReward challenge answer)) message) \<and>
    (\<forall>chain name message.
      wasm_unsigned_set_display_name_signing_bytes env chain (ed25519_public env key) tx_nonce expiry name =
        Inr message \<longleftrightarrow>
      message = tx_signing_bytes env (made chain (SetDisplayName name)) \<and>
      signs_as env key (made chain (SetDisplayName name)) message)"
proof (intro conjI allI)
  fix chain recipient amount message
  note shape = signing_bytes_shape [OF assms(1,2) refl]
  show "wasm_unsigned_transfer_signing_bytes env chain (ed25519_public env key) tx_nonce expiry recipient amount =
        Some (Inr message) \<longleftrightarrow>
      (\<exists>to. address_from_str env recipient = Some (Inr to) \<and>
         message = tx_signing_bytes env (made chain (Transfer to amount)) \<and>
         signs_as env key (made chain (Transfer to amount)) message)"
    unfolding made_def shape [symmetric] wasm_unsigned_transfer_signing_bytes_def
    by (cases "chain_id_new chain"; cases "wasm_public_key (ed25519_public env key)";
        cases "address_from_str env recipient"; cases "the (address_from_str env recipient)")
      (simp_all add: Let_def)
next
  show "wasm_unsigned_claim_reward_signing_bytes env chain (ed25519_public env key) tx_nonce expiry challenge answer =
        Inr message \<longleftrightarrow>
      message = tx_signing_bytes env (made chain (ClaimReward challenge answer)) \<and>
      signs_as env key (made chain (ClaimReward challenge answer)) message"
    for chain challenge answer message
    unfolding wasm_unsigned_claim_reward_signing_bytes_def made_def
    by (rule signing_bytes_shape [OF assms(1,2) refl])
next
  show "wasm_unsigned_set_display_name_signing_bytes env chain (ed25519_public env key) tx_nonce expiry name =
        Inr message \<longleftrightarrow>
      message = tx_signing_bytes env (made chain (SetDisplayName name)) \<and>
      signs_as env key (made chain (SetDisplayName name)) message" for chain name message
    unfolding wasm_unsigned_set_display_name_signing_bytes_def made_def
    by (rule signing_bytes_shape [OF assms(1,2) refl])
qed

theorem browser_signs_what_rust_signs_witness:
  "\<exists>message. wasm_unsigned_claim_reward_signing_bytes demo_env (str ''testnet'')
      (ed25519_public demo_env (demo_key 1)) 1 100 1 7 = Inr message \<and>
    signs_as demo_env (demo_key 1)
      (unsigned_new (ChainId (str ''testnet'')) (ed25519_public demo_env (demo_key 1)) 1 100 (ClaimReward 1 7)) message"
proof -
  have "is_ok (wasm_unsigned_claim_reward_signing_bytes demo_env (str ''testnet'')
      (ed25519_public demo_env (demo_key 1)) 1 100 1 7)"
    by code_simp
  then obtain message where "wasm_unsigned_claim_reward_signing_bytes demo_env (str ''testnet'')
      (ed25519_public demo_env (demo_key 1)) 1 100 1 7 = Inr message"
    by (auto simp: is_ok_iff)
  moreover have "length (ed25519_public demo_env (demo_key 1)) = 32" by code_simp
  ultimately show ?thesis
    using browser_signs_what_rust_signs [OF demo_ed25519_correct, of "demo_key 1"] by blast
qed

end
