(* ===== verification/Spec2Isabelle.thy ===== *)
theory Spec2Isabelle
  imports ProtocolProps ConsensusProps EngineProps SimulationProps StorageProps NodeProps NodeRunProps
    NetworkProps Config ApiProps CliProps BenchmarkProps Wasm
begin

text \<open>
  Verification of kcoin, a small permissioned blockchain (Rust workspace, \<open>src/crates\<close>).

  The program. \<open>kcoin-protocol\<close> is the pure protocol: identifiers, signed transactions,
  blocks, commit certificates and the ledger that applies them. \<open>kcoin-consensus\<close> is a
  Tendermint-style engine for one height, a state machine that is fed events (messages,
  timeouts, stored decisions, certificates) and returns effects (sign and store, broadcast,
  schedule, finalize), and a deterministic simulator of a network of such engines.
  \<open>kcoin-node\<close> keeps finalized blocks, signing decisions and projections in an SQLite store
  and runs the engine against it, with a libp2p network task on one side and an HTTP API on the
  other; \<open>kcoin-cli\<close> is a client of that API and verifies databases, and a web page signs
  transactions through the bindings of \<open>wasm.rs\<close>.

  Theories, in the order of the code they model.
  \<^item> \<open>Prelude\<close>, \<open>BTree\<close>, \<open>RustString\<close>, \<open>Decimal\<close>: machine integers with Rust's checked and
    saturating operations, results as sums, \<open>BTreeMap\<close>/\<open>BTreeSet\<close> as ordered association
    lists (locale \<open>ordered_map\<close>), strings as lists of scalar values, decimal text.
  \<^item> \<open>ProtocolError\<close>, \<open>Crypto\<close>, \<open>Transaction\<close>, \<open>Block\<close>, \<open>Commit\<close>, \<open>Ledger\<close>: the files of the
    same names under \<open>kcoin-protocol/src\<close>; \<open>Merkle\<close> and \<open>LedgerProps\<close> hold the lemmas on
    Merkle roots and on the ledger invariant, \<open>Demo\<close> the concrete inputs of the witnesses,
    \<open>ProtocolProps\<close> the properties.
  \<^item> \<open>ConsensusTypes\<close> and \<open>Engine\<close>: \<open>kcoin-consensus/src/types.rs\<close> and \<open>engine.rs\<close>. The record
    \<open>consensus\<close> is the struct \<open>Consensus\<close>; a method that can fail after changing its
    receiver returns the receiver as it leaves it together with the result, and effects
    pushed before a failure are lost with it, as in the code.
  \<^item> \<open>EngineInv\<close>, \<open>EngineStep\<close>, \<open>EngineStart\<close>: the invariant \<open>engine_inv\<close> of an engine together
    with the log of decisions it asked to store, its preservation by every step, and that
    construction and restart (\<open>new_with_safety_state\<close>, \<open>restore_local_decision\<close>) establish
    it. \<open>EngineEffects\<close> and \<open>EngineCaches\<close>: what a step emits, and the locale \<open>cache_property\<close>
    through which facts about the caches are proved once for all events.
  \<^item> \<open>Agreement\<close>: a network of engines as a step relation, where any validator may receive
    any event, lose or store the oldest decision it asked for, or crash and restart from
    what it stored, and the faulty ones sign what they like. \<open>ConsensusDemo\<close>: concrete runs.
    \<open>ConsensusProps\<close> and \<open>EngineProps\<close>: agreement, no equivocation, recovery, certificates.
  \<^item> \<open>Simulation\<close>: \<open>kcoin-consensus/src/simulation.rs\<close>, its work queue with the literal bound of
    100,000 items; \<open>SimulationRefinement\<close> and \<open>SimulationProps\<close>: its runs are runs of the
    network of \<open>Agreement\<close>.
  \<^item> \<open>Storage\<close>: \<open>kcoin-node/src/storage.rs\<close>, each SQL statement as an update or query on keyed
    tables with the constraints of the schema; \<open>StorageInv\<close> and \<open>StorageProps\<close>: well-formed tables, permanence
    of finalized bytes and signing decisions (locale \<open>permanent_record\<close>), atomicity, paging.
  \<^item> \<open>Node\<close>, \<open>NodeReplay\<close>, \<open>NodeActor\<close>: \<open>kcoin-node/src/runtime.rs\<close>. \<open>Node\<close> has the checks handed to the
    engine, signing with the record that must precede a broadcast, and recovery; \<open>NodeReplay\<close>
    the projections, replay, \<open>verify\<close> and \<open>reindex\<close>; \<open>NodeActor\<close> the actor itself, the record
    \<open>node_actor\<close> being the struct \<open>NodeActor\<close>, with its event loop as a \<open>partial_function\<close>.
    \<open>NodeTermination\<close> bounds that loop, \<open>NodeHistory\<close> relates store and ledger, \<open>NodeMempool\<close> is
    the mempool invariant, \<open>NodeRecovery\<close> relates the signing records to the durable log of
    \<open>Agreement\<close>; \<open>NodeFrame\<close> says what reports leave alone, \<open>NodeDemo\<close> is a concrete node, and
    \<open>NodeProps\<close> holds the properties.
  \<^item> \<open>NodeSync\<close>, \<open>NodeRun\<close>: the rest of that file. \<open>NodeSync\<close> imports finalized blocks, serves and
    requests ranges, and signs status messages; \<open>NodeRun\<close> has the tick, \<open>handle_command\<close> (the body of
    the actor's loop) and \<open>run\<close>, \<open>start_node\<close>, and the bridge from network events to commands.
    \<open>NodePath\<close> shows that every handler is a sequence of submissions, commits, imports that halt and
    steps that leave chain and halt alone (the relation \<open>path\<close>), so that \<open>NodeRuns\<close> gets invariants of
    whole runs from those four; \<open>NodeSyncFacts\<close> is about halting and ranges, \<open>NodeRunProps\<close> holds the properties.
  \<^item> \<open>Network\<close>, \<open>NetworkProps\<close>: \<open>kcoin-node/src/network.rs\<close>. The record \<open>network_task\<close> holds the
    local variables of \<open>run_network\<close>; the swarm is a state of any type with the operations the
    task calls. Shown are that each answer is delivered with the intent of its own request, that
    published messages go out under subscribed topics and arrive as the commands of \<open>NodeRun\<close>,
    and what a redial tick dials, with its rate and fairness.
  \<^item> \<open>Config\<close>: \<open>config.rs\<close> and \<open>main.rs\<close> of the node, up to the actor of \<open>start_node\<close>.
  \<^item> \<open>Api\<close>: \<open>kcoin-node/src/api.rs\<close>, one function per handler over the snapshot and the store.
    \<open>ApiPages\<close> has the locale \<open>listing\<close> of what a paginated query promises, with its two
    interpretations; \<open>ApiProps\<close> is about submissions and listings.
  \<^item> \<open>Cli\<close>, \<open>CliProps\<close>: \<open>kcoin-cli/src/main.rs\<close>, its client of the API, wallet files and
    the commands on databases, which accept what every run of \<open>NodeRuns\<close> leaves behind.
    \<open>Benchmark\<close> and \<open>BenchmarkProps\<close>: the command \<open>benchmark\<close> as actions on a world that answers
    requests and has a clock, what it submits, and that it ends.
  \<^item> \<open>Wasm\<close>: \<open>kcoin-protocol/src/wasm.rs\<close> and the texts of validation errors.

  Parameters. BLAKE3, Ed25519, Bech32m, hex, Borsh and JSON are third-party crates: they are
  fields of the environment records (\<open>crypto_env\<close>, \<open>ledger_env\<close>, \<open>consensus_env\<close>), and what a
  property needs of them is a named hypothesis that its witness discharges on a concrete
  instance. The node's callbacks into the engine are the argument \<open>message_validator\<close>. The libp2p
  swarm, Base64, the file system, the HTTP transport and the clock of the client are parameters
  in the same way (\<open>network_env\<close>, \<open>api_env\<close>, \<open>process_env\<close>, \<open>wallet_env\<close>, \<open>http_client\<close>).

  Bounds. Integers keep their width (\<open>word\<close>) where the code uses fixed-width types; lengths
  and \<open>usize\<close> counters are natural numbers, assuming a 64-bit target. Every loop is
  structural recursion or has a termination proof, except the node's event loop and the
  client's polling, which are partial functions and proved to return (the latter while the
  clock advances); so no fuel is chosen, and the only bound is the simulator's own limit on
  its queue.

  Not modelled. The asynchronous runtime (a run is a sequence of commands with the times at which
  they are taken, and what is sent is a list of outputs); the construction of the libp2p swarm,
  HTTP routing, JSON text (of a repeated field the first one counts, where the deserializer rejects the
  body) and the event stream, which forwards events unchanged; receivers that lag behind the 1,024 events a
  broadcast channel keeps, and the closing of a channel; argument
  parsing, logging, signals and printing; floating point numbers, that is the progress of
  synchronization and the rates of the benchmark report; opening and migrating database
  files, disk failures and lock poisoning; memory exhaustion.
\<close>

end
